(* ===== verification/ZPrelude.thy ===== *)
theory ZPrelude
  imports Main "HOL-Library.Word" "HOL-Library.Monad_Syntax"
begin

text \<open>
  Shared vocabulary of the development: names for the C integer types, the collections of
  facts the component proofs share, enumeration of the 256 byte values, splitting a 32-bit
  word into bytes, and the error-propagating sequencing of C calls that return 0 or -1.
\<close>

unbundle bit_operations_syntax

type_synonym u8 = "8 word"
type_synonym u16 = "16 word"
type_synonym u32 = "32 word"
type_synonym u64 = "64 word"

section \<open>Collections\<close>

named_theorems zm_const \<open>defining equations of named protocol constants\<close>
named_theorems tx_defs \<open>definitions of the transmit primitives\<close>
named_theorems cfg_simps \<open>configuration fields that an operation leaves alone\<close>

section \<open>Enumerating small words\<close>

definition all_bytes :: "u8 list" where
  "all_bytes = map word_of_nat [0..<256]"

lemma set_all_bytes: "set all_bytes = (UNIV :: u8 set)"
proof -
  have "b \<in> set all_bytes" for b :: u8
  proof -
    have "unat b < 256" using unsigned_less [of b] by simp
    moreover have "b = word_of_nat (unat b)" by simp
    ultimately show ?thesis
      unfolding all_bytes_def by (metis atLeastLessThan_iff imageI list.set_map set_upt zero_le)
  qed
  then show ?thesis by blast
qed

lemma all_bytes_iff: "(\<forall>b::u8. P b) \<longleftrightarrow> list_all P all_bytes"
  by (metis UNIV_I list_all_iff set_all_bytes)

lemma byte_cases_256:
  assumes "list_all P all_bytes"
  shows "P (b :: u8)"
  using assms all_bytes_iff by blast

text \<open>Octets bit by bit: \<open>auto simp: u8_eq_iff bit_simps\<close> decides equations between masked octets.\<close>

lemma u8_eq_iff: "x = y \<longleftrightarrow> (bit x 0 \<longleftrightarrow> bit y 0) \<and> (bit x 1 \<longleftrightarrow> bit y 1) \<and> (bit x 2 \<longleftrightarrow> bit y 2) \<and>
  (bit x 3 \<longleftrightarrow> bit y 3) \<and> (bit x 4 \<longleftrightarrow> bit y 4) \<and> (bit x 5 \<longleftrightarrow> bit y 5) \<and> (bit x 6 \<longleftrightarrow> bit y 6) \<and>
  (bit x 7 \<longleftrightarrow> bit y 7)" for x y :: u8
proof -
  have "n < 8 \<longleftrightarrow> n = 0 \<or> n = 1 \<or> n = 2 \<or> n = 3 \<or> n = 4 \<or> n = 5 \<or> n = 6 \<or> n = (7 :: nat)" for n
    by arith
  note c = this
  show ?thesis (is "_ \<longleftrightarrow> ?b")
  proof
    assume b: ?b
    show "x = y"
    proof (rule bit_word_eqI)
      fix n assume "n < LENGTH(8)"
      then have "n < 8" by simp
      then show "bit x n = bit y n" unfolding c using b by (elim disjE) simp_all
    qed
  qed simp
qed

section \<open>Bytes of wider words\<close>

text \<open>The four bytes of a 32-bit word, low byte first, as the CRC is put on the wire.\<close>

definition le_bytes :: "u32 \<Rightarrow> u8 list" where
  "le_bytes w = [ucast w, ucast (drop_bit 8 w), ucast (drop_bit 16 w), ucast (drop_bit 24 w)]"

definition le_word :: "u8 \<Rightarrow> u8 \<Rightarrow> u8 \<Rightarrow> u8 \<Rightarrow> u32" where
  "le_word b0 b1 b2 b3 =
     ucast b0 OR push_bit 8 (ucast b1) OR push_bit 16 (ucast b2) OR push_bit 24 (ucast b3)"

lemma length_le_bytes [simp]: "length (le_bytes w) = 4"
  by (simp add: le_bytes_def)

lemma le_word_le_bytes:
  "le_word (ucast w) (ucast (drop_bit 8 w)) (ucast (drop_bit 16 w)) (ucast (drop_bit 24 w)) = w"
proof (rule bit_word_eqI)
  fix n assume "n < LENGTH(32)"
  then consider "n < 8" | "8 \<le> n" "n < 16" | "16 \<le> n" "n < 24" | "24 \<le> n" "n < 32" by force
  then show "bit (le_word (ucast w) (ucast (drop_bit 8 w)) (ucast (drop_bit 16 w))
                   (ucast (drop_bit 24 w))) n = bit w n"
    unfolding le_word_def by cases (auto simp: bit_simps)
qed

section \<open>Sequencing of calls that return 0 or -1\<close>

text \<open>
  \<^verbatim>\<open>if (a() != 0 || b() != 0) return -1; return 0;\<close> is \<open>tx_all [a, b]\<close>: the first failure
  ends the sequence with -1 and keeps the state reached. A loop that sends each element of
  an array is \<open>tx_each\<close>.
\<close>

fun tx_all :: "('s \<Rightarrow> int \<times> 's) list \<Rightarrow> 's \<Rightarrow> int \<times> 's" where
  "tx_all [] s = (0, s)"
| "tx_all (f # fs) s = (case f s of (r, s') \<Rightarrow> if r \<noteq> 0 then (- 1, s') else tx_all fs s')"

definition tx_each :: "('a \<Rightarrow> 's \<Rightarrow> int \<times> 's) \<Rightarrow> 'a list \<Rightarrow> 's \<Rightarrow> int \<times> 's" where
  "tx_each f xs = tx_all (map f xs)"

lemma tx_all_append:
  "tx_all (fs @ gs) s = (case tx_all fs s of (r, s') \<Rightarrow> if r \<noteq> 0 then (r, s') else tx_all gs s')"
  by (induction fs arbitrary: s) (auto split: prod.splits)

lemma tx_all_result: "tx_all fs s = (r, s') \<Longrightarrow> r = 0 \<or> r = - 1"
  by (induction fs arbitrary: s) (auto split: prod.splits if_splits)

section \<open>Calls that may be undefined\<close>

lemma bind_option_assoc: "Option.bind (Option.bind m f) g = Option.bind m (\<lambda>x. Option.bind (f x) g)"
  by (cases m) auto

lemma bind_cong_Some: "(\<And>x. m = Some x \<Longrightarrow> f x = g x) \<Longrightarrow> Option.bind m f = Option.bind m g"
  by (cases m) auto

end
