(* ===== verification/Zmodem.thy ===== *)
theory Zmodem
  imports ZPrelude
begin

text \<open>
  The constants of \<^verbatim>\<open>zmodem.h\<close> and the result codes and formats of \<^verbatim>\<open>zmdm.h\<close>, under their
  names in the source. Octets of the wire are \<open>u8\<close>; lengths and positions inside a header
  array are \<open>nat\<close>; C results are \<open>int\<close>. The profile modelled is the full one, with
  \<^verbatim>\<open>REDUCED_MEMORY\<close> unset, so \<open>ZMAXSPLEN\<close> is 8192.
\<close>

section \<open>ASCII constants\<close>

abbreviation (input) SOH :: u8 where "SOH \<equiv> 0x01"
abbreviation (input) STX :: u8 where "STX \<equiv> 0x02"
abbreviation (input) EOT :: u8 where "EOT \<equiv> 0x04"
abbreviation (input) ENQ :: u8 where "ENQ \<equiv> 0x05"
abbreviation (input) ACK :: u8 where "ACK \<equiv> 0x06"
abbreviation (input) SO :: u8 where "SO \<equiv> 0x0e"
abbreviation (input) LF :: u8 where "LF \<equiv> 0x0a"
abbreviation (input) CR :: u8 where "CR \<equiv> 0x0d"
abbreviation (input) XON :: u8 where "XON \<equiv> 0x11"
abbreviation (input) XOFF :: u8 where "XOFF \<equiv> 0x13"
abbreviation (input) NAK :: u8 where "NAK \<equiv> 0x15"
abbreviation (input) CAN :: u8 where "CAN \<equiv> 0x18"

section \<open>Sizes and framing octets\<close>

abbreviation (input) ZMAXHLEN :: nat where "ZMAXHLEN \<equiv> 0x10"
abbreviation (input) ZBLOCKLEN :: nat where "ZBLOCKLEN \<equiv> 0x0400"
abbreviation (input) ZMAXSPLEN :: nat where "ZMAXSPLEN \<equiv> 0x2000"
abbreviation (input) ZPAD :: u8 where "ZPAD \<equiv> 0x2a"
abbreviation (input) ZDLE :: u8 where "ZDLE \<equiv> 0x18"
abbreviation (input) ZDLEE :: u8 where "ZDLEE \<equiv> 0x58"
abbreviation (input) ZBIN :: u8 where "ZBIN \<equiv> 0x41"
abbreviation (input) ZHEX :: u8 where "ZHEX \<equiv> 0x42"
abbreviation (input) ZBIN32 :: u8 where "ZBIN32 \<equiv> 0x43"
abbreviation (input) ZBINR32 :: u8 where "ZBINR32 \<equiv> 0x44"
abbreviation (input) ZBINR32ESC8 :: u8 where "ZBINR32ESC8 \<equiv> 0x31"
abbreviation (input) ZBINP7 :: u8 where "ZBINP7 \<equiv> 0x32"
abbreviation (input) ZBINM32 :: u8 where "ZBINM32 \<equiv> 0x33"
abbreviation (input) ZVBIN :: u8 where "ZVBIN \<equiv> 0x61"
abbreviation (input) ZVHEX :: u8 where "ZVHEX \<equiv> 0x62"
abbreviation (input) ZVBIN32 :: u8 where "ZVBIN32 \<equiv> 0x63"
abbreviation (input) ZVBINR32 :: u8 where "ZVBINR32 \<equiv> 0x64"
abbreviation (input) ZRESC :: u8 where "ZRESC \<equiv> 0x7e"

section \<open>Frame types\<close>

abbreviation (input) ZRQINIT :: u8 where "ZRQINIT \<equiv> 0x00"
abbreviation (input) ZRINIT :: u8 where "ZRINIT \<equiv> 0x01"
abbreviation (input) ZSINIT :: u8 where "ZSINIT \<equiv> 0x02"
abbreviation (input) ZACK :: u8 where "ZACK \<equiv> 0x03"
abbreviation (input) ZFILE :: u8 where "ZFILE \<equiv> 0x04"
abbreviation (input) ZSKIP :: u8 where "ZSKIP \<equiv> 0x05"
abbreviation (input) ZNAK :: u8 where "ZNAK \<equiv> 0x06"
abbreviation (input) ZABORT :: u8 where "ZABORT \<equiv> 0x07"
abbreviation (input) ZFIN :: u8 where "ZFIN \<equiv> 0x08"
abbreviation (input) ZRPOS :: u8 where "ZRPOS \<equiv> 0x09"
abbreviation (input) ZDATA :: u8 where "ZDATA \<equiv> 0x0a"
abbreviation (input) ZEOF :: u8 where "ZEOF \<equiv> 0x0b"
abbreviation (input) ZFERR :: u8 where "ZFERR \<equiv> 0x0c"
abbreviation (input) ZCRC :: u8 where "ZCRC \<equiv> 0x0d"
abbreviation (input) ZCHALLENGE :: u8 where "ZCHALLENGE \<equiv> 0x0e"
abbreviation (input) ZCOMPL :: u8 where "ZCOMPL \<equiv> 0x0f"
abbreviation (input) ZCAN :: u8 where "ZCAN \<equiv> 0x10"
abbreviation (input) ZFREECNT :: u8 where "ZFREECNT \<equiv> 0x11"
abbreviation (input) ZCOMMAND :: u8 where "ZCOMMAND \<equiv> 0x12"
abbreviation (input) ZSTDERR :: u8 where "ZSTDERR \<equiv> 0x13"

section \<open>ZDLE sequences\<close>

abbreviation (input) ZCRCE :: u8 where "ZCRCE \<equiv> 0x68"
abbreviation (input) ZCRCG :: u8 where "ZCRCG \<equiv> 0x69"
abbreviation (input) ZCRCQ :: u8 where "ZCRCQ \<equiv> 0x6a"
abbreviation (input) ZCRCW :: u8 where "ZCRCW \<equiv> 0x6b"
abbreviation (input) ZRUB0 :: u8 where "ZRUB0 \<equiv> 0x6c"
abbreviation (input) ZRUB1 :: u8 where "ZRUB1 \<equiv> 0x6d"

section \<open>Positions in a header and flag bits\<close>

abbreviation (input) FTYPE :: nat where "FTYPE \<equiv> 0"
abbreviation (input) ZF0 :: nat where "ZF0 \<equiv> 4"
abbreviation (input) ZF1 :: nat where "ZF1 \<equiv> 3"
abbreviation (input) ZF2 :: nat where "ZF2 \<equiv> 2"
abbreviation (input) ZF3 :: nat where "ZF3 \<equiv> 1"
abbreviation (input) ZP0 :: nat where "ZP0 \<equiv> 1"
abbreviation (input) ZP1 :: nat where "ZP1 \<equiv> 2"
abbreviation (input) ZP2 :: nat where "ZP2 \<equiv> 3"
abbreviation (input) ZP3 :: nat where "ZP3 \<equiv> 4"
abbreviation (input) ZF0_CANFDX :: u8 where "ZF0_CANFDX \<equiv> 0x01"
abbreviation (input) ZF0_CANOVIO :: u8 where "ZF0_CANOVIO \<equiv> 0x02"
abbreviation (input) ZF0_CANBRK :: u8 where "ZF0_CANBRK \<equiv> 0x04"
abbreviation (input) ZF0_CANRLE :: u8 where "ZF0_CANRLE \<equiv> 0x08"
abbreviation (input) ZF0_CANLZW :: u8 where "ZF0_CANLZW \<equiv> 0x10"
abbreviation (input) ZF0_CANFC32 :: u8 where "ZF0_CANFC32 \<equiv> 0x20"
abbreviation (input) ZF0_ESCCTL :: u8 where "ZF0_ESCCTL \<equiv> 0x40"
abbreviation (input) ZF0_ESC8 :: u8 where "ZF0_ESC8 \<equiv> 0x80"
abbreviation (input) ZF1_CANVHDR :: u8 where "ZF1_CANVHDR \<equiv> 0x01"
abbreviation (input) ZF0_TESCCTL :: u8 where "ZF0_TESCCTL \<equiv> 0x40"
abbreviation (input) ZF0_TESC8 :: u8 where "ZF0_TESC8 \<equiv> 0x80"
abbreviation (input) ZATTNLEN :: nat where "ZATTNLEN \<equiv> 0x20"
abbreviation (input) ALTCOFF :: nat where "ALTCOFF \<equiv> ZF1"
abbreviation (input) ZF0_ZCBIN :: u8 where "ZF0_ZCBIN \<equiv> 1"
abbreviation (input) ZF0_ZCNL :: u8 where "ZF0_ZCNL \<equiv> 2"
abbreviation (input) ZF0_ZCRESUM :: u8 where "ZF0_ZCRESUM \<equiv> 3"
abbreviation (input) ZF1_ZMSKNOLOC :: u8 where "ZF1_ZMSKNOLOC \<equiv> 0x80"
abbreviation (input) ZF1_ZMMASK :: u8 where "ZF1_ZMMASK \<equiv> 0x1f"
abbreviation (input) ZF1_ZMNEWL :: u8 where "ZF1_ZMNEWL \<equiv> 1"
abbreviation (input) ZF1_ZMCRC :: u8 where "ZF1_ZMCRC \<equiv> 2"
abbreviation (input) ZF1_ZMAPND :: u8 where "ZF1_ZMAPND \<equiv> 3"
abbreviation (input) ZF1_ZMCLOB :: u8 where "ZF1_ZMCLOB \<equiv> 4"
abbreviation (input) ZF1_ZMNEW :: u8 where "ZF1_ZMNEW \<equiv> 5"
abbreviation (input) ZF1_ZMDIFF :: u8 where "ZF1_ZMDIFF \<equiv> 6"
abbreviation (input) ZF1_ZMPROT :: u8 where "ZF1_ZMPROT \<equiv> 7"
abbreviation (input) ZF1_ZMCHNG :: u8 where "ZF1_ZMCHNG \<equiv> 8"
abbreviation (input) ZF2_ZTNOR :: u8 where "ZF2_ZTNOR \<equiv> 0"
abbreviation (input) ZF2_ZTLZW :: u8 where "ZF2_ZTLZW \<equiv> 1"
abbreviation (input) ZF2_ZTRLE :: u8 where "ZF2_ZTRLE \<equiv> 3"
abbreviation (input) ZF3_ZCANVHDR :: u8 where "ZF3_ZCANVHDR \<equiv> 0x01"
abbreviation (input) ZF3_ZMOBY :: u8 where "ZF3_ZMOBY \<equiv> 0x04"
abbreviation (input) ZMODEM90_ZRPOS_FLAGS :: nat where "ZMODEM90_ZRPOS_FLAGS \<equiv> 7"
abbreviation (input) ZMODEM90_ZRPOS_HEADER_LEN :: nat where "ZMODEM90_ZRPOS_HEADER_LEN \<equiv> 8"
abbreviation (input) ZMODEM90_REQUEST_MOBYTURBO :: u8 where "ZMODEM90_REQUEST_MOBYTURBO \<equiv> 0x01"
abbreviation (input) ZMODEM90_REQUEST_PACK7 :: u8 where "ZMODEM90_REQUEST_PACK7 \<equiv> 0x02"
abbreviation (input) ZMODEM90_REQUEST_RLE :: u8 where "ZMODEM90_REQUEST_RLE \<equiv> 0x04"
abbreviation (input) ZF3_ZRWOVR :: u8 where "ZF3_ZRWOVR \<equiv> 0x04"
abbreviation (input) ZF3_ZXSPARS :: u8 where "ZF3_ZXSPARS \<equiv> 0x40"
abbreviation (input) ZF0_ZCACK1 :: u8 where "ZF0_ZCACK1 \<equiv> 0x01"

section \<open>Results and sizes of zmdm.h\<close>

abbreviation (input) ZMODEM_INVALID_ARGUMENT :: int where "ZMODEM_INVALID_ARGUMENT \<equiv> - 6"
abbreviation (input) ZMODEM_IO_ERROR :: int where "ZMODEM_IO_ERROR \<equiv> - 5"
abbreviation (input) ZMODEM_CANCELLED :: int where "ZMODEM_CANCELLED \<equiv> - 4"
abbreviation (input) ZMODEM_INVALID_DATA :: int where "ZMODEM_INVALID_DATA \<equiv> - 3"
abbreviation (input) ZMODEM_INVALID_HEADER :: int where "ZMODEM_INVALID_HEADER \<equiv> - 2"
abbreviation (input) ZMODEM_TIMEOUT :: int where "ZMODEM_TIMEOUT \<equiv> - 1"
abbreviation (input) ZMODEM_OK :: int where "ZMODEM_OK \<equiv> 0"
abbreviation (input) ZMODEM_FRAME_OK :: int where "ZMODEM_FRAME_OK \<equiv> 1"
abbreviation (input) ZMODEM_END_OF_FRAME :: int where "ZMODEM_END_OF_FRAME \<equiv> 2"

datatype zmodem_escape8_format =
    ZMODEM_ESCAPE8_NONE
  | ZMODEM_ESCAPE8_LEGACY
  | ZMODEM_ESCAPE8_OMEN

datatype zmodem_encoded_data_format =
    ZMODEM_ENCODED_DATA_NONE
  | ZMODEM_ENCODED_DATA_RLE
  | ZMODEM_ENCODED_DATA_PACK7

abbreviation (input) HDRLEN :: nat where "HDRLEN \<equiv> 5"
abbreviation (input) ZMODEM_INPUT_CAPACITY :: nat where "ZMODEM_INPUT_CAPACITY \<equiv> 2 * ZMAXSPLEN"
abbreviation (input) ZMODEM_TX_DATA_WIRE_CAPACITY :: nat
  where "ZMODEM_TX_DATA_WIRE_CAPACITY \<equiv> 2 * ZMAXSPLEN + 11"
abbreviation (input) ZMODEM_TX_BINARY_HEADER_WIRE_CAPACITY :: nat
  where "ZMODEM_TX_BINARY_HEADER_WIRE_CAPACITY \<equiv> 24"
abbreviation (input) ZMODEM_TX_BURST_CAPACITY :: nat
  where "ZMODEM_TX_BURST_CAPACITY \<equiv> ZMODEM_TX_BINARY_HEADER_WIRE_CAPACITY + ZMODEM_TX_DATA_WIRE_CAPACITY"

end
