(* ===== verification/Zmdm.thy ===== *)
theory Zmdm
  imports Zmodem
begin

text \<open>
  The protocol state \<^verbatim>\<open>struct zmodem\<close> and its transport \<^verbatim>\<open>struct zmodem_io\<close>
  (\<^verbatim>\<open>zmdm.h\<close>), with the operations of \<^verbatim>\<open>zmdm.c\<close> that touch neither the encoder nor the
  decoder: initialisation, result descriptions, positions in a header, purge and poll.

  The transport's \<^verbatim>\<open>void *\<close> context is the type parameter \<open>'c\<close>; a callback takes the context
  and returns the new one, since it may change what the pointer designates. \<open>io_read\<close> gets
  the capacity and the timeout and returns the result, the bytes it stored from the start of
  the caller's buffer, and the count it reported. A C function with the state pointer as its
  first argument takes the state as its last one here, so that calls compose.
\<close>

section \<open>State\<close>

record 'c zmodem_io =
  io_context :: 'c
  io_read :: "'c \<Rightarrow> nat \<Rightarrow> int \<Rightarrow> int \<times> u8 list \<times> nat \<times> 'c"
  io_write :: "'c \<Rightarrow> u8 list \<Rightarrow> int \<times> 'c"
  io_flush :: "'c \<Rightarrow> int \<times> 'c"
  io_poll :: "'c \<Rightarrow> int \<times> 'c"
  io_purge :: "'c \<Rightarrow> int \<times> 'c"

text \<open>
  \<open>tx_classes\<close> is an array of 256 octets that is only ever indexed by an octet, hence a
  function on octets. The other arrays are lists of their declared length.
\<close>

record 'c zmodem =
  io :: "'c zmodem_io"
  rxd_header :: "u8 list"
  rxd_header_len :: nat
  can_full_duplex :: bool
  can_overlap_io :: bool
  can_break :: bool
  can_fcs_32 :: bool
  can_rle :: bool
  escape_all_control_characters :: bool
  escape_8th_bit :: bool
  escape_iac :: bool
  receive_escape8_format :: zmodem_escape8_format
  peer_can_variable_headers :: bool
  management_newer :: bool
  management_clobber :: bool
  management_protect :: bool
  receive_32_bit_data :: bool
  receive_encoded_data :: zmodem_encoded_data_format
  use_pack7 :: bool
  use_mobyturbo :: bool
  receive_mobyturbo :: bool
  mobyturbo_probe_passed :: bool
  want_fcs_32 :: bool
  input_buffer :: "u8 list"
  input_count :: nat
  input_index :: nat
  cancel_count :: u32
  last_sent :: int
  tx_classes :: "u8 \<Rightarrow> u8"
  tx_classes_initialized :: bool
  tx_data_wire :: "u8 list"
  receive_escaped_control_characters :: bool

definition set_context :: "'c \<Rightarrow> 'c zmodem \<Rightarrow> 'c zmodem" where
  "set_context c z = z\<lparr>io := (io z)\<lparr>io_context := c\<rparr>\<rparr>"

section \<open>Initialisation\<close>

text \<open>\<open>zmodem_init\<close> refuses null pointers; a pointer that may be null is an \<open>option\<close>.\<close>

record 'c zmodem_io_pointers =
  p_context :: 'c
  p_read :: "('c \<Rightarrow> nat \<Rightarrow> int \<Rightarrow> int \<times> u8 list \<times> nat \<times> 'c) option"
  p_write :: "('c \<Rightarrow> u8 list \<Rightarrow> int \<times> 'c) option"
  p_flush :: "('c \<Rightarrow> int \<times> 'c) option"
  p_poll :: "('c \<Rightarrow> int \<times> 'c) option"
  p_purge :: "('c \<Rightarrow> int \<times> 'c) option"

definition zmodem_cleared :: "'c zmodem_io \<Rightarrow> 'c zmodem" where
  "zmodem_cleared i = \<lparr>
     io = i, rxd_header = replicate (ZMAXHLEN + 1) 0, rxd_header_len = 0,
     can_full_duplex = False, can_overlap_io = False, can_break = False, can_fcs_32 = False,
     can_rle = False, escape_all_control_characters = False, escape_8th_bit = False,
     escape_iac = False, receive_escape8_format = ZMODEM_ESCAPE8_NONE,
     peer_can_variable_headers = False, management_newer = False, management_clobber = False,
     management_protect = False, receive_32_bit_data = False,
     receive_encoded_data = ZMODEM_ENCODED_DATA_NONE, use_pack7 = False, use_mobyturbo = False,
     receive_mobyturbo = False, mobyturbo_probe_passed = False, want_fcs_32 = False,
     input_buffer = replicate ZMODEM_INPUT_CAPACITY 0, input_count = 0, input_index = 0,
     cancel_count = 0, last_sent = 0, tx_classes = (\<lambda>_. 0), tx_classes_initialized = False,
     tx_data_wire = replicate ZMODEM_TX_DATA_WIRE_CAPACITY 0,
     receive_escaped_control_characters = False\<rparr>"

definition zmodem_init ::
  "'c zmodem option \<Rightarrow> 'c zmodem_io_pointers option \<Rightarrow> int \<times> 'c zmodem option" where
  "zmodem_init zmodem i =
     (case (zmodem, i) of
        (Some _, Some p) \<Rightarrow>
          (case (p_read p, p_write p, p_flush p, p_poll p, p_purge p) of
             (Some rd, Some wr, Some fl, Some po, Some pu) \<Rightarrow>
               (ZMODEM_OK,
                Some ((zmodem_cleared \<lparr>io_context = p_context p, io_read = rd, io_write = wr,
                         io_flush = fl, io_poll = po, io_purge = pu\<rparr>)
                      \<lparr>want_fcs_32 := True, last_sent := - 1\<rparr>))
           | _ \<Rightarrow> (ZMODEM_INVALID_ARGUMENT, zmodem))
      | _ \<Rightarrow> (ZMODEM_INVALID_ARGUMENT, zmodem))"

section \<open>Descriptions, purge and poll\<close>

definition zmodem_result_description :: "int \<Rightarrow> string" where
  "zmodem_result_description result =
     (if result = ZMODEM_INVALID_ARGUMENT then ''invalid protocol argument''
      else if result = ZMODEM_IO_ERROR then ''transport I/O error''
      else if result = ZMODEM_CANCELLED then ''transfer cancelled''
      else if result = ZMODEM_INVALID_DATA then ''invalid protocol data''
      else if result = ZMODEM_INVALID_HEADER then ''invalid protocol header''
      else if result = ZMODEM_TIMEOUT then ''protocol timeout''
      else if result = uint ZABORT then ''remote abort''
      else if result = uint ZNAK then ''negative acknowledgement''
      else if result = uint ZFERR then ''remote file error''
      else if result = uint ZCAN then ''remote cancellation''
      else ''unexpected protocol response'')"

definition rx_purge :: "'c zmodem \<Rightarrow> int \<times> 'c zmodem" where
  "rx_purge z =
     (let z1 = z\<lparr>input_count := 0, input_index := 0\<rparr>;
          (r, c) = io_purge (io z1) (io_context (io z1))
      in (r, set_context c z1))"

definition rx_poll :: "'c zmodem \<Rightarrow> int \<times> 'c zmodem" where
  "rx_poll z =
     (if 0 < input_count z then (1, z)
      else let (r, c) = io_poll (io z) (io_context (io z)) in (r, set_context c z))"

section \<open>Positions in a header\<close>

definition zmodem_header_position :: "u8 list \<Rightarrow> u32" where
  "zmodem_header_position header =
     ucast (header ! ZP0) OR push_bit 8 (ucast (header ! ZP1)) OR
     push_bit 16 (ucast (header ! ZP2)) OR push_bit 24 (ucast (header ! ZP3))"

definition zmodem_set_header_position :: "u8 list \<Rightarrow> u32 \<Rightarrow> u8 list" where
  "zmodem_set_header_position header position =
     header[ZP0 := ucast position, ZP1 := ucast (drop_bit 8 position),
            ZP2 := ucast (drop_bit 16 position), ZP3 := ucast (drop_bit 24 position)]"

lemma length_set_header_position [simp]:
  "length (zmodem_set_header_position h p) = length h"
  by (simp add: zmodem_set_header_position_def)

lemma header_position_set:
  "5 \<le> length h \<Longrightarrow> zmodem_header_position (zmodem_set_header_position h p) = p"
  using le_word_le_bytes [of p]
  by (simp add: zmodem_header_position_def zmodem_set_header_position_def le_word_def)

end
