(* ===== verification/Posix.thy ===== *)
theory Posix
  imports Zmdm
begin

text \<open>
  The POSIX transport adapter (\<^verbatim>\<open>src/posix/zmodem_plat.c\<close>). The calls into the system are a
  record of functions on a kernel state, a parameter of every operation; \<^verbatim>\<open>errno\<close> comes back with
  a result. The adapter's loops retry a call interrupted by a signal and need not end, so they
  are partial: \<open>None\<close> is a loop that never ends, or a copy outside the output buffer.

  Times are unbounded integers. \<^verbatim>\<open>printf\<close> to the terminal is left out.
\<close>

section \<open>System calls\<close>

type_synonym timespec = "int \<times> int"
type_synonym timeval = "int \<times> int"

text \<open>What \<^verbatim>\<open>errno\<close> is compared with.\<close>

datatype errno = EINTR | EBADF | ENOENT | EOTHER

record termios =
  c_iflag :: u32
  c_oflag :: u32
  c_cflag :: u32
  c_lflag :: u32
  c_vmin :: u8
  c_vtime :: u8

text \<open>
  The masks \<^verbatim>\<open>CSIZE\<close>, \<^verbatim>\<open>PARENB\<close>, \<^verbatim>\<open>CS8\<close> and the bound \<^verbatim>\<open>FD_SETSIZE\<close> are the system's. \<open>k_select\<close> waits
  for one descriptor to be readable; \<open>k_read\<close> returns the octets it stored; \<open>k_isatty\<close> and
  the others return the C result.
\<close>

record 'k kernel =
  k_fd_setsize :: int
  k_csize :: u32
  k_parenb :: u32
  k_cs8 :: u32
  k_clock :: "'k \<Rightarrow> int \<times> timespec \<times> 'k"
  k_select :: "int \<Rightarrow> timeval \<Rightarrow> 'k \<Rightarrow> int \<times> errno \<times> 'k"
  k_read :: "int \<Rightarrow> nat \<Rightarrow> 'k \<Rightarrow> int \<times> errno \<times> u8 list \<times> 'k"
  k_write :: "int \<Rightarrow> u8 list \<Rightarrow> 'k \<Rightarrow> int \<times> errno \<times> 'k"
  k_open :: "string \<Rightarrow> 'k \<Rightarrow> int \<times> 'k"
  k_close :: "int \<Rightarrow> 'k \<Rightarrow> int \<times> 'k"
  k_isatty :: "int \<Rightarrow> 'k \<Rightarrow> int \<times> errno \<times> 'k"
  k_tcgetattr :: "int \<Rightarrow> 'k \<Rightarrow> int \<times> termios \<times> 'k"
  k_tcsetattr :: "int \<Rightarrow> termios \<Rightarrow> 'k \<Rightarrow> int \<times> 'k"
  k_sigemptyset :: "'k \<Rightarrow> int \<times> 'k"
  k_sigaction_ignore :: "'k \<Rightarrow> int \<times> 'k"

section \<open>The adapter's state\<close>

record plat_io =
  input_fd :: int
  output_fd :: int
  owned_fd :: int
  line :: "string option"
  termios_saved :: bool
  saved_termios :: termios
  output_buffer :: "u8 list"
  output_count :: nat

definition zmodem_plat_io_init :: "plat_io \<Rightarrow> int \<Rightarrow> int \<Rightarrow> plat_io" where
  "zmodem_plat_io_init p infd outfd =
     p\<lparr>input_fd := infd, output_fd := outfd, owned_fd := - 1, line := None,
       termios_saved := False, output_count := 0\<rparr>"

section \<open>Deadlines\<close>

text \<open>Called with a positive timeout only, where C's division is \<open>div\<close>.\<close>

definition set_input_deadline :: "'k kernel \<Rightarrow> int \<Rightarrow> 'k \<Rightarrow> int \<times> timespec \<times> 'k" where
  "set_input_deadline ops timeout_ms k =
     (let (r, (sec, nsec), k) = k_clock ops k
      in if r \<noteq> 0 then (- 1, (sec, nsec), k)
         else let sec = sec + timeout_ms div 1000;
                  nsec = nsec + timeout_ms mod 1000 * 1000000
              in if 1000000000 \<le> nsec then (0, (sec + 1, nsec - 1000000000), k)
                 else (0, (sec, nsec), k))"

definition time_left :: "timespec \<Rightarrow> timespec \<Rightarrow> int \<times> timeval" where
  "time_left deadline now =
     (if fst deadline < fst now \<or> (fst now = fst deadline \<and> snd deadline \<le> snd now) then (0, (0, 0))
      else let (seconds, nanoseconds) =
                 (if snd deadline < snd now
                  then (fst deadline - fst now - 1, snd deadline + 1000000000 - snd now)
                  else (fst deadline - fst now, snd deadline - snd now));
               usec = (nanoseconds + 999) div 1000
           in if 1000000 \<le> usec then (1, (seconds + 1, usec - 1000000)) else (1, (seconds, usec)))"

definition input_time_remaining :: "'k kernel \<Rightarrow> timespec \<Rightarrow> 'k \<Rightarrow> int \<times> timeval \<times> 'k" where
  "input_time_remaining ops deadline k =
     (let (r, now, k) = k_clock ops k
      in if r \<noteq> 0 then (- 1, (0, 0), k)
         else let (result, timeout) = time_left deadline now in (result, timeout, k))"

section \<open>Input\<close>

text \<open>The loop of \<open>wait_for_input\<close>; the deadline is \<open>None\<close> when the wait is not timed.\<close>

partial_function (option) wait_loop ::
  "'k kernel \<Rightarrow> int \<Rightarrow> timespec option \<Rightarrow> 'k \<Rightarrow> (int \<times> 'k) option" where
  "wait_loop ops fd deadline k =
     (let (r, timeout, k) = (case deadline of Some d \<Rightarrow> input_time_remaining ops d k
                             | None \<Rightarrow> (1, (0, 0), k))
      in if r \<le> 0 then Some (r, k)
         else let (result, e, k) = k_select ops fd timeout k
              in if 0 \<le> result then Some (result, k)
                 else if e \<noteq> EINTR then Some (result, k)
                 else wait_loop ops fd deadline k)"

definition wait_for_input :: "'k kernel \<Rightarrow> int \<Rightarrow> int \<Rightarrow> 'k \<Rightarrow> (int \<times> 'k) option" where
  "wait_for_input ops fd timeout_ms k =
     (if fd < 0 \<or> k_fd_setsize ops \<le> fd then Some (ZMODEM_IO_ERROR, k)
      else if 0 < timeout_ms then
        (let (r, deadline, k) = set_input_deadline ops timeout_ms k
         in if r \<noteq> 0 then Some (ZMODEM_IO_ERROR, k) else wait_loop ops fd (Some deadline) k)
      else wait_loop ops fd None k)"

partial_function (option) read_loop ::
  "'k kernel \<Rightarrow> int \<Rightarrow> nat \<Rightarrow> 'k \<Rightarrow> (int \<times> u8 list \<times> 'k) option" where
  "read_loop ops fd capacity k =
     (let (result, e, octets, k) = k_read ops fd capacity k
      in if 0 \<le> result then Some (result, octets, k)
         else if e \<noteq> EINTR then Some (result, octets, k)
         else read_loop ops fd capacity k)"

text \<open>The context of the callbacks: the adapter's state and the kernel.\<close>

type_synonym 'k posix = "plat_io \<times> 'k"

definition posix_read :: "'k kernel \<Rightarrow> nat \<Rightarrow> int \<Rightarrow> 'k posix \<Rightarrow> (int \<times> u8 list \<times> nat \<times> 'k posix) option" where
  "posix_read ops capacity timeout_ms c =
     (let (p, k) = c in
      do { (ready, k) \<leftarrow> wait_for_input ops (input_fd p) timeout_ms k;
           if ready = 0 then Some (ZMODEM_TIMEOUT, [], 0, (p, k))
           else if ready < 0 then Some (ZMODEM_IO_ERROR, [], 0, (p, k))
           else do {
             (result, octets, k) \<leftarrow> read_loop ops (input_fd p) capacity k;
             Some (if result \<le> 0
                   then (if result = 0 then ZMODEM_TIMEOUT else ZMODEM_IO_ERROR, octets, 0, (p, k))
                   else (ZMODEM_OK, octets, nat result, (p, k))) } })"

definition posix_poll :: "'k kernel \<Rightarrow> 'k posix \<Rightarrow> (int \<times> 'k posix) option" where
  "posix_poll ops c =
     (let (p, k) = c in
      do { (result, k) \<leftarrow> wait_for_input ops (input_fd p) 0 k;
           Some (if result < 0 then ZMODEM_IO_ERROR else result, (p, k)) })"

partial_function (option) posix_purge :: "'k kernel \<Rightarrow> 'k posix \<Rightarrow> (int \<times> 'k posix) option" where
  "posix_purge ops c =
     (let (p, k) = c in
      do { (ready, k) \<leftarrow> wait_for_input ops (input_fd p) 0 k;
           if ready = 0 then Some (ZMODEM_OK, (p, k))
           else if ready < 0 then Some (ZMODEM_IO_ERROR, (p, k))
           else do {
             (result, octets, k) \<leftarrow> read_loop ops (input_fd p) 1 k;
             if result = 0 then Some (ZMODEM_OK, (p, k))
             else if result < 0 then Some (ZMODEM_IO_ERROR, (p, k))
             else posix_purge ops (p, k) } })"

section \<open>Output\<close>

partial_function (option) write_loop :: "'k kernel \<Rightarrow> int \<Rightarrow> u8 list \<Rightarrow> 'k \<Rightarrow> (int \<times> 'k) option" where
  "write_loop ops fd octets k =
     (let (result, e, k) = k_write ops fd octets k
      in if 0 \<le> result then Some (result, k)
         else if e \<noteq> EINTR then Some (result, k)
         else write_loop ops fd octets k)"

text \<open>\<^verbatim>\<open>memmove\<close> of the octets from \<open>offset\<close> to the start of the buffer.\<close>

definition keep_unsent :: "nat \<Rightarrow> plat_io \<Rightarrow> plat_io" where
  "keep_unsent offset p =
     (if 0 < offset then
        let n = output_count p - offset;
            unsent = take n (drop offset (output_buffer p))
        in p\<lparr>output_count := n, output_buffer := unsent @ drop n (output_buffer p)\<rparr>
      else p)"

partial_function (option) flush_loop ::
  "'k kernel \<Rightarrow> nat \<Rightarrow> 'k posix \<Rightarrow> (int \<times> 'k posix) option" where
  "flush_loop ops offset c =
     (let (p, k) = c in
      if offset < output_count p then
        do { (result, k) \<leftarrow>
               write_loop ops (output_fd p) (take (output_count p - offset) (drop offset (output_buffer p))) k;
             if result \<le> 0 then Some (ZMODEM_IO_ERROR, (keep_unsent offset p, k))
             else flush_loop ops (offset + nat result) (p, k) }
      else Some (ZMODEM_OK, (p\<lparr>output_count := 0\<rparr>, k)))"

definition posix_flush :: "'k kernel \<Rightarrow> 'k posix \<Rightarrow> (int \<times> 'k posix) option" where
  "posix_flush ops c = flush_loop ops 0 c"

partial_function (option) posix_write :: "'k kernel \<Rightarrow> u8 list \<Rightarrow> 'k posix \<Rightarrow> (int \<times> 'k posix) option" where
  "posix_write ops octets c =
     (let (p, k) = c in
      if octets = [] then Some (ZMODEM_OK, c)
      else if length (output_buffer p) < output_count p then None
      else do {
        let available = length (output_buffer p) - output_count p;
        let copied = (if length octets < available then length octets else available);
        let p = p\<lparr>output_buffer := take (output_count p) (output_buffer p) @ take copied octets @
                    drop (output_count p + copied) (output_buffer p),
                  output_count := output_count p + copied\<rparr>;
        let octets = drop copied octets;
        if output_count p = length (output_buffer p) then
          do { (r, c) \<leftarrow> posix_flush ops (p, k);
               if r \<noteq> ZMODEM_OK then Some (ZMODEM_IO_ERROR, c) else posix_write ops octets c }
        else posix_write ops octets (p, k) })"

section \<open>Terminal and descriptors\<close>

definition zmodem_plat_ignore_sigpipe :: "'k kernel \<Rightarrow> 'k \<Rightarrow> int \<times> 'k" where
  "zmodem_plat_ignore_sigpipe ops k =
     (let (r, k) = k_sigemptyset ops k
      in if r \<noteq> 0 then (- 1, k) else k_sigaction_ignore ops k)"

definition zmodem_plat_io_open :: "'k kernel \<Rightarrow> string \<Rightarrow> 'k posix \<Rightarrow> int \<times> 'k posix" where
  "zmodem_plat_io_open ops path c =
     (let (p, k) = c; (fd, k) = k_open ops path k
      in if fd < 0 then (- 1, (p, k))
         else (0, (p\<lparr>input_fd := fd, output_fd := fd, owned_fd := fd\<rparr>, k)))"

definition zmodem_plat_io_make_raw :: "'k kernel \<Rightarrow> 'k posix \<Rightarrow> int \<times> 'k posix" where
  "zmodem_plat_io_make_raw ops c =
     (let (p, k) = c; (tty, e, k) = k_isatty ops (input_fd p) k
      in if tty = 0 then (if e = EBADF then - 1 else 0, (p, k))
         else let (r, attributes, k) = k_tcgetattr ops (input_fd p) k
              in if r \<noteq> 0 then (- 1, (p, k))
                 else let p = p\<lparr>saved_termios := attributes, termios_saved := True\<rparr>;
                          raw = attributes\<lparr>c_iflag := 0, c_oflag := 0, c_lflag := 0,
                            c_cflag := (c_cflag attributes AND NOT (k_csize ops OR k_parenb ops)) OR k_cs8 ops,
                            c_vmin := 1, c_vtime := 0\<rparr>;
                          (r, k) = k_tcsetattr ops (input_fd p) raw k
                      in (if r \<noteq> 0 then - 1 else 0, (p, k)))"

definition zmodem_plat_io_restore :: "'k kernel \<Rightarrow> 'k posix \<Rightarrow> int \<times> 'k posix" where
  "zmodem_plat_io_restore ops c =
     (let (p, k) = c
      in if termios_saved p then
           (let (r, k) = k_tcsetattr ops (input_fd p) (saved_termios p) k
            in if r \<noteq> 0 then (- 1, (p, k)) else (0, (p\<lparr>termios_saved := False\<rparr>, k)))
         else (0, (p, k)))"

definition zmodem_plat_io_close :: "'k kernel \<Rightarrow> 'k posix \<Rightarrow> (int \<times> 'k posix) option" where
  "zmodem_plat_io_close ops c =
     do { (flushed, c) \<leftarrow> posix_flush ops c;
          let result = (if flushed \<noteq> ZMODEM_OK then - 1 else 0);
          let (restored, c) = zmodem_plat_io_restore ops c;
          let result = (if restored \<noteq> 0 then - 1 else result);
          let (p, k) = c;
          Some (if 0 \<le> owned_fd p then
                  (let (r, k) = k_close ops (owned_fd p) k
                   in (if r \<noteq> 0 then - 1 else result, (p\<lparr>owned_fd := - 1\<rparr>, k)))
                else (result, (p, k))) }"

text \<open>A callback that never returns has no value: \<open>the None\<close>.\<close>

definition zmodem_plat_io_bind :: "'k kernel \<Rightarrow> 'k posix \<Rightarrow> 'k posix zmodem_io" where
  "zmodem_plat_io_bind ops c =
     \<lparr>io_context = c, io_read = (\<lambda>c capacity t. the (posix_read ops capacity t c)),
      io_write = (\<lambda>c octets. the (posix_write ops octets c)),
      io_flush = (\<lambda>c. the (posix_flush ops c)), io_poll = (\<lambda>c. the (posix_poll ops c)),
      io_purge = (\<lambda>c. the (posix_purge ops c))\<rparr>"

section \<open>Options\<close>

datatype zmodem_plat_option_result =
    ZMODEM_PLAT_OPTION_INVALID
  | ZMODEM_PLAT_OPTION_NOT_HANDLED
  | ZMODEM_PLAT_OPTION_ACCEPTED

text \<open>The result, the adapter and the new index. The index is inside the argument.\<close>

definition zmodem_plat_parse_option ::
  "plat_io \<Rightarrow> string \<Rightarrow> nat \<Rightarrow> zmodem_plat_option_result \<times> plat_io \<times> nat" where
  "zmodem_plat_parse_option p argument option_index =
     (if argument ! option_index \<noteq> CHR ''L'' \<and> argument ! option_index \<noteq> CHR ''l''
      then (ZMODEM_PLAT_OPTION_NOT_HANDLED, p, option_index)
      else (ZMODEM_PLAT_OPTION_ACCEPTED, p\<lparr>line := Some (drop (option_index + 1) argument)\<rparr>,
            length argument - 1))"

definition zmodem_plat_post_parse :: "'k kernel \<Rightarrow> 'k posix \<Rightarrow> int \<times> 'k posix" where
  "zmodem_plat_post_parse ops c =
     (let (p, k) = c; (r, k) = zmodem_plat_ignore_sigpipe ops k
      in if r \<noteq> 0 then (2, (p, k))
         else let (r, c) = (case line p of Some l \<Rightarrow> zmodem_plat_io_open ops l (p, k) | None \<Rightarrow> (0, (p, k)))
              in if r \<noteq> 0 then (2, c)
                 else let (r, c) = zmodem_plat_io_make_raw ops c
                      in if r \<noteq> 0 then (2, c) else (0, c))"

end
