(* ===== verification/Zmdm_Tx.thy ===== *)
theory Zmdm_Tx
  imports Zmdm Crctab
begin

text \<open>
  Transmission of single octets and of headers (\<^verbatim>\<open>zmdm.c\<close>, \<open>tx_raw\<close> to
  \<open>tx_mobyturbo_probe\<close> and \<open>tx_pos_header\<close>). A C function that returns 0 or -1 and updates the
  protocol state is a function \<open>'c zmodem \<Rightarrow> int \<times> 'c zmodem\<close>; \<open>tx_all\<close> and \<open>tx_each\<close> are the
  early returns on failure. The bits of an escape class fit in an octet, so C's
  \<^verbatim>\<open>unsigned\<close> class sets are \<open>u8\<close>.
\<close>

section \<open>Raw and escaped octets\<close>

abbreviation (input) TX_NORMAL :: u8 where "TX_NORMAL \<equiv> 0"
abbreviation (input) TX_ESCAPE_ALWAYS :: u8 where "TX_ESCAPE_ALWAYS \<equiv> 1"
abbreviation (input) TX_ESCAPE_CONTROL :: u8 where "TX_ESCAPE_CONTROL \<equiv> 2"
abbreviation (input) TX_ESCAPE_CR :: u8 where "TX_ESCAPE_CR \<equiv> 4"
abbreviation (input) TX_ESCAPE_8TH :: u8 where "TX_ESCAPE_8TH \<equiv> 8"
abbreviation (input) TX_ESCAPE_IAC :: u8 where "TX_ESCAPE_IAC \<equiv> 16"

definition tx_raw :: "int \<Rightarrow> 'c zmodem \<Rightarrow> int \<times> 'c zmodem" where
  "tx_raw c z =
     (let byte = word_of_int c;
          (r, ctx) = io_write (io z) (io_context (io z)) [byte];
          z1 = set_context ctx z
      in if r \<noteq> ZMODEM_OK then (- 1, z1) else (0, z1\<lparr>last_sent := c AND 0x7f\<rparr>))"

definition tx_esc :: "int \<Rightarrow> 'c zmodem \<Rightarrow> int \<times> 'c zmodem" where
  "tx_esc c = tx_all [tx_raw (uint ZDLE), tx_raw (c XOR 0x40)]"

text \<open>The switch of \<open>omen_encode_byte\<close>: the private ZDLE code of an octet, 0 for none.\<close>

definition omen_code :: "bool \<Rightarrow> u8 \<Rightarrow> u8" where
  "omen_code escape_all c =
     (if c = SO then 0x6e else if c = 0x10 then 0x50 else if c = XON then 0x51
      else if c = XOFF then 0x53 else if c = ZDLE then ZDLEE else if c = 0x80 then 0x73
      else if c = 0x8e then 0x6f else if c = 0x90 then 0x70 else if c = 0x91 then 0x71
      else if c = 0x93 then 0x72 else if c = 0x98 then 0x74 else if c = 0xff then ZRUB1
      else if c = 0x7f then (if escape_all then ZRUB0 else 0) else 0)"

text \<open>The octets stored in \<open>output\<close>; their number is the C result.\<close>

definition omen_encode_byte :: "'c zmodem \<Rightarrow> u8 \<Rightarrow> u8 list" where
  "omen_encode_byte z c =
     (let low = c AND 0x7f; code = omen_code (escape_all_control_characters z) c
      in if code \<noteq> 0 then [ZDLE, code]
         else if c AND 0x80 \<noteq> 0 then
           (if escape_all_control_characters z \<and> low < 0x20 then [SO, ZDLE, low XOR 0x40]
            else [SO, low])
         else if escape_all_control_characters z \<and> low < 0x20 then [ZDLE, low XOR 0x40]
         else [low])"

definition tx_omen_byte :: "u8 \<Rightarrow> 'c zmodem \<Rightarrow> int \<times> 'c zmodem" where
  "tx_omen_byte c z = tx_each (\<lambda>b. tx_raw (uint b)) (omen_encode_byte z c) z"

text \<open>The action \<open>initialize_tx_classes\<close> stores for octet \<open>c\<close>.\<close>

definition tx_class_action :: "u8 \<Rightarrow> u8" where
  "tx_class_action c =
     (let action =
        (if c = ZDLE \<or> c = 0x10 \<or> c = 0x90 \<or> c = XON \<or> c = 0x91 \<or> c = XOFF \<or> c = 0x93
         then TX_ESCAPE_ALWAYS
         else if c = CR \<or> c = 0x8d then TX_ESCAPE_CONTROL OR TX_ESCAPE_CR
         else if c AND 0x60 = 0 then TX_ESCAPE_CONTROL
         else TX_NORMAL);
          action = (if c AND 0x80 \<noteq> 0 then action OR TX_ESCAPE_8TH else action)
      in if c = 0xff then action OR TX_ESCAPE_IAC else action)"

definition initialize_tx_classes :: "'c zmodem \<Rightarrow> 'c zmodem" where
  "initialize_tx_classes z = z\<lparr>tx_classes := tx_class_action, tx_classes_initialized := True\<rparr>"

definition active_tx_classes :: "'c zmodem \<Rightarrow> u8 \<times> 'c zmodem" where
  "active_tx_classes z =
     (let z1 = (if tx_classes_initialized z then z else initialize_tx_classes z)
      in (TX_ESCAPE_ALWAYS OR
          (if escape_all_control_characters z1 then TX_ESCAPE_CONTROL else 0) OR
          (if escape_8th_bit z1 then TX_ESCAPE_8TH else 0) OR
          (if escape_iac z1 then TX_ESCAPE_IAC else 0), z1))"

definition tx_byte_needs_escape :: "'c zmodem \<Rightarrow> u8 \<Rightarrow> int \<Rightarrow> u8 \<Rightarrow> bool" where
  "tx_byte_needs_escape z c previous active =
     (let classes = tx_classes z c; action = classes AND active
      in if classes AND TX_ESCAPE_CR \<noteq> 0 \<and> previous = 0x40 then True else action \<noteq> TX_NORMAL)"

definition tx :: "u8 \<Rightarrow> 'c zmodem \<Rightarrow> int \<times> 'c zmodem" where
  "tx c z =
     (let (active, z1) = active_tx_classes z
      in if tx_byte_needs_escape z1 c (last_sent z1) active then
           (if escape_iac z1 \<and> c = 0xff
            then tx_all [tx_raw (uint ZDLE), tx_raw (uint ZRUB1)] z1
            else tx_esc (uint c) z1)
         else tx_raw (uint c) z1)"

definition tx_flush :: "'c zmodem \<Rightarrow> int \<times> 'c zmodem" where
  "tx_flush z =
     (let (r, c) = io_flush (io z) (io_context (io z))
      in (if r = ZMODEM_OK then 0 else - 1, set_context c z))"

section \<open>Hexadecimal headers\<close>

definition tx_nibble :: "int \<Rightarrow> 'c zmodem \<Rightarrow> int \<times> 'c zmodem" where
  "tx_nibble n =
     (let n = n AND 0x0f
      in tx_raw (if n < 10 then n + 48 else n + (97 - 10)))"

definition tx_hex :: "int \<Rightarrow> 'c zmodem \<Rightarrow> int \<times> 'c zmodem" where
  "tx_hex h = tx_all [tx_nibble (drop_bit 4 h), tx_nibble h]"

text \<open>A header pointer designates the list \<open>p\<close>, of which the first \<open>count\<close> octets are sent.\<close>

definition tx_hex_header_length :: "u8 list \<Rightarrow> nat \<Rightarrow> 'c zmodem \<Rightarrow> int \<times> 'c zmodem" where
  "tx_hex_header_length p count =
     (let type = p ! FTYPE;
          crc = crc16_buffer_update 0 (take count p);
          crc = crc16_update (crc16_update crc 0) 0
      in tx_all
        ([tx_raw (uint ZPAD), tx_raw (uint ZPAD), tx_raw (uint ZDLE)] @
         (if count \<noteq> HDRLEN then [tx_raw (uint ZVHEX), tx_hex (int count - 1)]
          else [tx_raw (uint ZHEX)]) @
         map (\<lambda>b. tx_hex (uint b)) (take count p) @
         [tx_hex (uint (drop_bit 8 crc)), tx_hex (uint crc), tx_raw (uint CR), tx_raw (uint LF)] @
         (if type \<noteq> ZACK \<and> type \<noteq> ZFIN then [tx_raw (uint XON)] else []) @
         [tx_flush]))"

definition tx_hex_header :: "u8 list \<Rightarrow> 'c zmodem \<Rightarrow> int \<times> 'c zmodem" where
  "tx_hex_header p = tx_hex_header_length p HDRLEN"

section \<open>Binary headers\<close>

text \<open>The low octet first, as both CRC-32 headers send it.\<close>

definition tx_bin32_header :: "u8 list \<Rightarrow> nat \<Rightarrow> 'c zmodem \<Rightarrow> int \<times> 'c zmodem" where
  "tx_bin32_header p count =
     (let crc = NOT (crc32_update_reduced (- 1) (take count p))
      in tx_all
        ([tx_raw (uint ZPAD), tx_raw (uint ZPAD), tx_raw (uint ZDLE)] @
         (if count \<noteq> HDRLEN then [tx_raw (uint ZVBIN32), tx (word_of_nat (count - 1))]
          else [tx_raw (uint ZBIN32)]) @
         map tx (take count p) @
         [tx (ucast crc), tx (ucast (drop_bit 8 crc)), tx (ucast (drop_bit 16 crc)),
          tx (ucast (drop_bit 24 crc))]))"

definition tx_bin16_header :: "u8 list \<Rightarrow> nat \<Rightarrow> 'c zmodem \<Rightarrow> int \<times> 'c zmodem" where
  "tx_bin16_header p count =
     (let crc = crc16_buffer_update 0 (take count p);
          crc = crc16_update (crc16_update crc 0) 0
      in tx_all
        ([tx_raw (uint ZPAD), tx_raw (uint ZPAD), tx_raw (uint ZDLE)] @
         (if count \<noteq> HDRLEN then [tx_raw (uint ZVBIN), tx (word_of_nat (count - 1))]
          else [tx_raw (uint ZBIN)]) @
         map tx (take count p) @
         [tx (ucast (drop_bit 8 crc)), tx (ucast crc)]))"

section \<open>Omen and MobyTurbo headers\<close>

text \<open>\<^verbatim>\<open>"Copyright 1989 Omen Technology INC All Rights Reserved"\<close>, without its terminating 0.\<close>

definition omen_header_crc_suffix :: "u8 list" where
  "omen_header_crc_suffix =
     [67, 111, 112, 121, 114, 105, 103, 104, 116, 32, 49, 57, 56, 57, 32, 79, 109, 101, 110, 32,
      84, 101, 99, 104, 110, 111, 108, 111, 103, 121, 32, 73, 78, 67, 32, 65, 108, 108, 32, 82,
      105, 103, 104, 116, 115, 32, 82, 101, 115, 101, 114, 118, 101, 100]"

lemma omen_header_crc_suffix_text:
  "omen_header_crc_suffix = map of_char ''Copyright 1989 Omen Technology INC All Rights Reserved''"
  by (simp add: omen_header_crc_suffix_def)

definition tx_omen_header :: "u8 \<Rightarrow> u8 list \<Rightarrow> nat \<Rightarrow> 'c zmodem \<Rightarrow> int \<times> 'c zmodem" where
  "tx_omen_header style p count =
     (let crc = crc32_update_reduced (- 1) (take count p);
          crc = NOT (crc32_update crc omen_header_crc_suffix)
      in tx_all
        ([tx_raw (uint ZPAD), tx_raw (uint ZDLE), tx_raw (uint style),
          tx_raw (0x22 + uint (word_of_nat (count - 1) :: u8))] @
         map tx_omen_byte (take count p) @ map tx_omen_byte (le_bytes crc)))"

definition active_mobyturbo_classes :: "'c zmodem \<Rightarrow> u8 \<times> 'c zmodem" where
  "active_mobyturbo_classes z =
     (let (_, z1) = active_tx_classes z
      in ((if escape_all_control_characters z1 then TX_ESCAPE_CONTROL else 0) OR
          (if escape_iac z1 then TX_ESCAPE_IAC else 0), z1))"

definition mobyturbo_byte_needs_escape :: "'c zmodem \<Rightarrow> u8 \<Rightarrow> int \<Rightarrow> u8 \<Rightarrow> bool" where
  "mobyturbo_byte_needs_escape z c previous active =
     (let classes = tx_classes z c
      in if c = ZDLE \<or> classes AND active \<noteq> 0 then True
         else if \<not> escape_all_control_characters z then False
         else if previous \<noteq> 0x40 then False
         else classes AND TX_ESCAPE_CR \<noteq> 0)"

definition tx_mobyturbo_byte :: "u8 \<Rightarrow> 'c zmodem \<Rightarrow> int \<times> 'c zmodem" where
  "tx_mobyturbo_byte c z =
     (let (active, z1) = active_mobyturbo_classes z
      in if \<not> mobyturbo_byte_needs_escape z1 c (last_sent z1) active then tx_raw (uint c) z1
         else if c = 0xff then tx_all [tx_raw (uint ZDLE), tx_raw (uint ZRUB1)] z1
         else tx_esc (uint c) z1)"

definition tx_mobyturbo_header :: "u8 list \<Rightarrow> nat \<Rightarrow> 'c zmodem \<Rightarrow> int \<times> 'c zmodem" where
  "tx_mobyturbo_header p count =
     (let crc = crc32_update_reduced (- 1) (take count p);
          crc = NOT (crc32_update crc omen_header_crc_suffix)
      in tx_all
        ([tx_raw (uint ZPAD), tx_raw (uint ZDLE), tx_raw (uint ZBINM32),
          tx_mobyturbo_byte (word_of_nat (count - 1))] @
         map tx_mobyturbo_byte (take count p) @ map tx_mobyturbo_byte (le_bytes crc)))"

section \<open>Choice of the header style\<close>

definition tx_header_length :: "u8 list \<Rightarrow> nat \<Rightarrow> 'c zmodem \<Rightarrow> int \<times> 'c zmodem" where
  "tx_header_length p count z =
     (if count < HDRLEN \<or> ZMAXHLEN + 1 < count then (- 1, z)
      else if escape_8th_bit z then
        tx_omen_header (if use_pack7 z then ZBINP7 else ZBINR32ESC8) p count z
      else if use_mobyturbo z then tx_mobyturbo_header p count z
      else if can_fcs_32 z \<and> want_fcs_32 z then tx_bin32_header p count z
      else if can_fcs_32 z then tx_bin16_header p count z
      else tx_hex_header_length p count z)"

definition tx_header :: "u8 list \<Rightarrow> 'c zmodem \<Rightarrow> int \<times> 'c zmodem" where
  "tx_header p = tx_header_length p HDRLEN"

definition mobyturbo_probe :: "u8 list" where
  "mobyturbo_probe = [0x23, 0xc1, 0xd4, 0x93, 0x11]"

definition tx_mobyturbo_probe :: "'c zmodem \<Rightarrow> int \<times> 'c zmodem" where
  "tx_mobyturbo_probe = tx_each (\<lambda>b. tx_raw (uint b)) mobyturbo_probe"

definition tx_pos_header :: "u8 \<Rightarrow> u32 \<Rightarrow> 'c zmodem \<Rightarrow> int \<times> 'c zmodem" where
  "tx_pos_header type position =
     (let header = (replicate HDRLEN 0)[FTYPE := type];
          header = zmodem_set_header_position header position
      in tx_hex_header header)"

definition tx_znak :: "'c zmodem \<Rightarrow> int \<times> 'c zmodem" where
  "tx_znak = tx_pos_header ZNAK 0"

end
