(* ===== verification/Zmdm_Tx_Data.thy ===== *)
theory Zmdm_Tx_Data
  imports Zmdm_Tx
begin

text \<open>
  Transmission of data subpackets (\<^verbatim>\<open>zmdm.c\<close>, \<open>buffer_raw\<close> to \<open>tx_data\<close>). A subpacket is
  assembled in the array \<open>tx_data_wire\<close> and written in one call. A store outside that array
  is undefined behaviour in C: the store returns \<open>None\<close> then, so that a result \<open>Some\<close> says
  that no store was out of bounds.

  The assembly state is the triple of the protocol state, the fill \<open>used\<close> and the seven low
  bits of the last octet, \<open>previous\<close>; \<^verbatim>\<open>struct omen_tx_buffer\<close> is the same triple.
\<close>

type_synonym 'c wirebuf = "'c zmodem \<times> nat \<times> int"

section \<open>Stores into the wire array\<close>

definition wire_store :: "'c zmodem \<Rightarrow> nat \<Rightarrow> u8 \<Rightarrow> 'c zmodem option" where
  "wire_store z i c =
     (if i < length (tx_data_wire z) then Some (z\<lparr>tx_data_wire := (tx_data_wire z)[i := c]\<rparr>)
      else None)"

fun buffer_raw :: "u8 \<Rightarrow> 'c wirebuf \<Rightarrow> 'c wirebuf option" where
  "buffer_raw c (z, used, previous) =
     do { z \<leftarrow> wire_store z used c; Some (z, used + 1, uint (c AND 0x7f)) }"

fun buffer_tx :: "u8 \<Rightarrow> u8 \<Rightarrow> 'c wirebuf \<Rightarrow> 'c wirebuf option" where
  "buffer_tx active c (z, used, previous) =
     (if tx_byte_needs_escape z c previous active then
        do { b \<leftarrow> buffer_raw ZDLE (z, used, previous);
             if c = 0xff then buffer_raw ZRUB1 b else buffer_raw (c XOR 0x40) b }
      else buffer_raw c (z, used, previous))"

fun buffer_mobyturbo :: "u8 \<Rightarrow> u8 \<Rightarrow> 'c wirebuf \<Rightarrow> 'c wirebuf option" where
  "buffer_mobyturbo active c (z, used, previous) =
     (if mobyturbo_byte_needs_escape z c previous active then
        do { b \<leftarrow> buffer_raw ZDLE (z, used, previous);
             if escape_iac z \<and> c = 0xff then buffer_raw ZRUB1 b else buffer_raw (c XOR 0x40) b }
      else buffer_raw c (z, used, previous))"

text \<open>A loop that buffers each octet of an array.\<close>

fun buffer_each :: "(u8 \<Rightarrow> 'b \<Rightarrow> 'b option) \<Rightarrow> u8 list \<Rightarrow> 'b \<Rightarrow> 'b option" where
  "buffer_each f [] b = Some b"
| "buffer_each f (c # cs) b = do { b \<leftarrow> f c b; buffer_each f cs b }"

section \<open>Omen buffers\<close>

text \<open>These can flush in the middle, so they have a C result: 0, or -1 for a failed write.\<close>

type_synonym 'c omen_tx_buffer = "'c zmodem \<times> nat \<times> int"

fun flush_omen_tx_buffer :: "'c omen_tx_buffer \<Rightarrow> int \<times> 'c omen_tx_buffer" where
  "flush_omen_tx_buffer (z, used, previous) =
     (if used = 0 then (0, z, used, previous)
      else let (r, ctx) = io_write (io z) (io_context (io z)) (take used (tx_data_wire z));
               z = set_context ctx z
           in if r \<noteq> ZMODEM_OK then (- 1, z, used, previous) else (0, z, 0, previous))"

fun buffer_omen_raw :: "u8 \<Rightarrow> 'c omen_tx_buffer \<Rightarrow> (int \<times> 'c omen_tx_buffer) option" where
  "buffer_omen_raw c (z, used, previous) =
     (let (r, z, used, previous) =
        (if used = length (tx_data_wire z) then flush_omen_tx_buffer (z, used, previous)
         else (0, z, used, previous))
      in if r \<noteq> 0 then Some (- 1, z, used, previous)
         else do { z \<leftarrow> wire_store z used c; Some (0, z, used + 1, uint (c AND 0x7f)) })"

fun wire_store_all :: "u8 list \<Rightarrow> 'c zmodem \<Rightarrow> nat \<Rightarrow> ('c zmodem \<times> nat) option" where
  "wire_store_all [] z used = Some (z, used)"
| "wire_store_all (c # cs) z used = do { z \<leftarrow> wire_store z used c; wire_store_all cs z (used + 1) }"

fun buffer_omen_byte :: "u8 \<Rightarrow> 'c omen_tx_buffer \<Rightarrow> (int \<times> 'c omen_tx_buffer) option" where
  "buffer_omen_byte c (z, used, previous) =
     (let encoded = omen_encode_byte z c;
          (r, z, used, previous) =
        (if length (tx_data_wire z) - used < length encoded
         then flush_omen_tx_buffer (z, used, previous) else (0, z, used, previous))
      in if r \<noteq> 0 then Some (- 1, z, used, previous)
         else do { (z, used) \<leftarrow> wire_store_all encoded z used;
                   Some (0, z, used, uint (tx_data_wire z ! (used - 1) AND 0x7f)) })"

text \<open>Sequencing: a result other than 0 ends the function with -1.\<close>

definition omen_seq :: "(int \<times> 'b) option \<Rightarrow> ('b \<Rightarrow> (int \<times> 'b) option) \<Rightarrow> (int \<times> 'b) option" where
  "omen_seq m f = do { (r, b) \<leftarrow> m; if r \<noteq> 0 then Some (- 1, b) else f b }"

fun omen_each :: "(u8 \<Rightarrow> 'b \<Rightarrow> (int \<times> 'b) option) \<Rightarrow> u8 list \<Rightarrow> 'b \<Rightarrow> (int \<times> 'b) option" where
  "omen_each f [] b = Some (0, b)"
| "omen_each f (c # cs) b = omen_seq (f c b) (omen_each f cs)"

section \<open>Run-length encoded subpackets\<close>

definition omen_rle_requires_marker :: "nat \<Rightarrow> u8 \<Rightarrow> bool" where
  "omen_rle_requires_marker run value =
     (if run \<noteq> 2 then True else if value = ZRESC then True else value AND 0x80 \<noteq> 0)"

definition omen_rle_uses_space_run :: "nat \<Rightarrow> u8 \<Rightarrow> bool" where
  "omen_rle_uses_space_run run value = (if value \<noteq> 0x20 then False else run \<le> 34)"

text \<open>The run counted from the head of the unsent data: the first octet and its repetitions.\<close>

fun omen_run_from :: "nat \<Rightarrow> u8 \<Rightarrow> u8 list \<Rightarrow> nat" where
  "omen_run_from run value [] = run"
| "omen_run_from run value (x # xs) =
     (if run < 63 \<and> x = value then omen_run_from (run + 1) value xs else run)"

text \<open>The symbols one run is sent as, each passed to \<open>buffer_omen_symbol\<close>.\<close>

definition omen_run_symbols :: "nat \<Rightarrow> u8 \<Rightarrow> u8 list" where
  "omen_run_symbols run value =
     (if run = 1 then (if value = ZRESC then [value, 0x40] else [value])
      else if \<not> omen_rle_requires_marker run value then [value, value]
      else if omen_rle_uses_space_run run value then [ZRESC, word_of_nat (run + 0x1d)]
      else [ZRESC, word_of_nat (run + 0x40), value])"

lemma omen_run_from_ge: "run \<le> omen_run_from run v xs"
proof (induction xs arbitrary: run)
  case (Cons x xs)
  have "Suc run \<le> omen_run_from (Suc run) v xs" by (rule Cons.IH)
  then show ?case by simp
qed simp

fun omen_rle_symbols :: "u8 list \<Rightarrow> u8 list" where
  "omen_rle_symbols [] = []"
| "omen_rle_symbols (value # rest) =
     (let run = omen_run_from 1 value rest
      in omen_run_symbols run value @ omen_rle_symbols (drop (run - 1) rest))"

text \<open>\<open>buffer_omen_symbol\<close> adds the symbol to the checksum and buffers it.\<close>

fun buffer_omen_symbols :: "u8 list \<Rightarrow> 'c omen_tx_buffer \<Rightarrow> u32 \<Rightarrow> (int \<times> u32 \<times> 'c omen_tx_buffer) option" where
  "buffer_omen_symbols [] b crc = Some (0, crc, b)"
| "buffer_omen_symbols (c # cs) b crc =
     do { let crc = crc32_byte_update crc c;
          (r, b) \<leftarrow> buffer_omen_byte c b;
          if r \<noteq> 0 then Some (- 1, crc, b) else buffer_omen_symbols cs b crc }"

definition tx_omen_data :: "u8 \<Rightarrow> u8 list \<Rightarrow> 'c zmodem \<Rightarrow> (int \<times> 'c zmodem) option" where
  "tx_omen_data sub_frame_type p z =
     do { (r, crc, b) \<leftarrow> buffer_omen_symbols (omen_rle_symbols p) (z, 0, last_sent z) (- 1);
          if r \<noteq> 0 then Some (- 1, fst b)
          else do {
            let crc = NOT (crc32_byte_update crc sub_frame_type);
            (r, b) \<leftarrow> omen_seq (buffer_omen_raw ZDLE b) (\<lambda>b.
                     omen_seq (buffer_omen_raw sub_frame_type b) (\<lambda>b.
                     omen_seq (omen_each buffer_omen_byte (le_bytes crc) b) (\<lambda>b.
                     omen_seq (if sub_frame_type = ZCRCW then buffer_omen_raw XON b
                               else Some (0, b)) (\<lambda>b.
                     Some (flush_omen_tx_buffer b)))));
            let (z, used, previous) = b;
            if r \<noteq> 0 then Some (- 1, z) else Some (tx_flush (z\<lparr>last_sent := previous\<rparr>)) } }"

section \<open>Pack-7 subpackets\<close>

text \<open>A group of one to four octets as a big-endian number in one more base-88 digits.\<close>

fun pack7_digits :: "nat \<Rightarrow> u32 \<Rightarrow> u8 list \<Rightarrow> u8 list" where
  "pack7_digits 0 value out = out"
| "pack7_digits (Suc i) value out = pack7_digits i (value div 88) ((ucast (value mod 88) + 0x22) # out)"

definition pack7_encode_group :: "u8 list \<Rightarrow> u8 list" where
  "pack7_encode_group input =
     (let value = foldl (\<lambda>v b. push_bit 8 v OR ucast b) 0 input
      in pack7_digits (length input + 1) value [])"

text \<open>\<open>buffer_pack7_group\<close> ignores the results of \<open>buffer_omen_raw\<close>.\<close>

fun buffer_raw_ignoring :: "u8 list \<Rightarrow> 'c omen_tx_buffer \<Rightarrow> 'c omen_tx_buffer option" where
  "buffer_raw_ignoring [] b = Some b"
| "buffer_raw_ignoring (c # cs) b = do { (r, b) \<leftarrow> buffer_omen_raw c b; buffer_raw_ignoring cs b }"

definition buffer_pack7_group :: "u8 list \<Rightarrow> 'c omen_tx_buffer \<Rightarrow> 'c omen_tx_buffer option" where
  "buffer_pack7_group input = buffer_raw_ignoring (pack7_encode_group input)"

fun buffer_pack7_groups :: "u8 list \<Rightarrow> 'c omen_tx_buffer \<Rightarrow> 'c omen_tx_buffer option" where
  "buffer_pack7_groups data b =
     (if data = [] then Some b
      else do { b \<leftarrow> buffer_pack7_group (take 4 data) b; buffer_pack7_groups (drop 4 data) b })"

declare buffer_pack7_groups.simps [simp del]

definition tx_pack7_data :: "u8 \<Rightarrow> u8 list \<Rightarrow> 'c zmodem \<Rightarrow> (int \<times> 'c zmodem) option" where
  "tx_pack7_data sub_frame_type data z =
     do { b \<leftarrow> buffer_pack7_groups data (z, 0, last_sent z);
          b \<leftarrow> buffer_raw_ignoring [0x21] b;
          b \<leftarrow> buffer_raw_ignoring [sub_frame_type] b;
          let crc = NOT (crc32_byte_update (crc32_update (- 1) data) sub_frame_type);
          b \<leftarrow> buffer_pack7_group (le_bytes crc) b;
          b \<leftarrow> (if sub_frame_type = ZCRCW then buffer_raw_ignoring [XON] b else Some b);
          let (r, (z, used, previous)) = flush_omen_tx_buffer b;
          if r \<noteq> 0 then Some (- 1, z) else Some (tx_flush (z\<lparr>last_sent := previous\<rparr>)) }"

section \<open>Spans of plain octets, a word at a time\<close>

text \<open>
  \<open>span_load\<close> is the 64-bit word \<^verbatim>\<open>memcpy\<close> loads from eight octets; the first octet is the low
  one, as on a little-endian machine.
\<close>

definition span_load :: "u8 list \<Rightarrow> u64" where
  "span_load bs = foldr (\<lambda>b w. ucast b OR push_bit 8 w) bs 0"

definition span_zero_lanes :: "u64 \<Rightarrow> u64" where
  "span_zero_lanes w = (w - 0x0101010101010101) AND NOT w AND 0x8080808080808080"

definition tx_span_special :: "u64 \<Rightarrow> bool" where
  "tx_span_special word =
     (let zdle = word XOR 0x1818181818181818;
          special = (word AND 0x7c7c7c7c7c7c7c7c) XOR 0x1010101010101010;
          cr = (word AND 0x7f7f7f7f7f7f7f7f) XOR 0x0d0d0d0d0d0d0d0d
      in (span_zero_lanes zdle OR span_zero_lanes special OR span_zero_lanes cr) \<noteq> 0)"

text \<open>The first loop: the octets of the whole words free of special octets.\<close>

fun tx_span_words :: "u8 list \<Rightarrow> u8 list" where
  "tx_span_words data =
     (if 8 \<le> length data then
        (if tx_span_special (span_load (take 8 data)) then []
         else take 8 data @ tx_span_words (drop 8 data))
      else [])"

declare tx_span_words.simps [simp del]

text \<open>The second loop, octet by octet, from the octet after the words.\<close>

fun tx_span_octets :: "(u8 \<Rightarrow> u8) \<Rightarrow> u8 list \<Rightarrow> int \<Rightarrow> u8 list \<times> int" where
  "tx_span_octets classes [] previous = ([], previous)"
| "tx_span_octets classes (c # cs) previous =
     (if classes c AND TX_ESCAPE_ALWAYS = 0 \<and>
         (classes c AND TX_ESCAPE_CR = 0 \<or> previous \<noteq> 0x40)
      then let (out, previous) = tx_span_octets classes cs (uint (c AND 0x7f)) in (c # out, previous)
      else ([], previous))"

text \<open>\<open>tx_copy_plain_span\<close> returns the octets it copies (the C result is their number) and
  the new \<open>previous\<close>. Its caller passes at least one octet.\<close>

definition tx_copy_plain_span :: "(u8 \<Rightarrow> u8) \<Rightarrow> u8 list \<Rightarrow> int \<Rightarrow> u8 list \<times> int" where
  "tx_copy_plain_span classes data previous =
     (if previous = 0x40 \<and> classes (data ! 0) AND TX_ESCAPE_CR \<noteq> 0 then ([], previous)
      else let words = tx_span_words data;
               previous = (if words \<noteq> [] then uint (last words AND 0x7f) else previous);
               (octets, previous) = tx_span_octets classes (drop (length words) data) previous
           in (words @ octets, previous))"

lemma tx_span_octets_prefix: "\<exists>rest. data = fst (tx_span_octets classes data previous) @ rest"
  by (induction classes data previous rule: tx_span_octets.induct) (auto split: prod.splits)

lemma tx_span_words_prefix: "\<exists>rest. data = tx_span_words data @ rest"
proof (induction data rule: tx_span_words.induct)
  case (1 data)
  show ?case
  proof (cases "8 \<le> length data \<and> \<not> tx_span_special (span_load (take 8 data))")
    case True
    then obtain rest where "drop 8 data = tx_span_words (drop 8 data) @ rest" using 1 by auto
    then have "data = take 8 data @ tx_span_words (drop 8 data) @ rest"
      by (metis append_take_drop_id)
    with True show ?thesis by (auto simp: tx_span_words.simps [of data])
  qed (auto simp: tx_span_words.simps [of data])
qed

fun tx_plain_loop :: "u8 list \<Rightarrow> 'c wirebuf \<Rightarrow> 'c wirebuf option" where
  "tx_plain_loop data (z, used, previous) =
     (if data = [] then Some (z, used, previous)
      else do {
        let (span, previous) = tx_copy_plain_span (tx_classes z) data previous;
        (z, used) \<leftarrow> wire_store_all span z used;
        let rest = drop (length span) data;
        (case rest of [] \<Rightarrow> Some (z, used, previous)
         | c # cs \<Rightarrow>
             do { b \<leftarrow> buffer_raw ZDLE (z, used, previous);
                  b \<leftarrow> buffer_raw (c XOR 0x40) b;
                  tx_plain_loop (drop (length span + 1) data) b }) })"

declare tx_plain_loop.simps [simp del]

section \<open>Data subpackets\<close>

definition tx_data :: "u8 \<Rightarrow> u8 list \<Rightarrow> 'c zmodem \<Rightarrow> (int \<times> 'c zmodem) option" where
  "tx_data sub_frame_type p z0 =
     do { let previous = last_sent z0;
          let (active, z) = active_tx_classes z0;
          if ZMAXSPLEN < length p then Some (- 1, z)
          else if escape_8th_bit z then
            (if use_pack7 z then tx_pack7_data sub_frame_type p z else tx_omen_data sub_frame_type p z)
          else do {
            let active = (if use_mobyturbo z then fst (active_mobyturbo_classes z) else active);
            b \<leftarrow> (if use_mobyturbo z then buffer_each (buffer_mobyturbo active) p (z, 0, previous)
                 else if active = TX_ESCAPE_ALWAYS then tx_plain_loop p (z, 0, previous)
                 else buffer_each (buffer_tx active) p (z, 0, previous));
            b \<leftarrow> buffer_raw ZDLE b;
            b \<leftarrow> buffer_raw sub_frame_type b;
            b \<leftarrow> (if use_mobyturbo z \<or> (want_fcs_32 z \<and> can_fcs_32 z) then
                   let crc = NOT (crc32_byte_update (crc32_update (- 1) p) sub_frame_type)
                   in buffer_each (if use_mobyturbo z then buffer_mobyturbo active
                                   else buffer_tx active) (le_bytes crc) b
                 else
                   let crc = crc16_update (crc16_buffer_update 0 p) sub_frame_type;
                       crc = crc16_update (crc16_update crc 0) 0
                   in buffer_each (buffer_tx active) [ucast (drop_bit 8 crc), ucast crc] b);
            b \<leftarrow> (if sub_frame_type = ZCRCW then buffer_raw XON b else Some b);
            let (z, used, previous) = b;
            let (r, ctx) = io_write (io z) (io_context (io z)) (take used (tx_data_wire z));
            let z = set_context ctx z;
            if r \<noteq> ZMODEM_OK then Some (- 1, z)
            else Some (tx_flush (z\<lparr>last_sent := previous\<rparr>)) } }"

end
