(* ===== verification/Zmdm_Rx.thy ===== *)
theory Zmdm_Rx
  imports Zmdm_Tx_Data
begin

text \<open>
  Reception of single octets (\<^verbatim>\<open>zmdm.c\<close>, \<open>load_rx_cursor\<close> to \<open>rx_hex_terminator_byte\<close>). The
  result is \<open>None\<close> when a loop never ends (the transport supplies octets for ever) or when the
  code would read outside \<open>input_buffer\<close>; \<open>Some (c, \<dots>)\<close> carries the C result \<open>c\<close>: an octet, an
  octet with \<open>RX_FRAME_END_FLAG\<close>, or a negative error.
\<close>

section \<open>The cursor\<close>

record rx_cursor =
  cur_count :: nat
  cur_index :: nat
  cur_cancel :: u32

definition load_rx_cursor :: "'c zmodem \<Rightarrow> rx_cursor" where
  "load_rx_cursor z =
     \<lparr>cur_count = input_count z, cur_index = input_index z, cur_cancel = cancel_count z\<rparr>"

definition store_rx_cursor :: "rx_cursor \<Rightarrow> 'c zmodem \<Rightarrow> 'c zmodem" where
  "store_rx_cursor cur z =
     z\<lparr>input_count := cur_count cur, input_index := cur_index cur, cancel_count := cur_cancel cur\<rparr>"

text \<open>A callback stores at most as many octets as the capacity it is given.\<close>

definition overlay :: "u8 list \<Rightarrow> u8 list \<Rightarrow> u8 list" where
  "overlay xs buf = take (length buf) xs @ drop (length xs) buf"

definition rx_cursor_take ::
  "'c zmodem \<Rightarrow> rx_cursor \<Rightarrow> (int \<times> 'c zmodem \<times> rx_cursor) option" where
  "rx_cursor_take z cur =
     (if cur_index cur < length (input_buffer z)
      then Some (uint (input_buffer z ! cur_index cur), z,
                 cur\<lparr>cur_index := cur_index cur + 1, cur_count := cur_count cur - 1\<rparr>)
      else None)"

definition rx_cursor_byte ::
  "int \<Rightarrow> 'c zmodem \<Rightarrow> rx_cursor \<Rightarrow> (int \<times> 'c zmodem \<times> rx_cursor) option" where
  "rx_cursor_byte timeout_ms z cur =
     (if cur_count cur = 0 then
        let z = store_rx_cursor cur z;
            (result, octets, count, ctx) =
              io_read (io z) (io_context (io z)) (length (input_buffer z)) timeout_ms;
            z = set_context ctx (z\<lparr>input_buffer := overlay octets (input_buffer z)\<rparr>)
        in if result \<noteq> ZMODEM_OK then Some (result, z, cur)
           else if count = 0 \<or> length (input_buffer z) < count then Some (ZMODEM_IO_ERROR, z, cur)
           else rx_cursor_take z (cur\<lparr>cur_count := count, cur_index := 0\<rparr>)
      else rx_cursor_take z cur)"

definition rx_cursor_raw ::
  "int \<Rightarrow> 'c zmodem \<Rightarrow> rx_cursor \<Rightarrow> (int \<times> 'c zmodem \<times> rx_cursor) option" where
  "rx_cursor_raw timeout_ms z cur =
     do { (result, z, cur) \<leftarrow> rx_cursor_byte timeout_ms z cur;
          Some (if result = uint CAN \<and> \<not> receive_mobyturbo z then
                  let cur = cur\<lparr>cur_cancel := cur_cancel cur + 1\<rparr>
                  in (if cur_cancel cur = 5 then ZMODEM_CANCELLED else result, z, cur)
                else if 0 \<le> result then (result, z, cur\<lparr>cur_cancel := 0\<rparr>)
                else (result, z, cur)) }"

text \<open>Calls that work on the stored cursor: load, run, store.\<close>

definition with_cursor ::
  "('c zmodem \<Rightarrow> rx_cursor \<Rightarrow> (int \<times> 'c zmodem \<times> rx_cursor) option) \<Rightarrow> 'c zmodem \<Rightarrow>
   (int \<times> 'c zmodem) option" where
  "with_cursor f z =
     do { (result, z, cur) \<leftarrow> f z (load_rx_cursor z); Some (result, store_rx_cursor cur z) }"

definition rx_raw :: "int \<Rightarrow> 'c zmodem \<Rightarrow> (int \<times> 'c zmodem) option" where
  "rx_raw timeout_ms = with_cursor (rx_cursor_raw timeout_ms)"

section \<open>The ZDLE decoder\<close>

definition rx_is_flow_control :: "int \<Rightarrow> bool" where
  "rx_is_flow_control c \<longleftrightarrow> c = 0x11 \<or> c = 0x91 \<or> c = 0x13 \<or> c = 0x93"

definition rx_is_unescaped_control :: "'c zmodem \<Rightarrow> int \<Rightarrow> bool" where
  "rx_is_unescaped_control z c \<longleftrightarrow>
     receive_escaped_control_characters z \<and> c \<noteq> uint ZDLE \<and> c AND 0x60 = 0"

definition rx_needs_slow_path :: "'c zmodem \<Rightarrow> int \<Rightarrow> bool" where
  "rx_needs_slow_path z c \<longleftrightarrow>
     (if receive_mobyturbo z then c = uint ZDLE
      else c = uint ZDLE \<or> rx_is_flow_control c \<or> rx_is_unescaped_control z c)"

abbreviation (input) RX_FRAME_END_FLAG :: int where "RX_FRAME_END_FLAG \<equiv> 256"

text \<open>The loop that skips flow control and unescaped controls; a negative result ends the caller.\<close>

partial_function (option) rx_skip_flow ::
  "int \<Rightarrow> int \<Rightarrow> 'c zmodem \<Rightarrow> rx_cursor \<Rightarrow> (int \<times> 'c zmodem \<times> rx_cursor) option" where
  "rx_skip_flow timeout_ms c z cur =
     (if rx_is_flow_control c \<or> rx_is_unescaped_control z c then
        do { (c, z, cur) \<leftarrow> rx_cursor_raw timeout_ms z cur;
             if c < 0 then Some (c, z, cur) else rx_skip_flow timeout_ms c z cur }
      else Some (c, z, cur))"

text \<open>The switch over the octet after ZDLE: the value returned, \<open>None\<close> for its \<^verbatim>\<open>break\<close>.\<close>

definition rx_zdle_value :: "int \<Rightarrow> int option" where
  "rx_zdle_value c =
     (if c = uint ZCRCE \<or> c = uint ZCRCG \<or> c = uint ZCRCQ \<or> c = uint ZCRCW
      then Some (c OR RX_FRAME_END_FLAG)
      else if c = uint ZRUB0 then Some 0x7f
      else if c = uint ZRUB1 then Some 0xff
      else if c AND 0x60 = 0x40 then Some (c XOR 0x40)
      else None)"

text \<open>The inner loop after a ZDLE: (\<open>True\<close>, value) to return, (\<open>False\<close>, \<open>_\<close>) for the \<^verbatim>\<open>break\<close>.\<close>

partial_function (option) rx_zdle_loop ::
  "int \<Rightarrow> 'c zmodem \<Rightarrow> rx_cursor \<Rightarrow> (bool \<times> int \<times> 'c zmodem \<times> rx_cursor) option" where
  "rx_zdle_loop timeout_ms z cur =
     do { (c, z, cur) \<leftarrow> rx_cursor_raw timeout_ms z cur;
          if c < 0 then Some (True, c, z, cur)
          else if receive_escape8_format z = ZMODEM_ESCAPE8_LEGACY \<and> c AND 0x80 \<noteq> 0
          then Some (True, c XOR 0x40, z, cur)
          else if rx_needs_slow_path z c then rx_zdle_loop timeout_ms z cur
          else (case rx_zdle_value c of
                  Some v \<Rightarrow> Some (True, v, z, cur)
                | None \<Rightarrow> Some (False, c, z, cur)) }"

partial_function (option) rx_cursor_slow ::
  "int \<Rightarrow> int \<Rightarrow> 'c zmodem \<Rightarrow> rx_cursor \<Rightarrow> (int \<times> 'c zmodem \<times> rx_cursor) option" where
  "rx_cursor_slow timeout_ms c z cur =
     do { (c, z, cur) \<leftarrow> rx_skip_flow timeout_ms c z cur;
          if c < 0 then Some (c, z, cur)
          else if c \<noteq> uint ZDLE then Some (c, z, cur)
          else do {
            (ret, c, z, cur) \<leftarrow> rx_zdle_loop timeout_ms z cur;
            if ret then Some (c, z, cur)
            else do {
              (c, z, cur) \<leftarrow> rx_cursor_raw timeout_ms z cur;
              if c < 0 then Some (c, z, cur) else rx_cursor_slow timeout_ms c z cur } } }"

definition rx_slow :: "int \<Rightarrow> int \<Rightarrow> 'c zmodem \<Rightarrow> (int \<times> 'c zmodem) option" where
  "rx_slow timeout_ms c = with_cursor (rx_cursor_slow timeout_ms c)"

definition rx_cursor_next ::
  "int \<Rightarrow> 'c zmodem \<Rightarrow> rx_cursor \<Rightarrow> (int \<times> 'c zmodem \<times> rx_cursor) option" where
  "rx_cursor_next timeout_ms z cur =
     do { (c, z, cur) \<leftarrow> rx_cursor_raw timeout_ms z cur;
          if c < 0 then Some (c, z, cur)
          else if \<not> rx_needs_slow_path z c then Some (c, z, cur)
          else rx_cursor_slow timeout_ms c z cur }"

section \<open>The Omen decoder\<close>

text \<open>The \<^verbatim>\<open>do \<dots> while\<close> loop after a ZDLE: the next octet that is not flow control, seven bits.\<close>

partial_function (option) rx_omen_quoted ::
  "int \<Rightarrow> 'c zmodem \<Rightarrow> rx_cursor \<Rightarrow> (int \<times> 'c zmodem \<times> rx_cursor) option" where
  "rx_omen_quoted timeout_ms z cur =
     do { (c, z, cur) \<leftarrow> rx_cursor_raw timeout_ms z cur;
          if c < 0 then Some (c, z, cur)
          else let c = c AND 0x7f
               in if rx_is_flow_control c then rx_omen_quoted timeout_ms z cur
                  else Some (c, z, cur) }"

definition rx_omen_value :: "bool \<Rightarrow> int \<Rightarrow> int" where
  "rx_omen_value high c =
     (let quoted = (\<lambda>v. if high then v OR 0x80 else v)
      in if c = uint ZCRCE \<or> c = uint ZCRCG \<or> c = uint ZCRCQ \<or> c = uint ZCRCW
         then c OR RX_FRAME_END_FLAG
         else if c = uint ZRUB0 then quoted 0x7f
         else if c = uint ZRUB1 then quoted 0xff
         else if c = 0x6e then quoted 0x0e
         else if c = 0x6f then quoted 0x8e
         else if c = 0x70 then quoted 0x90
         else if c = 0x71 then quoted 0x91
         else if c = 0x72 then quoted 0x93
         else if c = 0x73 then quoted 0x80
         else if c = 0x74 then quoted 0x98
         else if c AND 0x60 \<noteq> 0x40 then ZMODEM_INVALID_DATA
         else quoted (c XOR 0x40))"

partial_function (option) rx_omen_loop ::
  "int \<Rightarrow> bool \<Rightarrow> 'c zmodem \<Rightarrow> rx_cursor \<Rightarrow> (int \<times> 'c zmodem \<times> rx_cursor) option" where
  "rx_omen_loop timeout_ms high z cur =
     do { (c, z, cur) \<leftarrow> rx_cursor_raw timeout_ms z cur;
          if c < 0 then Some (c, z, cur)
          else let c = c AND 0x7f
               in if rx_is_flow_control c then rx_omen_loop timeout_ms high z cur
                  else if c = uint SO then rx_omen_loop timeout_ms True z cur
                  else if c \<noteq> uint ZDLE then
                    (if rx_is_unescaped_control z c then rx_omen_loop timeout_ms high z cur
                     else Some (c OR (if high then 0x80 else 0), z, cur))
                  else do {
                    (c, z, cur) \<leftarrow> rx_omen_quoted timeout_ms z cur;
                    if c < 0 then Some (c, z, cur)
                    else Some (rx_omen_value high c, z, cur) } }"

definition rx_omen_cursor ::
  "int \<Rightarrow> 'c zmodem \<Rightarrow> rx_cursor \<Rightarrow> (int \<times> 'c zmodem \<times> rx_cursor) option" where
  "rx_omen_cursor timeout_ms = rx_omen_loop timeout_ms False"

text \<open>An end-of-frame mark where an octet is due is \<open>invalid_result\<close>.\<close>

definition rx_octet_result :: "int \<Rightarrow> int \<Rightarrow> int" where
  "rx_octet_result invalid_result c = (if c < 0 then c else if 255 < c then invalid_result else c)"

definition rx_omen_byte_cursor ::
  "int \<Rightarrow> int \<Rightarrow> 'c zmodem \<Rightarrow> rx_cursor \<Rightarrow> (int \<times> 'c zmodem \<times> rx_cursor) option" where
  "rx_omen_byte_cursor timeout_ms invalid_result z cur =
     do { (c, z, cur) \<leftarrow> rx_omen_cursor timeout_ms z cur;
          Some (rx_octet_result invalid_result c, z, cur) }"

section \<open>Spans of plain octets\<close>

definition rx_span_special :: "bool \<Rightarrow> u64 \<Rightarrow> bool" where
  "rx_span_special mobyturbo word =
     (let zdle = word XOR 0x1818181818181818;
          flow = (word AND 0x7d7d7d7d7d7d7d7d) XOR 0x1111111111111111
      in if mobyturbo then span_zero_lanes zdle \<noteq> 0
         else (span_zero_lanes zdle OR span_zero_lanes flow) \<noteq> 0)"

fun rx_span_words :: "bool \<Rightarrow> u8 list \<Rightarrow> nat" where
  "rx_span_words mobyturbo data =
     (if 8 \<le> length data then
        (if rx_span_special mobyturbo (span_load (take 8 data)) then 0
         else 8 + rx_span_words mobyturbo (drop 8 data))
      else 0)"

declare rx_span_words.simps [simp del]

text \<open>The octets the cursor has left in the buffer; \<open>None\<close> if they lie outside it.\<close>

definition rx_cursor_data :: "'c zmodem \<Rightarrow> rx_cursor \<Rightarrow> u8 list option" where
  "rx_cursor_data z cur =
     (if cur_index cur + cur_count cur \<le> length (input_buffer z)
      then Some (take (cur_count cur) (drop (cur_index cur) (input_buffer z))) else None)"

definition rx_plain_span :: "'c zmodem \<Rightarrow> u8 list \<Rightarrow> nat" where
  "rx_plain_span z data =
     (if receive_escaped_control_characters z then
        (if receive_mobyturbo z then length (takeWhile (\<lambda>b. b \<noteq> ZDLE) data)
         else length (takeWhile (\<lambda>b. \<not> rx_needs_slow_path z (uint b)) data))
      else let words = rx_span_words (receive_mobyturbo z) data
           in words + length (takeWhile (\<lambda>b. \<not> rx_needs_slow_path z (uint b)) (drop words data)))"

section \<open>Octets outside a data subpacket\<close>

definition rx :: "int \<Rightarrow> 'c zmodem \<Rightarrow> (int \<times> 'c zmodem) option" where
  "rx timeout_ms z =
     do { (c, z) \<leftarrow> rx_raw timeout_ms z;
          if 0 \<le> c \<and> rx_needs_slow_path z c then rx_slow timeout_ms c z else Some (c, z) }"

definition rx_byte :: "int \<Rightarrow> int \<Rightarrow> 'c zmodem \<Rightarrow> (int \<times> 'c zmodem) option" where
  "rx_byte timeout_ms invalid_result z =
     do { (c, z) \<leftarrow> rx timeout_ms z; Some (rx_octet_result invalid_result c, z) }"

partial_function (option) rx_hex_terminator_byte ::
  "int \<Rightarrow> 'c zmodem \<Rightarrow> (int \<times> 'c zmodem) option" where
  "rx_hex_terminator_byte timeout_ms z =
     do { (c, z) \<leftarrow> rx_raw timeout_ms z;
          if c < 0 then Some (c, z)
          else if rx_is_flow_control c then rx_hex_terminator_byte timeout_ms z
          else Some (c, z) }"

section \<open>Checksums off the wire\<close>

text \<open>The value received is the second component, meaningful when the result is 0.\<close>

definition rx_crc16 :: "int \<Rightarrow> int \<Rightarrow> 'c zmodem \<Rightarrow> (int \<times> u16 \<times> 'c zmodem) option" where
  "rx_crc16 timeout_ms invalid_result z =
     do { (high, z) \<leftarrow> rx_byte timeout_ms invalid_result z;
          if high < 0 then Some (high, 0, z)
          else do {
            (low, z) \<leftarrow> rx_byte timeout_ms invalid_result z;
            if low < 0 then Some (low, 0, z)
            else Some (0, push_bit 8 (ucast (word_of_int high :: u8)) OR
                          ucast (word_of_int low :: u8), z) } }"

text \<open>\<open>n\<close> octets are still to come, the next one goes to bit \<open>8 * i\<close>.\<close>

fun rx_le_octets ::
  "('s \<Rightarrow> (int \<times> 's) option) \<Rightarrow> nat \<Rightarrow> nat \<Rightarrow> u32 \<Rightarrow> 's \<Rightarrow> (int \<times> u32 \<times> 's) option" where
  "rx_le_octets read i 0 result s = Some (0, result, s)"
| "rx_le_octets read i (Suc n) result s =
     do { (c, s) \<leftarrow> read s;
          if c < 0 then Some (c, result, s)
          else rx_le_octets read (i + 1) n
                 (result OR push_bit (i * 8) (ucast (word_of_int c :: u8))) s }"

definition rx_crc32 :: "int \<Rightarrow> int \<Rightarrow> 'c zmodem \<Rightarrow> (int \<times> u32 \<times> 'c zmodem) option" where
  "rx_crc32 timeout_ms invalid_result = rx_le_octets (rx_byte timeout_ms invalid_result) 0 4 0"

end
