(* ===== verification/Zmdm_Rx_Data.thy ===== *)
theory Zmdm_Rx_Data
  imports Zmdm_Rx
begin

text \<open>
  Reception of data subpackets (\<^verbatim>\<open>zmdm.c\<close>, \<open>rx_32_data\<close> to \<open>rx_data\<close>). The caller's array is the
  list \<open>p\<close>, of length \<open>capacity\<close>; a store outside it makes the result \<open>None\<close>. A receiver returns
  the C result, the protocol state, the array and the number of octets stored.
\<close>

section \<open>Stores into the caller's array\<close>

definition mem_store :: "u8 list \<Rightarrow> nat \<Rightarrow> u8 list \<Rightarrow> u8 list option" where
  "mem_store p i xs =
     (if i + length xs \<le> length p then Some (take i p @ xs @ drop (i + length xs) p) else None)"

definition rx_limit :: "nat \<Rightarrow> nat" where
  "rx_limit capacity = (if capacity < ZMAXSPLEN then capacity else ZMAXSPLEN)"

section \<open>Plain subpackets\<close>

text \<open>
  The receive loop of \<open>rx_32_data\<close> and \<open>rx_16_data\<close>, which differ in the checksum and in the
  timeout: \<open>upd_all\<close> and \<open>upd\<close> are the checksum of an array and of one octet. The record
  holds the local variables of the loop and the caller's array.
\<close>

record 'k rx_data_vars =
  rd_p :: "u8 list"
  rd_used :: nat
  rd_crc :: 'k
  rd_overflow :: bool

text \<open>The checksum of what was stored, taken when the first octet does not fit.\<close>

definition rx_overflow_crc :: "('k \<Rightarrow> u8 list \<Rightarrow> 'k) \<Rightarrow> 'k rx_data_vars \<Rightarrow> 'k" where
  "rx_overflow_crc upd_all v =
     (if rd_overflow v then rd_crc v else upd_all (rd_crc v) (take (rd_used v) (rd_p v)))"

text \<open>The branch for a span of plain octets, \<open>source\<close>.\<close>

definition rx_put_span ::
  "('k \<Rightarrow> u8 list \<Rightarrow> 'k) \<Rightarrow> nat \<Rightarrow> u8 list \<Rightarrow> 'k rx_data_vars \<Rightarrow> 'k rx_data_vars option" where
  "rx_put_span upd_all limit source v =
     do { let span = length source;
          let copied = (if limit - rd_used v < span then limit - rd_used v else span);
          p \<leftarrow> mem_store (rd_p v) (rd_used v) (take copied source);
          let v = v\<lparr>rd_p := p, rd_used := rd_used v + copied\<rparr>;
          Some (if copied < span
                then v\<lparr>rd_crc := upd_all (rx_overflow_crc upd_all v) (drop copied source),
                       rd_overflow := True\<rparr>
                else v) }"

text \<open>The branch for a decoded octet.\<close>

definition rx_put_octet ::
  "('k \<Rightarrow> u8 list \<Rightarrow> 'k) \<Rightarrow> ('k \<Rightarrow> u8 \<Rightarrow> 'k) \<Rightarrow> nat \<Rightarrow> u8 \<Rightarrow> 'k rx_data_vars \<Rightarrow>
   'k rx_data_vars option" where
  "rx_put_octet upd_all upd limit c v =
     (if rd_used v < limit then
        do { p \<leftarrow> mem_store (rd_p v) (rd_used v) [c];
             Some (v\<lparr>rd_p := p, rd_used := rd_used v + 1\<rparr>) }
      else Some (v\<lparr>rd_crc := upd (rx_overflow_crc upd_all v) c, rd_overflow := True\<rparr>))"

definition rx_cursor_skip :: "nat \<Rightarrow> rx_cursor \<Rightarrow> rx_cursor" where
  "rx_cursor_skip span cur =
     cur\<lparr>cur_index := cur_index cur + span, cur_count := cur_count cur - span, cur_cancel := 0\<rparr>"

text \<open>The loop ends with a negative result or with the frame end.\<close>

partial_function (option) rx_data_loop ::
  "int \<Rightarrow> ('k \<Rightarrow> u8 list \<Rightarrow> 'k) \<Rightarrow> ('k \<Rightarrow> u8 \<Rightarrow> 'k) \<Rightarrow> nat \<Rightarrow> 'c zmodem \<Rightarrow> rx_cursor \<Rightarrow>
   'k rx_data_vars \<Rightarrow> (int \<times> 'c zmodem \<times> rx_cursor \<times> 'k rx_data_vars) option" where
  "rx_data_loop timeout_ms upd_all upd limit z cur v =
     do { data \<leftarrow> rx_cursor_data z cur;
          if 0 < rx_plain_span z data then
            do { v \<leftarrow> rx_put_span upd_all limit (take (rx_plain_span z data) data) v;
                 rx_data_loop timeout_ms upd_all upd limit z
                   (rx_cursor_skip (rx_plain_span z data) cur) v }
          else
            do { (c, z, cur) \<leftarrow> rx_cursor_next timeout_ms z cur;
                 if c < 0 \<or> 255 < c then Some (c, z, cur, v)
                 else do { v \<leftarrow> rx_put_octet upd_all upd limit (word_of_int c) v;
                           rx_data_loop timeout_ms upd_all upd limit z cur v } } }"

definition rx_32_data ::
  "u8 list \<Rightarrow> nat \<Rightarrow> nat \<Rightarrow> 'c zmodem \<Rightarrow> (int \<times> 'c zmodem \<times> u8 list \<times> nat) option" where
  "rx_32_data p capacity l z =
     do { (c, z, cur, v) \<leftarrow>
            rx_data_loop 1000 crc32_update crc32_byte_update (rx_limit capacity) z
              (load_rx_cursor z) \<lparr>rd_p = p, rd_used = l, rd_crc = - 1, rd_overflow = False\<rparr>;
          let z = store_rx_cursor cur z;
          if c < 0 then Some (c, z, rd_p v, rd_used v)
          else do {
            let sub_frame_type = (word_of_int c :: u8);
            let crc = rx_overflow_crc crc32_update v;
            let crc = NOT (crc32_byte_update crc sub_frame_type);
            (result, rxd_crc, z) \<leftarrow> rx_crc32 1000 ZMODEM_INVALID_DATA z;
            Some (if result \<noteq> ZMODEM_OK then (result, z, rd_p v, rd_used v)
                  else if rxd_crc \<noteq> crc then (ZMODEM_INVALID_DATA, z, rd_p v, rd_used v)
                  else if rd_overflow v then (ZMODEM_INVALID_DATA, z, rd_p v, rd_used v)
                  else (uint sub_frame_type, z, rd_p v, rd_used v)) } }"

definition rx_16_data ::
  "u8 list \<Rightarrow> nat \<Rightarrow> nat \<Rightarrow> 'c zmodem \<Rightarrow> (int \<times> 'c zmodem \<times> u8 list \<times> nat) option" where
  "rx_16_data p capacity l z =
     do { (c, z, cur, v) \<leftarrow>
            rx_data_loop 5000 crc16_buffer_update crc16_update (rx_limit capacity) z
              (load_rx_cursor z) \<lparr>rd_p = p, rd_used = l, rd_crc = 0, rd_overflow = False\<rparr>;
          let z = store_rx_cursor cur z;
          if c < 0 then Some (c, z, rd_p v, rd_used v)
          else do {
            let sub_frame_type = (word_of_int c :: u8);
            let crc = rx_overflow_crc crc16_buffer_update v;
            let crc = crc16_update crc sub_frame_type;
            let crc = crc16_update (crc16_update crc 0) 0;
            (result, rxd_crc, z) \<leftarrow> rx_crc16 1000 ZMODEM_INVALID_DATA z;
            Some (if result \<noteq> ZMODEM_OK then (result, z, rd_p v, rd_used v)
                  else if rxd_crc \<noteq> crc then (ZMODEM_INVALID_DATA, z, rd_p v, rd_used v)
                  else if rd_overflow v then (ZMODEM_INVALID_DATA, z, rd_p v, rd_used v)
                  else (uint sub_frame_type, z, rd_p v, rd_used v)) } }"

section \<open>Run-length encoded subpackets\<close>

definition rx_rle_cursor ::
  "int \<Rightarrow> 'c zmodem \<Rightarrow> rx_cursor \<Rightarrow> (int \<times> 'c zmodem \<times> rx_cursor) option" where
  "rx_rle_cursor timeout_ms z cur =
     (if receive_escape8_format z = ZMODEM_ESCAPE8_OMEN then rx_omen_cursor timeout_ms z cur
      else rx_cursor_next timeout_ms z cur)"

definition rx_rle_byte_cursor ::
  "int \<Rightarrow> 'c zmodem \<Rightarrow> rx_cursor \<Rightarrow> (int \<times> 'c zmodem \<times> rx_cursor) option" where
  "rx_rle_byte_cursor timeout_ms z cur =
     do { (c, z, cur) \<leftarrow> rx_rle_cursor timeout_ms z cur;
          Some (if 255 < c then ZMODEM_INVALID_DATA else c, z, cur) }"

datatype omen_rle_count_kind =
    OMEN_RLE_COUNT_INVALID
  | OMEN_RLE_COUNT_LITERAL
  | OMEN_RLE_COUNT_SPACES
  | OMEN_RLE_COUNT_VALUE

definition classify_omen_rle_count :: "int \<Rightarrow> omen_rle_count_kind" where
  "classify_omen_rle_count c =
     (if c = 0x40 then OMEN_RLE_COUNT_LITERAL
      else if 0x20 \<le> c then
        (if c \<le> 0x3f then OMEN_RLE_COUNT_SPACES
         else if 0x42 \<le> c then
           (if c \<le> 0x7f then OMEN_RLE_COUNT_VALUE else OMEN_RLE_COUNT_INVALID)
         else OMEN_RLE_COUNT_INVALID)
      else OMEN_RLE_COUNT_INVALID)"

datatype omen_rle_state = OMEN_RLE_NORMAL | OMEN_RLE_COUNT | OMEN_RLE_VALUE

text \<open>The local variables of \<open>rx_rle_data\<close> that the decoding of a symbol changes.\<close>

record omen_rle =
  rle_state :: omen_rle_state
  rle_run :: nat
  rle_p :: "u8 list"
  rle_used :: nat
  rle_overflow :: bool

text \<open>\<^verbatim>\<open>if (used < limit) p[used++] = c; else overflow = true;\<close>, repeated \<open>n\<close> times.\<close>

fun rle_put :: "nat \<Rightarrow> nat \<Rightarrow> u8 \<Rightarrow> omen_rle \<Rightarrow> omen_rle option" where
  "rle_put limit 0 c d = Some d"
| "rle_put limit (Suc n) c d =
     (if rle_used d < limit then do {
        p \<leftarrow> mem_store (rle_p d) (rle_used d) [c];
        rle_put limit n c (d\<lparr>rle_p := p, rle_used := rle_used d + 1\<rparr>) }
      else rle_put limit n c (d\<lparr>rle_overflow := True\<rparr>))"

text \<open>The switch over the state: \<open>False\<close> for the return of \<open>ZMODEM_INVALID_DATA\<close>.\<close>

definition omen_rle_step :: "nat \<Rightarrow> u8 \<Rightarrow> omen_rle \<Rightarrow> (bool \<times> omen_rle) option" where
  "omen_rle_step limit c d =
     (case rle_state d of
        OMEN_RLE_NORMAL \<Rightarrow>
          (if c = ZRESC then Some (True, d\<lparr>rle_state := OMEN_RLE_COUNT\<rparr>)
           else do { d \<leftarrow> rle_put limit 1 c d; Some (True, d) })
      | OMEN_RLE_COUNT \<Rightarrow>
          (case classify_omen_rle_count (uint c) of
             OMEN_RLE_COUNT_LITERAL \<Rightarrow>
               do { d \<leftarrow> rle_put limit 1 ZRESC d; Some (True, d\<lparr>rle_state := OMEN_RLE_NORMAL\<rparr>) }
           | OMEN_RLE_COUNT_SPACES \<Rightarrow>
               do { d \<leftarrow> rle_put limit (nat (uint c - 0x1d)) 0x20 d;
                    Some (True, d\<lparr>rle_state := OMEN_RLE_NORMAL\<rparr>) }
           | OMEN_RLE_COUNT_VALUE \<Rightarrow>
               Some (True, d\<lparr>rle_run := nat (uint c - 0x40), rle_state := OMEN_RLE_VALUE\<rparr>)
           | OMEN_RLE_COUNT_INVALID \<Rightarrow> Some (False, d))
      | OMEN_RLE_VALUE \<Rightarrow>
          do { d \<leftarrow> rle_put limit (rle_run d) c d;
               Some (True, d\<lparr>rle_state := OMEN_RLE_NORMAL\<rparr>) })"

text \<open>The receive loop: it ends with an error or with the frame end, whose checksum is included.\<close>

partial_function (option) rx_rle_loop ::
  "nat \<Rightarrow> 'c zmodem \<Rightarrow> rx_cursor \<Rightarrow> omen_rle \<Rightarrow> u32 \<Rightarrow>
   (int \<times> 'c zmodem \<times> rx_cursor \<times> omen_rle \<times> u32) option" where
  "rx_rle_loop limit z cur d crc =
     do { (c, z, cur) \<leftarrow> rx_rle_cursor 1000 z cur;
          if c < 0 then Some (c, z, cur, d, crc)
          else if 255 < c then
            (if rle_state d \<noteq> OMEN_RLE_NORMAL then Some (ZMODEM_INVALID_DATA, z, cur, d, crc)
             else Some (uint (word_of_int c :: u8), z, cur, d, crc32_byte_update crc (word_of_int c)))
          else do {
            (ok, d) \<leftarrow> omen_rle_step limit (word_of_int c) d;
            let crc = crc32_byte_update crc (word_of_int c);
            if ok then rx_rle_loop limit z cur d crc
            else Some (ZMODEM_INVALID_DATA, z, cur, d, crc) } }"

text \<open>\<open>rx_le_octets\<close> over a pair of protocol state and cursor.\<close>

definition on_cursor ::
  "('c zmodem \<Rightarrow> rx_cursor \<Rightarrow> (int \<times> 'c zmodem \<times> rx_cursor) option) \<Rightarrow>
   'c zmodem \<times> rx_cursor \<Rightarrow> (int \<times> 'c zmodem \<times> rx_cursor) option" where
  "on_cursor f zc = f (fst zc) (snd zc)"

definition rx_rle_data ::
  "u8 list \<Rightarrow> nat \<Rightarrow> 'c zmodem \<Rightarrow> (int \<times> 'c zmodem \<times> u8 list \<times> nat) option" where
  "rx_rle_data p capacity z =
     do { (c, z, cur, d, crc) \<leftarrow>
            rx_rle_loop (rx_limit capacity) z (load_rx_cursor z)
              \<lparr>rle_state = OMEN_RLE_NORMAL, rle_run = 0, rle_p = p, rle_used = 0,
               rle_overflow = False\<rparr> (- 1);
          if c < 0 then Some (c, store_rx_cursor cur z, rle_p d, rle_used d)
          else do {
            let crc = NOT crc;
            (r, rxd_crc, z, cur) \<leftarrow> rx_le_octets (on_cursor (rx_rle_byte_cursor 1000)) 0 4 0 (z, cur);
            let z = store_rx_cursor cur z;
            Some (if r < 0 then (r, z, rle_p d, rle_used d)
                  else if rxd_crc \<noteq> crc then (ZMODEM_INVALID_DATA, z, rle_p d, rle_used d)
                  else if rle_overflow d then (ZMODEM_INVALID_DATA, z, rle_p d, rle_used d)
                  else (c, z, rle_p d, rle_used d)) } }"

section \<open>Pack-7 subpackets\<close>

text \<open>The digits of one group: the result, the number they denote and how many there were.\<close>

partial_function (option) rx_pack7_digits ::
  "int \<Rightarrow> u32 \<Rightarrow> nat \<Rightarrow> 'c zmodem \<Rightarrow> rx_cursor \<Rightarrow>
   (int \<times> u32 \<times> nat \<times> 'c zmodem \<times> rx_cursor) option" where
  "rx_pack7_digits timeout_ms v digits z cur =
     do { (c, z, cur) \<leftarrow> rx_omen_cursor timeout_ms z cur;
          if c < 0 then Some (c, v, digits, z, cur)
          else if 255 < c then Some (ZMODEM_INVALID_DATA, v, digits, z, cur)
          else if c = 0x21 then
            Some (if digits = 1 then ZMODEM_INVALID_DATA else ZMODEM_OK, v, digits, z, cur)
          else if c < 0x22 \<or> 0x79 < c then Some (ZMODEM_INVALID_DATA, v, digits, z, cur)
          else let digit = (word_of_int (c - 0x22) :: u32)
               in if (- 1 - digit) div 88 < v then Some (ZMODEM_INVALID_DATA, v, digits, z, cur)
                  else let v = v * 88 + digit
                       in if digits + 1 = 5 then Some (ZMODEM_OK, v, digits + 1, z, cur)
                          else rx_pack7_digits timeout_ms v (digits + 1) z cur }"

text \<open>The \<open>n\<close> low octets of a number, the highest first.\<close>

fun pack7_octets :: "nat \<Rightarrow> u32 \<Rightarrow> u8 list \<Rightarrow> u8 list" where
  "pack7_octets 0 v out = out"
| "pack7_octets (Suc i) v out = pack7_octets i (drop_bit 8 v) (ucast v # out)"

text \<open>The octets stored in \<open>output\<close>; their number is \<open>*count\<close>.\<close>

definition rx_pack7_group ::
  "int \<Rightarrow> 'c zmodem \<Rightarrow> rx_cursor \<Rightarrow> (int \<times> u8 list \<times> 'c zmodem \<times> rx_cursor) option" where
  "rx_pack7_group timeout_ms z cur =
     do { (r, v, digits, z, cur) \<leftarrow> rx_pack7_digits timeout_ms 0 0 z cur;
          if r \<noteq> ZMODEM_OK then Some (r, [], z, cur)
          else let bytes = (if digits = 0 then 0 else digits - 1)
               in if bytes < 4 \<and> push_bit (bytes * 8) 1 \<le> v
                  then Some (ZMODEM_INVALID_DATA, [], z, cur)
                  else Some (ZMODEM_OK, pack7_octets bytes v [], z, cur) }"

fun pack7_put ::
  "nat \<Rightarrow> u8 list \<Rightarrow> u8 list \<Rightarrow> nat \<Rightarrow> u32 \<Rightarrow> bool \<Rightarrow> (u8 list \<times> nat \<times> u32 \<times> bool) option" where
  "pack7_put limit [] p used crc overflow = Some (p, used, crc, overflow)"
| "pack7_put limit (b # bs) p used crc overflow =
     (let crc = crc32_byte_update crc b
      in if used < limit then
           do { p \<leftarrow> mem_store p used [b]; pack7_put limit bs p (used + 1) crc overflow }
         else pack7_put limit bs p used crc True)"

partial_function (option) rx_pack7_loop ::
  "nat \<Rightarrow> 'c zmodem \<Rightarrow> rx_cursor \<Rightarrow> u8 list \<Rightarrow> nat \<Rightarrow> u32 \<Rightarrow> bool \<Rightarrow>
   (int \<times> 'c zmodem \<times> rx_cursor \<times> u8 list \<times> nat \<times> u32 \<times> bool) option" where
  "rx_pack7_loop limit z cur p used crc overflow =
     do { (r, decoded, z, cur) \<leftarrow> rx_pack7_group 1000 z cur;
          if r \<noteq> ZMODEM_OK then Some (r, z, cur, p, used, crc, overflow)
          else do {
            (p, used, crc, overflow) \<leftarrow> pack7_put limit decoded p used crc overflow;
            if length decoded < 4 then Some (ZMODEM_OK, z, cur, p, used, crc, overflow)
            else rx_pack7_loop limit z cur p used crc overflow } }"

definition rx_pack7_data ::
  "u8 list \<Rightarrow> nat \<Rightarrow> 'c zmodem \<Rightarrow> (int \<times> 'c zmodem \<times> u8 list \<times> nat) option" where
  "rx_pack7_data p capacity z =
     do { (r, z, cur, p, used, crc, overflow) \<leftarrow>
            rx_pack7_loop (rx_limit capacity) z (load_rx_cursor z) p 0 (- 1) False;
          if r \<noteq> ZMODEM_OK then Some (r, store_rx_cursor cur z, p, used)
          else do {
            (c, z, cur) \<leftarrow> rx_omen_cursor 1000 z cur;
            if c < 0 then Some (c, store_rx_cursor cur z, p, used)
            else if c < uint ZCRCE \<or> uint ZCRCW < c
            then Some (ZMODEM_INVALID_DATA, store_rx_cursor cur z, p, used)
            else do {
              let crc = NOT (crc32_byte_update crc (word_of_int c));
              (r, decoded, z, cur) \<leftarrow> rx_pack7_group 1000 z cur;
              let z = store_rx_cursor cur z;
              if r \<noteq> ZMODEM_OK \<or> length decoded \<noteq> 4
              then Some (if r = ZMODEM_OK then ZMODEM_INVALID_DATA else r, z, p, used)
              else let received_crc = (ucast (decoded ! 0) OR push_bit 8 (ucast (decoded ! 1)) OR
                      push_bit 16 (ucast (decoded ! 2)) OR push_bit 24 (ucast (decoded ! 3)))
                   in Some (if received_crc \<noteq> crc \<or> overflow then ZMODEM_INVALID_DATA else c,
                            z, p, used) } } }"

section \<open>The receiver of a subpacket\<close>

definition rx_data ::
  "u8 list \<Rightarrow> nat \<Rightarrow> 'c zmodem \<Rightarrow> (int \<times> 'c zmodem \<times> u8 list \<times> nat \<times> u8) option" where
  "rx_data p capacity z =
     do { (sub_frame_type, z, p, l) \<leftarrow>
            (if receive_encoded_data z \<noteq> ZMODEM_ENCODED_DATA_NONE then
               (if receive_encoded_data z = ZMODEM_ENCODED_DATA_PACK7 then rx_pack7_data p capacity z
                else rx_rle_data p capacity z)
             else if receive_32_bit_data z then rx_32_data p capacity 0 z
             else rx_16_data p capacity 0 z);
          if sub_frame_type < 0 then Some (sub_frame_type, z, p, l, 0)
          else let frame_end = word_of_int sub_frame_type
               in Some (if sub_frame_type = uint ZCRCG then ZMODEM_FRAME_OK
                        else if sub_frame_type = uint ZCRCE then ZMODEM_END_OF_FRAME
                        else if sub_frame_type = uint ZCRCQ then ZMODEM_FRAME_OK
                        else if sub_frame_type = uint ZCRCW then ZMODEM_END_OF_FRAME
                        else ZMODEM_INVALID_DATA, z, p, l, frame_end) }"

end
