(* ===== verification/Zmdm_Rx_Header.thy ===== *)
theory Zmdm_Rx_Header
  imports Zmdm_Rx_Data
begin

text \<open>
  Reception of headers (\<^verbatim>\<open>zmdm.c\<close>, \<open>rx_nibble\<close> to \<open>rx_header_and_check\<close>).
\<close>

section \<open>Hexadecimal digits\<close>

definition rx_nibble :: "int \<Rightarrow> 'c zmodem \<Rightarrow> (int \<times> 'c zmodem) option" where
  "rx_nibble timeout_ms z =
     do { (c, z) \<leftarrow> rx_byte timeout_ms ZMODEM_INVALID_HEADER z;
          Some (if c < 0 then (c, z)
                else let c = c AND 0x7f
                     in if 57 < c then
                          (if c < 97 \<or> 102 < c then (ZMODEM_INVALID_HEADER, z) else (c - (97 - 10), z))
                        else if c < 48 then (ZMODEM_INVALID_HEADER, z) else (c - 48, z)) }"

definition rx_hex :: "int \<Rightarrow> 'c zmodem \<Rightarrow> (int \<times> 'c zmodem) option" where
  "rx_hex timeout_ms z =
     do { (n1, z) \<leftarrow> rx_nibble timeout_ms z;
          if n1 < 0 then Some (n1, z)
          else do {
            (n0, z) \<leftarrow> rx_nibble timeout_ms z;
            Some (if n0 < 0 then (n0, z) else (push_bit 4 n1 OR n0, z)) } }"

section \<open>The six styles of header\<close>

text \<open>
  The loop that fills \<open>rxd_header\<close>: \<open>n\<close> octets are still to come, the next one goes to index \<open>i\<close>.
  The three routines that use it differ in the reader and in the checksum.
\<close>

fun rx_header_octets ::
  "('c zmodem \<Rightarrow> (int \<times> 'c zmodem) option) \<Rightarrow> ('k \<Rightarrow> u8 \<Rightarrow> 'k) \<Rightarrow> nat \<Rightarrow> nat \<Rightarrow> 'k \<Rightarrow> 'c zmodem \<Rightarrow>
   (int \<times> 'k \<times> 'c zmodem) option" where
  "rx_header_octets read upd i 0 crc z = Some (0, crc, z)"
| "rx_header_octets read upd i (Suc n) crc z =
     do { (c, z) \<leftarrow> read z;
          if c < 0 then Some (c, crc, z)
          else do {
            h \<leftarrow> mem_store (rxd_header z) i [word_of_int c];
            rx_header_octets read upd (i + 1) n (upd crc (word_of_int c)) (z\<lparr>rxd_header := h\<rparr>) } }"

definition rx_bin16_header :: "int \<Rightarrow> nat \<Rightarrow> 'c zmodem \<Rightarrow> (int \<times> 'c zmodem) option" where
  "rx_bin16_header timeout_ms count z =
     do { (r, crc, z) \<leftarrow>
            rx_header_octets (rx_byte timeout_ms ZMODEM_INVALID_HEADER) crc16_update 0 count 0 z;
          if r < 0 then Some (r, z)
          else do {
            let crc = crc16_update (crc16_update crc 0) 0;
            (result, rxd_crc, z) \<leftarrow> rx_crc16 1000 ZMODEM_INVALID_HEADER z;
            Some (if result \<noteq> ZMODEM_OK then (result, z)
                  else if rxd_crc \<noteq> crc then (ZMODEM_INVALID_HEADER, z)
                  else (ZMODEM_OK, z\<lparr>rxd_header_len := count\<rparr>)) } }"

definition rx_hex_header :: "int \<Rightarrow> nat \<Rightarrow> 'c zmodem \<Rightarrow> (int \<times> 'c zmodem) option" where
  "rx_hex_header timeout_ms count z =
     do { (r, crc, z) \<leftarrow> rx_header_octets (rx_hex timeout_ms) crc16_update 0 count 0 z;
          if r < 0 then Some (r, z)
          else do {
            let crc = crc16_update (crc16_update crc 0) 0;
            (c1, z) \<leftarrow> rx_hex timeout_ms z;
            if c1 < 0 then Some (c1, z)
            else do {
              (c0, z) \<leftarrow> rx_hex timeout_ms z;
              if c0 < 0 then Some (c0, z)
              else if push_bit 8 (ucast (word_of_int c1 :: u8)) OR ucast (word_of_int c0 :: u8) \<noteq> crc
              then Some (ZMODEM_INVALID_HEADER, z)
              else do {
                (c, z) \<leftarrow> rx_hex_terminator_byte timeout_ms z;
                if c < 0 then Some (c, z)
                else do {
                  (c, z) \<leftarrow> (if c AND 0x7f = uint CR then rx_hex_terminator_byte timeout_ms z
                            else Some (c, z));
                  Some (if c < 0 then (c, z)
                        else if c AND 0x7f \<noteq> uint LF then (ZMODEM_INVALID_HEADER, z)
                        else (ZMODEM_OK, z\<lparr>rxd_header_len := count\<rparr>)) } } } } }"

definition rx_bin32_header :: "int \<Rightarrow> nat \<Rightarrow> 'c zmodem \<Rightarrow> (int \<times> 'c zmodem) option" where
  "rx_bin32_header timeout_ms count z =
     do { (r, crc, z) \<leftarrow>
            rx_header_octets (rx_byte timeout_ms ZMODEM_INVALID_HEADER) crc32_byte_update 0 count
              (- 1) z;
          if r < 0 then Some (r, z)
          else do {
            let crc = NOT crc;
            (result, rxd_crc, z) \<leftarrow> rx_crc32 timeout_ms ZMODEM_INVALID_HEADER z;
            Some (if result \<noteq> ZMODEM_OK then (result, z)
                  else if rxd_crc \<noteq> crc then (ZMODEM_INVALID_HEADER, z)
                  else (ZMODEM_OK, z\<lparr>rxd_header_len := count\<rparr>)) } }"

definition rx_variable_length :: "int \<Rightarrow> bool \<Rightarrow> 'c zmodem \<Rightarrow> (int \<times> 'c zmodem) option" where
  "rx_variable_length timeout_ms hex z =
     do { (count, z) \<leftarrow> (if hex then rx_hex timeout_ms z
                         else rx_byte timeout_ms ZMODEM_INVALID_HEADER z);
          Some (if count < 0 then (count, z)
                else if nat count < HDRLEN - 1 then (ZMODEM_INVALID_HEADER, z)
                else if ZMAXHLEN < nat count then (ZMODEM_INVALID_HEADER, z)
                else (count + 1, z)) }"

text \<open>The first loop of \<open>rx_omen_header\<close>: the next octet that is not flow control, seven bits.\<close>

partial_function (option) rx_omen_count ::
  "int \<Rightarrow> 'c zmodem \<Rightarrow> rx_cursor \<Rightarrow> (int \<times> 'c zmodem \<times> rx_cursor) option" where
  "rx_omen_count timeout_ms z cur =
     do { (c, z, cur) \<leftarrow> rx_cursor_raw timeout_ms z cur;
          if c < 0 then Some (c, z, cur)
          else let c = c AND 0x7f
               in if rx_is_flow_control c then rx_omen_count timeout_ms z cur
                  else Some (c, z, cur) }"

fun rx_omen_octets ::
  "int \<Rightarrow> nat \<Rightarrow> nat \<Rightarrow> u32 \<Rightarrow> 'c zmodem \<Rightarrow> rx_cursor \<Rightarrow>
   (int \<times> u32 \<times> 'c zmodem \<times> rx_cursor) option" where
  "rx_omen_octets timeout_ms i 0 crc z cur = Some (0, crc, z, cur)"
| "rx_omen_octets timeout_ms i (Suc n) crc z cur =
     do { (c, z, cur) \<leftarrow> rx_omen_byte_cursor timeout_ms ZMODEM_INVALID_HEADER z cur;
          if c < 0 then Some (c, crc, z, cur)
          else do {
            h \<leftarrow> mem_store (rxd_header z) i [word_of_int c];
            rx_omen_octets timeout_ms (i + 1) n (crc32_byte_update crc (word_of_int c))
              (z\<lparr>rxd_header := h\<rparr>) cur } }"

definition rx_omen_header ::
  "int \<Rightarrow> zmodem_encoded_data_format \<Rightarrow> 'c zmodem \<Rightarrow> (int \<times> 'c zmodem) option" where
  "rx_omen_header timeout_ms format z =
     do { (c, z, cur) \<leftarrow> rx_omen_count timeout_ms z (load_rx_cursor z);
          if c < 0 then Some (c, store_rx_cursor cur z)
          else if c < 0x22 then Some (ZMODEM_INVALID_HEADER, store_rx_cursor cur z)
          else if ZMAXHLEN < nat (c - 0x22) then Some (ZMODEM_INVALID_HEADER, store_rx_cursor cur z)
          else do {
            let count = nat (c - 0x22) + 1;
            (r, crc, z, cur) \<leftarrow> rx_omen_octets timeout_ms 0 count (- 1) z cur;
            if r < 0 then Some (r, store_rx_cursor cur z)
            else do {
              let crc = NOT (crc32_update crc omen_header_crc_suffix);
              (r, rxd_crc, z, cur) \<leftarrow>
                rx_le_octets (on_cursor (rx_omen_byte_cursor timeout_ms ZMODEM_INVALID_HEADER)) 0 4 0
                  (z, cur);
              let z = store_rx_cursor cur z;
              Some (if r < 0 then (r, z)
                    else if rxd_crc \<noteq> crc then (ZMODEM_INVALID_HEADER, z)
                    else (ZMODEM_OK, z\<lparr>rxd_header_len := count, receive_32_bit_data := True,
                            receive_encoded_data := format,
                            receive_escape8_format := ZMODEM_ESCAPE8_OMEN\<rparr>)) } } }"

definition rx_mobyturbo_header :: "int \<Rightarrow> 'c zmodem \<Rightarrow> (int \<times> 'c zmodem) option" where
  "rx_mobyturbo_header timeout_ms z =
     do { (c, z) \<leftarrow> rx_byte timeout_ms ZMODEM_INVALID_HEADER (z\<lparr>receive_mobyturbo := True\<rparr>);
          if c < 0 then Some (c, z)
          else if nat c < HDRLEN - 1 \<or> ZMAXHLEN < nat c then Some (ZMODEM_INVALID_HEADER, z)
          else do {
            let count = nat c + 1;
            (r, crc, z) \<leftarrow>
              rx_header_octets (rx_byte timeout_ms ZMODEM_INVALID_HEADER) crc32_byte_update 0 count
                (- 1) z;
            if r < 0 then Some (r, z)
            else do {
              let crc = NOT (crc32_update crc omen_header_crc_suffix);
              (r, rxd_crc, z) \<leftarrow> rx_le_octets (rx_byte timeout_ms ZMODEM_INVALID_HEADER) 0 4 0 z;
              Some (if r < 0 then (r, z)
                    else if rxd_crc \<noteq> crc then (ZMODEM_INVALID_HEADER, z)
                    else (ZMODEM_OK, z\<lparr>rxd_header_len := count, receive_32_bit_data := True,
                            receive_encoded_data := ZMODEM_ENCODED_DATA_NONE,
                            receive_escape8_format := ZMODEM_ESCAPE8_NONE\<rparr>)) } } }"

section \<open>Any style of header\<close>

text \<open>
  The innermost loop of \<open>rx_header_raw\<close>: octets up to and including a ZPAD, watching for the
  MobyTurbo probe. It returns the C result, the probe's state, and the protocol state.
\<close>

definition probe_step :: "int \<Rightarrow> nat \<Rightarrow> bool \<Rightarrow> nat \<times> bool" where
  "probe_step c probe_index probe_passed =
     (if word_of_int c = mobyturbo_probe ! probe_index then
        (if probe_index + 1 = length mobyturbo_probe then (0, True)
         else (probe_index + 1, probe_passed))
      else (if word_of_int c = mobyturbo_probe ! 0 then 1 else 0, probe_passed))"

partial_function (option) rx_header_pad ::
  "int \<Rightarrow> nat \<Rightarrow> bool \<Rightarrow> 'c zmodem \<Rightarrow> (int \<times> nat \<times> bool \<times> 'c zmodem) option" where
  "rx_header_pad timeout_ms probe_index probe_passed z =
     do { (c, z) \<leftarrow> rx_raw timeout_ms z;
          if c < 0 then Some (c, probe_index, probe_passed, z)
          else let (probe_index, probe_passed) = probe_step c probe_index probe_passed
               in if c AND 0x7f \<noteq> uint ZPAD then rx_header_pad timeout_ms probe_index probe_passed z
                  else Some (c, probe_index, probe_passed, z) }"

text \<open>\<open>rx_variable_length\<close> followed by the header it announces.\<close>

definition rx_variable_header ::
  "int \<Rightarrow> bool \<Rightarrow> (int \<Rightarrow> nat \<Rightarrow> 'c zmodem \<Rightarrow> (int \<times> 'c zmodem) option) \<Rightarrow> 'c zmodem \<Rightarrow>
   (int \<times> 'c zmodem) option" where
  "rx_variable_header timeout_ms hex header z =
     do { (result, z) \<leftarrow> rx_variable_length timeout_ms hex z;
          if 0 \<le> result then header timeout_ms (nat result) z else Some (result, z) }"

text \<open>The settings that follow a header whether it was valid or not.\<close>

definition data_format ::
  "bool \<Rightarrow> zmodem_encoded_data_format \<Rightarrow> (int \<times> 'c zmodem) option \<Rightarrow> (int \<times> 'c zmodem) option" where
  "data_format bits32 encoded m =
     do { (result, z) \<leftarrow> m;
          Some (result, z\<lparr>receive_32_bit_data := bits32, receive_encoded_data := encoded\<rparr>) }"

text \<open>The switch over the header style; \<open>None\<close> inside for its default case.\<close>

definition rx_header_style ::
  "int \<Rightarrow> int \<Rightarrow> 'c zmodem \<Rightarrow> (int \<times> 'c zmodem) option option" where
  "rx_header_style timeout_ms c z0 =
     (let style = c AND 0x7f; z = z0\<lparr>receive_mobyturbo := False\<rparr>
      in if style = uint ZBINR32ESC8 then Some (rx_omen_header timeout_ms ZMODEM_ENCODED_DATA_RLE z)
         else if style = uint ZBINP7 then Some (rx_omen_header timeout_ms ZMODEM_ENCODED_DATA_PACK7 z)
         else if style = uint ZBINM32 then Some (rx_mobyturbo_header timeout_ms z0)
         else if style = uint ZBIN then
           Some (data_format False ZMODEM_ENCODED_DATA_NONE (rx_bin16_header timeout_ms HDRLEN z))
         else if style = uint ZHEX then
           Some (data_format False ZMODEM_ENCODED_DATA_NONE (rx_hex_header timeout_ms HDRLEN z))
         else if style = uint ZBIN32 then
           Some (data_format True ZMODEM_ENCODED_DATA_NONE (rx_bin32_header timeout_ms HDRLEN z))
         else if style = uint ZBINR32 then
           Some (data_format True ZMODEM_ENCODED_DATA_RLE (rx_bin32_header timeout_ms HDRLEN z))
         else if style = uint ZVBIN then
           Some (data_format False ZMODEM_ENCODED_DATA_NONE
                   (rx_variable_header timeout_ms False rx_bin16_header z))
         else if style = uint ZVHEX then
           Some (data_format False ZMODEM_ENCODED_DATA_NONE
                   (rx_variable_header timeout_ms True rx_hex_header z))
         else if style = uint ZVBIN32 \<or> style = uint ZVBINR32 then
           Some (data_format True (if style = uint ZVBINR32 then ZMODEM_ENCODED_DATA_RLE
                                   else ZMODEM_ENCODED_DATA_NONE)
                   (rx_variable_header timeout_ms False rx_bin32_header z))
         else None)"

text \<open>
  The outer loop. A C \<^verbatim>\<open>continue\<close> goes to the loop's condition, which is \<open>rx_header_more\<close> below:
  another round while no header is stored, else the end of the function.
\<close>

definition rx_header_done :: "bool \<Rightarrow> 'c zmodem \<Rightarrow> (int \<times> 'c zmodem) option" where
  "rx_header_done probe_passed z =
     Some (uint (rxd_header z ! 0), z\<lparr>mobyturbo_probe_passed := probe_passed\<rparr>)"

partial_function (option) rx_header_loop ::
  "int \<Rightarrow> bool \<Rightarrow> nat \<Rightarrow> bool \<Rightarrow> 'c zmodem \<Rightarrow> (int \<times> 'c zmodem) option" where
  "rx_header_loop timeout_ms report_errors probe_index probe_passed z =
     do { (c, probe_index, probe_passed, z) \<leftarrow> rx_header_pad timeout_ms probe_index probe_passed z;
          if c < 0 then Some (c, z)
          else do {
            (c, z) \<leftarrow> rx_raw timeout_ms z;
            if c < 0 then Some (c, z)
            else do {
              (c, z) \<leftarrow> (if c AND 0x7f = uint ZPAD then rx_raw timeout_ms z else Some (c, z));
              if c < 0 then Some (c, z)
              else if c AND 0x7f \<noteq> uint ZDLE then
                (if rxd_header_len z = 0
                 then rx_header_loop timeout_ms report_errors probe_index probe_passed z
                 else rx_header_done probe_passed z)
              else do {
                (c, z) \<leftarrow> rx timeout_ms z;
                if c < 0 then Some (c, z)
                else (case rx_header_style timeout_ms c z of
                  None \<Rightarrow>
                    (if report_errors then Some (ZMODEM_INVALID_HEADER, z)
                     else if rxd_header_len z = 0
                     then rx_header_loop timeout_ms report_errors probe_index probe_passed z
                     else rx_header_done probe_passed z)
                | Some m \<Rightarrow> do {
                    (result, z) \<leftarrow> m;
                    if result = ZMODEM_IO_ERROR \<or> result = ZMODEM_CANCELLED \<or> result = ZMODEM_TIMEOUT
                    then Some (result, z)
                    else if report_errors \<and> rxd_header_len z = 0
                    then Some (ZMODEM_INVALID_HEADER, z)
                    else if rxd_header_len z = 0
                    then rx_header_loop timeout_ms report_errors probe_index probe_passed z
                    else rx_header_done probe_passed z }) } } } }"

definition rx_header_raw :: "int \<Rightarrow> bool \<Rightarrow> 'c zmodem \<Rightarrow> (int \<times> 'c zmodem) option" where
  "rx_header_raw timeout_ms report_errors z =
     rx_header_loop timeout_ms report_errors 0 False
       (z\<lparr>rxd_header_len := 0, mobyturbo_probe_passed := False\<rparr>)"

definition rx_header :: "int \<Rightarrow> 'c zmodem \<Rightarrow> (int \<times> 'c zmodem) option" where
  "rx_header timeout_ms = rx_header_raw timeout_ms False"

partial_function (option) rx_header_and_check ::
  "int \<Rightarrow> 'c zmodem \<Rightarrow> (int \<times> 'c zmodem) option" where
  "rx_header_and_check timeout_ms z =
     do { (type, z) \<leftarrow> rx_header_raw timeout_ms True z;
          if type \<noteq> ZMODEM_INVALID_HEADER then Some (type, z)
          else let (r, z) = tx_znak z
               in if r \<noteq> 0 then Some (ZMODEM_IO_ERROR, z) else rx_header_and_check timeout_ms z }"

end
