(* ===== verification/Crc_Correct.thy ===== *)
theory Crc_Correct
  imports Crctab
begin

text \<open>
  What the CRC tables mean. The reference definitions are the bit-serial shift registers of
  the two polynomials; the tables hold eight register steps for every byte, the slicing
  tables two to eight bytes' worth, and the sliced \<open>crc32_update\<close> equals the byte-serial
  loop. Since a register step is linear and injective, an error confined to one register
  width always changes the checksum.
\<close>

section \<open>The bit-serial registers\<close>

definition crc32_shift :: "u32 \<Rightarrow> u32" where
  "crc32_shift c = drop_bit 1 c XOR (if bit c 0 then 0xedb88320 else 0)"

definition crc32_shift8 :: "u32 \<Rightarrow> u32" where
  "crc32_shift8 c = (crc32_shift ^^ 8) c"

definition crc16_shift :: "u16 \<Rightarrow> u16" where
  "crc16_shift c = push_bit 1 c XOR (if bit c 15 then 0x1021 else 0)"

definition crc16_shift8 :: "u16 \<Rightarrow> u16" where
  "crc16_shift8 c = (crc16_shift ^^ 8) c"

definition lin :: "('a::len word \<Rightarrow> 'b::len word) \<Rightarrow> bool" where
  "lin f \<longleftrightarrow> (\<forall>x y. f (x XOR y) = f x XOR f y)"

lemma linD: "lin f \<Longrightarrow> f (x XOR y) = f x XOR f y"
  by (simp add: lin_def)

lemma lin_0: "lin f \<Longrightarrow> f 0 = 0"
  using linD [of f 0 0] by simp

lemma lin_funpow: "lin f \<Longrightarrow> lin (f ^^ n)" for f :: "'a::len word \<Rightarrow> 'a word"
  by (induction n) (simp_all add: lin_def)

lemma drop_bit_xor_word: "drop_bit n (x XOR y) = drop_bit n x XOR drop_bit n (y :: 'a::len word)"
  by (rule bit_word_eqI) (auto simp: bit_simps)

lemma lin_crc32_shift: "lin crc32_shift"
  by (auto simp: lin_def crc32_shift_def bit_xor_iff drop_bit_xor_word ac_simps
        xor.left_commute)

lemma lin_crc16_shift: "lin crc16_shift"
  by (auto simp: lin_def crc16_shift_def bit_xor_iff push_bit_xor ac_simps xor.left_commute)

lemma lin_crc32_shift8: "lin crc32_shift8"
  unfolding crc32_shift8_def [abs_def] by (rule lin_funpow [OF lin_crc32_shift])

lemma lin_crc16_shift8: "lin crc16_shift8"
  unfolding crc16_shift8_def [abs_def] by (rule lin_funpow [OF lin_crc16_shift])

lemma lin_comp: "lin f \<Longrightarrow> lin g \<Longrightarrow> lin (f \<circ> g)"
  by (simp add: lin_def)

section \<open>Linear tables\<close>

text \<open>The table of a linear map is spanned by its values on the powers of two, given with the
  highest power first.\<close>

fun span_table :: "'a::len word list \<Rightarrow> 'a word list" where
  "span_table [] = [0]"
| "span_table (b # bs) = (let t = span_table bs in t @ map (\<lambda>x. b XOR x) t)"

lemma map_span_table: "lin f \<Longrightarrow> map f (span_table bs) = span_table (map f bs)"
proof (induction bs)
  case (Cons b bs)
  have "map f (map (\<lambda>x. b XOR x) (span_table bs)) = map (\<lambda>x. f b XOR x) (map f (span_table bs))"
    using Cons.prems by (simp add: linD)
  then show ?case using Cons by (simp add: Let_def)
qed (simp add: lin_0)

definition byte_basis :: "'a::len word list" where
  "byte_basis = [0x80, 0x40, 0x20, 0x10, 8, 4, 2, 1]"

lemma span_byte_basis32: "span_table byte_basis = map (\<lambda>b. ucast b :: u32) all_bytes"
  by (simp add: byte_basis_def all_bytes_def upt_conv_Cons)

lemma crc32_shift8_unroll:
  "crc32_shift8 c = crc32_shift (crc32_shift (crc32_shift (crc32_shift
     (crc32_shift (crc32_shift (crc32_shift (crc32_shift c)))))))"
  by (simp add: crc32_shift8_def numeral_eq_Suc)

lemma crc16_shift8_unroll:
  "crc16_shift8 c = crc16_shift (crc16_shift (crc16_shift (crc16_shift
     (crc16_shift (crc16_shift (crc16_shift (crc16_shift c)))))))"
  by (simp add: crc16_shift8_def numeral_eq_Suc)

lemma crc32tab_span: "crc32tab = span_table (map crc32_shift8 byte_basis)"
  by (simp add: crc32tab_def byte_basis_def crc32_shift8_unroll crc32_shift_def)

lemma crc32_slicing_0_span:
  "crc32_slicing_0 = span_table (map crc32_shift8 (map crc32_shift8 byte_basis))"
  by (simp add: crc32_slicing_0_def byte_basis_def crc32_shift8_unroll crc32_shift_def)

lemma crc32_slicing_1_span:
  "crc32_slicing_1 = span_table (map crc32_shift8 (map crc32_shift8 (map crc32_shift8 byte_basis)))"
  by (simp add: crc32_slicing_1_def byte_basis_def crc32_shift8_unroll crc32_shift_def)

lemma crc32_slicing_2_span:
  "crc32_slicing_2 = span_table (map crc32_shift8 (map crc32_shift8 (map crc32_shift8 (map crc32_shift8 byte_basis))))"
  by (simp add: crc32_slicing_2_def byte_basis_def crc32_shift8_unroll crc32_shift_def)

lemma crc32_slicing_3_span:
  "crc32_slicing_3 = span_table (map crc32_shift8 (map crc32_shift8 (map crc32_shift8 (map crc32_shift8 (map crc32_shift8 byte_basis)))))"
  by (simp add: crc32_slicing_3_def byte_basis_def crc32_shift8_unroll crc32_shift_def)

lemma crc32_slicing_4_span:
  "crc32_slicing_4 = span_table (map crc32_shift8 (map crc32_shift8 (map crc32_shift8 (map crc32_shift8 (map crc32_shift8 (map crc32_shift8 byte_basis))))))"
  by (simp add: crc32_slicing_4_def byte_basis_def crc32_shift8_unroll crc32_shift_def)

lemma crc32_slicing_5_span:
  "crc32_slicing_5 = span_table (map crc32_shift8 (map crc32_shift8 (map crc32_shift8 (map crc32_shift8 (map crc32_shift8 (map crc32_shift8 (map crc32_shift8 byte_basis)))))))"
  by (simp add: crc32_slicing_5_def byte_basis_def crc32_shift8_unroll crc32_shift_def)

lemma crc32_slicing_6_span:
  "crc32_slicing_6 = span_table (map crc32_shift8 (map crc32_shift8 (map crc32_shift8 (map crc32_shift8 (map crc32_shift8 (map crc32_shift8 (map crc32_shift8 (map crc32_shift8 byte_basis))))))))"
  by (simp add: crc32_slicing_6_def byte_basis_def crc32_shift8_unroll crc32_shift_def)

lemma crc16tab_span: "crc16tab = span_table (map (\<lambda>x. crc16_shift8 (push_bit 8 x)) byte_basis)"
  by (simp add: crc16tab_def byte_basis_def crc16_shift8_unroll crc16_shift_def)

section \<open>Table entries\<close>

lemma crc32_shift_even: "\<not> bit x 0 \<Longrightarrow> crc32_shift x = drop_bit 1 x"
  by (simp add: crc32_shift_def)

lemma crc32_shift_zeros: "\<forall>i<n. \<not> bit x i \<Longrightarrow> (crc32_shift ^^ n) x = drop_bit n x"
proof (induction n)
  case (Suc n)
  then have "(crc32_shift ^^ Suc n) x = crc32_shift (drop_bit n x)" by simp
  also have "\<dots> = drop_bit (Suc n) x"
    using Suc.prems by (subst crc32_shift_even) (auto simp: bit_simps)
  finally show ?case .
qed simp

lemma crc16_shift_zeros:
  "\<forall>i<n. \<not> bit x (15 - i) \<Longrightarrow> n \<le> 16 \<Longrightarrow> (crc16_shift ^^ n) x = push_bit n x"
proof (induction n)
  case (Suc n)
  then have "(crc16_shift ^^ Suc n) x = crc16_shift (push_bit n x)" by simp
  also have "\<dots> = push_bit (Suc n) x"
    using Suc.prems by (simp add: crc16_shift_def bit_push_bit_iff)
  finally show ?case .
qed simp

lemma low_high_split: "x = ucast (ucast x :: u8) XOR push_bit 8 (drop_bit 8 x)" for x :: "'a::len word"
  by (rule bit_word_eqI) (auto simp: bit_simps)

lemma crc32_shift8_split: "crc32_shift8 x = crc32_shift8 (ucast (ucast x :: u8)) XOR drop_bit 8 x"
proof -
  have "crc32_shift8 (push_bit 8 (drop_bit 8 x)) = drop_bit 8 (push_bit 8 (drop_bit 8 x))"
    unfolding crc32_shift8_def by (rule crc32_shift_zeros) (simp add: bit_simps)
  also have "\<dots> = drop_bit 8 x"
    by (rule bit_word_eqI) (auto simp: bit_simps dest: bit_imp_le_length)
  finally have "crc32_shift8 (push_bit 8 (drop_bit 8 x)) = drop_bit 8 x" .
  then show ?thesis
    using linD [OF lin_crc32_shift8] low_high_split [of x] by metis
qed

lemma crc16_shift8_split:
  "crc16_shift8 x = crc16_shift8 (push_bit 8 (ucast (ucast (drop_bit 8 x) :: u8))) XOR push_bit 8 x"
proof -
  have x: "x = push_bit 8 (ucast (ucast (drop_bit 8 x) :: u8)) XOR take_bit 8 x"
    by (rule bit_word_eqI) (auto simp: bit_simps)
  have "crc16_shift8 (take_bit 8 x) = push_bit 8 (take_bit 8 x)"
    unfolding crc16_shift8_def by (rule crc16_shift_zeros) (auto simp: bit_simps)
  also have "\<dots> = push_bit 8 x"
    by (rule bit_word_eqI) (auto simp: bit_simps)
  finally have "crc16_shift8 (take_bit 8 x) = push_bit 8 x" .
  then show ?thesis
    using linD [OF lin_crc16_shift8] x by metis
qed

lemma unat_byte_less [simp]: "unat (b :: u8) < 256"
proof -
  have "unat b < 2 ^ LENGTH(8)" by (rule unsigned_less)
  then show ?thesis by simp
qed

lemma all_bytes_nth: "all_bytes ! unat b = b" and length_all_bytes: "length all_bytes = 256"
  by (simp_all add: all_bytes_def)

lemma span_byte_basis16: "span_table byte_basis = map (\<lambda>b. ucast b :: u16) all_bytes"
  by (simp add: byte_basis_def all_bytes_def upt_conv_Cons)

lemma span_nth32:
  "lin f \<Longrightarrow> span_table (map f byte_basis) ! unat (b :: u8) = f (ucast b :: u32)"
  by (simp add: span_byte_basis32 all_bytes_nth length_all_bytes flip: map_span_table)

lemma crc32tab_nth: "crc32tab ! unat (b :: u8) = crc32_shift8 (ucast b)"
  unfolding crc32tab_span by (rule span_nth32 [OF lin_crc32_shift8])

lemma crc16tab_nth: "crc16tab ! unat (b :: u8) = crc16_shift8 (push_bit 8 (ucast b))"
proof -
  have l: "lin (\<lambda>x. crc16_shift8 (push_bit 8 x))"
    using lin_crc16_shift8 by (simp add: lin_def push_bit_xor)
  show ?thesis
    unfolding crc16tab_span
    by (simp add: span_byte_basis16 all_bytes_nth length_all_bytes flip: map_span_table [OF l])
qed

lemma lin_shift8_pow: "lin (crc32_shift8 ^^ n)"
  by (rule lin_funpow [OF lin_crc32_shift8])

lemma map_funpow_Suc: "map f (map (f ^^ n) xs) = map (f ^^ Suc n) xs"
  by simp

lemma crc32_slicing_nth:
  "crc32_slicing_0 ! unat (b :: u8) = (crc32_shift8 ^^ 2) (ucast b)"
  "crc32_slicing_1 ! unat b = (crc32_shift8 ^^ 3) (ucast b)"
  "crc32_slicing_2 ! unat b = (crc32_shift8 ^^ 4) (ucast b)"
  "crc32_slicing_3 ! unat b = (crc32_shift8 ^^ 5) (ucast b)"
  "crc32_slicing_4 ! unat b = (crc32_shift8 ^^ 6) (ucast b)"
  "crc32_slicing_5 ! unat b = (crc32_shift8 ^^ 7) (ucast b)"
  "crc32_slicing_6 ! unat b = (crc32_shift8 ^^ 8) (ucast b)"
  using span_nth32 [OF lin_shift8_pow [of 2], of b] span_nth32 [OF lin_shift8_pow [of 3], of b]
    span_nth32 [OF lin_shift8_pow [of 4], of b] span_nth32 [OF lin_shift8_pow [of 5], of b]
    span_nth32 [OF lin_shift8_pow [of 6], of b] span_nth32 [OF lin_shift8_pow [of 7], of b]
    span_nth32 [OF lin_shift8_pow [of 8], of b]
  unfolding crc32_slicing_0_span crc32_slicing_1_span crc32_slicing_2_span crc32_slicing_3_span
    crc32_slicing_4_span crc32_slicing_5_span crc32_slicing_6_span
  by (simp_all add: numeral_eq_Suc o_def)

lemma unat_and_255: "unat (x AND 0xff) = unat (ucast x :: u8)" for x :: "'a::len word"
proof -
  have "(0xff :: 'a word) = mask 8" by (simp add: mask_eq_exp_minus_1)
  then have "x AND 0xff = take_bit 8 x" by (simp add: take_bit_eq_mask)
  then show ?thesis by (simp add: unsigned_take_bit_eq unsigned_ucast_eq)
qed

lemma crc32_byte_update_shift: "crc32_byte_update crc b = crc32_shift8 (crc XOR ucast b)"
proof -
  have h: "drop_bit 8 (ucast b :: u32) = 0"
    by (rule bit_word_eqI) (auto simp: bit_simps dest: bit_imp_le_length)
  show ?thesis
    unfolding crc32_byte_update_def Let_def unat_and_255 crc32tab_nth
    by (subst crc32_shift8_split [of "crc XOR ucast b"]) (simp add: h)
qed

lemma crc16_update_shift: "crc16_update crc b = crc16_shift8 crc XOR ucast b"
  unfolding crc16_update_def Let_def unat_and_255 crc16tab_nth
  by (subst crc16_shift8_split [of crc]) (simp add: xor.assoc)


lemma ucast_ucast_drop:
  "ucast (ucast crc :: u8) XOR push_bit 8 (ucast (ucast (drop_bit 8 crc) :: u8)) XOR
   push_bit 16 (ucast (ucast (drop_bit 16 crc) :: u8)) XOR
   push_bit 24 (ucast (ucast (drop_bit 24 crc) :: u8)) = (crc :: u32)" (is "?l = _")
proof (rule bit_word_eqI)
  fix n assume "n < LENGTH(32)"
  then consider "n < 8" | "8 \<le> n" "n < 16" | "16 \<le> n" "n < 24" | "24 \<le> n" "n < 32" by force
  then show "bit ?l n = bit crc n"
    by cases (auto simp: bit_simps)
qed

lemma or_bytes_xor:
  "ucast (b0 :: u8) OR push_bit 8 (ucast (b1 :: u8)) OR push_bit 16 (ucast (b2 :: u8)) OR
     push_bit 24 (ucast (b3 :: u8)) =
   (ucast b0 XOR push_bit 8 (ucast b1) XOR push_bit 16 (ucast b2) XOR push_bit 24 (ucast b3) :: u32)"
  (is "?l = ?r")
proof (rule bit_word_eqI)
  fix n assume "n < LENGTH(32)"
  then consider "n < 8" | "8 \<le> n" "n < 16" | "16 \<le> n" "n < 24" | "24 \<le> n" "n < 32" by force
  then show "bit ?l n = bit ?r n"
    by cases (auto simp: bit_simps dest: bit_imp_le_length)
qed

lemma shift8_push:
  "crc32_shift8 (push_bit 8 (ucast (b :: u8))) = ucast b"
  "crc32_shift8 (push_bit 16 (ucast b)) = push_bit 8 (ucast b)"
  "crc32_shift8 (push_bit 24 (ucast b)) = push_bit 16 (ucast b)"
  unfolding crc32_shift8_def
  by (subst crc32_shift_zeros, force simp: bit_simps,
      rule bit_word_eqI, force simp: bit_simps dest: bit_imp_le_length)+

text \<open>Eight register-byte steps of the combined word are what the eight tables add up to.\<close>

lemma crc32_reduced_fold: "crc32_update_reduced crc data = foldl (\<lambda>c b. crc32_shift8 (c XOR ucast b)) crc data"
  by (induction data arbitrary: crc) (simp_all add: crc32_byte_update_shift)

lemmas lin8 = linD [OF lin_crc32_shift8]


lemma funpow_4: "(f ^^ 4) x = f (f (f (f x)))"
  by (simp add: numeral_eq_Suc)

lemma funpow_8: "(f ^^ 8) x = f (f (f (f (f (f (f (f x)))))))"
  by (simp add: numeral_eq_Suc)

lemma funpow_2: "(f ^^ 2) x = f (f x)" and funpow_3: "(f ^^ 3) x = f (f (f x))"
  by (simp_all add: numeral_eq_Suc)

lemma crc32_four_bytes:
  fixes d0 d1 d2 d3 :: u8 and c :: u32
  defines "x \<equiv> c XOR (ucast d0 OR push_bit 8 (ucast d1) OR push_bit 16 (ucast d2) OR push_bit 24 (ucast d3))"
  shows "crc32_shift8 (crc32_shift8 (crc32_shift8 (crc32_shift8 (c XOR ucast d0) XOR ucast d1)
           XOR ucast d2) XOR ucast d3) = (crc32_shift8 ^^ 4) x"
  unfolding x_def or_bytes_xor funpow_4 by (simp only: lin8 shift8_push ac_simps)

lemma crc32_word_split:
  "(crc32_shift8 ^^ Suc (Suc (Suc (Suc n)))) x =
     (crc32_shift8 ^^ Suc (Suc (Suc (Suc n)))) (ucast (ucast x :: u8)) XOR
     (crc32_shift8 ^^ Suc (Suc (Suc n))) (ucast (ucast (drop_bit 8 x) :: u8)) XOR
     (crc32_shift8 ^^ Suc (Suc n)) (ucast (ucast (drop_bit 16 x) :: u8)) XOR
     (crc32_shift8 ^^ Suc n) (ucast (ucast (drop_bit 24 x) :: u8))"
  by (subst ucast_ucast_drop [symmetric, of x], simp only: linD [OF lin_shift8_pow], simp add: funpow_swap1 shift8_push)


lemma foldl8: "8 \<le> length xs \<Longrightarrow> foldl f a xs =
   foldl f (f (f (f (f (f (f (f (f a (xs ! 0)) (xs ! 1)) (xs ! 2)) (xs ! 3)) (xs ! 4)) (xs ! 5)) (xs ! 6)) (xs ! 7)) (drop 8 xs)"
  by (auto simp: Suc_le_length_iff numeral_eq_Suc)

lemma crc32_word_split8:
  "(crc32_shift8 ^^ 8) x =
     (crc32_shift8 ^^ 8) (ucast (ucast x :: u8)) XOR
     (crc32_shift8 ^^ 7) (ucast (ucast (drop_bit 8 x) :: u8)) XOR
     (crc32_shift8 ^^ 6) (ucast (ucast (drop_bit 16 x) :: u8)) XOR
     (crc32_shift8 ^^ 5) (ucast (ucast (drop_bit 24 x) :: u8))"
  using crc32_word_split [of 4 x] by (simp add: eval_nat_numeral del: funpow.simps)

lemma crc32_slicing_tables:
  "crc32_slicing ! 0 = crc32_slicing_0" "crc32_slicing ! 1 = crc32_slicing_1"
  "crc32_slicing ! 2 = crc32_slicing_2" "crc32_slicing ! 3 = crc32_slicing_3"
  "crc32_slicing ! 4 = crc32_slicing_4" "crc32_slicing ! 5 = crc32_slicing_5"
  "crc32_slicing ! 6 = crc32_slicing_6"
  by (simp_all add: crc32_slicing_def)

lemma unat_ucast_u8_u32: "unat (ucast (b :: u8) :: u32) = unat b"
  by (simp add: unsigned_ucast_eq take_bit_nat_eq_self less_trans [OF unat_byte_less])

lemma unat_ucast_u8_u16: "unat (ucast (b :: u8) :: u16) = unat b"
  by (simp add: unsigned_ucast_eq take_bit_nat_eq_self less_trans [OF unat_byte_less])

lemma crc32_slice_step_serial:
  fixes crc :: u32
  assumes "8 \<le> length data"
  defines "f \<equiv> \<lambda>c b. crc32_shift8 (c XOR ucast (b :: u8))"
  shows "crc32_slice_step crc data =
    f (f (f (f (f (f (f (f crc (data ! 0)) (data ! 1)) (data ! 2)) (data ! 3)) (data ! 4)) (data ! 5))
       (data ! 6)) (data ! 7)"
proof -
  define x where "x = crc XOR (ucast (data ! 0) OR push_bit 8 (ucast (data ! 1)) OR
                  push_bit 16 (ucast (data ! 2)) OR push_bit 24 (ucast (data ! 3)))"
  have top: "unat (drop_bit 24 x) = unat (ucast (drop_bit 24 x) :: u8)"
  proof -
    have "drop_bit 24 x = ucast (ucast (drop_bit 24 x) :: u8)"
      by (rule bit_word_eqI) (auto simp: bit_simps dest: bit_imp_le_length)
    then show ?thesis by (metis unat_ucast_u8_u32)
  qed
  have "crc32_slice_step crc data =
     (crc32_shift8 ^^ 8) x XOR ((crc32_shift8 ^^ 4) (ucast (data ! 4)) XOR
       (crc32_shift8 ^^ 3) (ucast (data ! 5)) XOR (crc32_shift8 ^^ 2) (ucast (data ! 6)) XOR
       crc32_shift8 (ucast (data ! 7)))"
    unfolding crc32_slice_step_def Let_def x_def [symmetric] unat_and_255 top
      crc32_slicing_tables crc32_slicing_nth crc32tab_nth
    by (subst crc32_word_split8 [of x]) (simp only: xor.assoc)
  also have "\<dots> = f (f (f (f ((crc32_shift8 ^^ 4) x) (data ! 4)) (data ! 5)) (data ! 6)) (data ! 7)"
    unfolding f_def funpow_8 funpow_4 funpow_3 funpow_2 lin8 by (simp only: ac_simps)
  also have "(crc32_shift8 ^^ 4) x = f (f (f (f crc (data ! 0)) (data ! 1)) (data ! 2)) (data ! 3)"
    unfolding f_def x_def crc32_four_bytes ..
  finally show ?thesis .
qed

lemma crc32_update_serial: "crc32_update crc data = crc32_update_reduced crc data"
proof (induction crc data rule: crc32_update.induct)
  case (1 crc data)
  show ?case
  proof (cases "8 \<le> length data")
    case True
    with 1 have "crc32_update crc data = crc32_update_reduced (crc32_slice_step crc data) (drop 8 data)"
      by (simp add: crc32_update.simps [of crc data])
    also have "\<dots> = crc32_update_reduced crc data"
      unfolding crc32_reduced_fold crc32_slice_step_serial [OF True] by (rule foldl8 [OF True, symmetric])
    finally show ?thesis .
  qed (simp add: crc32_update.simps [of crc data])
qed


section \<open>Injectivity and burst errors\<close>

lemma lin_inj:
  assumes "lin f" and "\<And>x. f x = 0 \<Longrightarrow> x = 0" shows "f x = f y \<longleftrightarrow> x = y"
proof
  assume "f x = f y"
  then have "f (x XOR y) = 0" using linD [OF assms(1)] by simp
  then have "x XOR y = 0" by (rule assms(2))
  then show "x = y" by (metis xor.assoc xor.left_neutral xor.right_neutral xor_self_eq)
qed simp

lemma crc32_shift_eq_0: "crc32_shift x = 0 \<Longrightarrow> x = 0"
proof (cases "bit x 0")
  case True
  assume "crc32_shift x = 0"
  then have "bit (crc32_shift x) 31 = False" by simp
  moreover have "\<not> bit x 32" using bit_imp_le_length [of x 32] by auto
  ultimately show ?thesis using True by (simp add: crc32_shift_def bit_simps)
next
  case False
  assume "crc32_shift x = 0"
  with False have d: "drop_bit 1 x = 0" by (simp add: crc32_shift_def)
  show ?thesis
  proof (rule bit_word_eqI)
    fix n show "bit x n = bit 0 n"
    proof (cases n)
      case 0 with False show ?thesis by simp
    next
      case (Suc m)
      have "bit (drop_bit 1 x) m = False" using d by simp
      with Suc show ?thesis by (simp add: bit_drop_bit_eq)
    qed
  qed
qed

lemma crc16_shift_eq_0: "crc16_shift x = 0 \<Longrightarrow> x = 0"
proof (cases "bit x 15")
  case True
  assume "crc16_shift x = 0"
  then have "bit (crc16_shift x) 0 = False" by simp
  moreover have "\<not> bit (push_bit 1 x) 0" by (simp only: bit_push_bit_iff) simp
  ultimately show ?thesis using True by (simp add: crc16_shift_def bit_xor_iff)
next
  case False
  assume "crc16_shift x = 0"
  with False have d: "push_bit 1 x = 0" by (simp add: crc16_shift_def)
  show ?thesis
  proof (rule bit_word_eqI)
    fix n assume n: "n < LENGTH(16)"
    have "\<not> bit (push_bit 1 x) (Suc n)" unfolding d by simp
    then have "n = 15 \<or> \<not> bit x n" using n unfolding bit_push_bit_iff by auto
    with False show "bit x n = bit 0 n" by auto
  qed
qed

lemma funpow_eq_0: "(\<And>x. f x = 0 \<Longrightarrow> x = 0) \<Longrightarrow> (f ^^ n) x = 0 \<Longrightarrow> x = 0"
  for f :: "'a::len word \<Rightarrow> 'a word"
  by (induction n) auto

lemma crc32_shift8_inj: "crc32_shift8 x = crc32_shift8 y \<longleftrightarrow> x = y"
  by (rule lin_inj [OF lin_crc32_shift8])
     (auto simp: crc32_shift8_def intro: funpow_eq_0 [of crc32_shift, OF crc32_shift_eq_0])

lemma crc32_shift8_pow_inj: "(crc32_shift8 ^^ n) x = (crc32_shift8 ^^ n) y \<longleftrightarrow> x = y"
  by (induction n) (simp_all add: crc32_shift8_inj)

lemma crc16_shift8_inj: "crc16_shift8 x = crc16_shift8 y \<longleftrightarrow> x = y"
  by (rule lin_inj [OF lin_crc16_shift8])
     (auto simp: crc16_shift8_def intro: funpow_eq_0 [of crc16_shift, OF crc16_shift_eq_0])

lemma xor_cancel_right: "x XOR z = y XOR z \<longleftrightarrow> x = y" for x :: "'a::len word"
  by (metis xor.assoc xor.right_neutral xor_self_eq)

lemma xor_cancel_left: "z XOR x = z XOR y \<longleftrightarrow> x = y" for x :: "'a::len word"
  by (simp add: xor_cancel_right xor.commute [of z])

lemma ucast_up_inj:
  "(ucast (x :: u8) :: u32) = ucast y \<longleftrightarrow> x = y" "(ucast (x :: u8) :: u16) = ucast y \<longleftrightarrow> x = y"
proof -
  show "(ucast x :: u32) = ucast y \<longleftrightarrow> x = y"
    by (metis unat_ucast_u8_u32 unsigned_word_eqI)
  show "(ucast x :: u16) = ucast y \<longleftrightarrow> x = y"
    by (metis unat_ucast_u8_u16 unsigned_word_eqI)
qed

lemma crc32_reduced_append:
  "crc32_update_reduced c (xs @ ys) = crc32_update_reduced (crc32_update_reduced c xs) ys"
  by (induction xs arbitrary: c) simp_all

lemma crc16_buffer_append:
  "crc16_buffer_update c (xs @ ys) = crc16_buffer_update (crc16_buffer_update c xs) ys"
  by (induction xs arbitrary: c) simp_all

lemma crc32_reduced_inj_crc:
  "crc32_update_reduced c xs = crc32_update_reduced c' xs \<longleftrightarrow> c = c'"
  by (induction xs arbitrary: c c')
     (simp_all add: crc32_byte_update_shift crc32_shift8_inj xor_cancel_right)

lemma crc16_buffer_inj_crc:
  "crc16_buffer_update c xs = crc16_buffer_update c' xs \<longleftrightarrow> c = c'"
  by (induction xs arbitrary: c c')
     (simp_all add: crc16_update_shift crc16_shift8_inj xor_cancel_right)

lemma or_bytes_inj:
  assumes "(ucast (a0 :: u8) OR push_bit 8 (ucast (a1 :: u8)) OR push_bit 16 (ucast (a2 :: u8)) OR
      push_bit 24 (ucast (a3 :: u8)) :: u32) =
     ucast (b0 :: u8) OR push_bit 8 (ucast (b1 :: u8)) OR push_bit 16 (ucast (b2 :: u8)) OR
      push_bit 24 (ucast (b3 :: u8))" (is "?a = ?b")
  shows "a0 = b0 \<and> a1 = b1 \<and> a2 = b2 \<and> a3 = b3"
proof -
  have b: "bit ?a n = bit ?b n" for n using assms by simp
  have "bit a0 n = bit b0 n" if "n < 8" for n
    using b [of n] that by (simp add: bit_simps)
  moreover have "bit a1 n = bit b1 n" if "n < 8" for n
    using b [of "8 + n"] that by (auto simp: bit_simps dest: bit_imp_le_length)
  moreover have "bit a2 n = bit b2 n" if "n < 8" for n
    using b [of "16 + n"] that by (auto simp: bit_simps dest: bit_imp_le_length)
  moreover have "bit a3 n = bit b3 n" if "n < 8" for n
    using b [of "24 + n"] that by (auto simp: bit_simps dest: bit_imp_le_length)
  ultimately show ?thesis by (auto intro!: bit_word_eqI)
qed

lemma crc32_four_inj:
  assumes "length xs = 4" "length ys = 4"
    and "crc32_update_reduced c xs = crc32_update_reduced c ys"
  shows "xs = ys"
proof -
  obtain a0 a1 a2 a3 b0 b1 b2 b3 where xy: "xs = [a0, a1, a2, a3]" "ys = [b0, b1, b2, b3]"
    using assms(1,2) by (auto simp: length_Suc_conv numeral_eq_Suc)
  show ?thesis
    using assms(3) or_bytes_inj
    unfolding xy crc32_reduced_fold foldl.simps crc32_four_bytes crc32_shift8_pow_inj xor_cancel_left
    by blast
qed

lemma crc32_burst_inj:
  assumes "length xs = length ys" "length xs \<le> 4"
    and "crc32_update_reduced c (u @ xs @ v) = crc32_update_reduced c (u @ ys @ v)"
  shows "xs = ys"
proof -
  let ?c = "crc32_update_reduced c u" and ?z = "replicate (4 - length xs) (0 :: u8)"
  have "crc32_update_reduced ?c xs = crc32_update_reduced ?c ys"
    using assms(3) by (simp add: crc32_reduced_append crc32_reduced_inj_crc)
  then have "crc32_update_reduced ?c (xs @ ?z) = crc32_update_reduced ?c (ys @ ?z)"
    by (simp add: crc32_reduced_append)
  then have "xs @ ?z = ys @ ?z"
    using assms(1,2) by (intro crc32_four_inj [of _ _ ?c]) auto
  then show ?thesis by simp
qed

lemma crc16_two_bytes: "crc16_buffer_update c [a, b] = crc16_shift8 (crc16_shift8 c) XOR (push_bit 8 (ucast a) XOR ucast b)"
proof -
  have "crc16_shift8 (ucast a) = push_bit 8 (ucast a)"
    unfolding crc16_shift8_def
    by (rule crc16_shift_zeros) (auto simp: bit_simps dest!: bit_imp_le_length)
  then show ?thesis
    by (simp add: crc16_update_shift linD [OF lin_crc16_shift8] xor.assoc)
qed

lemma crc16_burst_inj:
  assumes "length xs = length ys" "length xs \<le> 2"
    and "crc16_buffer_update c (u @ xs @ v) = crc16_buffer_update c (u @ ys @ v)"
  shows "xs = ys"
proof -
  let ?c = "crc16_buffer_update c u" and ?z = "replicate (2 - length xs) (0 :: u8)"
  have two: "[a, b] = [a', b']" if "crc16_buffer_update ?c [a, b] = crc16_buffer_update ?c [a', b']" for a b a' b'
  proof -
    have "push_bit 8 (ucast a) XOR ucast b = (push_bit 8 (ucast a') XOR ucast b' :: u16)"
      using that unfolding crc16_two_bytes by (simp add: xor_cancel_left)
    then have e: "bit (push_bit 8 (ucast a) XOR ucast b :: u16) n = bit (push_bit 8 (ucast a') XOR ucast b' :: u16) n" for n
      by simp
    have "bit b n = bit b' n" if "n < 8" for n
      using e [of n] that by (auto simp: bit_simps)
    moreover have "bit a n = bit a' n" if "n < 8" for n
      using e [of "8 + n"] that by (auto simp: bit_simps dest: bit_imp_le_length)
    ultimately show ?thesis by (auto intro!: bit_word_eqI)
  qed
  have "crc16_buffer_update ?c xs = crc16_buffer_update ?c ys"
    using assms(3) by (simp add: crc16_buffer_append crc16_buffer_inj_crc)
  then have z: "crc16_buffer_update ?c (xs @ ?z) = crc16_buffer_update ?c (ys @ ?z)"
    by (simp add: crc16_buffer_append)
  have len2: "\<exists>a b. zs = [a, b]" if "length zs = 2" for zs :: "u8 list"
    using that by (auto simp: length_Suc_conv numeral_eq_Suc)
  have "length (xs @ ?z) = 2" "length (ys @ ?z) = 2" using assms(1,2) by auto
  then obtain a b a' b' where "xs @ ?z = [a, b]" "ys @ ?z = [a', b']"
    using len2 by meson
  then show ?thesis using z two by (metis append_same_eq)
qed

section \<open>Properties of the checksums\<close>

text \<open>C23: The CRC-32 update of \<^verbatim>\<open>crctab.c\<close>, which combines eight tables for every eight octets, is for
  every start value and every input the bit-serial shift register of the polynomial 0xedb88320.\<close>

theorem crc32_update_is_bit_serial:
  "crc32_update crc data = foldl (\<lambda>c b. (crc32_shift ^^ 8) (c XOR ucast b)) crc data"
  unfolding crc32_update_serial crc32_reduced_fold crc32_shift8_def ..

text \<open>C24: The table-driven CRC-16 is the bit-serial register of the polynomial 0x1021, fed with the
  octets at its low end; the two zero octets that the callers append flush it.\<close>

theorem crc16_update_is_bit_serial:
  "crc16_buffer_update crc data = foldl (\<lambda>c b. (crc16_shift ^^ 8) c XOR ucast b) crc data"
  by (induction data arbitrary: crc) (simp_all add: crc16_update_shift crc16_shift8_def)

text \<open>C25: A CRC-32 never misses an error confined to at most four consecutive octets, wherever the
  damaged octets are and whatever surrounds them.\<close>

theorem crc32_detects_bursts:
  assumes "length good = length bad" and "length good \<le> 4" and "good \<noteq> bad"
  shows "crc32_update crc (before @ good @ after) \<noteq> crc32_update crc (before @ bad @ after)"
  using crc32_burst_inj [OF assms(1,2)] assms(3) unfolding crc32_update_serial by blast

theorem crc32_detects_bursts_witness:
  "crc32_update (- 1) ([1, 2] @ [3] @ [4]) \<noteq> crc32_update (- 1) ([1, 2] @ [7] @ [4])"
  by (rule crc32_detects_bursts) simp_all

text \<open>C26: A CRC-16 never misses an error confined to at most two consecutive octets.\<close>

theorem crc16_detects_bursts:
  assumes "length good = length bad" and "length good \<le> 2" and "good \<noteq> bad"
  shows "crc16_buffer_update crc (before @ good @ after) \<noteq>
         crc16_buffer_update crc (before @ bad @ after)"
  using crc16_burst_inj [OF assms(1,2)] assms(3) by blast

theorem crc16_detects_bursts_witness:
  "crc16_buffer_update 0 ([1, 2] @ [3] @ [4]) \<noteq> crc16_buffer_update 0 ([1, 2] @ [7] @ [4])"
  by (rule crc16_detects_bursts) simp_all

end
