(* ===== verification/Spans.thy ===== *)
theory Spans
  imports Zmdm_Rx Crc_Correct
begin

text \<open>
  The word-at-a-time scans of \<^verbatim>\<open>tx_copy_plain_span\<close> and \<^verbatim>\<open>rx_plain_span\<close> against octet-wise
  references. The test for a zero octet, \<^verbatim>\<open>(w - ones) & ~w & highs\<close>, is analysed over the
  integers: octets before the first zero one cause no borrow, so the lowest flagged lane is a
  true zero.
\<close>

section \<open>A list of octets as a number\<close>

fun ival :: "u8 list \<Rightarrow> int" where
  "ival [] = 0"
| "ival (b # bs) = uint b + 256 * ival bs"

fun oval :: "nat \<Rightarrow> int" where
  "oval 0 = 0"
| "oval (Suc n) = 1 + 256 * oval n"

lemma uint_u8_bounds [simp]: "0 \<le> uint (b :: u8)" "uint (b :: u8) < 256" "uint (b :: u8) \<le> 255"
  using unsigned_less [of b, where 'a = int] by simp_all

lemma bit_low_high:
  assumes "0 \<le> a" "a < 256"
  shows "bit (a + 256 * x) (8 + n) = bit (x :: int) n" "n < 8 \<Longrightarrow> bit (a + 256 * x) n = bit a n"
proof -
  have d: "(a + 256 * x) div 256 = x" using assms by simp
  show "bit (a + 256 * x) (8 + n) = bit x n"
    using d by (simp add: bit_iff_odd power_add div_mult2_eq zdiv_zmult2_eq)
  show "bit (a + 256 * x) n = bit a n" if "n < 8"
  proof -
    have "take_bit 8 (a + 256 * x) = take_bit 8 a" by (simp add: take_bit_eq_mod)
    then show ?thesis using that by (metis bit_take_bit_iff)
  qed
qed

lemma bit7: "0 \<le> a \<Longrightarrow> a < 256 \<Longrightarrow> bit a 7 \<longleftrightarrow> 128 \<le> (a :: int)"
  by (simp add: bit_iff_odd) presburger

lemma zero_lane_iff:
  "(\<exists>i<length bs. bit (ival bs - oval (length bs)) (8 * i + 7) \<and> \<not> bit (ival bs) (8 * i + 7))
     \<longleftrightarrow> 0 \<in> set bs"
proof (induction bs)
  case (Cons b bs)
  let ?d = "ival bs - oval (length bs)"
  have e: "ival (b # bs) - oval (length (b # bs)) = (uint b - 1) + 256 * ?d" by simp
  have ex: "(\<exists>i<length (b # bs). P i) \<longleftrightarrow> P 0 \<or> (\<exists>i<length bs. P (Suc i))" for P
    by (simp add: Ex_less_Suc2)
  show ?case
  proof (cases "b = 0")
    case True
    have "bit ((- 1) + 256 * ?d) 7"
      using bit_low_high(2) [of 255 7 "?d - 1"] bit7 [of 255] by (simp add: algebra_simps)
    moreover have "\<not> bit (256 * ival bs) 7" using bit_low_high(2) [of 0 7 "ival bs"] by simp
    ultimately show ?thesis unfolding ex e using True by simp
  next
    case False
    then have "uint b \<noteq> 0" by (metis unsigned_0 unsigned_word_eqI)
    then have b: "0 \<le> uint b - 1" "uint b - 1 < 256"
      using uint_u8_bounds [of b] by linarith+
    have "bit (uint b - 1 + 256 * ?d) 7 = (128 \<le> uint b - 1)"
      by (rule trans [OF bit_low_high(2) [OF b] bit7 [OF b]]) simp
    moreover have "bit (uint b + 256 * ival bs) 7 = (128 \<le> uint b)"
      using bit_low_high(2) [of "uint b" 7] bit7 [of "uint b"] by simp
    moreover have "bit (uint b - 1 + 256 * ?d) (8 * Suc i + 7) = bit ?d (8 * i + 7)" for i
      using bit_low_high(1) [OF b, of ?d "8 * i + 7"] by (simp add: algebra_simps)
    moreover have "bit (uint b + 256 * ival bs) (8 * Suc i + 7) = bit (ival bs) (8 * i + 7)" for i
      using bit_low_high(1) [of "uint b" "ival bs" "8 * i + 7"] by (simp add: algebra_simps)
    ultimately show ?thesis unfolding ex e using Cons.IH False by auto
  qed
qed simp

section \<open>Loading eight octets\<close>

lemma span_load_Cons: "span_load (b # bs) = ucast b OR push_bit 8 (span_load bs)"
  by (simp add: span_load_def)

lemma span_load_Nil [simp]: "span_load [] = 0"
  by (simp add: span_load_def)

lemma span_load_ival: "span_load bs = word_of_int (ival bs)"
proof (induction bs)
  case (Cons b bs)
  have d: "ucast b OR push_bit 8 x = ucast b + push_bit 8 x" for x :: u64
    by (rule disjunctive_add [symmetric]) (auto simp: bit_simps dest: bit_imp_le_length)
  have "push_bit 8 (word_of_int (ival bs) :: u64) = word_of_int (256 * ival bs)"
    by (simp add: push_bit_eq_mult)
  moreover have "(ucast b :: u64) = word_of_int (uint b)" by simp
  ultimately show ?case unfolding span_load_Cons d Cons.IH by simp
qed simp

lemma span_load_map2:
  assumes "length xs = length ys"
  shows "span_load (map2 (XOR) xs ys) = span_load xs XOR span_load ys"
    and "span_load (map2 (AND) xs ys) = span_load xs AND span_load ys"
proof -
  show "span_load (map2 (XOR) xs ys) = span_load xs XOR span_load ys"
    using assms
  proof (induction xs ys rule: list_induct2)
    case (Cons x xs y ys)
    show ?case unfolding list.map zip_Cons_Cons prod.case span_load_Cons Cons.IH
      by (rule bit_word_eqI) (auto simp: bit_simps dest: bit_imp_le_length)
  qed simp
  show "span_load (map2 (AND) xs ys) = span_load xs AND span_load ys"
    using assms
  proof (induction xs ys rule: list_induct2)
    case (Cons x xs y ys)
    show ?case unfolding list.map zip_Cons_Cons prod.case span_load_Cons Cons.IH
      by (rule bit_word_eqI) (auto simp: bit_simps dest: bit_imp_le_length)
  qed simp
qed

lemma map2_replicate: "length xs = n \<Longrightarrow> map2 f xs (replicate n c) = map (\<lambda>x. f x c) xs"
  by (induction xs arbitrary: n) auto

lemma span_load_xor:
  "length bs = n \<Longrightarrow> span_load bs XOR span_load (replicate n c) = span_load (map (\<lambda>b. b XOR c) bs)"
  using span_load_map2(1) [of bs "replicate n c"] by (simp add: map2_replicate)

lemma span_load_and:
  "length bs = n \<Longrightarrow> span_load bs AND span_load (replicate n c) = span_load (map (\<lambda>b. b AND c) bs)"
  using span_load_map2(2) [of bs "replicate n c"] by (simp add: map2_replicate)

lemma replicate_8: "replicate 8 c = [c, c, c, c, c, c, c, c]"
  by (simp add: eval_nat_numeral)

lemma span_constants:
  "0x1818181818181818 = span_load (replicate 8 0x18)"
  "0x7c7c7c7c7c7c7c7c = span_load (replicate 8 0x7c)"
  "0x1010101010101010 = span_load (replicate 8 0x10)"
  "0x7f7f7f7f7f7f7f7f = span_load (replicate 8 0x7f)"
  "0x0d0d0d0d0d0d0d0d = span_load (replicate 8 0x0d)"
  "0x7d7d7d7d7d7d7d7d = span_load (replicate 8 0x7d)"
  "0x1111111111111111 = span_load (replicate 8 0x11)"
  by (simp_all add: span_load_ival replicate_8)

lemma oval_8: "oval 8 = 0x0101010101010101"
  by (simp add: numeral_eq_Suc)

lemma bit_highs: "bit (0x8080808080808080 :: u64) n \<longleftrightarrow> (\<exists>i<8. n = 8 * i + 7)"
proof -
  show ?thesis
  proof (cases "n < 64")
    case True
    then have "n \<in> set [0..<64]" by simp
    moreover have "\<forall>n\<in>set [0..<64]. bit (0x8080808080808080 :: u64) n \<longleftrightarrow> n mod 8 = 7"
      by (simp add: upt_conv_Cons)
    ultimately have "bit (0x8080808080808080 :: u64) n \<longleftrightarrow> n mod 8 = 7" by blast
    also have "\<dots> \<longleftrightarrow> (\<exists>i<8. n = 8 * i + 7)" using True by presburger
    finally show ?thesis .
  next
    case False
    then show ?thesis by (auto dest: bit_imp_le_length)
  qed
qed

lemma span_zero_lanes_iff:
  assumes "length bs = 8"
  shows "span_zero_lanes (span_load bs) \<noteq> 0 \<longleftrightarrow> 0 \<in> set bs"
proof -
  let ?w = "span_load bs"
  have s: "?w - 0x0101010101010101 = word_of_int (ival bs - oval 8)"
    unfolding span_load_ival oval_8 by simp
  have "span_zero_lanes ?w \<noteq> 0 \<longleftrightarrow> (\<exists>n. bit (span_zero_lanes ?w) n)"
    by (metis bit_0_eq bot_apply bot_bool_def bit_word_eqI)
  also have "\<dots> \<longleftrightarrow> (\<exists>n. bit (?w - 0x0101010101010101) n \<and> n < 64 \<and> \<not> bit ?w n \<and> (\<exists>i<8. n = 8 * i + 7))"
    unfolding span_zero_lanes_def bit_and_iff bit_highs
    by (auto simp: bit_not_iff dest: bit_imp_le_length)
  also have "\<dots> \<longleftrightarrow> (\<exists>i<8. bit (ival bs - oval 8) (8 * i + 7) \<and> \<not> bit (ival bs) (8 * i + 7))"
    unfolding s unfolding span_load_ival bit_word_of_int_iff
  proof (intro iffI; elim exE conjE)
    fix n i assume "i < (8 :: nat)" "n = 8 * i + 7" "bit (ival bs - oval 8) n"
      "\<not> (n < LENGTH(64) \<and> bit (ival bs) n)"
    then show "\<exists>i<8. bit (ival bs - oval 8) (8 * i + 7) \<and> \<not> bit (ival bs) (8 * i + 7)" by auto
  next
    fix i assume "i < (8 :: nat)" "bit (ival bs - oval 8) (8 * i + 7)" "\<not> bit (ival bs) (8 * i + 7)"
    then show "\<exists>n. (n < LENGTH(64) \<and> bit (ival bs - oval 8) n) \<and> n < 64 \<and>
      \<not> (n < LENGTH(64) \<and> bit (ival bs) n) \<and> (\<exists>i<8. n = 8 * i + 7)"
      by (intro exI [of _ "8 * i + 7"]) auto
  qed
  also have "\<dots> \<longleftrightarrow> 0 \<in> set bs" using zero_lane_iff [of bs] assms by simp
  finally show ?thesis .
qed


section \<open>The two scans\<close>

lemma or_eq_0_iff: "x OR y \<noteq> 0 \<longleftrightarrow> x \<noteq> 0 \<or> y \<noteq> 0" for x :: "'a::len word"
  by (metis bit_0_eq bit_or_iff bit_word_eqI bot_apply bot_bool_def)

lemma xor_eq_0: "x XOR y = 0 \<longleftrightarrow> x = y" for x :: "'a::len word"
  by (metis xor.assoc xor.left_neutral xor.right_neutral xor_self_eq)

lemma zero_xor_map: "0 \<in> set (map (\<lambda>b. f b XOR c) bs) \<longleftrightarrow> (\<exists>b\<in>set bs. f b = (c :: u8))"
  by (auto simp: xor_eq_0 image_iff)

lemma tx_span_special_iff:
  assumes "length bs = 8"
  shows "tx_span_special (span_load bs) \<longleftrightarrow>
         (\<exists>b\<in>set bs. b = 0x18 \<or> b AND 0x7c = 0x10 \<or> b AND 0x7f = 0x0d)"
proof -
  note c = span_load_xor [OF assms] span_load_and [OF assms]
    span_load_xor [of "map f bs" 8 for f, simplified, OF assms]
  show ?thesis
    unfolding tx_span_special_def Let_def or_eq_0_iff span_constants c map_map o_def
    by (simp add: span_zero_lanes_iff assms zero_xor_map [of "\<lambda>b. b", simplified] zero_xor_map
        del: image_iff set_map) blast
qed

lemma rx_span_special_iff:
  assumes "length bs = 8"
  shows "rx_span_special m (span_load bs) \<longleftrightarrow>
         (\<exists>b\<in>set bs. b = 0x18 \<or> \<not> m \<and> b AND 0x7d = 0x11)"
proof -
  note c = span_load_xor [OF assms] span_load_and [OF assms]
    span_load_xor [of "map f bs" 8 for f, simplified, OF assms]
  show ?thesis
    unfolding rx_span_special_def Let_def or_eq_0_iff span_constants c map_map o_def
    by (simp add: span_zero_lanes_iff assms zero_xor_map [of "\<lambda>b. b", simplified] zero_xor_map
        del: image_iff set_map) blast
qed

lemma and_7d_11: "b AND 0x7d = 0x11 \<longleftrightarrow> b = 0x11 \<or> b = 0x91 \<or> b = 0x13 \<or> b = (0x93 :: u8)"
  by (auto simp: u8_eq_iff bit_and_iff)

lemma and_7c_10:
  "b AND 0x7c = 0x10 \<longleftrightarrow> b \<in> {0x10, 0x11, 0x12, 0x13, 0x90, 0x91, 0x92, 0x93 :: u8}"
  by (auto simp: u8_eq_iff bit_and_iff)

lemma and_7f_0d: "b AND 0x7f = 0x0d \<longleftrightarrow> b = 0x0d \<or> b = (0x8d :: u8)"
  by (auto simp: u8_eq_iff bit_and_iff)

section \<open>The receive scan\<close>

lemma u8_uint_iff: "uint b = uint c \<longleftrightarrow> b = (c :: u8)"
  by (simp add: word_uint_eq_iff)

lemma slow_path_octet:
  "rx_needs_slow_path z (uint b) \<longleftrightarrow>
     b = ZDLE \<or> \<not> receive_mobyturbo z \<and>
       (b \<in> {0x11, 0x91, 0x13, 0x93} \<or> receive_escaped_control_characters z \<and> b AND 0x60 = 0)"
proof -
  have "uint b AND 0x60 = 0 \<longleftrightarrow> b AND 0x60 = 0"
    by (simp add: word_uint_eq_iff unsigned_and_eq)
  then show ?thesis
    by (auto simp: rx_needs_slow_path_def rx_is_flow_control_def rx_is_unescaped_control_def
        word_uint_eq_iff)
qed

lemma takeWhile_prefix:
  "n \<le> length xs \<Longrightarrow> \<forall>x\<in>set (take n xs). P x \<Longrightarrow>
   length (takeWhile P xs) = n + length (takeWhile P (drop n xs))"
  by (metis append_take_drop_id length_append length_take min_absorb2 takeWhile_append2)

lemma rx_span_words_plain:
  assumes "\<not> receive_escaped_control_characters z"
  shows "rx_span_words (receive_mobyturbo z) data \<le> length data \<and>
    (\<forall>b\<in>set (take (rx_span_words (receive_mobyturbo z) data) data). \<not> rx_needs_slow_path z (uint b))"
proof (induction "receive_mobyturbo z" data rule: rx_span_words.induct)
  case (1 data)
  let ?m = "receive_mobyturbo z"
  show ?case
  proof (cases "8 \<le> length data \<and> \<not> rx_span_special ?m (span_load (take 8 data))")
    case True
    then have w: "rx_span_words ?m data = 8 + rx_span_words ?m (drop 8 data)"
      by (simp add: rx_span_words.simps [of ?m data])
    have "\<forall>b\<in>set (take 8 data). \<not> rx_needs_slow_path z (uint b)"
      using True assms rx_span_special_iff [of "take 8 data" ?m]
      by (auto simp: slow_path_octet and_7d_11)
    moreover have "take (8 + n) data = take 8 data @ take n (drop 8 data)" for n
      by (simp add: take_add)
    ultimately show ?thesis using 1 True unfolding w by auto
  qed (auto simp: rx_span_words.simps [of ?m data])
qed

lemma rx_plain_span_takeWhile:
  "rx_plain_span z data = length (takeWhile (\<lambda>b. \<not> rx_needs_slow_path z (uint b)) data)"
proof (cases "receive_escaped_control_characters z")
  case True
  have "rx_needs_slow_path z (uint b) \<longleftrightarrow> b = ZDLE" if "receive_mobyturbo z" for b :: u8
    using that by (simp add: slow_path_octet)
  with True show ?thesis by (auto simp: rx_plain_span_def)
next
  case False
  then show ?thesis
    using rx_span_words_plain [of z data] takeWhile_prefix [of "rx_span_words (receive_mobyturbo z) data" data]
    by (simp add: rx_plain_span_def Let_def)
qed

section \<open>The transmit scan\<close>

lemma tx_class_always:
  "tx_class_action c AND TX_ESCAPE_ALWAYS \<noteq> 0 \<longleftrightarrow> c \<in> {ZDLE, 0x10, 0x90, XON, 0x91, XOFF, 0x93}"
  by (auto simp: tx_class_action_def Let_def)

lemma tx_class_cr: "tx_class_action c AND TX_ESCAPE_CR \<noteq> 0 \<longleftrightarrow> c = CR \<or> c = 0x8d"
  by (auto simp: tx_class_action_def Let_def)

lemma tx_class_control:
  "tx_class_action c AND TX_ESCAPE_CONTROL \<noteq> 0 \<longleftrightarrow>
   c AND 0x60 = 0 \<and> c \<notin> {ZDLE, 0x10, 0x90, XON, 0x91, XOFF, 0x93}"
  by (auto simp: tx_class_action_def Let_def)

lemma tx_class_8th: "tx_class_action c AND TX_ESCAPE_8TH \<noteq> 0 \<longleftrightarrow> c AND 0x80 \<noteq> 0"
  by (auto simp: tx_class_action_def Let_def)

lemma tx_class_iac: "tx_class_action c AND TX_ESCAPE_IAC \<noteq> 0 \<longleftrightarrow> c = 0xff"
  by (auto simp: tx_class_action_def Let_def)

lemma tx_word_plain:
  assumes "\<not> (b = 0x18 \<or> b AND 0x7c = 0x10 \<or> b AND 0x7f = (0x0d :: u8))"
  shows "tx_class_action b AND TX_ESCAPE_ALWAYS = 0 \<and> tx_class_action b AND TX_ESCAPE_CR = 0"
  using assms tx_class_always [of b] tx_class_cr [of b] unfolding and_7c_10 and_7f_0d by auto

lemma tx_span_octets_append:
  assumes "\<forall>b\<in>set xs. tx_class_action b AND TX_ESCAPE_ALWAYS = 0 \<and> tx_class_action b AND TX_ESCAPE_CR = 0"
  shows "tx_span_octets tx_class_action (xs @ ys) previous =
    (let (out, p) = tx_span_octets tx_class_action ys
           (if xs = [] then previous else uint (last xs AND 0x7f)) in (xs @ out, p))"
  using assms by (induction xs arbitrary: previous) (auto split: prod.splits)

lemma tx_span_words_plain:
  "\<forall>b\<in>set (tx_span_words data). tx_class_action b AND TX_ESCAPE_ALWAYS = 0 \<and> tx_class_action b AND TX_ESCAPE_CR = 0"
proof (induction data rule: tx_span_words.induct)
  case (1 data)
  show ?case
  proof (cases "8 \<le> length data \<and> \<not> tx_span_special (span_load (take 8 data))")
    case True
    then have "\<forall>b\<in>set (take 8 data). tx_class_action b AND TX_ESCAPE_ALWAYS = 0 \<and> tx_class_action b AND TX_ESCAPE_CR = 0"
      using tx_span_special_iff [of "take 8 data"] tx_word_plain by auto
    with 1 True show ?thesis by (auto simp: tx_span_words.simps [of data])
  qed (auto simp: tx_span_words.simps [of data])
qed

lemma tx_copy_plain_span_octets:
  assumes "data \<noteq> []"
  shows "tx_copy_plain_span tx_class_action data previous = tx_span_octets tx_class_action data previous"
proof (cases "previous = 0x40 \<and> tx_class_action (data ! 0) AND TX_ESCAPE_CR \<noteq> 0")
  case True
  with assms show ?thesis by (cases data) (auto simp: tx_copy_plain_span_def)
next
  case False
  obtain rest where r: "data = tx_span_words data @ rest" using tx_span_words_prefix by blast
  then have d: "drop (length (tx_span_words data)) data = rest" by (metis append_eq_conv_conj)
  have "tx_span_octets tx_class_action data previous = (let (out, p) = tx_span_octets tx_class_action rest
           (if tx_span_words data = [] then previous else uint (last (tx_span_words data) AND 0x7f))
         in (tx_span_words data @ out, p))"
    using tx_span_octets_append [OF tx_span_words_plain, of data rest previous] r by simp
  then show ?thesis unfolding tx_copy_plain_span_def if_not_P [OF False] Let_def d by auto
qed


lemma wire_store_classes: "wire_store z i c = Some z' \<Longrightarrow> tx_classes z' = tx_classes z"
  by (auto simp: wire_store_def split: if_splits)

lemma tx_span_octets_buffer:
  assumes "tx_classes z = tx_class_action" "tx_span_octets tx_class_action data p = (out, p')"
  shows "buffer_each (buffer_tx TX_ESCAPE_ALWAYS) data (z, u, p) =
    Option.bind (wire_store_all out z u) (\<lambda>(z, u).
      buffer_each (buffer_tx TX_ESCAPE_ALWAYS) (drop (length out) data) (z, u, p'))"
  using assms
proof (induction data arbitrary: z u p out)
  case (Cons c cs)
  show ?case
  proof (cases "tx_class_action c AND TX_ESCAPE_ALWAYS = 0 \<and> (tx_class_action c AND TX_ESCAPE_CR = 0 \<or> p \<noteq> 0x40)")
    case True
    with Cons.prems(2) obtain out' where o: "out = c # out'"
      "tx_span_octets tx_class_action cs (uint (c AND 0x7f)) = (out', p')"
      by (auto split: prod.splits)
    have "\<not> tx_byte_needs_escape z c p TX_ESCAPE_ALWAYS"
      using True Cons.prems(1) by (auto simp: tx_byte_needs_escape_def Let_def)
    with o show ?thesis
      by (auto simp: bind_option_assoc Cons.prems(1) wire_store_classes intro!: bind_cong_Some Cons.IH)
  qed (use Cons.prems in auto)
qed simp

lemma tx_span_octets_stop:
  "tx_span_octets tx_class_action data p = (out, p') \<Longrightarrow> drop (length out) data = c # cs \<Longrightarrow>
   tx_class_action c AND TX_ESCAPE_ALWAYS \<noteq> 0 \<or> tx_class_action c AND TX_ESCAPE_CR \<noteq> 0 \<and> p' = 0x40"
  by (induction data arbitrary: p out) (auto split: prod.splits if_splits)

lemma wire_store_all_classes: "wire_store_all cs z u = Some (z', u') \<Longrightarrow> tx_classes z' = tx_classes z"
  by (induction cs arbitrary: z u) (auto simp: wire_store_classes split: bind_splits)

lemma buffer_raw_classes: "buffer_raw c (z, u, p) = Some (z', u', p') \<Longrightarrow> tx_classes z' = tx_classes z"
  by (auto simp: wire_store_classes split: bind_splits)

lemma tx_plain_loop_octets:
  assumes "tx_classes z = tx_class_action"
  shows "tx_plain_loop data (z, u, p) = buffer_each (buffer_tx TX_ESCAPE_ALWAYS) data (z, u, p)"
  using assms
proof (induction "length data" arbitrary: data z u p rule: less_induct)
  case less
  show ?case
  proof (cases "data = []")
    case True then show ?thesis by (simp add: tx_plain_loop.simps)
  next
    case False
    obtain out p' where o: "tx_span_octets tx_class_action data p = (out, p')" by fastforce
    note step = tx_plain_loop.simps [of data z u p] tx_copy_plain_span_octets [OF False] o less.prems
    show ?thesis
    proof (cases "drop (length out) data")
      case Nil
      then show ?thesis using False
        by (simp add: step tx_span_octets_buffer [OF less.prems o] Let_def)
    next
      case (Cons c cs)
      have d: "drop (length out + 1) data = cs"
        using Cons by (metis add.commute drop_Suc_Cons drop_0 drop_drop plus_1_eq_Suc)
      have l: "length cs < length data"
        using Cons by (metis Suc_le_lessD length_Cons length_drop diff_le_self)
      note stop = tx_span_octets_stop [OF o Cons]
      have ff: "c \<noteq> 0xff" using stop tx_class_always [of c] tx_class_cr [of c] by auto
      have escaped: "Option.bind (buffer_raw ZDLE (z', u', p'))
          (\<lambda>b. Option.bind (buffer_raw (c XOR 0x40) b) (tx_plain_loop (drop (length out + 1) data))) =
        Option.bind (buffer_tx TX_ESCAPE_ALWAYS c (z', u', p')) (buffer_each (buffer_tx TX_ESCAPE_ALWAYS) cs)"
        if cl: "tx_classes z' = tx_class_action" for z' :: "'a zmodem" and u'
      proof -
        have e: "tx_byte_needs_escape z' c p' TX_ESCAPE_ALWAYS"
          using cl stop by (auto simp: tx_byte_needs_escape_def Let_def)
        have "tx_plain_loop cs b = buffer_each (buffer_tx TX_ESCAPE_ALWAYS) cs b"
          if "buffer_raw ZDLE (z', u', p') = Some b'" "buffer_raw (c XOR 0x40) b' = Some b" for b b'
          using that cl by (cases b; cases b') (metis buffer_raw_classes less.hyps [OF l])
        then show ?thesis
          unfolding d using e ff by (simp add: bind_option_assoc del: buffer_raw.simps)
            (intro bind_cong_Some, blast)
      qed
      have "(case zu of (z', u') \<Rightarrow>
               Option.bind (buffer_raw ZDLE (z', u', p'))
                 (\<lambda>b. Option.bind (buffer_raw (c XOR 0x40) b) (tx_plain_loop (drop (length out + 1) data)))) =
            (case zu of (z', u') \<Rightarrow> buffer_each (buffer_tx TX_ESCAPE_ALWAYS) (c # cs) (z', u', p'))"
        if "wire_store_all out z u = Some zu" for zu
        using that escaped less.prems
        by (cases zu) (metis (no_types, lifting) buffer_each.simps(2) old.prod.case wire_store_all_classes)
      then show ?thesis using False
        unfolding step tx_span_octets_buffer [OF less.prems o]
        by (simp add: Cons Let_def del: buffer_raw.simps buffer_tx.simps) (intro bind_cong_Some, blast)
    qed
  qed
qed



section \<open>Properties of the scans\<close>

text \<open>C35: The word-parallel test \<^verbatim>\<open>(w - ones) & ~w & highs\<close> of eight octets is non-zero exactly
  when one of them is zero: borrows between lanes cause no false answer.\<close>

theorem span_zero_lanes_detects_zero:
  assumes "length octets = 8"
  shows "span_zero_lanes (span_load octets) \<noteq> 0 \<longleftrightarrow> 0 \<in> set octets"
  by (rule span_zero_lanes_iff [OF assms])

theorem span_zero_lanes_detects_zero_witness:
  "span_zero_lanes (span_load [1, 2, 3, 0, 1, 6, 7, 8]) \<noteq> 0 \<longleftrightarrow> 0 \<in> set [1, 2, 3, 0, 1, 6, 7, 8 :: u8]"
  by (rule span_zero_lanes_detects_zero) simp

text \<open>C30: The span the receiver takes from its buffer in one step is the longest run of octets
  that need no decoding: the word-wise scan stops neither early nor late.\<close>

theorem rx_plain_span_is_longest:
  "rx_plain_span z data = length (takeWhile (\<lambda>b. \<not> rx_needs_slow_path z (uint b)) data)"
  by (rule rx_plain_span_takeWhile)

text \<open>C29: The sender's fast path, which copies spans found a word at a time, stores exactly what
  the octet-wise encoder \<open>buffer_tx\<close> stores, from any fill and any last octet sent; both are
  undefined together.\<close>

theorem tx_plain_loop_is_octetwise:
  "tx_plain_loop data (initialize_tx_classes z, used, previous) =
   buffer_each (buffer_tx TX_ESCAPE_ALWAYS) data (initialize_tx_classes z, used, previous)"
  by (rule tx_plain_loop_octets) (simp add: initialize_tx_classes_def)

end
