(* ===== verification/Line.thy ===== *)
theory Line
  imports Zmdm_Rx_Header Spans
begin

text \<open>
  The interface between the receiver and its transport. \<open>octet_source\<close> states what the receiver
  relies on: the read callback delivers the octets of the line in order, in pieces of any
  size, and reports a failure once they are used up. Under that contract the receive cursor
  is a queue of octets: \<open>on_line\<close> relates a state and a cursor to the octets still to come.
\<close>

declare split_paired_Ex [simp del] split_paired_All [simp del]

section \<open>States that differ in the input only\<close>

definition rx_moved :: "'c zmodem \<Rightarrow> 'c zmodem \<Rightarrow> bool" where
  "rx_moved z z' \<longleftrightarrow> (\<exists>ctx buf n i k. z' = set_context ctx
     (z\<lparr>input_buffer := buf, input_count := n, input_index := i, cancel_count := k\<rparr>))"

lemma rx_moved_refl [simp]: "rx_moved z z"
  unfolding rx_moved_def
  by (intro exI [of _ "io_context (io z)"] exI [of _ "input_buffer z"] exI [of _ "input_count z"]
      exI [of _ "input_index z"] exI [of _ "cancel_count z"]) (simp add: set_context_def)

lemma rx_moved_trans [trans]: "rx_moved z z' \<Longrightarrow> rx_moved z' z'' \<Longrightarrow> rx_moved z z''"
proof -
  assume "rx_moved z z'" "rx_moved z' z''"
  then obtain c b n i k c' b' n' i' k' where
    "z' = set_context c (z\<lparr>input_buffer := b, input_count := n, input_index := i, cancel_count := k\<rparr>)"
    "z'' = set_context c' (z'\<lparr>input_buffer := b', input_count := n', input_index := i', cancel_count := k'\<rparr>)"
    unfolding rx_moved_def by auto
  then have "z'' = set_context c' (z\<lparr>input_buffer := b', input_count := n', input_index := i', cancel_count := k'\<rparr>)"
    by (simp add: set_context_def)
  then show ?thesis unfolding rx_moved_def by blast
qed

lemma rx_moved_store [simp]: "rx_moved z (store_rx_cursor cur z)"
  unfolding rx_moved_def store_rx_cursor_def
  by (intro exI [of _ "io_context (io z)"] exI [of _ "input_buffer z"] exI [of _ "cur_count cur"]
      exI [of _ "cur_index cur"] exI [of _ "cur_cancel cur"]) (simp add: set_context_def)

lemma rx_moved_read: "rx_moved z (set_context ctx (z\<lparr>input_buffer := buf\<rparr>))"
  unfolding rx_moved_def
  by (intro exI [of _ ctx] exI [of _ buf] exI [of _ "input_count z"]
      exI [of _ "input_index z"] exI [of _ "cancel_count z"]) (simp add: set_context_def)

lemma rx_moved_fields:
  assumes "rx_moved z z'"
  shows "receive_mobyturbo z' = receive_mobyturbo z"
    "receive_escape8_format z' = receive_escape8_format z"
    "receive_escaped_control_characters z' = receive_escaped_control_characters z"
    "receive_32_bit_data z' = receive_32_bit_data z"
    "receive_encoded_data z' = receive_encoded_data z"
    "rxd_header z' = rxd_header z" "rxd_header_len z' = rxd_header_len z"
    "io_read (io z') = io_read (io z)" "io_write (io z') = io_write (io z)"
    "io_flush (io z') = io_flush (io z)" "io_poll (io z') = io_poll (io z)" "tx_classes z' = tx_classes z"
    "tx_classes_initialized z' = tx_classes_initialized z" "tx_data_wire z' = tx_data_wire z"
  using assms unfolding rx_moved_def set_context_def by auto

lemmas rx_moved_config [cfg_simps] = rx_moved_fields(1-3)

lemma rx_moved_decoder:
  "rx_moved z z' \<Longrightarrow> rx_needs_slow_path z' = rx_needs_slow_path z"
  "rx_moved z z' \<Longrightarrow> rx_is_unescaped_control z' = rx_is_unescaped_control z"
  by (auto simp: fun_eq_iff rx_needs_slow_path_def rx_is_unescaped_control_def cfg_simps)

section \<open>The octets still to come\<close>

definition upcoming :: "('c \<Rightarrow> u8 list) \<Rightarrow> 'c zmodem \<Rightarrow> rx_cursor \<Rightarrow> u8 list" where
  "upcoming pending z cur =
     take (cur_count cur) (drop (cur_index cur) (input_buffer z)) @ pending (io_context (io z))"

definition on_line ::
  "('c \<Rightarrow> nat \<Rightarrow> int \<Rightarrow> int \<times> u8 list \<times> nat \<times> 'c) \<Rightarrow> ('c \<Rightarrow> bool) \<Rightarrow> ('c \<Rightarrow> u8 list) \<Rightarrow>
   'c zmodem \<Rightarrow> u8 list \<Rightarrow> u32 \<Rightarrow> 'c zmodem \<Rightarrow> rx_cursor \<Rightarrow> bool" where
  "on_line rd live pending z0 bs k z cur \<longleftrightarrow>
     rx_moved z0 z \<and> io_read (io z) = rd \<and> live (io_context (io z)) \<and>
     length (input_buffer z) = ZMODEM_INPUT_CAPACITY \<and>
     cur_index cur + cur_count cur \<le> ZMODEM_INPUT_CAPACITY \<and>
     upcoming pending z cur = bs \<and> cur_cancel cur = k"

definition line_error :: "int \<Rightarrow> bool" where
  "line_error c \<longleftrightarrow> c = ZMODEM_TIMEOUT \<or> c = ZMODEM_IO_ERROR \<or> c = ZMODEM_CANCELLED"

lemma line_error_neg: "line_error c \<Longrightarrow> c < 0"
  by (auto simp: line_error_def)

definition raw_cancel :: "bool \<Rightarrow> u8 \<Rightarrow> u32 \<Rightarrow> u32" where
  "raw_cancel mobyturbo b k = (if b = CAN \<and> \<not> mobyturbo then k + 1 else 0)"

definition raw_result :: "bool \<Rightarrow> u8 \<Rightarrow> u32 \<Rightarrow> int" where
  "raw_result mobyturbo b k =
     (if b = CAN \<and> \<not> mobyturbo \<and> k + 1 = 5 then ZMODEM_CANCELLED else uint b)"

lemma length_overlay [simp]: "length (overlay xs buf) = length buf"
  by (simp add: overlay_def)

lemma overlay_take: "length xs \<le> length buf \<Longrightarrow> take (length xs) (overlay xs buf) = xs"
  by (simp add: overlay_def)

section \<open>The transport contract\<close>

locale octet_source =
  fixes rd :: "'c \<Rightarrow> nat \<Rightarrow> int \<Rightarrow> int \<times> u8 list \<times> nat \<times> 'c"
    and live :: "'c \<Rightarrow> bool"
    and pending :: "'c \<Rightarrow> u8 list"
  assumes read_some: "live c \<Longrightarrow> pending c \<noteq> [] \<Longrightarrow> 0 < capacity \<Longrightarrow>
      \<exists>chunk c'. rd c capacity t = (ZMODEM_OK, chunk, length chunk, c') \<and> chunk \<noteq> [] \<and>
        length chunk \<le> capacity \<and> pending c = chunk @ pending c' \<and> live c'"
    and read_none: "live c \<Longrightarrow> pending c = [] \<Longrightarrow> 0 < capacity \<Longrightarrow>
      \<exists>r chunk n c'. rd c capacity t = (r, chunk, n, c') \<and> line_error r \<and> pending c' = [] \<and> live c'"
begin

abbreviation "at \<equiv> on_line rd live pending"

lemma at_moved: "at z0 bs k z cur \<Longrightarrow> rx_moved z0 z"
  by (simp add: on_line_def)

lemma take_at:
  assumes "at z0 (b # bs) k z cur" "cur_count cur \<noteq> 0"
  shows "\<exists>cur'. rx_cursor_take z cur = Some (uint b, z, cur') \<and> at z0 bs k z cur'"
proof -
  let ?i = "cur_index cur" and ?n = "cur_count cur" and ?buf = "input_buffer z"
  have i: "?i < length ?buf" using assms by (auto simp: on_line_def)
  then have d: "drop ?i ?buf = ?buf ! ?i # drop (Suc ?i) ?buf" by (simp add: Cons_nth_drop_Suc)
  obtain n where n: "?n = Suc n" using assms(2) by (cases ?n) auto
  have "b # bs = take ?n (drop ?i ?buf) @ pending (io_context (io z))"
    using assms(1) by (simp add: on_line_def upcoming_def)
  then have b: "b = ?buf ! ?i" "bs = take n (drop (Suc ?i) ?buf) @ pending (io_context (io z))"
    unfolding d n by simp_all
  let ?cur = "cur\<lparr>cur_index := ?i + 1, cur_count := ?n - 1\<rparr>"
  have "rx_cursor_take z cur = Some (uint b, z, ?cur)"
    using i by (simp add: rx_cursor_take_def b(1))
  moreover have "at z0 bs k z ?cur"
    using assms(1) n b(2) by (auto simp: on_line_def upcoming_def)
  ultimately show ?thesis by blast
qed

lemma byte_at:
  assumes "at z0 (b # bs) k z cur"
  shows "\<exists>z' cur'. rx_cursor_byte t z cur = Some (uint b, z', cur') \<and> at z0 bs k z' cur'"
proof (cases "cur_count cur = 0")
  case False
  then show ?thesis using take_at [OF assms False] by (auto simp: rx_cursor_byte_def)
next
  case True
  let ?z = "store_rx_cursor cur z" and ?cap = "length (input_buffer z)"
  have p: "pending (io_context (io z)) = b # bs" and l: "live (io_context (io z))" and c: "0 < ?cap"
    using assms True by (auto simp: on_line_def upcoming_def)
  obtain chunk c' where r: "rd (io_context (io z)) ?cap t = (ZMODEM_OK, chunk, length chunk, c')"
    "chunk \<noteq> []" "length chunk \<le> ?cap" "b # bs = chunk @ pending c'" "live c'"
    using read_some [OF l _ c, of t] p by auto
  let ?z' = "set_context c' (?z\<lparr>input_buffer := overlay chunk (input_buffer z)\<rparr>)"
  let ?cur = "cur\<lparr>cur_count := length chunk, cur_index := 0\<rparr>"
  have "rx_moved z0 ?z'"
    by (rule rx_moved_trans [OF rx_moved_trans [OF at_moved [OF assms] rx_moved_store] rx_moved_read])
  then have "at z0 (b # bs) k ?z' ?cur"
    using assms r by (auto simp: on_line_def upcoming_def set_context_def store_rx_cursor_def overlay_take)
  then obtain cur' where "rx_cursor_take ?z' ?cur = Some (uint b, ?z', cur')" "at z0 bs k ?z' cur'"
    using take_at [of z0 b bs k ?z' ?cur] r(2) by auto
  moreover have "rx_cursor_byte t z cur = rx_cursor_take ?z' ?cur"
    using assms True r
    by (simp add: rx_cursor_byte_def Let_def store_rx_cursor_def on_line_def set_context_def)
  ultimately show ?thesis by auto
qed

lemma byte_at_end:
  assumes "at z0 [] k z cur"
  shows "\<exists>c z'. rx_cursor_byte t z cur = Some (c, z', cur) \<and> line_error c \<and> at z0 [] k z' cur"
proof -
  let ?z = "store_rx_cursor cur z" and ?cap = "length (input_buffer z)"
  have z: "cur_count cur = 0" and p: "pending (io_context (io z)) = []" and l: "live (io_context (io z))" and c: "0 < ?cap"
    using assms by (auto simp: on_line_def upcoming_def)
  obtain r chunk n c' where r: "rd (io_context (io z)) ?cap t = (r, chunk, n, c')" "line_error r"
    "pending c' = []" "live c'"
    using read_none [OF l p c, of t] by auto
  let ?z' = "set_context c' (?z\<lparr>input_buffer := overlay chunk (input_buffer z)\<rparr>)"
  have "rx_moved z0 ?z'"
    by (rule rx_moved_trans [OF rx_moved_trans [OF at_moved [OF assms] rx_moved_store] rx_moved_read])
  then have "at z0 [] k ?z' cur"
    using assms r z by (auto simp: on_line_def upcoming_def set_context_def store_rx_cursor_def)
  moreover have "rx_cursor_byte t z cur = Some (r, ?z', cur)"
    using assms z r line_error_neg [OF r(2)]
    by (simp add: rx_cursor_byte_def Let_def store_rx_cursor_def on_line_def)
  ultimately show ?thesis using r(2) by blast
qed

lemma raw_at:
  assumes "at z0 (b # bs) k z cur"
  shows "\<exists>z' cur'. rx_cursor_raw t z cur = Some (raw_result (receive_mobyturbo z0) b k, z', cur') \<and>
    at z0 bs (raw_cancel (receive_mobyturbo z0) b k) z' cur'"
proof -
  obtain z' cur' where 1: "rx_cursor_byte t z cur = Some (uint b, z', cur')" "at z0 bs k z' cur'"
    using byte_at [OF assms] by blast
  have m: "receive_mobyturbo z' = receive_mobyturbo z0"
    using at_moved [OF 1(2)] by (simp add: cfg_simps)
  have "uint b = uint CAN \<longleftrightarrow> b = CAN" by (simp add: word_uint_eq_iff)
  then show ?thesis
    using 1 m by (auto simp: rx_cursor_raw_def raw_result_def raw_cancel_def Let_def on_line_def upcoming_def)
qed

lemma raw_at_end:
  assumes "at z0 [] k z cur"
  shows "\<exists>c z'. rx_cursor_raw t z cur = Some (c, z', cur) \<and> line_error c \<and> at z0 [] k z' cur"
proof -
  obtain c z' where 1: "rx_cursor_byte t z cur = Some (c, z', cur)" "line_error c" "at z0 [] k z' cur"
    using byte_at_end [OF assms] by blast
  then show ?thesis using line_error_neg [OF 1(2)] by (auto simp: rx_cursor_raw_def)
qed

end

end
