(* ===== verification/Rx_Total.thy ===== *)
theory Rx_Total
  imports Line
begin

text \<open>
  Every reception routine ends, and stays inside its arrays, on every line that delivers
  finitely many octets before it fails. The result of a routine is a negative error or a value
  obtained by taking at least one octet off the line; that decreasing length is the measure of
  all the receive loops. Nothing is assumed about the octets.
\<close>

declare split_paired_Ex [simp del] split_paired_All [simp del]

definition proto_error :: "int \<Rightarrow> bool" where
  "proto_error c \<longleftrightarrow> line_error c \<or> c = ZMODEM_INVALID_HEADER \<or> c = ZMODEM_INVALID_DATA"

lemma line_proto: "line_error c \<Longrightarrow> proto_error c"
  by (simp add: proto_error_def)

context octet_source
begin

section \<open>Routines on the cursor\<close>

definition outcome ::
  "(int \<Rightarrow> bool) \<Rightarrow> nat \<Rightarrow> 'c zmodem \<Rightarrow> (int \<times> 'c zmodem \<times> rx_cursor) option \<Rightarrow> bool" where
  "outcome E n z0 m \<longleftrightarrow> (\<exists>c z cur bs k. m = Some (c, z, cur) \<and> at z0 bs k z cur \<and>
     (if c < 0 then E c \<and> length bs \<le> n else length bs < n))"

lemma outcomeI:
  "at z0 bs k z cur \<Longrightarrow> (if c < 0 then E c \<and> length bs \<le> n else length bs < n) \<Longrightarrow>
   outcome E n z0 (Some (c, z, cur))"
  unfolding outcome_def by blast

lemma outcome_mono: "outcome E n z0 m \<Longrightarrow> n \<le> n' \<Longrightarrow> (\<And>c. E c \<Longrightarrow> E' c) \<Longrightarrow> outcome E' n' z0 m"
  unfolding outcome_def by (fastforce split: if_splits)

lemma outcome_le: "outcome E n z0 m \<Longrightarrow> n \<le> n' \<Longrightarrow> outcome E n' z0 m"
  by (rule outcome_mono)

lemma outcome_bind:
  assumes "outcome E n z0 m"
    and "\<And>c z cur bs k. at z0 bs k z cur \<Longrightarrow> c < 0 \<Longrightarrow> E c \<Longrightarrow> length bs \<le> n \<Longrightarrow> P (f (c, z, cur))"
    and "\<And>c z cur bs k. at z0 bs k z cur \<Longrightarrow> 0 \<le> c \<Longrightarrow> length bs < n \<Longrightarrow> P (f (c, z, cur))"
  shows "P (Option.bind m f)"
proof -
  obtain c z cur bs k where m: "m = Some (c, z, cur)" "at z0 bs k z cur"
    "if c < 0 then E c \<and> length bs \<le> n else length bs < n"
    using assms(1) unfolding outcome_def by blast
  then show ?thesis using assms(2,3) [OF m(2), of c] by (cases "c < 0") auto
qed

lemma raw_outcome:
  assumes "at z0 bs k z cur"
  shows "outcome line_error (length bs) z0 (rx_cursor_raw t z cur)"
proof (cases bs)
  case Nil
  then obtain c z' where "rx_cursor_raw t z cur = Some (c, z', cur)" "line_error c" "at z0 [] k z' cur"
    using raw_at_end [of z0 k z cur t] assms by auto
  then show ?thesis using Nil line_error_neg [of c] by (auto intro!: outcomeI [of z0 "[]"])
next
  case (Cons b bs')
  have "line_error (raw_result m b k)" if "raw_result m b k < 0" for m
    using that by (auto simp: raw_result_def line_error_def split: if_splits)
  then show ?thesis
    using raw_at [of z0 b bs' k z cur t] assms Cons by (auto intro!: outcomeI)
qed

lemma skip_flow_outcome:
  "at z0 bs k z cur \<Longrightarrow> 0 \<le> c \<Longrightarrow> outcome line_error (Suc (length bs)) z0 (rx_skip_flow t c z cur)"
proof (induction "length bs" arbitrary: bs k z cur c rule: less_induct)
  case less
  have more: "outcome line_error (Suc (length bs)) z0
      (do { (c, z, cur) \<leftarrow> rx_cursor_raw t z cur;
            if c < 0 then Some (c, z, cur) else rx_skip_flow t c z cur })"
  proof (rule outcome_bind [OF raw_outcome [OF less.prems(1)]])
    fix c z1 cur1 bs1 k1
    assume 1: "at z0 bs1 k1 z1 cur1" "0 \<le> (c :: int)" "length bs1 < length bs"
    show "outcome line_error (Suc (length bs)) z0 (case (c, z1, cur1) of (c, z, cur) \<Rightarrow>
        if c < 0 then Some (c, z, cur) else rx_skip_flow t c z cur)"
      using 1 outcome_le [OF less.hyps [OF 1(3,1,2)], of "Suc (length bs)"] by simp
  qed (auto intro!: outcomeI)
  show ?case
    by (subst rx_skip_flow.simps) (use more less.prems in \<open>auto intro: outcomeI\<close>)
qed

definition outcome_zdle ::
  "nat \<Rightarrow> 'c zmodem \<Rightarrow> (bool \<times> int \<times> 'c zmodem \<times> rx_cursor) option \<Rightarrow> bool" where
  "outcome_zdle n z0 m \<longleftrightarrow> (\<exists>ret c z cur bs k. m = Some (ret, c, z, cur) \<and> at z0 bs k z cur \<and>
     (if c < 0 then ret \<and> line_error c \<and> length bs \<le> n else length bs < n))"

lemma outcome_zdleI:
  "at z0 bs k z cur \<Longrightarrow> (if c < 0 then ret \<and> line_error c \<and> length bs \<le> n else length bs < n) \<Longrightarrow>
   outcome_zdle n z0 (Some (ret, c, z, cur))"
  unfolding outcome_zdle_def by blast

lemma outcome_zdle_mono: "outcome_zdle n z0 m \<Longrightarrow> n \<le> n' \<Longrightarrow> outcome_zdle n' z0 m"
  unfolding outcome_zdle_def by (fastforce split: if_splits)

lemma zdle_value_nonneg: "rx_zdle_value c = Some v \<Longrightarrow> 0 \<le> c \<Longrightarrow> 0 \<le> v"
  by (auto simp: rx_zdle_value_def split: if_splits)

lemma zdle_loop_outcome:
  "at z0 bs k z cur \<Longrightarrow> outcome_zdle (length bs) z0 (rx_zdle_loop t z cur)"
proof (induction "length bs" arbitrary: bs k z cur rule: less_induct)
  case less
  show ?case
  proof (subst rx_zdle_loop.simps, rule outcome_bind [OF raw_outcome [OF less.prems]])
    fix c z1 cur1 bs1 k1
    assume 1: "at z0 bs1 k1 z1 cur1" "0 \<le> (c :: int)" "length bs1 < length bs"
    show "outcome_zdle (length bs) z0 (case (c, z1, cur1) of (c, z, cur) \<Rightarrow>
        if c < 0 then Some (True, c, z, cur)
        else if receive_escape8_format z = ZMODEM_ESCAPE8_LEGACY \<and> c AND 128 \<noteq> 0
        then Some (True, c XOR 64, z, cur)
        else if rx_needs_slow_path z c then rx_zdle_loop t z cur
        else (case rx_zdle_value c of None \<Rightarrow> Some (False, c, z, cur) | Some v \<Rightarrow> Some (True, v, z, cur)))"
      using 1 less.hyps [OF 1(3,1)] zdle_value_nonneg [of c]
      by (auto intro: outcome_zdleI outcome_zdle_mono split: option.split)
  qed (auto intro: outcome_zdleI)
qed

lemma slow_outcome:
  "at z0 bs k z cur \<Longrightarrow> 0 \<le> c \<Longrightarrow> outcome line_error (Suc (length bs)) z0 (rx_cursor_slow t c z cur)"
proof (induction "length bs" arbitrary: bs k z cur c rule: less_induct)
  case less
  show ?case
  proof (subst rx_cursor_slow.simps, rule outcome_bind [OF skip_flow_outcome [OF less.prems]])
    fix c z1 cur1 bs1 k1
    assume 1: "at z0 bs1 k1 z1 cur1" "0 \<le> (c :: int)" "length bs1 < Suc (length bs)"
    show "outcome line_error (Suc (length bs)) z0 (case (c, z1, cur1) of (c, z, cur) \<Rightarrow>
        if c < 0 then Some (c, z, cur) else if c \<noteq> uint ZDLE then Some (c, z, cur)
        else do { (ret, c, z, cur) \<leftarrow> rx_zdle_loop t z cur;
                  if ret then Some (c, z, cur)
                  else do { (c, z, cur) \<leftarrow> rx_cursor_raw t z cur;
                            if c < 0 then Some (c, z, cur) else rx_cursor_slow t c z cur } })"
    proof (cases "c = uint ZDLE")
      case False
      then show ?thesis using 1 by (auto intro: outcomeI)
    next
      case True
      obtain ret c2 z2 cur2 bs2 k2 where 2: "rx_zdle_loop t z1 cur1 = Some (ret, c2, z2, cur2)"
        "at z0 bs2 k2 z2 cur2"
        "if c2 < 0 then ret \<and> line_error c2 \<and> length bs2 \<le> length bs1 else length bs2 < length bs1"
        using zdle_loop_outcome [OF 1(1)] unfolding outcome_zdle_def by blast
      have "outcome line_error (Suc (length bs)) z0
          (if ret then Some (c2, z2, cur2)
           else do { (c, z, cur) \<leftarrow> rx_cursor_raw t z2 cur2;
                     if c < 0 then Some (c, z, cur) else rx_cursor_slow t c z cur })"
      proof (cases ret)
        case True
        then show ?thesis using 1(3) 2 by (auto intro!: outcomeI split: if_splits)
      next
        case False
        then have l: "length bs2 < length bs1" using 2(3) by (auto split: if_splits)
        show ?thesis
          unfolding if_not_P [OF False]
        proof (rule outcome_bind [OF raw_outcome [OF 2(2)]])
          fix c z3 cur3 bs3 k3 assume 3: "at z0 bs3 k3 z3 cur3" "0 \<le> (c :: int)" "length bs3 < length bs2"
          have "length bs3 < length bs" using 3(3) l 1(3) by simp
          from less.hyps [OF this 3(1,2)] this 3(2)
          show "outcome line_error (Suc (length bs)) z0
              (case (c, z3, cur3) of (c, z, cur) \<Rightarrow> if c < 0 then Some (c, z, cur) else rx_cursor_slow t c z cur)"
            by (auto intro: outcome_mono)
        qed (use l 1(3) in \<open>auto intro!: outcomeI\<close>)
      qed
      then show ?thesis using True 2(1) by simp
    qed
  qed (auto intro: outcomeI)
qed

lemma next_outcome:
  assumes "at z0 bs k z cur"
  shows "outcome line_error (length bs) z0 (rx_cursor_next t z cur)"
  unfolding rx_cursor_next_def
proof (rule outcome_bind [OF raw_outcome [OF assms]])
  fix c z1 cur1 bs1 k1
  assume 1: "at z0 bs1 k1 z1 cur1" "0 \<le> (c :: int)" "length bs1 < length bs"
  show "outcome line_error (length bs) z0 (case (c, z1, cur1) of (c, z, cur) \<Rightarrow>
      if c < 0 then Some (c, z, cur) else if \<not> rx_needs_slow_path z c then Some (c, z, cur)
      else rx_cursor_slow t c z cur)"
    using 1 outcome_le [OF slow_outcome [OF 1(1,2)], of "length bs"] by (auto intro: outcomeI)
qed (auto intro: outcomeI)

section \<open>The Omen decoder\<close>

lemma omen_quoted_outcome:
  "at z0 bs k z cur \<Longrightarrow> outcome line_error (length bs) z0 (rx_omen_quoted t z cur)"
proof (induction "length bs" arbitrary: bs k z cur rule: less_induct)
  case less
  show ?case
  proof (subst rx_omen_quoted.simps, rule outcome_bind [OF raw_outcome [OF less.prems]])
    fix c z1 cur1 bs1 k1
    assume 1: "at z0 bs1 k1 z1 cur1" "0 \<le> (c :: int)" "length bs1 < length bs"
    show "outcome line_error (length bs) z0 (case (c, z1, cur1) of (c, z, cur) \<Rightarrow>
        if c < 0 then Some (c, z, cur)
        else let c = c AND 127
             in if rx_is_flow_control c then rx_omen_quoted t z cur else Some (c, z, cur))"
      using 1 outcome_le [OF less.hyps [OF 1(3,1)] less_imp_le [OF 1(3)]] by (auto intro: outcomeI simp: Let_def)
  qed (auto intro: outcomeI)
qed

definition omen_error :: "int \<Rightarrow> bool" where
  "omen_error c \<longleftrightarrow> line_error c \<or> c = ZMODEM_INVALID_DATA"

lemma omen_value_range: "0 \<le> c \<Longrightarrow> rx_omen_value high c < 0 \<Longrightarrow> rx_omen_value high c = ZMODEM_INVALID_DATA"
  by (auto simp: rx_omen_value_def Let_def split: if_splits)

lemma omen_loop_outcome:
  "at z0 bs k z cur \<Longrightarrow> outcome omen_error (length bs) z0 (rx_omen_loop t high z cur)"
proof (induction "length bs" arbitrary: bs k z cur high rule: less_induct)
  case less
  show ?case
  proof (subst rx_omen_loop.simps, rule outcome_bind [OF raw_outcome [OF less.prems]])
    fix c z1 cur1 bs1 k1
    assume 1: "at z0 bs1 k1 z1 cur1" "0 \<le> (c :: int)" "length bs1 < length bs"
    have q: "outcome omen_error (length bs) z0 (do { (c, z, cur) \<leftarrow> rx_omen_quoted t z1 cur1;
        if c < 0 then Some (c, z, cur) else Some (rx_omen_value high c, z, cur) })"
      by (rule outcome_bind [OF omen_quoted_outcome [OF 1(1)]])
         (use 1(3) omen_value_range in \<open>auto simp: omen_error_def intro!: outcomeI\<close>)
    have h: "0 \<le> (c AND 127) OR (if high then 128 else 0)" by simp
    show "outcome omen_error (length bs) z0 (case (c, z1, cur1) of (c, z, cur) \<Rightarrow>
        if c < 0 then Some (c, z, cur)
        else let c = c AND 127
             in if rx_is_flow_control c then rx_omen_loop t high z cur
                else if c = uint SO then rx_omen_loop t True z cur
                else if c \<noteq> uint ZDLE then
                  (if rx_is_unescaped_control z c then rx_omen_loop t high z cur
                   else Some (c OR (if high then 128 else 0), z, cur))
                else do { (c, z, cur) \<leftarrow> rx_omen_quoted t z cur;
                          if c < 0 then Some (c, z, cur) else Some (rx_omen_value high c, z, cur) })"
      using 1 q h outcome_le [OF less.hyps [OF 1(3,1)] less_imp_le [OF 1(3)]]
      by (auto intro!: outcomeI simp: Let_def simp del: or_nonnegative_int_iff)
  qed (auto simp: omen_error_def intro: outcomeI)
qed

lemma omen_outcome: "at z0 bs k z cur \<Longrightarrow> outcome omen_error (length bs) z0 (rx_omen_cursor t z cur)"
  unfolding rx_omen_cursor_def by (rule omen_loop_outcome)

lemma omen_byte_outcome:
  assumes "at z0 bs k z cur" "invalid < 0"
  shows "outcome (\<lambda>c. omen_error c \<or> c = invalid) (length bs) z0 (rx_omen_byte_cursor t invalid z cur)"
  unfolding rx_omen_byte_cursor_def
  by (rule outcome_bind [OF omen_outcome [OF assms(1)]])
     (use assms(2) in \<open>auto simp: rx_octet_result_def intro!: outcomeI\<close>)

section \<open>Routines on the stored state\<close>

definition same_io :: "'c zmodem \<Rightarrow> 'c zmodem \<Rightarrow> bool" where
  "same_io z z' \<longleftrightarrow> io_write (io z') = io_write (io z) \<and> io_flush (io z') = io_flush (io z) \<and>
     io_poll (io z') = io_poll (io z) \<and> tx_classes z' = tx_classes z \<and>
     tx_classes_initialized z' = tx_classes_initialized z \<and> tx_data_wire z' = tx_data_wire z"

text \<open>At most \<open>n\<close> octets are still to come and the header array has its length.\<close>

definition sane :: "nat \<Rightarrow> 'c zmodem \<Rightarrow> 'c zmodem \<Rightarrow> bool" where
  "sane n z0 z \<longleftrightarrow> (\<exists>bs k. at z bs k z (load_rx_cursor z) \<and> length bs \<le> n) \<and>
     length (rxd_header z) = ZMAXHLEN + 1 \<and> same_io z0 z"

lemma sane_le: "sane n z0 z \<Longrightarrow> n \<le> n' \<Longrightarrow> sane n' z0 z"
  unfolding sane_def by (meson le_trans)

lemma load_store [simp]: "load_rx_cursor (store_rx_cursor cur z) = cur"
  by (simp add: load_rx_cursor_def store_rx_cursor_def)

lemma at_store: "at z0 bs k z cur \<Longrightarrow> at (store_rx_cursor cur z) bs k (store_rx_cursor cur z) cur"
  by (simp add: on_line_def upcoming_def store_rx_cursor_def)

lemma same_io_moved: "rx_moved z z' \<Longrightarrow> same_io z0 z \<Longrightarrow> same_io z0 z'"
  by (simp add: same_io_def rx_moved_fields)

lemma sane_store:
  assumes "at z bs k z' cur" "length bs \<le> n" "length (rxd_header z) = ZMAXHLEN + 1" "same_io z0 z"
  shows "sane n z0 (store_rx_cursor cur z')"
proof -
  have m: "rx_moved z (store_rx_cursor cur z')" using at_moved [OF assms(1)] rx_moved_store rx_moved_trans by blast
  have "length (rxd_header (store_rx_cursor cur z')) = ZMAXHLEN + 1"
    using assms(3) rx_moved_fields(6) [OF m] by simp
  then show ?thesis
    unfolding sane_def load_store using at_store [OF assms(1)] assms(2) same_io_moved [OF m assms(4)] by blast
qed

lemma sane_update [simp]:
  "sane n z0 (z\<lparr>rxd_header_len := x\<rparr>) = sane n z0 z"
  "sane n z0 (z\<lparr>receive_32_bit_data := b\<rparr>) = sane n z0 z"
  "sane n z0 (z\<lparr>receive_encoded_data := e\<rparr>) = sane n z0 z"
  "sane n z0 (z\<lparr>receive_escape8_format := f\<rparr>) = sane n z0 z"
  "sane n z0 (z\<lparr>receive_mobyturbo := b\<rparr>) = sane n z0 z"
  "sane n z0 (z\<lparr>mobyturbo_probe_passed := b\<rparr>) = sane n z0 z"
  by (simp_all add: sane_def on_line_def upcoming_def load_rx_cursor_def same_io_def)

lemma sane_header: "sane n z0 z \<Longrightarrow> length h = ZMAXHLEN + 1 \<Longrightarrow> sane n z0 (z\<lparr>rxd_header := h\<rparr>)"
  by (auto simp: sane_def on_line_def upcoming_def load_rx_cursor_def same_io_def)

lemma sane_header_length: "sane n z0 z \<Longrightarrow> length (rxd_header z) = ZMAXHLEN + 1"
  by (simp add: sane_def)

text \<open>A routine that takes at least one octet when it succeeds, and one that need not.\<close>

definition settles :: "(int \<Rightarrow> bool) \<Rightarrow> nat \<Rightarrow> 'c zmodem \<Rightarrow> (int \<times> 'c zmodem) option \<Rightarrow> bool" where
  "settles E n z0 m \<longleftrightarrow> (\<exists>c z. m = Some (c, z) \<and>
     (if c < 0 then E c \<and> sane n z0 z else \<exists>n'<n. sane n' z0 z))"

definition ends :: "(int \<Rightarrow> bool) \<Rightarrow> nat \<Rightarrow> 'c zmodem \<Rightarrow> (int \<times> 'c zmodem) option \<Rightarrow> bool" where
  "ends E n z0 m \<longleftrightarrow> (\<exists>c z. m = Some (c, z) \<and> sane n z0 z \<and> (c < 0 \<longrightarrow> E c))"

definition ends3 :: "(int \<Rightarrow> bool) \<Rightarrow> nat \<Rightarrow> 'c zmodem \<Rightarrow> (int \<times> 'x \<times> 'c zmodem) option \<Rightarrow> bool" where
  "ends3 E n z0 m \<longleftrightarrow> (\<exists>c x z. m = Some (c, x, z) \<and> sane n z0 z \<and> (c < 0 \<longrightarrow> E c))"

lemma settles_ends: "settles E n z0 m \<Longrightarrow> (\<And>c. E c \<Longrightarrow> E' c) \<Longrightarrow> ends E' n z0 m"
  unfolding settles_def ends_def by (metis less_imp_le sane_le)

lemma settles_mono: "settles E n z0 m \<Longrightarrow> (\<And>c. E c \<Longrightarrow> E' c) \<Longrightarrow> settles E' n z0 m"
  unfolding settles_def by metis

lemma settlesD:
  assumes "settles E n z0 m"
  obtains c z where "m = Some (c, z)" "c < 0" "E c" "sane n z0 z"
  | c z n' where "m = Some (c, z)" "0 \<le> c" "n' < n" "sane n' z0 z"
proof -
  obtain c z where "m = Some (c, z)" "if c < 0 then E c \<and> sane n z0 z else \<exists>n'<n. sane n' z0 z"
    using assms unfolding settles_def by blast
  then show thesis using that by (cases "c < 0") (auto simp: not_less)
qed

lemma endsI: "sane n z0 z \<Longrightarrow> (c < 0 \<Longrightarrow> E c) \<Longrightarrow> ends E n z0 (Some (c, z))"
  unfolding ends_def by blast

lemma ends3I: "sane n z0 z \<Longrightarrow> (c < 0 \<Longrightarrow> E c) \<Longrightarrow> ends3 E n z0 (Some (c, x, z))"
  unfolding ends3_def by blast

lemma ends_bind:
  assumes "ends E n z0 m"
    and "\<And>c z. sane n z0 z \<Longrightarrow> (c < 0 \<Longrightarrow> E c) \<Longrightarrow> P (f (c, z))"
  shows "P (Option.bind m f)"
  using assms unfolding ends_def by auto

lemma ends3_bind:
  assumes "ends3 E n z0 m"
    and "\<And>c x z. sane n z0 z \<Longrightarrow> (c < 0 \<Longrightarrow> E c) \<Longrightarrow> P (f (c, x, z))"
  shows "P (Option.bind m f)"
  using assms unfolding ends3_def by auto

lemma with_cursor_settles:
  assumes "sane n z0 z" and "\<And>bs k. at z bs k z (load_rx_cursor z) \<Longrightarrow> outcome E (length bs) z (f z (load_rx_cursor z))"
  shows "settles E n z0 (with_cursor f z)"
proof -
  obtain bs k where b: "at z bs k z (load_rx_cursor z)" "length bs \<le> n"
    using assms(1) unfolding sane_def by blast
  obtain c z' cur bs' k' where o: "f z (load_rx_cursor z) = Some (c, z', cur)" "at z bs' k' z' cur"
    "if c < 0 then E c \<and> length bs' \<le> length bs else length bs' < length bs"
    using assms(2) [OF b(1)] unfolding outcome_def by blast
  have r: "length (rxd_header z) = ZMAXHLEN + 1" "same_io z0 z" using assms(1) unfolding sane_def by auto
  show ?thesis
  proof (cases "c < 0")
    case True
    then have "length bs' \<le> n" using o(3) b(2) by simp
    then show ?thesis
      using True o(1,3) sane_store [OF o(2) _ r] by (auto simp: settles_def with_cursor_def)
  next
    case False
    then have "length bs' < n" using o(3) b(2) by simp
    then show ?thesis
      using False o(1) sane_store [OF o(2) order_refl r] by (auto simp: settles_def with_cursor_def)
  qed
qed

lemma raw_settles: "sane n z0 z \<Longrightarrow> settles line_error n z0 (rx_raw t z)"
  unfolding rx_raw_def by (rule with_cursor_settles) (simp_all add: raw_outcome)

lemma rx_settles:
  assumes "sane n z0 z"
  shows "settles line_error n z0 (rx t z)"
  using raw_settles [OF assms, of t]
proof (cases rule: settlesD)
  case (1 c z1)
  then show ?thesis by (auto simp: rx_def settles_def)
next
  case (2 c z1 n1)
  show ?thesis
  proof (cases "rx_needs_slow_path z1 c")
    case False
    then show ?thesis using 2 by (auto simp: rx_def settles_def)
  next
    case True
    have "settles line_error (Suc n1) z0 (with_cursor (rx_cursor_slow t c) z1)"
    proof -
      obtain bs k where b: "at z1 bs k z1 (load_rx_cursor z1)" "length bs \<le> n1"
        using 2(4) unfolding sane_def by blast
      obtain c' z' cur bs' k' where o: "rx_cursor_slow t c z1 (load_rx_cursor z1) = Some (c', z', cur)"
        "at z1 bs' k' z' cur" "if c' < 0 then line_error c' \<and> length bs' \<le> Suc (length bs) else length bs' < Suc (length bs)"
        using slow_outcome [OF b(1) 2(2)] unfolding outcome_def by blast
      have r: "length (rxd_header z1) = ZMAXHLEN + 1" "same_io z0 z1" using 2(4) unfolding sane_def by auto
      show ?thesis
        using o(1,3) b(2) sane_store [OF o(2) _ r, of "Suc n1"] sane_store [OF o(2) _ r, of n1]
        by (cases "c' < 0") (auto simp: settles_def with_cursor_def)
    qed
    then have "settles line_error n z0 (rx_slow t c z1)"
      using 2(3) unfolding rx_slow_def settles_def by (metis Suc_leI less_le_trans sane_le)
    then show ?thesis using True 2(1,2) by (simp add: rx_def)
  qed
qed

lemma byte_settles:
  assumes "sane n z0 z" "proto_error invalid" "invalid < 0"
  shows "settles proto_error n z0 (rx_byte t invalid z)"
  using rx_settles [OF assms(1), of t] assms(2,3)
  by (cases rule: settlesD)
     (auto simp: rx_byte_def settles_def rx_octet_result_def line_proto intro: sane_le [OF _ less_imp_le])

lemma invalid_proto [simp]: "proto_error ZMODEM_INVALID_HEADER" "proto_error ZMODEM_INVALID_DATA"
  by (simp_all add: proto_error_def)

lemma hex_terminator_settles:
  "sane n z0 z \<Longrightarrow> settles line_error n z0 (rx_hex_terminator_byte t z)"
proof (induction n arbitrary: z rule: less_induct)
  case (less n)
  show ?case
    using raw_settles [OF less.prems, of t]
  proof (cases rule: settlesD)
    case (1 c z1)
    then show ?thesis by (subst rx_hex_terminator_byte.simps) (auto simp: settles_def)
  next
    case (2 c z1 n1)
    have "settles line_error n z0 (rx_hex_terminator_byte t z1)"
      using less.IH [OF 2(3,4)] 2(3) unfolding settles_def by (metis less_imp_le less_trans sane_le)
    then show ?thesis
      using 2 by (subst rx_hex_terminator_byte.simps) (auto simp: settles_def)
  qed
qed

section \<open>Data subpackets\<close>

lemma le_octets_ends:
  "sane n z0 z \<Longrightarrow> (\<And>n z. sane n z0 z \<Longrightarrow> settles E n z0 (read z)) \<Longrightarrow>
   ends3 E n z0 (rx_le_octets read i m w z)"
proof (induction m arbitrary: i w z n)
  case (Suc m)
  from Suc.prems(2) [OF Suc.prems(1)] show ?case
  proof (cases rule: settlesD)
    case (2 c z1 n1)
    have "ends3 E n1 z0 (rx_le_octets read (i + 1) m (w OR push_bit (i * 8) (ucast (word_of_int c :: u8))) z1)"
      using Suc.IH Suc.prems(2) 2(4) by blast
    then show ?thesis using 2 by (auto simp: ends3_def intro: sane_le [OF _ less_imp_le])
  qed (auto simp: ends3_def)
qed (auto intro: ends3I)

lemma crc32_ends: "sane n z0 z \<Longrightarrow> proto_error e \<Longrightarrow> e < 0 \<Longrightarrow> ends3 proto_error n z0 (rx_crc32 t e z)"
  unfolding rx_crc32_def by (rule le_octets_ends) (simp_all add: byte_settles)

lemma crc16_ends:
  assumes "sane n z0 z" "proto_error e" "e < 0"
  shows "ends3 proto_error n z0 (rx_crc16 t e z)"
  using byte_settles [OF assms, of t]
proof (cases rule: settlesD)
  case (1 c z1)
  then show ?thesis by (auto simp: rx_crc16_def ends3_def)
next
  case (2 c z1 n1)
  from byte_settles [OF 2(4) assms(2,3), of t] show ?thesis
    using 2 by (cases rule: settlesD) (auto simp: rx_crc16_def ends3_def intro: sane_le)
qed

text \<open>The array and the fill after a receiver of data: nothing is stored past the limit.\<close>

definition received :: "nat \<Rightarrow> 'c zmodem \<Rightarrow> u8 list \<Rightarrow> nat \<Rightarrow> (int \<times> 'c zmodem \<times> u8 list \<times> nat) option \<Rightarrow> bool" where
  "received n z0 p capacity m \<longleftrightarrow> (\<exists>c z p' used. m = Some (c, z, p', used) \<and> sane n z0 z \<and>
     (c < 0 \<longrightarrow> proto_error c) \<and> length p' = length p \<and> used \<le> rx_limit capacity)"

lemma receivedI:
  "sane n z0 z \<Longrightarrow> (c < 0 \<Longrightarrow> proto_error c) \<Longrightarrow> length p' = length p \<Longrightarrow> used \<le> rx_limit capacity \<Longrightarrow>
   received n z0 p capacity (Some (c, z, p', used))"
  unfolding received_def by blast

lemma received_if:
  "(q \<Longrightarrow> received n z0 p capacity (Some a)) \<Longrightarrow> (\<not> q \<Longrightarrow> received n z0 p capacity (Some b)) \<Longrightarrow>
   received n z0 p capacity (Some (if q then a else b))"
  by simp

definition fits :: "nat \<Rightarrow> nat \<Rightarrow> 'k rx_data_vars \<Rightarrow> bool" where
  "fits len limit v \<longleftrightarrow> length (rd_p v) = len \<and> rd_used v \<le> limit"

lemma mem_store_Some:
  "i + length xs \<le> length p \<Longrightarrow> \<exists>p'. mem_store p i xs = Some p' \<and> length p' = length p"
  by (simp add: mem_store_def)

lemma put_span_fits:
  assumes "fits len limit v" "limit \<le> len"
  shows "\<exists>v'. rx_put_span u limit source v = Some v' \<and> fits len limit v'"
proof -
  let ?n = "if limit - rd_used v < length source then limit - rd_used v else length source"
  have "rd_used v + length (take ?n source) \<le> length (rd_p v)" using assms by (auto simp: fits_def)
  then obtain p' where "mem_store (rd_p v) (rd_used v) (take ?n source) = Some p'" "length p' = length (rd_p v)"
    using mem_store_Some by blast
  then show ?thesis using assms by (auto simp: rx_put_span_def fits_def Let_def)
qed

lemma put_octet_fits:
  assumes "fits len limit v" "limit \<le> len"
  shows "\<exists>v'. rx_put_octet u u1 limit c v = Some v' \<and> fits len limit v'"
proof (cases "rd_used v < limit")
  case True
  then obtain p' where "mem_store (rd_p v) (rd_used v) [c] = Some p'" "length p' = length (rd_p v)"
    using mem_store_Some [of "rd_used v" "[c]" "rd_p v"] assms by (auto simp: fits_def)
  then show ?thesis using True assms by (auto simp: rx_put_octet_def fits_def)
qed (use assms in \<open>auto simp: rx_put_octet_def fits_def\<close>)

lemma cursor_data_at:
  "at z0 bs k z cur \<Longrightarrow> \<exists>d rest. rx_cursor_data z cur = Some d \<and> bs = d @ rest \<and> length d = cur_count cur"
  by (auto simp: rx_cursor_data_def on_line_def upcoming_def)

lemma skip_at:
  assumes "at z0 bs k z cur" "rx_cursor_data z cur = Some d" "n \<le> length d"
  shows "at z0 (drop n bs) 0 z (rx_cursor_skip n cur)"
proof -
  have d: "d = take (cur_count cur) (drop (cur_index cur) (input_buffer z))" "cur_count cur = length d"
    using assms(1,2) by (auto simp: rx_cursor_data_def on_line_def split: if_splits)
  have "take (cur_count cur - n) (drop (cur_index cur + n) (input_buffer z)) = drop n d"
    unfolding d(1) by (simp add: drop_take add.commute)
  moreover have "bs = d @ pending (io_context (io z))"
    using assms(1) unfolding on_line_def upcoming_def d(1) [symmetric] by simp
  ultimately show ?thesis
    using assms(1,3) d(2) by (auto simp: on_line_def upcoming_def rx_cursor_skip_def)
qed

lemma data_loop_total:
  "at z0 bs k z cur \<Longrightarrow> fits len limit v \<Longrightarrow> limit \<le> len \<Longrightarrow>
   \<exists>c z' cur' v' bs' k'. rx_data_loop t u u1 limit z cur v = Some (c, z', cur', v') \<and>
     at z0 bs' k' z' cur' \<and> length bs' \<le> length bs \<and> (c < 0 \<longrightarrow> line_error c) \<and> fits len limit v'"
proof (induction "length bs" arbitrary: bs k z cur v rule: less_induct)
  case less
  obtain d rest where d: "rx_cursor_data z cur = Some d" "bs = d @ rest"
    using cursor_data_at [OF less.prems(1)] by blast
  let ?n = "rx_plain_span z d"
  have n: "?n \<le> length d" by (simp add: rx_plain_span_takeWhile length_takeWhile_le)
  show ?case
  proof (cases "0 < ?n")
    case True
    obtain v1 where v: "rx_put_span u limit (take ?n d) v = Some v1" "fits len limit v1"
      using put_span_fits less.prems(2,3) by blast
    have l: "length (drop ?n bs) < length bs" using True n d(2) by auto
    have "rx_data_loop t u u1 limit z cur v = rx_data_loop t u u1 limit z (rx_cursor_skip ?n cur) v1"
      using True d(1) v(1) by (subst rx_data_loop.simps) simp
    moreover obtain c z' cur' v' bs' k' where
      "rx_data_loop t u u1 limit z (rx_cursor_skip ?n cur) v1 = Some (c, z', cur', v')"
      "at z0 bs' k' z' cur'" "length bs' \<le> length (drop ?n bs)" "c < 0 \<longrightarrow> line_error c" "fits len limit v'"
      using less.hyps [OF l skip_at [OF less.prems(1) d(1) n] v(2) less.prems(3)] by blast
    moreover from this have "length bs' \<le> length bs" using l by simp
    ultimately show ?thesis by auto
  next
    case False
    obtain c z1 cur1 bs1 k1 where o: "rx_cursor_next t z cur = Some (c, z1, cur1)" "at z0 bs1 k1 z1 cur1"
      "if c < 0 then line_error c \<and> length bs1 \<le> length bs else length bs1 < length bs"
      using next_outcome [OF less.prems(1), of t] unfolding outcome_def by blast
    show ?thesis
    proof (cases "c < 0 \<or> 255 < c")
      case True
      then have "rx_data_loop t u u1 limit z cur v = Some (c, z1, cur1, v)"
        using False d(1) o(1) by (subst rx_data_loop.simps) simp
      moreover have "length bs1 \<le> length bs \<and> (c < 0 \<longrightarrow> line_error c)" using o(3) by (auto split: if_splits)
      ultimately show ?thesis using o(2) less.prems(2) by blast
    next
      case c: False
      then have l: "length bs1 < length bs" using o(3) by (auto split: if_splits)
      obtain v1 where v: "rx_put_octet u u1 limit (word_of_int c) v = Some v1" "fits len limit v1"
        using put_octet_fits less.prems(2,3) by blast
      have "rx_data_loop t u u1 limit z cur v = rx_data_loop t u u1 limit z1 cur1 v1"
        using False c d(1) o(1) v(1) by (subst rx_data_loop.simps) simp
      moreover obtain c z' cur' v' bs' k' where
        "rx_data_loop t u u1 limit z1 cur1 v1 = Some (c, z', cur', v')"
        "at z0 bs' k' z' cur'" "length bs' \<le> length bs1" "c < 0 \<longrightarrow> line_error c" "fits len limit v'"
        using less.hyps [OF l o(2) v(2) less.prems(3)] by blast
      moreover from this have "length bs' \<le> length bs" using l by simp
      ultimately show ?thesis by auto
    qed
  qed
qed

end

end
