(* ===== verification/Rx_Total_Data.thy ===== *)
theory Rx_Total_Data
  imports Rx_Total
begin

text \<open>
  Reception of data ends and stays inside the caller's array: the plain, run-length and Pack-7
  receivers.
\<close>

declare split_paired_Ex [simp del] split_paired_All [simp del]

context octet_source
begin

lemma rx_limit_le: "rx_limit capacity \<le> capacity"
  by (simp add: rx_limit_def)

text \<open>What the receivers do after their loop: the cursor is stored, the checksum read.\<close>

lemma sane_at:
  assumes "sane n z0 z"
  obtains bs k where "at z bs k z (load_rx_cursor z)" "length bs \<le> n"
  using assms unfolding sane_def by blast

lemma sane_store_from:
  assumes "sane n z0 z" "at z bs k z' cur" "length bs \<le> n"
  shows "sane n z0 (store_rx_cursor cur z')"
  using assms sane_store by (metis (no_types, lifting) sane_def)

lemma rx_32_received:
  assumes "sane n z0 z" "capacity \<le> length p"
  shows "received n z0 p capacity (rx_32_data p capacity 0 z)"
proof -
  obtain bs k where b: "at z bs k z (load_rx_cursor z)" "length bs \<le> n" using sane_at [OF assms(1)] .
  have f: "fits (length p) (rx_limit capacity) \<lparr>rd_p = p, rd_used = 0, rd_crc = - 1, rd_overflow = False\<rparr>"
    by (simp add: fits_def)
  obtain c z1 cur v bs1 k1 where o: "rx_data_loop 1000 crc32_update crc32_byte_update (rx_limit capacity) z
       (load_rx_cursor z) \<lparr>rd_p = p, rd_used = 0, rd_crc = - 1, rd_overflow = False\<rparr> = Some (c, z1, cur, v)"
    "at z bs1 k1 z1 cur" "length bs1 \<le> length bs" "c < 0 \<longrightarrow> line_error c"
    "fits (length p) (rx_limit capacity) v"
    using data_loop_total [OF b(1) f order_trans [OF rx_limit_le assms(2)]] by blast
  have s: "sane n z0 (store_rx_cursor cur z1)"
    using sane_store_from [OF assms(1) o(2)] o(3) b(2) by simp
  have v: "length (rd_p v) = length p" "rd_used v \<le> rx_limit capacity"
    using o(5) by (auto simp: fits_def)
  obtain r w z2 where w: "rx_crc32 1000 ZMODEM_INVALID_DATA (store_rx_cursor cur z1) = Some (r, w, z2)"
    "sane n z0 z2" "r < 0 \<longrightarrow> proto_error r"
    using crc32_ends [OF s, of ZMODEM_INVALID_DATA 1000] unfolding ends3_def by auto
  have nn: "0 \<le> uint (word_of_int c :: u8)" by simp
  show ?thesis
  proof (cases "c < 0")
    case True
    then show ?thesis using o(1,4) s v by (auto simp: rx_32_data_def line_proto intro: receivedI)
  next
    case False
    then show ?thesis
      using o(1) w v nn by (auto simp: rx_32_data_def Let_def intro!: receivedI received_if simp del: uint_word_of_int_eq)
  qed
qed

lemma rx_16_received:
  assumes "sane n z0 z" "capacity \<le> length p"
  shows "received n z0 p capacity (rx_16_data p capacity 0 z)"
proof -
  obtain bs k where b: "at z bs k z (load_rx_cursor z)" "length bs \<le> n" using sane_at [OF assms(1)] .
  have f: "fits (length p) (rx_limit capacity) \<lparr>rd_p = p, rd_used = 0, rd_crc = 0, rd_overflow = False\<rparr>"
    by (simp add: fits_def)
  obtain c z1 cur v bs1 k1 where o: "rx_data_loop 5000 crc16_buffer_update crc16_update (rx_limit capacity) z
       (load_rx_cursor z) \<lparr>rd_p = p, rd_used = 0, rd_crc = 0, rd_overflow = False\<rparr> = Some (c, z1, cur, v)"
    "at z bs1 k1 z1 cur" "length bs1 \<le> length bs" "c < 0 \<longrightarrow> line_error c"
    "fits (length p) (rx_limit capacity) v"
    using data_loop_total [OF b(1) f order_trans [OF rx_limit_le assms(2)]] by blast
  have s: "sane n z0 (store_rx_cursor cur z1)"
    using sane_store_from [OF assms(1) o(2)] o(3) b(2) by simp
  have v: "length (rd_p v) = length p" "rd_used v \<le> rx_limit capacity"
    using o(5) by (auto simp: fits_def)
  obtain r w z2 where w: "rx_crc16 1000 ZMODEM_INVALID_DATA (store_rx_cursor cur z1) = Some (r, w, z2)"
    "sane n z0 z2" "r < 0 \<longrightarrow> proto_error r"
    using crc16_ends [OF s, of ZMODEM_INVALID_DATA 1000] unfolding ends3_def by auto
  have nn: "0 \<le> uint (word_of_int c :: u8)" by simp
  show ?thesis
  proof (cases "c < 0")
    case True
    then show ?thesis using o(1,4) s v by (auto simp: rx_16_data_def line_proto intro: receivedI)
  next
    case False
    then show ?thesis
      using o(1) w v nn by (auto simp: rx_16_data_def Let_def intro!: receivedI received_if simp del: uint_word_of_int_eq)
  qed
qed

section \<open>Run-length encoding\<close>

lemma rle_cursor_outcome:
  "at z0 bs k z cur \<Longrightarrow> outcome omen_error (length bs) z0 (rx_rle_cursor t z cur)"
  unfolding rx_rle_cursor_def
  using omen_outcome outcome_mono [OF next_outcome order_refl] by (auto simp: omen_error_def)

lemma omen_proto: "omen_error c \<Longrightarrow> proto_error c"
  by (auto simp: omen_error_def proto_error_def)

definition rle_fits :: "nat \<Rightarrow> nat \<Rightarrow> omen_rle \<Rightarrow> bool" where
  "rle_fits len limit d \<longleftrightarrow> length (rle_p d) = len \<and> rle_used d \<le> limit"

lemma rle_put_fits:
  "rle_fits len limit d \<Longrightarrow> limit \<le> len \<Longrightarrow> \<exists>d'. rle_put limit m c d = Some d' \<and> rle_fits len limit d'"
proof (induction m arbitrary: d)
  case (Suc m)
  show ?case
  proof (cases "rle_used d < limit")
    case True
    then obtain p' where p: "mem_store (rle_p d) (rle_used d) [c] = Some p'" "length p' = length (rle_p d)"
      using mem_store_Some [of "rle_used d" "[c]" "rle_p d"] Suc.prems by (auto simp: rle_fits_def)
    have "rle_fits len limit (d\<lparr>rle_p := p', rle_used := rle_used d + 1\<rparr>)"
      using p(2) True Suc.prems by (simp add: rle_fits_def)
    from Suc.IH [OF this Suc.prems(2)] show ?thesis using True p(1) by simp
  next
    case False
    have "rle_fits len limit (d\<lparr>rle_overflow := True\<rparr>)" using Suc.prems by (simp add: rle_fits_def)
    from Suc.IH [OF this Suc.prems(2)] show ?thesis using False by simp
  qed
qed simp

lemma rle_fits_state [simp]:
  "rle_fits len limit (d\<lparr>rle_state := s\<rparr>) = rle_fits len limit d"
  "rle_fits len limit (d\<lparr>rle_run := r\<rparr>) = rle_fits len limit d"
  by (simp_all add: rle_fits_def)

lemma rle_step_fits:
  assumes "rle_fits len limit d" "limit \<le> len"
  shows "\<exists>ok d'. omen_rle_step limit c d = Some (ok, d') \<and> rle_fits len limit d'"
proof -
  have put: "\<exists>ok d'. Option.bind (rle_put limit m b d) (\<lambda>d. Some (True, f d)) = Some (ok, d') \<and>
      rle_fits len limit d'" if "\<And>d. rle_fits len limit (f d) = rle_fits len limit d" for m b f
  proof -
    obtain d' where "rle_put limit m b d = Some d'" "rle_fits len limit d'"
      using rle_put_fits [OF assms] by blast
    then show ?thesis using that by auto
  qed
  show ?thesis
    using put [of "\<lambda>d. d"] put [of "\<lambda>d. d\<lparr>rle_state := OMEN_RLE_NORMAL\<rparr>"] assms
    unfolding omen_rle_step_def
    by (auto split: omen_rle_state.split omen_rle_count_kind.split simp del: rle_put.simps One_nat_def)
qed

lemma rle_loop_total:
  "at z0 bs k z cur \<Longrightarrow> rle_fits len limit d \<Longrightarrow> limit \<le> len \<Longrightarrow>
   \<exists>c z' cur' d' crc' bs' k'. rx_rle_loop limit z cur d crc = Some (c, z', cur', d', crc') \<and>
     at z0 bs' k' z' cur' \<and> length bs' \<le> length bs \<and> (c < 0 \<longrightarrow> proto_error c) \<and> rle_fits len limit d'"
proof (induction "length bs" arbitrary: bs k z cur d crc rule: less_induct)
  case less
  obtain c z1 cur1 bs1 k1 where o: "rx_rle_cursor 1000 z cur = Some (c, z1, cur1)" "at z0 bs1 k1 z1 cur1"
    "if c < 0 then omen_error c \<and> length bs1 \<le> length bs else length bs1 < length bs"
    using rle_cursor_outcome [OF less.prems(1), of 1000] unfolding outcome_def by blast
  have l: "length bs1 \<le> length bs" using o(3) by (auto split: if_splits)
  have stop: ?case if "rx_rle_loop limit z cur d crc = Some (c', z1, cur1, d', crc')" "c' < 0 \<longrightarrow> proto_error c'"
    "rle_fits len limit d'" for c' d' crc'
    using that o(2) l by blast
  show ?case
  proof (cases "c < 0 \<or> 255 < c")
    case True
    have "c < 0 \<longrightarrow> proto_error c" using o(3) omen_proto by auto
    moreover have "\<not> uint (word_of_int c :: u8) < 0" by (simp add: not_less)
    ultimately show ?thesis
      using True less.prems(2) o(1)
      by (cases "rle_state d = OMEN_RLE_NORMAL"; cases "c < 0")
         (rule stop, subst rx_rle_loop.simps, simp, simp, simp)+
  next
    case False
    then have l1: "length bs1 < length bs" using o(3) by (auto split: if_splits)
    obtain ok d1 where d: "omen_rle_step limit (word_of_int c) d = Some (ok, d1)" "rle_fits len limit d1"
      using rle_step_fits [OF less.prems(2,3)] by blast
    show ?thesis
    proof (cases ok)
      case False2: False
      show ?thesis
        by (rule stop [of ZMODEM_INVALID_DATA d1 "crc32_byte_update crc (word_of_int c)"], subst rx_rle_loop.simps)
           (use False False2 o(1) d in simp_all)
    next
      case True
      have "rx_rle_loop limit z cur d crc =
          rx_rle_loop limit z1 cur1 d1 (crc32_byte_update crc (word_of_int c))"
        using False True o(1) d(1) by (subst rx_rle_loop.simps) simp
      moreover obtain c' z' cur' d' crc' bs' k' where
        "rx_rle_loop limit z1 cur1 d1 (crc32_byte_update crc (word_of_int c)) = Some (c', z', cur', d', crc')"
        "at z0 bs' k' z' cur'" "length bs' \<le> length bs1" "c' < 0 \<longrightarrow> proto_error c'" "rle_fits len limit d'"
        using less.hyps [OF l1 o(2) d(2) less.prems(3)] by blast
      moreover from this have "length bs' \<le> length bs" using l1 by simp
      ultimately show ?thesis by auto
    qed
  qed
qed

lemma rle_byte_outcome:
  assumes "at z0 bs k z cur"
  shows "outcome proto_error (length bs) z0 (rx_rle_byte_cursor t z cur)"
  unfolding rx_rle_byte_cursor_def
  by (rule outcome_bind [OF rle_cursor_outcome [OF assms]]) (auto intro!: outcomeI simp: omen_proto)

text \<open>\<open>rx_le_octets\<close> on the cursor.\<close>

definition cursor_ends :: "'c zmodem \<Rightarrow> nat \<Rightarrow> (int \<times> 'x \<times> 'c zmodem \<times> rx_cursor) option \<Rightarrow> bool" where
  "cursor_ends z0 n m \<longleftrightarrow> (\<exists>c x z cur bs k. m = Some (c, x, z, cur) \<and> at z0 bs k z cur \<and>
     length bs \<le> n \<and> (c < 0 \<longrightarrow> proto_error c))"

lemma cursor_endsI:
  "at z0 bs k z cur \<Longrightarrow> length bs \<le> n \<Longrightarrow> (c < 0 \<Longrightarrow> proto_error c) \<Longrightarrow> cursor_ends z0 n (Some (c, x, z, cur))"
  unfolding cursor_ends_def by blast

lemma cursor_ends_le: "cursor_ends z0 n m \<Longrightarrow> n \<le> n' \<Longrightarrow> cursor_ends z0 n' m"
  unfolding cursor_ends_def by (metis le_trans)

lemma le_octets_cursor_ends:
  assumes read: "\<And>bs k z cur. at z0 bs k z cur \<Longrightarrow> outcome proto_error (length bs) z0 (read z cur)"
  shows "at z0 bs k z cur \<Longrightarrow> cursor_ends z0 (length bs) (rx_le_octets (on_cursor read) i m w (z, cur))"
proof (induction m arbitrary: i w z cur bs k)
  case (Suc m)
  obtain c z1 cur1 bs1 k1 where o: "read z cur = Some (c, z1, cur1)" "at z0 bs1 k1 z1 cur1"
    "if c < 0 then proto_error c \<and> length bs1 \<le> length bs else length bs1 < length bs"
    using read [OF Suc.prems] unfolding outcome_def by blast
  show ?case
  proof (cases "c < 0")
    case True
    then show ?thesis using o by (auto simp: on_cursor_def intro: cursor_endsI)
  next
    case False
    then have "length bs1 \<le> length bs" using o(3) by simp
    then show ?thesis using False o(1) cursor_ends_le [OF Suc.IH [OF o(2)]] by (simp add: on_cursor_def)
  qed
qed (auto intro: cursor_endsI)

lemma rx_rle_received:
  assumes "sane n z0 z" "capacity \<le> length p"
  shows "received n z0 p capacity (rx_rle_data p capacity z)"
proof -
  obtain bs k where b: "at z bs k z (load_rx_cursor z)" "length bs \<le> n" using sane_at [OF assms(1)] .
  let ?d = "\<lparr>rle_state = OMEN_RLE_NORMAL, rle_run = 0, rle_p = p, rle_used = 0, rle_overflow = False\<rparr>"
  have f: "rle_fits (length p) (rx_limit capacity) ?d" by (simp add: rle_fits_def)
  obtain c z1 cur d crc bs1 k1 where o: "rx_rle_loop (rx_limit capacity) z (load_rx_cursor z) ?d (- 1) = Some (c, z1, cur, d, crc)"
    "at z bs1 k1 z1 cur" "length bs1 \<le> length bs" "c < 0 \<longrightarrow> proto_error c"
    "rle_fits (length p) (rx_limit capacity) d"
    using rle_loop_total [OF b(1) f order_trans [OF rx_limit_le assms(2)]] by blast
  have d: "length (rle_p d) = length p" "rle_used d \<le> rx_limit capacity"
    using o(5) by (auto simp: rle_fits_def)
  obtain r w z2 cur2 bs2 k2 where w: "rx_le_octets (on_cursor (rx_rle_byte_cursor 1000)) 0 4 0 (z1, cur) = Some (r, w, z2, cur2)"
    "at z bs2 k2 z2 cur2" "length bs2 \<le> length bs1" "r < 0 \<longrightarrow> proto_error r"
    using le_octets_cursor_ends [of z "rx_rle_byte_cursor 1000", OF _ o(2)] rle_byte_outcome
    unfolding cursor_ends_def by metis
  have s: "sane n z0 (store_rx_cursor cur z1)" "sane n z0 (store_rx_cursor cur2 z2)"
    using sane_store_from [OF assms(1) o(2)] sane_store_from [OF assms(1) w(2)] o(3) w(3) b(2) by simp_all
  show ?thesis
  proof (cases "c < 0")
    case True
    then show ?thesis using o(1,4) s d by (auto simp: rx_rle_data_def intro: receivedI)
  next
    case False
    then show ?thesis
      using o(1) w(1,4) s(2) d by (auto simp: rx_rle_data_def Let_def intro!: receivedI received_if)
  qed
qed

section \<open>Pack-7\<close>

lemma pack7_digits_ends:
  "at z0 bs k z cur \<Longrightarrow> digits < 5 \<Longrightarrow>
   \<exists>c v' digits' z' cur' bs' k'. rx_pack7_digits t v digits z cur = Some (c, v', digits', z', cur') \<and>
     at z0 bs' k' z' cur' \<and> (c = ZMODEM_OK \<or> c < 0 \<and> proto_error c) \<and>
     length bs' \<le> length bs \<and> (c = ZMODEM_OK \<longrightarrow> length bs' < length bs) \<and> digits' \<le> 5"
proof (induction "length bs" arbitrary: bs k z cur v digits rule: less_induct)
  case less
  obtain c z1 cur1 bs1 k1 where o: "rx_omen_cursor t z cur = Some (c, z1, cur1)" "at z0 bs1 k1 z1 cur1"
    "if c < 0 then omen_error c \<and> length bs1 \<le> length bs else length bs1 < length bs"
    using omen_outcome [OF less.prems(1), of t] unfolding outcome_def by blast
  have l: "length bs1 \<le> length bs" using o(3) by (auto split: if_splits)
  have stop: ?case if "rx_pack7_digits t v digits z cur = Some (c', v', digits', z1, cur1)"
    "c' = ZMODEM_OK \<or> c' < 0 \<and> proto_error c'" "c' = ZMODEM_OK \<longrightarrow> length bs1 < length bs" "digits' \<le> 5" for c' v' digits'
    using that o(2) l by blast
  let ?digit = "word_of_int (c - 0x22) :: u32"
  consider (err) "c < 0" | (flag) "255 < c" | (bang) "c = 0x21"
    | (bad) "0 \<le> c" "c \<le> 255" "c \<noteq> 0x21" "c < 0x22 \<or> 0x79 < c \<or> (- 1 - ?digit) div 88 < v"
    | (last) "0x22 \<le> c" "c \<le> 0x79" "\<not> (- 1 - ?digit) div 88 < v" "digits + 1 = 5"
    | (more) "0x22 \<le> c" "c \<le> 0x79" "\<not> (- 1 - ?digit) div 88 < v" "digits + 1 \<noteq> 5"
    by linarith
  then show ?case
  proof cases
    case err
    then show ?thesis using o less.prems(2) omen_proto
      by (intro stop [of c v digits]) (subst rx_pack7_digits.simps, auto split: if_splits)
  next
    case flag
    then show ?thesis using o less.prems(2)
      by (intro stop [of ZMODEM_INVALID_DATA v digits]) (subst rx_pack7_digits.simps, auto)
  next
    case bang
    then show ?thesis using o less.prems(2)
      by (intro stop [of "if digits = 1 then ZMODEM_INVALID_DATA else ZMODEM_OK" v digits])
         (subst rx_pack7_digits.simps, auto)
  next
    case bad
    then show ?thesis using o less.prems(2)
      by (intro stop [of ZMODEM_INVALID_DATA v digits]) (subst rx_pack7_digits.simps, auto simp: Let_def)
  next
    case last
    then show ?thesis using o less.prems(2)
      by (intro stop [of ZMODEM_OK "v * 88 + ?digit" "digits + 1"]) (subst rx_pack7_digits.simps, auto simp: Let_def)
  next
    case more
    then have l1: "length bs1 < length bs" "digits + 1 < 5" using o(3) less.prems(2) by auto
    have "rx_pack7_digits t v digits z cur = rx_pack7_digits t (v * 88 + ?digit) (digits + 1) z1 cur1"
      using more o(1) by (subst rx_pack7_digits.simps) (auto simp: Let_def)
    moreover obtain c' v' digits' z' cur' bs' k' where
      "rx_pack7_digits t (v * 88 + ?digit) (digits + 1) z1 cur1 = Some (c', v', digits', z', cur')"
      "at z0 bs' k' z' cur'" "c' = ZMODEM_OK \<or> c' < 0 \<and> proto_error c'"
      "length bs' \<le> length bs1" "c' = ZMODEM_OK \<longrightarrow> length bs' < length bs1" "digits' \<le> 5"
      using less.hyps [OF l1(1) o(2) l1(2)] by blast
    moreover from this have "length bs' \<le> length bs" "c' = ZMODEM_OK \<longrightarrow> length bs' < length bs" using l1(1) by auto
    ultimately show ?thesis by auto
  qed
qed

lemma pack7_group_ends:
  assumes "at z0 bs k z cur"
  shows "\<exists>r out z' cur' bs' k'. rx_pack7_group t z cur = Some (r, out, z', cur') \<and>
     at z0 bs' k' z' cur' \<and> (r = ZMODEM_OK \<or> r < 0 \<and> proto_error r) \<and>
     length bs' \<le> length bs \<and> (r = ZMODEM_OK \<longrightarrow> length bs' < length bs)"
proof -
  obtain r v digits z1 cur1 bs1 k1 where o: "rx_pack7_digits t 0 0 z cur = Some (r, v, digits, z1, cur1)"
    "at z0 bs1 k1 z1 cur1" "r = ZMODEM_OK \<or> r < 0 \<and> proto_error r" "length bs1 \<le> length bs"
    "r = ZMODEM_OK \<longrightarrow> length bs1 < length bs"
    using pack7_digits_ends [OF assms, of 0 t 0] by auto
  let ?bytes = "if digits = 0 then 0 else digits - 1"
  have stop: ?thesis if "rx_pack7_group t z cur = Some (r', out, z1, cur1)"
    "r' = ZMODEM_OK \<or> r' < 0 \<and> proto_error r'" "r' = ZMODEM_OK \<longrightarrow> length bs1 < length bs" for r' out
    using that o(2,4) by blast
  show ?thesis
  proof (cases "r = ZMODEM_OK")
    case False
    then show ?thesis using o by (intro stop [of r "[]"]) (auto simp: rx_pack7_group_def)
  next
    case True
    then show ?thesis
    proof (cases "?bytes < 4 \<and> push_bit (?bytes * 8) 1 \<le> v")
      case small: True
      then show ?thesis using o(1) True
        by (intro stop [of ZMODEM_INVALID_DATA "[]"]) (auto simp: rx_pack7_group_def Let_def)
    next
      case False
      then show ?thesis using o True
        by (intro stop [of ZMODEM_OK "pack7_octets ?bytes v []"]) (auto simp: rx_pack7_group_def Let_def)
    qed
  qed
qed

lemma pack7_put_total:
  "length p = len \<Longrightarrow> used \<le> limit \<Longrightarrow> limit \<le> len \<Longrightarrow>
   \<exists>p' used' crc' overflow'. pack7_put limit bs p used crc overflow = Some (p', used', crc', overflow') \<and>
     length p' = len \<and> used' \<le> limit"
proof (induction bs arbitrary: p used crc overflow)
  case (Cons b bs)
  show ?case
  proof (cases "used < limit")
    case True
    then obtain p1 where "mem_store p used [b] = Some p1" "length p1 = len"
      using mem_store_Some [of used "[b]" p] Cons.prems by auto
    then show ?thesis using Cons.IH [of p1 "used + 1"] Cons.prems True by (simp add: Let_def)
  next
    case False
    then show ?thesis using Cons.IH [of p used] Cons.prems by (simp add: Let_def)
  qed
qed simp

lemma pack7_loop_total:
  "at z0 bs k z cur \<Longrightarrow> length p = len \<Longrightarrow> used \<le> limit \<Longrightarrow> limit \<le> len \<Longrightarrow>
   \<exists>r z' cur' p' used' crc' overflow' bs' k'.
     rx_pack7_loop limit z cur p used crc overflow = Some (r, z', cur', p', used', crc', overflow') \<and>
     at z0 bs' k' z' cur' \<and> length bs' \<le> length bs \<and> (r = ZMODEM_OK \<or> r < 0 \<and> proto_error r) \<and>
     length p' = len \<and> used' \<le> limit"
proof (induction "length bs" arbitrary: bs k z cur p used crc overflow rule: less_induct)
  case less
  obtain r out z1 cur1 bs1 k1 where o: "rx_pack7_group 1000 z cur = Some (r, out, z1, cur1)"
    "at z0 bs1 k1 z1 cur1" "r = ZMODEM_OK \<or> r < 0 \<and> proto_error r" "length bs1 \<le> length bs"
    "r = ZMODEM_OK \<longrightarrow> length bs1 < length bs"
    using pack7_group_ends [OF less.prems(1)] by blast
  show ?case
  proof (cases "r = ZMODEM_OK")
    case False
    then have "rx_pack7_loop limit z cur p used crc overflow = Some (r, z1, cur1, p, used, crc, overflow)"
      using o(1) by (subst rx_pack7_loop.simps) simp
    then show ?thesis using o less.prems by blast
  next
    case True
    obtain p1 used1 crc1 ov1 where p: "pack7_put limit out p used crc overflow = Some (p1, used1, crc1, ov1)"
      "length p1 = len" "used1 \<le> limit"
      using pack7_put_total [OF less.prems(2-4)] by blast
    show ?thesis
    proof (cases "length out < 4")
      case out: True
      then have "rx_pack7_loop limit z cur p used crc overflow = Some (ZMODEM_OK, z1, cur1, p1, used1, crc1, ov1)"
        using o(1) True p(1) by (subst rx_pack7_loop.simps) simp
      then show ?thesis using o p by blast
    next
      case False
      then have "rx_pack7_loop limit z cur p used crc overflow = rx_pack7_loop limit z1 cur1 p1 used1 crc1 ov1"
        using o(1) True p(1) by (subst rx_pack7_loop.simps) simp
      moreover have l: "length bs1 < length bs" using o(5) True by simp
      moreover obtain r' z' cur' p' used' crc' ov' bs' k' where
        "rx_pack7_loop limit z1 cur1 p1 used1 crc1 ov1 = Some (r', z', cur', p', used', crc', ov')"
        "at z0 bs' k' z' cur'" "length bs' \<le> length bs1" "r' = ZMODEM_OK \<or> r' < 0 \<and> proto_error r'"
        "length p' = len" "used' \<le> limit"
        using less.hyps [OF l o(2) p(2,3) less.prems(4)] by blast
      moreover from this have "length bs' \<le> length bs" using l by simp
      ultimately show ?thesis by auto
    qed
  qed
qed

lemma rx_pack7_received:
  assumes "sane n z0 z" "capacity \<le> length p"
  shows "received n z0 p capacity (rx_pack7_data p capacity z)"
proof -
  obtain bs k where b: "at z bs k z (load_rx_cursor z)" "length bs \<le> n" using sane_at [OF assms(1)] .
  obtain r z1 cur p1 used crc ov bs1 k1 where o:
    "rx_pack7_loop (rx_limit capacity) z (load_rx_cursor z) p 0 (- 1) False = Some (r, z1, cur, p1, used, crc, ov)"
    "at z bs1 k1 z1 cur" "length bs1 \<le> length bs" "r = ZMODEM_OK \<or> r < 0 \<and> proto_error r"
    "length p1 = length p" "used \<le> rx_limit capacity"
    using pack7_loop_total [OF b(1) refl le0 order_trans [OF rx_limit_le assms(2)]] by blast
  obtain c z2 cur2 bs2 k2 where c: "rx_omen_cursor 1000 z1 cur = Some (c, z2, cur2)" "at z bs2 k2 z2 cur2"
    "if c < 0 then omen_error c \<and> length bs2 \<le> length bs1 else length bs2 < length bs1"
    using omen_outcome [OF o(2), of 1000] unfolding outcome_def by blast
  obtain r3 out z3 cur3 bs3 k3 where g: "rx_pack7_group 1000 z2 cur2 = Some (r3, out, z3, cur3)"
    "at z bs3 k3 z3 cur3" "r3 = ZMODEM_OK \<or> r3 < 0 \<and> proto_error r3" "length bs3 \<le> length bs2"
    using pack7_group_ends [OF c(2)] by blast
  have l: "length bs1 \<le> n" "length bs2 \<le> n" "length bs3 \<le> n" using o(3) c(3) g(4) b(2) by (auto split: if_splits)
  note s = sane_store_from [OF assms(1) o(2) l(1)] sane_store_from [OF assms(1) c(2) l(2)]
    sane_store_from [OF assms(1) g(2) l(3)]
  show ?thesis
  proof (cases "r = ZMODEM_OK")
    case False
    then show ?thesis using o s by (auto simp: rx_pack7_data_def intro: receivedI)
  next
    case True
    show ?thesis
    proof (cases "c < 0 \<or> c < uint ZCRCE \<or> uint ZCRCW < c")
      case bad: True
      then show ?thesis using o(1,5,6) True c(1,3) s omen_proto [of c]
        by (cases "c < 0") (auto simp: rx_pack7_data_def intro!: receivedI)
    next
      case False
      then show ?thesis using o(1,5,6) True c(1,3) g(1,3) s
        by (auto simp: rx_pack7_data_def Let_def intro!: receivedI)
    qed
  qed
qed

section \<open>Any subpacket\<close>

lemma rx_data_total:
  assumes "sane n z0 z" "capacity \<le> length p"
  shows "\<exists>c z' p' used frame_end. rx_data p capacity z = Some (c, z', p', used, frame_end) \<and>
    sane n z0 z' \<and> (c = ZMODEM_FRAME_OK \<or> c = ZMODEM_END_OF_FRAME \<or> c < 0 \<and> proto_error c) \<and>
    length p' = length p \<and> used \<le> rx_limit capacity"
proof -
  let ?m = "if receive_encoded_data z \<noteq> ZMODEM_ENCODED_DATA_NONE then
               (if receive_encoded_data z = ZMODEM_ENCODED_DATA_PACK7 then rx_pack7_data p capacity z
                else rx_rle_data p capacity z)
             else if receive_32_bit_data z then rx_32_data p capacity 0 z
             else rx_16_data p capacity 0 z"
  have "received n z0 p capacity ?m"
    using rx_pack7_received rx_rle_received rx_32_received rx_16_received assms by simp
  then obtain c z1 p1 used where m: "?m = Some (c, z1, p1, used)" "sane n z0 z1" "c < 0 \<longrightarrow> proto_error c"
    "length p1 = length p" "used \<le> rx_limit capacity"
    unfolding received_def by blast
  show ?thesis
    unfolding rx_data_def m(1) using m(2-) by (cases "c < 0") (auto simp: Let_def)
qed

end

end
