(* ===== verification/Rx_Total_Header.thy ===== *)
theory Rx_Total_Header
  imports Rx_Total_Data
begin

text \<open>
  Reception of headers ends and stays inside \<open>rxd_header\<close>, whatever octets arrive.
\<close>

declare split_paired_Ex [simp del] split_paired_All [simp del]

context octet_source
begin

lemma settles_le:
  assumes "settles E n' z0 m" "n' \<le> n" shows "settles E n z0 m"
  using assms unfolding settles_def by (metis (no_types, opaque_lifting) order_less_le_trans sane_le)

lemma nibble_settles:
  assumes "sane n z0 z" shows "settles proto_error n z0 (rx_nibble t z)"
  using byte_settles [OF assms, of ZMODEM_INVALID_HEADER t]
  by (rule settlesD, simp, simp)
     (auto simp: rx_nibble_def settles_def Let_def intro: sane_le [OF _ less_imp_le])

lemma hex_settles:
  assumes "sane n z0 z" shows "settles proto_error n z0 (rx_hex t z)"
  using nibble_settles [OF assms, of t]
proof (cases rule: settlesD)
  case (1 c z1)
  then show ?thesis by (auto simp: rx_hex_def settles_def)
next
  case (2 c z1 n1)
  from nibble_settles [OF 2(4), of t] show ?thesis
  proof (cases rule: settlesD)
    case (1 c' z2)
    then show ?thesis using 2 by (auto simp: rx_hex_def settles_def intro: sane_le [OF _ less_imp_le])
  next
    case (2 c' z2 n2)
    have nn: "0 \<le> push_bit 4 c OR c'" using \<open>0 \<le> c\<close> \<open>0 \<le> c'\<close> by simp
    have m: "rx_hex t z = Some (push_bit 4 c OR c', z2)"
      using \<open>rx_nibble t z = Some (c, z1)\<close> \<open>0 \<le> c\<close> 2 by (simp add: rx_hex_def)
    have "n2 < n" using 2(3) \<open>n1 < n\<close> by simp
    then show ?thesis using nn m 2(4) unfolding settles_def by auto
  qed
qed

lemma header_octets_ends:
  "sane n z0 z \<Longrightarrow> (\<And>n z. sane n z0 z \<Longrightarrow> settles proto_error n z0 (read z)) \<Longrightarrow>
   i + m \<le> ZMAXHLEN + 1 \<Longrightarrow> ends3 proto_error n z0 (rx_header_octets read u i m crc z)"
proof (induction m arbitrary: i crc z n)
  case (Suc m)
  from Suc.prems(2) [OF Suc.prems(1)] show ?case
  proof (cases rule: settlesD)
    case (2 c z1 n1)
    have len: "length (rxd_header z1) = ZMAXHLEN + 1" using 2(4) by (rule sane_header_length)
    obtain h where h: "mem_store (rxd_header z1) i [word_of_int c] = Some h" "length h = ZMAXHLEN + 1"
      using mem_store_Some [of i "[word_of_int c]" "rxd_header z1"] len Suc.prems(3) by auto
    have "ends3 proto_error n1 z0
        (rx_header_octets read u (i + 1) m (u crc (word_of_int c)) (z1\<lparr>rxd_header := h\<rparr>))"
      by (rule Suc.IH [OF sane_header [OF 2(4) h(2)]]) (use Suc.prems in auto)
    then show ?thesis using 2 h(1) by (auto simp: ends3_def intro: sane_le [OF _ less_imp_le])
  qed (auto simp: ends3_def)
qed (auto intro: ends3I)

lemma bin16_ends:
  assumes "sane n z0 z" "count \<le> ZMAXHLEN + 1"
  shows "ends proto_error n z0 (rx_bin16_header t count z)"
  unfolding rx_bin16_header_def
proof (rule ends3_bind [OF header_octets_ends [OF assms(1)]])
  fix c x z1 assume 1: "sane n z0 z1" "c < 0 \<Longrightarrow> proto_error c"
  obtain r w z2 where w: "rx_crc16 1000 ZMODEM_INVALID_HEADER z1 = Some (r, w, z2)" "sane n z0 z2"
    "r < 0 \<longrightarrow> proto_error r"
    using crc16_ends [OF 1(1), of ZMODEM_INVALID_HEADER 1000] unfolding ends3_def by auto
  then show "ends proto_error n z0 (case (c, x, z1) of (r, crc, z) \<Rightarrow> if r < 0 then Some (r, z)
     else let crc = crc16_update (crc16_update crc 0) 0
          in do { (result, rxd_crc, z) \<leftarrow> rx_crc16 1000 ZMODEM_INVALID_HEADER z;
                  Some (if result \<noteq> ZMODEM_OK then (result, z)
                        else if rxd_crc \<noteq> crc then (ZMODEM_INVALID_HEADER, z)
                        else (ZMODEM_OK, z\<lparr>rxd_header_len := count\<rparr>)) })"
    using 1 by (auto simp: Let_def intro!: endsI)
qed (use assms in \<open>simp_all add: byte_settles\<close>)

lemma bin32_ends:
  assumes "sane n z0 z" "count \<le> ZMAXHLEN + 1"
  shows "ends proto_error n z0 (rx_bin32_header t count z)"
  unfolding rx_bin32_header_def
proof (rule ends3_bind [OF header_octets_ends [OF assms(1)]])
  fix c x z1 assume 1: "sane n z0 z1" "c < 0 \<Longrightarrow> proto_error c"
  obtain r w z2 where w: "rx_crc32 t ZMODEM_INVALID_HEADER z1 = Some (r, w, z2)" "sane n z0 z2"
    "r < 0 \<longrightarrow> proto_error r"
    using crc32_ends [OF 1(1), of ZMODEM_INVALID_HEADER t] unfolding ends3_def by auto
  then show "ends proto_error n z0 (case (c, x, z1) of (r, crc, z) \<Rightarrow> if r < 0 then Some (r, z)
     else let crc = NOT crc
          in do { (result, rxd_crc, z) \<leftarrow> rx_crc32 t ZMODEM_INVALID_HEADER z;
                  Some (if result \<noteq> ZMODEM_OK then (result, z)
                        else if rxd_crc \<noteq> crc then (ZMODEM_INVALID_HEADER, z)
                        else (ZMODEM_OK, z\<lparr>rxd_header_len := count\<rparr>)) })"
    using 1 by (auto simp: Let_def intro!: endsI)
qed (use assms in \<open>simp_all add: byte_settles\<close>)

lemma hex_ends:
  assumes "sane n z0 z" "count \<le> ZMAXHLEN + 1"
  shows "ends proto_error n z0 (rx_hex_header t count z)"
proof -
  have hx: "ends proto_error n z0 (rx_hex t z)" if "sane n z0 z" for z
    using settles_ends [OF hex_settles [OF that]] by blast
  have tb: "ends proto_error n z0 (rx_hex_terminator_byte t z)" if "sane n z0 z" for z
    using settles_ends [OF hex_terminator_settles [OF that]] line_proto by blast
  note seq = ends_bind [where P = "ends proto_error n z0"]
  have tail: "ends proto_error n z0 (do { (c, z) \<leftarrow> rx_hex_terminator_byte t z;
      if c < 0 then Some (c, z)
      else do {
        (c, z) \<leftarrow> (if c AND 0x7f = uint CR then rx_hex_terminator_byte t z else Some (c, z));
        Some (if c < 0 then (c, z)
              else if c AND 0x7f \<noteq> uint LF then (ZMODEM_INVALID_HEADER, z)
              else (ZMODEM_OK, z\<lparr>rxd_header_len := count\<rparr>)) } })" if "sane n z0 z" for z
    by (rule ends_bind [OF tb [OF that]]) (auto intro!: endsI seq tb)
  have digits: "ends proto_error n z0 (do { (c1, z) \<leftarrow> rx_hex t z;
      if c1 < 0 then Some (c1, z)
      else do {
        (c0, z) \<leftarrow> rx_hex t z;
        if c0 < 0 then Some (c0, z)
        else if Q c1 c0 then Some (ZMODEM_INVALID_HEADER, z) else f z } })"
    if "sane n z0 z" "\<And>z. sane n z0 z \<Longrightarrow> ends proto_error n z0 (f z)" for z Q f
    by (rule ends_bind [OF hx [OF that(1)]]) (auto intro!: endsI seq hx that(2))
  show ?thesis
    unfolding rx_hex_header_def Let_def
    by (rule ends3_bind [OF header_octets_ends [OF assms(1)]])
       (use assms(2) in \<open>auto intro!: endsI digits tail simp: hex_settles\<close>)
qed

lemma variable_header_ends:
  assumes "sane n z0 z"
    and header: "\<And>count z. sane n z0 z \<Longrightarrow> count \<le> ZMAXHLEN + 1 \<Longrightarrow> ends proto_error n z0 (header t count z)"
  shows "ends proto_error n z0 (rx_variable_header t hex header z)"
proof -
  have "ends proto_error n z0 (if hex then rx_hex t z else rx_byte t ZMODEM_INVALID_HEADER z)"
    using settles_ends [OF hex_settles [OF assms(1)]] settles_ends [OF byte_settles [OF assms(1)]] by auto
  then obtain c z1 where c: "(if hex then rx_hex t z else rx_byte t ZMODEM_INVALID_HEADER z) = Some (c, z1)"
    "sane n z0 z1" "c < 0 \<longrightarrow> proto_error c"
    unfolding ends_def by blast
  have "nat (c + 1) \<le> ZMAXHLEN + 1" if "\<not> ZMAXHLEN < nat c" using that by simp
  then show ?thesis
    using header [OF c(2), of "nat (c + 1)"] c
    by (auto simp: rx_variable_header_def rx_variable_length_def intro!: endsI)
qed

section \<open>Omen and MobyTurbo headers\<close>

lemma omen_count_outcome:
  "at z0 bs k z cur \<Longrightarrow> outcome line_error (length bs) z0 (rx_omen_count t z cur)"
proof (induction "length bs" arbitrary: bs k z cur rule: less_induct)
  case less
  show ?case
  proof (subst rx_omen_count.simps, rule outcome_bind [OF raw_outcome [OF less.prems]])
    fix c z1 cur1 bs1 k1
    assume 1: "at z0 bs1 k1 z1 cur1" "0 \<le> (c :: int)" "length bs1 < length bs"
    show "outcome line_error (length bs) z0 (case (c, z1, cur1) of (c, z, cur) \<Rightarrow>
        if c < 0 then Some (c, z, cur)
        else let c = c AND 127
             in if rx_is_flow_control c then rx_omen_count t z cur else Some (c, z, cur))"
      using 1 outcome_le [OF less.hyps [OF 1(3,1)] less_imp_le [OF 1(3)]] by (auto intro: outcomeI simp: Let_def)
  qed (auto intro: outcomeI)
qed

text \<open>The header array changes while the cursor is loaded, so the reference state moves along.\<close>

definition cur_sane :: "nat \<Rightarrow> 'c zmodem \<Rightarrow> 'c zmodem \<Rightarrow> rx_cursor \<Rightarrow> bool" where
  "cur_sane n z0 z cur \<longleftrightarrow> (\<exists>bs k. at z bs k z cur \<and> length bs \<le> n) \<and>
     length (rxd_header z) = ZMAXHLEN + 1 \<and> same_io z0 z"

lemma cur_sane_store: "cur_sane n z0 z cur \<Longrightarrow> sane n z0 (store_rx_cursor cur z)"
  unfolding cur_sane_def using sane_store by blast

lemma cur_sane_load: "sane n z0 z \<Longrightarrow> cur_sane n z0 z (load_rx_cursor z)"
  by (simp add: sane_def cur_sane_def)

lemma cur_sane_header:
  "cur_sane n z0 z cur \<Longrightarrow> length h = ZMAXHLEN + 1 \<Longrightarrow> cur_sane n z0 (z\<lparr>rxd_header := h\<rparr>) cur"
  by (auto simp: cur_sane_def on_line_def upcoming_def same_io_def)

lemma at_self: "at z bs k z' cur \<Longrightarrow> at z' bs k z' cur"
  by (simp add: on_line_def)

lemma outcome_cur_sane:
  assumes "cur_sane n z0 z cur" "\<And>bs k. at z bs k z cur \<Longrightarrow> outcome E (length bs) z (f z cur)"
  shows "\<exists>c z' cur'. f z cur = Some (c, z', cur') \<and> cur_sane n z0 z' cur' \<and> (c < 0 \<longrightarrow> E c)"
proof -
  obtain bs k where b: "at z bs k z cur" "length bs \<le> n" using assms(1) unfolding cur_sane_def by blast
  obtain c z' cur' bs' k' where o: "f z cur = Some (c, z', cur')" "at z bs' k' z' cur'"
    "if c < 0 then E c \<and> length bs' \<le> length bs else length bs' < length bs"
    using assms(2) [OF b(1)] unfolding outcome_def by blast
  have "length bs' \<le> n" using o(3) b(2) by (auto split: if_splits)
  moreover have "length (rxd_header z') = ZMAXHLEN + 1" "same_io z0 z'"
    using assms(1) at_moved [OF o(2)] same_io_moved by (auto simp: cur_sane_def rx_moved_fields)
  ultimately have "cur_sane n z0 z' cur'" using at_self [OF o(2)] unfolding cur_sane_def by blast
  then show ?thesis using o(1,3) by (auto split: if_splits)
qed

lemma omen_byte_proto:
  assumes "cur_sane n z0 z cur"
  shows "\<exists>c z' cur'. rx_omen_byte_cursor t ZMODEM_INVALID_HEADER z cur = Some (c, z', cur') \<and>
    cur_sane n z0 z' cur' \<and> (c < 0 \<longrightarrow> proto_error c)"
proof -
  have "outcome (\<lambda>c. omen_error c \<or> c = ZMODEM_INVALID_HEADER) (length bs) z
      (rx_omen_byte_cursor t ZMODEM_INVALID_HEADER z cur)" if "at z bs k z cur" for bs k
    by (rule omen_byte_outcome [OF that]) simp
  then obtain c z' cur' where "rx_omen_byte_cursor t ZMODEM_INVALID_HEADER z cur = Some (c, z', cur')"
    "cur_sane n z0 z' cur'" "c < 0 \<longrightarrow> (omen_error c \<or> c = ZMODEM_INVALID_HEADER)"
    using outcome_cur_sane [OF assms, where f = "rx_omen_byte_cursor t ZMODEM_INVALID_HEADER"] by blast
  then show ?thesis using omen_proto by auto
qed

lemma omen_octets_total:
  "cur_sane n z0 z cur \<Longrightarrow> i + m \<le> ZMAXHLEN + 1 \<Longrightarrow>
   \<exists>c crc' z' cur'. rx_omen_octets t i m crc z cur = Some (c, crc', z', cur') \<and> cur_sane n z0 z' cur' \<and>
     (c < 0 \<longrightarrow> proto_error c)"
proof (induction m arbitrary: i crc z cur)
  case (Suc m)
  obtain c z1 cur1 where o: "rx_omen_byte_cursor t ZMODEM_INVALID_HEADER z cur = Some (c, z1, cur1)"
    "cur_sane n z0 z1 cur1" "c < 0 \<longrightarrow> proto_error c"
    using omen_byte_proto [OF Suc.prems(1)] by blast
  show ?case
  proof (cases "c < 0")
    case False
    have "length (rxd_header z1) = ZMAXHLEN + 1" using o(2) by (simp add: cur_sane_def)
    then obtain h where h: "mem_store (rxd_header z1) i [word_of_int c] = Some h" "length h = ZMAXHLEN + 1"
      using mem_store_Some [of i "[word_of_int c]" "rxd_header z1"] Suc.prems(2) by auto
    show ?thesis using Suc.IH [OF cur_sane_header [OF o(2) h(2)], of "i + 1"] Suc.prems(2) False o(1) h(1) by simp
  qed (use o in auto)
qed simp

lemma omen_crc_total:
  "cur_sane n z0 z cur \<Longrightarrow>
   \<exists>c w' z' cur'. rx_le_octets (on_cursor (rx_omen_byte_cursor t ZMODEM_INVALID_HEADER)) i m w (z, cur) =
       Some (c, w', z', cur') \<and> cur_sane n z0 z' cur' \<and> (c < 0 \<longrightarrow> proto_error c)"
proof (induction m arbitrary: i w z cur)
  case (Suc m)
  obtain c z1 cur1 where o: "rx_omen_byte_cursor t ZMODEM_INVALID_HEADER z cur = Some (c, z1, cur1)"
    "cur_sane n z0 z1 cur1" "c < 0 \<longrightarrow> proto_error c"
    using omen_byte_proto [OF Suc.prems(1)] by blast
  then show ?case using Suc.IH [OF o(2)] by (cases "c < 0") (auto simp: on_cursor_def)
qed simp

lemma omen_header_ends:
  assumes "sane n z0 z"
  shows "ends proto_error n z0 (rx_omen_header t format z)"
proof -
  obtain c z1 cur1 where c: "rx_omen_count t z (load_rx_cursor z) = Some (c, z1, cur1)"
    "cur_sane n z0 z1 cur1" "c < 0 \<longrightarrow> line_error c"
    using outcome_cur_sane [OF cur_sane_load [OF assms], where f = "rx_omen_count t"] omen_count_outcome by blast
  have s1: "sane n z0 (store_rx_cursor cur1 z1)" using c(2) by (rule cur_sane_store)
  show ?thesis
  proof (cases "c < 0x22 \<or> ZMAXHLEN < nat (c - 0x22)")
    case True
    then show ?thesis using c(1,3) s1 line_proto by (auto simp: rx_omen_header_def intro!: endsI)
  next
    case False
    then have m: "0 + (nat (c - 0x22) + 1) \<le> ZMAXHLEN + 1" by simp
    obtain r crc z2 cur2 where r: "rx_omen_octets t 0 (nat (c - 0x22) + 1) (- 1) z1 cur1 = Some (r, crc, z2, cur2)"
      "cur_sane n z0 z2 cur2" "r < 0 \<longrightarrow> proto_error r"
      using omen_octets_total [OF c(2) m] by blast
    obtain r2 w z3 cur3 where w: "rx_le_octets (on_cursor (rx_omen_byte_cursor t ZMODEM_INVALID_HEADER)) 0 4 0 (z2, cur2) =
        Some (r2, w, z3, cur3)" "cur_sane n z0 z3 cur3" "r2 < 0 \<longrightarrow> proto_error r2"
      using omen_crc_total [OF r(2)] by blast
    have s: "sane n z0 (store_rx_cursor cur2 z2)" "sane n z0 (store_rx_cursor cur3 z3)"
      using r(2) w(2) by (auto intro: cur_sane_store)
    show ?thesis
      using False c(1) r(1,3) w(1,3) s
      by (cases "r < 0") (auto simp: rx_omen_header_def Let_def simp del: rx_omen_octets.simps intro!: endsI)
  qed
qed

lemma mobyturbo_header_ends:
  assumes "sane n z0 z"
  shows "ends proto_error n z0 (rx_mobyturbo_header t z)"
proof -
  have byte: "settles proto_error n z0 (rx_byte t ZMODEM_INVALID_HEADER z)" if "sane n z0 z" for n z
    by (rule byte_settles [OF that]) simp_all
  have "ends proto_error n z0 (rx_byte t ZMODEM_INVALID_HEADER (z\<lparr>receive_mobyturbo := True\<rparr>))"
    by (rule settles_ends [OF byte]) (use assms in simp_all)
  then obtain c z1 where c: "rx_byte t ZMODEM_INVALID_HEADER (z\<lparr>receive_mobyturbo := True\<rparr>) = Some (c, z1)"
    "sane n z0 z1" "c < 0 \<longrightarrow> proto_error c"
    unfolding ends_def by blast
  show ?thesis
  proof (cases "c < 0 \<or> nat c < HDRLEN - 1 \<or> ZMAXHLEN < nat c")
    case True
    then show ?thesis using c by (auto simp: rx_mobyturbo_header_def intro!: endsI)
  next
    case False
    then have m: "0 + (nat c + 1) \<le> ZMAXHLEN + 1" by simp
    have e: "ends3 proto_error n z0
        (rx_header_octets (rx_byte t ZMODEM_INVALID_HEADER) crc32_byte_update 0 (nat c + 1) (- 1) z1)"
      by (rule header_octets_ends [OF c(2) _ m]) (rule byte)
    obtain r crc z2 where r: "rx_header_octets (rx_byte t ZMODEM_INVALID_HEADER) crc32_byte_update 0 (nat c + 1) (- 1) z1 =
        Some (r, crc, z2)" "sane n z0 z2" "r < 0 \<longrightarrow> proto_error r"
      using e unfolding ends3_def by (elim exE conjE) (rule that)
    have e2: "ends3 proto_error n z0 (rx_le_octets (rx_byte t ZMODEM_INVALID_HEADER) 0 4 0 z2)"
      by (rule le_octets_ends [OF r(2)]) (rule byte)
    obtain r2 w z3 where w: "rx_le_octets (rx_byte t ZMODEM_INVALID_HEADER) 0 4 0 z2 = Some (r2, w, z3)"
      "sane n z0 z3" "r2 < 0 \<longrightarrow> proto_error r2"
      using e2 unfolding ends3_def by (elim exE conjE) (rule that)
    show ?thesis
      using False c(1) r w
      by (cases "r < 0") (auto simp: rx_mobyturbo_header_def Let_def simp del: rx_header_octets.simps intro!: endsI)
  qed
qed

section \<open>The hunt for a header\<close>

lemma header_style_ends:
  assumes "sane n z0 z" "rx_header_style t c z = Some m"
  shows "ends proto_error n z0 m"
proof -
  have s: "sane n z0 (z\<lparr>receive_mobyturbo := False\<rparr>)" using assms(1) by simp
  have f: "ends proto_error n z0 (data_format b e m)" if "ends proto_error n z0 m" for b e m
    unfolding data_format_def by (rule ends_bind [OF that]) (auto intro: endsI)
  show ?thesis
    using assms(2) mobyturbo_header_ends [OF assms(1)] omen_header_ends [OF s]
      f [OF bin16_ends [OF s]] f [OF bin32_ends [OF s]] f [OF hex_ends [OF s]]
      f [OF variable_header_ends [OF s, where header = rx_bin16_header, OF bin16_ends]]
      f [OF variable_header_ends [OF s, where header = rx_bin32_header, OF bin32_ends]]
      f [OF variable_header_ends [OF s, where header = rx_hex_header, OF hex_ends]]
    unfolding rx_header_style_def Let_def by (auto split: if_splits)
qed

lemma ex_sane_trans: "\<exists>n'<n1. sane n' z0 z \<Longrightarrow> n1 < n \<Longrightarrow> \<exists>n'<n. sane n' z0 z"
  by (meson less_trans)

lemma header_pad_total:
  "sane n z0 z \<Longrightarrow> \<exists>c i b z'. rx_header_pad t pi pp z = Some (c, i, b, z') \<and>
     (if c < 0 then line_error c \<and> sane n z0 z' else \<exists>n'<n. sane n' z0 z')"
proof (induction n arbitrary: z pi pp rule: less_induct)
  case (less n)
  from raw_settles [OF less.prems, of t] show ?case
  proof (cases rule: settlesD)
    case (1 c z1)
    then have "rx_header_pad t pi pp z = Some (c, pi, pp, z1)" by (subst rx_header_pad.simps) simp
    then show ?thesis using 1 by auto
  next
    case (2 c z1 n1)
    obtain pi1 pp1 where ps: "probe_step c pi pp = (pi1, pp1)" by fastforce
    show ?thesis
    proof (cases "c AND 0x7f = uint ZPAD")
      case True
      then have "rx_header_pad t pi pp z = Some (c, pi1, pp1, z1)"
        using 2 ps by (subst rx_header_pad.simps) simp
      then show ?thesis using 2 by auto
    next
      case False
      then have "rx_header_pad t pi pp z = rx_header_pad t pi1 pp1 z1"
        using 2 ps by (subst rx_header_pad.simps) simp
      moreover obtain c' i b z' where "rx_header_pad t pi1 pp1 z1 = Some (c', i, b, z')"
        "if c' < 0 then line_error c' \<and> sane n1 z0 z' else \<exists>n'<n1. sane n' z0 z'"
        using less.IH [OF 2(3,4)] by blast
      moreover from this have "if c' < 0 then line_error c' \<and> sane n z0 z' else \<exists>n'<n. sane n' z0 z'"
        using sane_le [of n1 z0 z' n] ex_sane_trans [OF _ 2(3), of z0 z'] 2(3)
        by (cases "c' < 0") auto
      ultimately show ?thesis by auto
    qed
  qed
qed

text \<open>The outer loop. A header, and giving up on an invalid one, has taken octets off the line.\<close>

definition hunt :: "nat \<Rightarrow> 'c zmodem \<Rightarrow> (int \<times> 'c zmodem) option \<Rightarrow> bool" where
  "hunt n z0 m \<longleftrightarrow> (\<exists>c z. m = Some (c, z) \<and>
     (if c = ZMODEM_INVALID_HEADER \<or> 0 \<le> c then \<exists>n'<n. sane n' z0 z else sane n z0 z \<and> line_error c))"

lemma huntI_line: "sane n' z0 z \<Longrightarrow> n' \<le> n \<Longrightarrow> line_error c \<Longrightarrow> hunt n z0 (Some (c, z))"
  unfolding hunt_def using sane_le by (auto simp: line_error_def)

lemma huntI_done:
  assumes "sane n' z0 z" "n' < n" shows "hunt n z0 (rx_header_done pp z)"
  using assms by (auto simp: hunt_def rx_header_done_def)

lemma huntI_invalid: "sane n' z0 z \<Longrightarrow> n' < n \<Longrightarrow> hunt n z0 (Some (ZMODEM_INVALID_HEADER, z))"
  unfolding hunt_def by auto

lemma hunt_le: "hunt n' z0 m \<Longrightarrow> n' \<le> n \<Longrightarrow> hunt n z0 m"
  unfolding hunt_def by (metis order_less_le_trans sane_le)

lemma header_loop_hunt:
  "sane n z0 z \<Longrightarrow> hunt n z0 (rx_header_loop t report pi pp z)"
proof (induction n arbitrary: z pi pp rule: less_induct)
  case (less n)
  obtain c i b z1 where p: "rx_header_pad t pi pp z = Some (c, i, b, z1)"
    "if c < 0 then line_error c \<and> sane n z0 z1 else \<exists>n'<n. sane n' z0 z1"
    using header_pad_total [OF less.prems] by blast
  show ?case
  proof (cases "c < 0")
    case True
    then show ?thesis using p by (subst rx_header_loop.simps) (auto intro: huntI_line)
  next
    case False
    then obtain n1 where n1: "n1 < n" "sane n1 z0 z1" using p(2) by auto
    have again: "hunt n z0 (rx_header_loop t report pi' pp' z')" if "sane n1 z0 z'" for z' pi' pp'
      using hunt_le [OF less.IH [OF n1(1) that] less_imp_le [OF n1(1)]] .
    have finish: "hunt n z0 (if rxd_header_len z' = 0 then rx_header_loop t report pi' pp' z'
        else rx_header_done pp' z')" if "sane n1 z0 z'" for z' pi' pp'
      using again [OF that] huntI_done [OF that n1(1)] by simp
    have style: "hunt n z0 (do { (result, z) \<leftarrow> m;
        if result = ZMODEM_IO_ERROR \<or> result = ZMODEM_CANCELLED \<or> result = ZMODEM_TIMEOUT then Some (result, z)
        else if report \<and> rxd_header_len z = 0 then Some (ZMODEM_INVALID_HEADER, z)
        else if rxd_header_len z = 0 then rx_header_loop t report i b z
        else rx_header_done b z })" if "ends proto_error n1 z0 m" for m
      by (rule ends_bind [OF that])
         (use n1(1) again huntI_line huntI_invalid huntI_done [OF _ n1(1)]
          in \<open>auto simp: line_error_def\<close>)
    have rd: "ends line_error n1 z0 (rx_raw t z)" "ends line_error n1 z0 (rx t z)" if "sane n1 z0 z" for z
      using settles_ends [OF raw_settles [OF that]] settles_ends [OF rx_settles [OF that]] by blast+
    note seq = ends_bind [where P = "hunt n z0"]
    let ?style = "\<lambda>c z. case rx_header_style t c z of
        None \<Rightarrow> (if report then Some (ZMODEM_INVALID_HEADER, z)
                 else if rxd_header_len z = 0 then rx_header_loop t report i b z else rx_header_done b z)
      | Some m \<Rightarrow> do { (result, z) \<leftarrow> m;
          if result = ZMODEM_IO_ERROR \<or> result = ZMODEM_CANCELLED \<or> result = ZMODEM_TIMEOUT then Some (result, z)
          else if report \<and> rxd_header_len z = 0 then Some (ZMODEM_INVALID_HEADER, z)
          else if rxd_header_len z = 0 then rx_header_loop t report i b z
          else rx_header_done b z }"
    have case_style: "hunt n z0 (?style c z)" if "sane n1 z0 z" for c z
      using huntI_invalid [OF that n1(1)] finish [OF that] style header_style_ends [OF that]
      by (cases "rx_header_style t c z") auto
    let ?rest = "\<lambda>(c, z). if c < 0 then Some (c, z)
        else if c AND 0x7f \<noteq> uint ZDLE then
          (if rxd_header_len z = 0 then rx_header_loop t report i b z else rx_header_done b z)
        else do { (c, z) \<leftarrow> rx t z; if c < 0 then Some (c, z) else ?style c z }"
    have rest: "hunt n z0 (?rest (c, z))" if "sane n1 z0 z" "c < 0 \<Longrightarrow> line_error c" for c z
      using that finish [OF that(1)] huntI_line less_imp_le [OF n1(1)] case_style
      by (auto intro!: seq [OF rd(2) [OF that(1)]])
    have "hunt n z0 (do { (c, z) \<leftarrow> rx_raw t z1; if c < 0 then Some (c, z)
        else Option.bind (if c AND 0x7f = uint ZPAD then rx_raw t z else Some (c, z)) ?rest })"
    proof (rule seq [OF rd(1) [OF n1(2)]], unfold prod.case)
      fix c z assume z: "sane n1 z0 z" and c: "c < 0 \<Longrightarrow> line_error c"
      have second: "hunt n z0 (Option.bind (rx_raw t z) ?rest)"
        by (rule seq [OF rd(1) [OF z]]) (rule rest)
      have first: "hunt n z0 (?rest (c, z))" by (rule rest) (use z c in auto)
      show "hunt n z0 (if c < 0 then Some (c, z)
        else Option.bind (if c AND 0x7f = uint ZPAD then rx_raw t z else Some (c, z)) ?rest)"
      proof (cases "c < 0")
        case True
        then show ?thesis using huntI_line [OF z less_imp_le [OF n1(1)]] c by simp
      next
        case False
        show ?thesis
        proof (cases "c AND 0x7f = uint ZPAD")
          case True
          show ?thesis unfolding if_not_P [OF False] if_P [OF True] by (rule second)
        next
          case other: False
          show ?thesis
            unfolding if_not_P [OF False] if_not_P [OF other] bind.bind_lunit by (rule first)
        qed
      qed
    qed
    then show ?thesis
      using False by (subst rx_header_loop.simps) (simp only: p(1) bind.bind_lunit prod.case if_False)
  qed
qed

lemma header_raw_hunt: "sane n z0 z \<Longrightarrow> hunt n z0 (rx_header_raw t report z)"
  unfolding rx_header_raw_def by (rule header_loop_hunt) simp

lemma huntD:
  assumes "hunt n z0 m"
  obtains c z where "m = Some (c, z)" "if c = ZMODEM_INVALID_HEADER then \<exists>n'<n. sane n' z0 z
    else sane n z0 z \<and> (c < 0 \<longrightarrow> line_error c)"
  using assms sane_le less_imp_le unfolding hunt_def by (metis not_le)

end

section \<open>Answering invalid headers\<close>

text \<open>A full-duplex link: writing and flushing leave what is to be received alone.\<close>

locale octet_link = octet_source rd live pending
  for rd :: "'c \<Rightarrow> nat \<Rightarrow> int \<Rightarrow> int \<times> u8 list \<times> nat \<times> 'c"
    and live :: "'c \<Rightarrow> bool" and pending :: "'c \<Rightarrow> u8 list" +
  fixes wr :: "'c \<Rightarrow> u8 list \<Rightarrow> int \<times> 'c" and fl :: "'c \<Rightarrow> int \<times> 'c"
  assumes write_keeps: "live c \<Longrightarrow> live (snd (wr c bs)) \<and> pending (snd (wr c bs)) = pending c"
    and flush_keeps: "live c \<Longrightarrow> live (snd (fl c)) \<and> pending (snd (fl c)) = pending c"
begin

definition linked :: "nat \<Rightarrow> 'c zmodem \<Rightarrow> bool" where
  "linked n z \<longleftrightarrow> sane n z z \<and> io_write (io z) = wr \<and> io_flush (io z) = fl"

lemma linked_moved:
  assumes "sane n z0 z" "io_write (io z0) = wr" "io_flush (io z0) = fl"
  shows "linked n z"
  using assms by (auto simp: linked_def sane_def same_io_def)

lemma linked_context:
  assumes "linked n z" "live c" "pending c = pending (io_context (io z))"
  shows "linked n (set_context c z)"
proof -
  obtain bs k where b: "at z bs k z (load_rx_cursor z)" "length bs \<le> n"
    using assms(1) unfolding linked_def sane_def by blast
  have "at (set_context c z) bs k (set_context c z) (load_rx_cursor (set_context c z))"
    using b(1) assms(2,3) by (simp add: on_line_def upcoming_def set_context_def load_rx_cursor_def)
  moreover have "length (rxd_header (set_context c z)) = ZMAXHLEN + 1"
    using assms(1) by (simp add: linked_def sane_def set_context_def)
  ultimately show ?thesis
    using assms(1) b(2) unfolding linked_def sane_def same_io_def by (auto simp: set_context_def)
qed

lemma linked_last_sent: "linked n z \<Longrightarrow> linked n (z\<lparr>last_sent := c\<rparr>)"
  by (auto simp: linked_def sane_def on_line_def upcoming_def load_rx_cursor_def same_io_def)

definition keeps :: "('c zmodem \<Rightarrow> int \<times> 'c zmodem) \<Rightarrow> bool" where
  "keeps f \<longleftrightarrow> (\<forall>n z. linked n z \<longrightarrow> linked n (snd (f z)))"

lemma keeps_raw: "keeps (tx_raw c)"
  unfolding keeps_def
proof (intro allI impI)
  fix n z assume l: "linked n z"
  obtain r ctx where w: "io_write (io z) (io_context (io z)) [word_of_int c] = (r, ctx)" by fastforce
  have "live (io_context (io z))" using l by (auto simp: linked_def sane_def on_line_def)
  then have "live ctx" "pending ctx = pending (io_context (io z))"
    using write_keeps [of "io_context (io z)" "[word_of_int c]"] w l by (auto simp: linked_def)
  from linked_context [OF l this] show "linked n (snd (tx_raw c z))"
    by (simp add: tx_raw_def w linked_last_sent Let_def)
qed

lemma keeps_flush: "keeps tx_flush"
  unfolding keeps_def
proof (intro allI impI)
  fix n z assume l: "linked n z"
  obtain r ctx where w: "io_flush (io z) (io_context (io z)) = (r, ctx)" by fastforce
  have "live (io_context (io z))" using l by (auto simp: linked_def sane_def on_line_def)
  then have "live ctx" "pending ctx = pending (io_context (io z))"
    using flush_keeps [of "io_context (io z)"] w l by (auto simp: linked_def)
  from linked_context [OF l this] show "linked n (snd (tx_flush z))" by (simp add: tx_flush_def w)
qed

lemma keeps_all: "(\<And>f. f \<in> set fs \<Longrightarrow> keeps f) \<Longrightarrow> keeps (tx_all fs)"
proof (induction fs)
  case (Cons f fs)
  then have "keeps f" "keeps (tx_all fs)" by simp_all
  then show ?case by (auto simp: keeps_def split: prod.split) (metis snd_conv)+
qed (simp add: keeps_def)

lemma keeps_hex: "keeps (tx_hex c)"
  unfolding tx_hex_def by (rule keeps_all) (auto simp: tx_nibble_def Let_def intro: keeps_raw)

lemma keeps_znak: "keeps tx_znak"
  unfolding tx_znak_def tx_pos_header_def tx_hex_header_def tx_hex_header_length_def Let_def
  by (rule keeps_all) (auto intro: keeps_raw keeps_hex keeps_flush)

lemma header_and_check_total:
  "linked n z \<Longrightarrow> \<exists>c z'. rx_header_and_check t z = Some (c, z') \<and> linked n z' \<and>
     (c < 0 \<longrightarrow> line_error c)"
proof (induction n arbitrary: z rule: less_induct)
  case (less n)
  have w: "io_write (io z) = wr" "io_flush (io z) = fl" "sane n z z" using less.prems by (auto simp: linked_def)
  obtain c z1 where h: "rx_header_raw t True z = Some (c, z1)"
    "if c = ZMODEM_INVALID_HEADER then \<exists>n'<n. sane n' z z1 else sane n z z1 \<and> (c < 0 \<longrightarrow> line_error c)"
    using huntD [OF header_raw_hunt [OF w(3)]] .
  show ?case
  proof (cases "c = ZMODEM_INVALID_HEADER")
    case False
    then show ?thesis
      using h linked_moved [OF _ w(1,2), of n z1] by (subst rx_header_and_check.simps) auto
  next
    case True
    then obtain n1 where n1: "n1 < n" "linked n1 z1" using h(2) linked_moved [OF _ w(1,2)] by auto
    obtain r z2 where k: "tx_znak z1 = (r, z2)" by fastforce
    have l2: "linked n1 z2" using keeps_znak n1(2) k unfolding keeps_def by (metis snd_conv)
    have le: "linked n z'" if "linked n1 z'" for z'
      using that sane_le [OF _ less_imp_le [OF n1(1)]] by (auto simp: linked_def)
    show ?thesis
    proof (cases "r = 0")
      case r: False
      then show ?thesis
        using True h(1) k le [OF l2] by (subst rx_header_and_check.simps) (auto simp: line_error_def)
    next
      case r: True
      then have "rx_header_and_check t z = rx_header_and_check t z2"
        using True h(1) k by (subst rx_header_and_check.simps) simp
      then show ?thesis using less.IH [OF n1(1) l2] le by auto
    qed
  qed
qed

end

end
