(* ===== verification/Tx_Wire.thy ===== *)
theory Tx_Wire
  imports Spans
begin

text \<open>
  What a transmitted data subpacket looks like. The encoders are stated as functions from
  octets to octets, and the assembly of a subpacket in \<open>tx_data_wire\<close> is shown to compute them
  without a store outside the array, for every transport.
\<close>

declare split_paired_Ex [simp del] split_paired_All [simp del]

section \<open>Encoders\<close>

definition low7 :: "u8 \<Rightarrow> int" where
  "low7 c = uint (c AND 0x7f)"

definition tx_code :: "'c zmodem \<Rightarrow> u8 \<Rightarrow> int \<Rightarrow> u8 \<Rightarrow> u8 list" where
  "tx_code z active previous c =
     (if tx_byte_needs_escape z c previous active
      then [ZDLE, if c = 0xff then ZRUB1 else c XOR 0x40] else [c])"

definition mobyturbo_code :: "'c zmodem \<Rightarrow> u8 \<Rightarrow> int \<Rightarrow> u8 \<Rightarrow> u8 list" where
  "mobyturbo_code z active previous c =
     (if mobyturbo_byte_needs_escape z c previous active
      then [ZDLE, if escape_iac z \<and> c = 0xff then ZRUB1 else c XOR 0x40] else [c])"

text \<open>Each octet is encoded knowing the seven low bits of the last octet sent.\<close>

fun codes :: "(int \<Rightarrow> u8 \<Rightarrow> u8 list) \<Rightarrow> int \<Rightarrow> u8 list \<Rightarrow> u8 list" where
  "codes f previous [] = []"
| "codes f previous (c # cs) = f previous c @ codes f (low7 (last (f previous c))) cs"

fun last_sent_after :: "(int \<Rightarrow> u8 \<Rightarrow> u8 list) \<Rightarrow> int \<Rightarrow> u8 list \<Rightarrow> int" where
  "last_sent_after f previous [] = previous"
| "last_sent_after f previous (c # cs) = last_sent_after f (low7 (last (f previous c))) cs"

lemma tx_code_length: "length (tx_code z a p c) \<le> 2" "tx_code z a p c \<noteq> []"
  by (simp_all add: tx_code_def)

lemma mobyturbo_code_length: "length (mobyturbo_code z a p c) \<le> 2" "mobyturbo_code z a p c \<noteq> []"
  by (simp_all add: mobyturbo_code_def)

lemma codes_length: "(\<And>p c. length (f p c) \<le> 2) \<Longrightarrow> length (codes f p cs) \<le> 2 * length cs"
proof (induction cs arbitrary: p)
  case (Cons c cs)
  have "length (f p c) + length (codes f (low7 (last (f p c))) cs) \<le> 2 + 2 * length cs"
    by (rule add_mono) (use Cons in auto)
  then show ?case by simp
qed simp

lemma codes_append: "codes f p (xs @ ys) = codes f p xs @ codes f (last_sent_after f p xs) ys"
  by (induction xs arbitrary: p) auto

section \<open>The assembly buffer\<close>

text \<open>\<open>b\<close> is the assembly state of \<open>z\<close> after \<open>w\<close> was stored.\<close>

definition wired :: "'c zmodem \<Rightarrow> u8 list \<Rightarrow> int \<Rightarrow> 'c wirebuf \<Rightarrow> bool" where
  "wired z w previous b \<longleftrightarrow>
     (\<exists>d. length d = length (tx_data_wire z) \<and> take (length w) d = w \<and> length w \<le> length d \<and>
          b = (z\<lparr>tx_data_wire := d\<rparr>, length w, previous))"

lemma wired_start: "wired z [] (p :: int) (z, 0, p)"
  by (auto simp: wired_def intro: exI [of _ "tx_data_wire z"])

lemma take_Suc_update: "n < length d \<Longrightarrow> take (Suc n) (d[n := c]) = take n d @ [c]"
  by (simp add: take_Suc_conv_app_nth)

lemma buffer_raw_wired:
  assumes "wired z w p b" "length w < length (tx_data_wire z)"
  shows "\<exists>b'. buffer_raw c b = Some b' \<and> wired z (w @ [c]) (low7 c) b'"
proof -
  obtain d where d: "length d = length (tx_data_wire z)" "take (length w) d = w"
    "b = (z\<lparr>tx_data_wire := d\<rparr>, length w, p)"
    using assms(1) unfolding wired_def by blast
  let ?b = "(z\<lparr>tx_data_wire := d[length w := c]\<rparr>, Suc (length w), low7 c)"
  have "buffer_raw c b = Some ?b"
    using d(1) assms(2) unfolding d(3) by (simp add: wire_store_def low7_def)
  moreover have "wired z (w @ [c]) (low7 c) ?b"
    unfolding wired_def using d(1,2) assms(2)
    by (intro exI [of _ "d[length w := c]"]) (simp add: take_Suc_update)
  ultimately show ?thesis by blast
qed

definition encodes :: "('c wirebuf \<Rightarrow> 'c wirebuf option) \<Rightarrow> (int \<Rightarrow> u8 list) \<Rightarrow> (int \<Rightarrow> int) \<Rightarrow> 'c zmodem \<Rightarrow> bool" where
  "encodes f code after z \<longleftrightarrow>
     (\<forall>w p b. wired z w p b \<longrightarrow> length w + length (code p) \<le> length (tx_data_wire z) \<longrightarrow>
        (\<exists>b'. f b = Some b' \<and> wired z (w @ code p) (after p) b'))"

lemma encodesD:
  "encodes f code after z \<Longrightarrow> wired z w p b \<Longrightarrow> length w + length (code p) \<le> length (tx_data_wire z) \<Longrightarrow>
   \<exists>b'. f b = Some b' \<and> wired z (w @ code p) (after p) b'"
  unfolding encodes_def by blast

lemma encodes_raw: "encodes (buffer_raw c) (\<lambda>_. [c]) (\<lambda>_. low7 c) z"
  unfolding encodes_def by (intro allI impI buffer_raw_wired) (assumption, simp)

lemma encodes_two: "encodes (\<lambda>b. Option.bind (buffer_raw c b) (buffer_raw d)) (\<lambda>_. [c, d]) (\<lambda>_. low7 d) z"
proof -
  have "\<exists>b'. Option.bind (buffer_raw c b) (buffer_raw d) = Some b' \<and> wired z (w @ [c, d]) (low7 d) b'"
    if b: "wired z w p b" "length w + 2 \<le> length (tx_data_wire z)" for w p b
  proof -
    obtain b1 where 1: "buffer_raw c b = Some b1" "wired z (w @ [c]) (low7 c) b1"
      using buffer_raw_wired [OF b(1)] b(2) by (metis add_2_eq_Suc' less_eq_Suc_le Suc_leD)
    then show ?thesis using buffer_raw_wired [OF 1(2), of d] b(2) by simp
  qed
  then show ?thesis unfolding encodes_def by (simp only: list.size) simp
qed

lemma wired_pair: "wired z w p b \<Longrightarrow> \<exists>d. b = (z\<lparr>tx_data_wire := d\<rparr>, length w, p)"
  by (auto simp: wired_def)

lemma encodes_tx: "encodes (buffer_tx a c) (\<lambda>p. tx_code z a p c) (\<lambda>p. low7 (last (tx_code z a p c))) z"
proof -
  have n: "tx_byte_needs_escape (z\<lparr>tx_data_wire := d\<rparr>) c p a = tx_byte_needs_escape z c p a" for d p
    by (simp add: tx_byte_needs_escape_def)
  show ?thesis
    unfolding encodes_def
  proof (intro allI impI)
    fix w p b assume b: "wired z w p b" "length w + length (tx_code z a p c) \<le> length (tx_data_wire z)"
    obtain d where d: "b = (z\<lparr>tx_data_wire := d\<rparr>, length w, p)" using wired_pair [OF b(1)] by blast
    show "\<exists>b'. buffer_tx a c b = Some b' \<and> wired z (w @ tx_code z a p c) (low7 (last (tx_code z a p c))) b'"
      using encodesD [OF encodes_two b(1), of ZDLE "if c = 0xff then ZRUB1 else c XOR 0x40"]
        encodesD [OF encodes_raw b(1), of c] b(2)
      unfolding d by (auto simp: tx_code_def n simp del: buffer_raw.simps split: if_splits)
  qed
qed

lemma encodes_mobyturbo:
  "encodes (buffer_mobyturbo a c) (\<lambda>p. mobyturbo_code z a p c)
     (\<lambda>p. low7 (last (mobyturbo_code z a p c))) z"
proof -
  have n: "mobyturbo_byte_needs_escape (z\<lparr>tx_data_wire := d\<rparr>) c p a = mobyturbo_byte_needs_escape z c p a" for d p
    by (simp add: mobyturbo_byte_needs_escape_def)
  show ?thesis
    unfolding encodes_def
  proof (intro allI impI)
    fix w p b assume b: "wired z w p b" "length w + length (mobyturbo_code z a p c) \<le> length (tx_data_wire z)"
    obtain d where d: "b = (z\<lparr>tx_data_wire := d\<rparr>, length w, p)" using wired_pair [OF b(1)] by blast
    show "\<exists>b'. buffer_mobyturbo a c b = Some b' \<and>
        wired z (w @ mobyturbo_code z a p c) (low7 (last (mobyturbo_code z a p c))) b'"
      using encodesD [OF encodes_two b(1), of ZDLE "if escape_iac z \<and> c = 0xff then ZRUB1 else c XOR 0x40"]
        encodesD [OF encodes_raw b(1), of c] b(2)
      unfolding d by (auto simp: mobyturbo_code_def n simp del: buffer_raw.simps split: if_splits)
  qed
qed

lemma encodes_each:
  assumes "\<And>c. encodes (f c) (\<lambda>p. g p c) (\<lambda>p. low7 (last (g p c))) z"
  shows "encodes (buffer_each f cs) (\<lambda>p. codes g p cs) (\<lambda>p. last_sent_after g p cs) z"
proof (induction cs)
  case Nil
  then show ?case unfolding encodes_def by simp
next
  case (Cons c cs)
  show ?case
    unfolding encodes_def
  proof (intro allI impI)
    fix w p b assume b: "wired z w p b" "length w + length (codes g p (c # cs)) \<le> length (tx_data_wire z)"
    obtain b1 where 1: "f c b = Some b1" "wired z (w @ g p c) (low7 (last (g p c))) b1"
      using encodesD [OF assms b(1), of c] b(2) by auto
    show "\<exists>b'. buffer_each f (c # cs) b = Some b' \<and> wired z (w @ codes g p (c # cs)) (last_sent_after g p (c # cs)) b'"
      using encodesD [OF Cons 1(2)] 1(1) b(2) by auto
  qed
qed


lemma encodes_seq:
  assumes "encodes f c a z" "encodes g c' a' z"
  shows "encodes (\<lambda>b. Option.bind (f b) g) (\<lambda>p. c p @ c' (a p)) (\<lambda>p. a' (a p)) z"
  unfolding encodes_def
proof (intro allI impI)
  fix w p b assume b: "wired z w p b" "length w + length (c p @ c' (a p)) \<le> length (tx_data_wire z)"
  obtain b1 where 1: "f b = Some b1" "wired z (w @ c p) (a p) b1"
    using encodesD [OF assms(1) b(1)] b(2) by auto
  show "\<exists>b'. Option.bind (f b) g = Some b' \<and> wired z (w @ c p @ c' (a p)) (a' (a p)) b'"
    using encodesD [OF assms(2) 1(2)] 1(1) b(2) by auto
qed

lemma encodes_skip: "encodes Some (\<lambda>_. []) (\<lambda>p. p) z"
  unfolding encodes_def by simp

section \<open>A subpacket on the wire\<close>

definition classes_ok :: "'c zmodem \<Rightarrow> bool" where
  "classes_ok z \<longleftrightarrow> (tx_classes_initialized z \<longrightarrow> tx_classes z = tx_class_action)"

definition classed :: "'c zmodem \<Rightarrow> 'c zmodem" where
  "classed z = snd (active_tx_classes z)"

definition tx_active :: "'c zmodem \<Rightarrow> u8" where
  "tx_active z = (if use_mobyturbo z then fst (active_mobyturbo_classes z) else fst (active_tx_classes z))"

definition octet_code :: "'c zmodem \<Rightarrow> int \<Rightarrow> u8 \<Rightarrow> u8 list" where
  "octet_code z = (if use_mobyturbo z then mobyturbo_code (classed z) (tx_active z)
                   else tx_code (classed z) (tx_active z))"

definition uses_crc32 :: "'c zmodem \<Rightarrow> bool" where
  "uses_crc32 z \<longleftrightarrow> use_mobyturbo z \<or> want_fcs_32 z \<and> can_fcs_32 z"

definition be_bytes16 :: "u16 \<Rightarrow> u8 list" where
  "be_bytes16 w = [ucast (drop_bit 8 w), ucast w]"

definition subpacket_crc :: "'c zmodem \<Rightarrow> u8 \<Rightarrow> u8 list \<Rightarrow> u8 list" where
  "subpacket_crc z type p =
     (if uses_crc32 z then le_bytes (NOT (crc32_update_reduced (- 1) (p @ [type])))
      else be_bytes16 (crc16_buffer_update 0 (p @ [type, 0, 0])))"

definition subpacket_wire :: "'c zmodem \<Rightarrow> u8 \<Rightarrow> u8 list \<Rightarrow> u8 list" where
  "subpacket_wire z type p =
     codes (octet_code z) (last_sent z) p @ [ZDLE, type] @
     codes (octet_code z) (low7 type) (subpacket_crc z type p) @
     (if type = ZCRCW then [XON] else [])"

definition subpacket_last :: "'c zmodem \<Rightarrow> u8 \<Rightarrow> u8 list \<Rightarrow> int" where
  "subpacket_last z type p =
     (if type = ZCRCW then low7 XON
      else last_sent_after (octet_code z) (low7 type) (subpacket_crc z type p))"

lemma classed_simps [simp]:
  "use_mobyturbo (classed z) = use_mobyturbo z" "escape_8th_bit (classed z) = escape_8th_bit z"
  "use_pack7 (classed z) = use_pack7 z" "want_fcs_32 (classed z) = want_fcs_32 z"
  "can_fcs_32 (classed z) = can_fcs_32 z" "tx_data_wire (classed z) = tx_data_wire z"
  "io (classed z) = io z" "last_sent (classed z) = last_sent z"
  "escape_all_control_characters (classed z) = escape_all_control_characters z"
  "escape_iac (classed z) = escape_iac z" "tx_classes_initialized (classed z)"
  by (simp_all add: classed_def active_tx_classes_def initialize_tx_classes_def Let_def)

lemma classed_classes [simp]: "classes_ok z \<Longrightarrow> tx_classes (classed z) = tx_class_action"
  by (simp add: classes_ok_def classed_def active_tx_classes_def initialize_tx_classes_def Let_def)

lemma active_classed: "active_tx_classes z = (fst (active_tx_classes z), classed z)"
  by (simp add: classed_def)

lemma active_mobyturbo_classed:
  "fst (active_mobyturbo_classes (classed z)) = fst (active_mobyturbo_classes z)"
  by (simp add: active_mobyturbo_classes_def classed_def active_tx_classes_def
      initialize_tx_classes_def Let_def)

lemma octet_code_length: "length (octet_code z p c) \<le> 2" "octet_code z p c \<noteq> []"
  by (simp_all add: octet_code_def tx_code_length mobyturbo_code_length)

lemma subpacket_crc_length: "length (subpacket_crc z type p) \<le> 4"
  by (simp add: subpacket_crc_def be_bytes16_def)

lemma subpacket_wire_length:
  "length p \<le> ZMAXSPLEN \<Longrightarrow> length (subpacket_wire z type p) \<le> ZMODEM_TX_DATA_WIRE_CAPACITY"
  using codes_length [of "octet_code z" "last_sent z" p] subpacket_crc_length [of z type p]
    codes_length [of "octet_code z" "low7 type" "subpacket_crc z type p"]
  by (auto simp: subpacket_wire_def octet_code_length)

lemma crc32_reduced_snoc:
  "crc32_update_reduced crc (p @ [c]) = crc32_byte_update (crc32_update_reduced crc p) c"
  by (simp add: crc32_reduced_append)

lemma crc16_buffer_snoc:
  "crc16_buffer_update crc (p @ [c, d, e]) =
   crc16_update (crc16_update (crc16_update (crc16_buffer_update crc p) c) d) e"
  by (simp add: crc16_buffer_append)

text \<open>The assembly part of \<open>tx_data\<close>, up to the write.\<close>

definition tx_assemble :: "u8 \<Rightarrow> u8 list \<Rightarrow> 'c zmodem \<Rightarrow> u8 \<Rightarrow> 'c wirebuf \<Rightarrow> 'c wirebuf option" where
  "tx_assemble type p z active b =
     do { b \<leftarrow> (if use_mobyturbo z then buffer_each (buffer_mobyturbo active) p b
               else buffer_each (buffer_tx active) p b);
          b \<leftarrow> buffer_raw ZDLE b;
          b \<leftarrow> buffer_raw type b;
          b \<leftarrow> buffer_each (if use_mobyturbo z then buffer_mobyturbo active else buffer_tx active)
                 (subpacket_crc z type p) b;
          if type = ZCRCW then buffer_raw XON b else Some b }"


fun tx_finish :: "'c wirebuf \<Rightarrow> int \<times> 'c zmodem" where
  "tx_finish (z, used, previous) =
     (let (r, ctx) = io_write (io z) (io_context (io z)) (take used (tx_data_wire z));
          z = set_context ctx z
      in if r \<noteq> ZMODEM_OK then (- 1, z) else tx_flush (z\<lparr>last_sent := previous\<rparr>))"

lemma tx_data_assemble:
  assumes "classes_ok z" "\<not> escape_8th_bit z" "length p \<le> ZMAXSPLEN"
  shows "tx_data type p z =
    map_option tx_finish (tx_assemble type p (classed z) (tx_active z) (classed z, 0, last_sent z))"
proof -
  have plain: "tx_plain_loop p (classed z, 0, last_sent z) =
      buffer_each (buffer_tx TX_ESCAPE_ALWAYS) p (classed z, 0, last_sent z)"
    using assms(1) by (intro tx_plain_loop_octets) simp
  have fin: "(\<lambda>b. Some (tx_finish b)) = (\<lambda>b :: 'a wirebuf. case b of (z, used, previous) \<Rightarrow>
       (case io_write (io z) (io_context (io z)) (take used (tx_data_wire z)) of (r, ctx) \<Rightarrow>
          if r \<noteq> ZMODEM_OK then Some (- 1, set_context ctx z)
          else Some (tx_flush (set_context ctx z\<lparr>last_sent := previous\<rparr>))))"
    by (auto simp: Let_def split: prod.splits)
  have m: "map_option tx_finish m = Option.bind m (\<lambda>b. Some (tx_finish b))" for m :: "'a wirebuf option"
    by (cases m) auto
  obtain A where A: "active_tx_classes z = (A, classed z)"
    using active_classed by blast
  have act: "tx_active z = (if use_mobyturbo z then fst (active_mobyturbo_classes (classed z)) else A)"
    unfolding tx_active_def A active_mobyturbo_classed by simp
  show ?thesis
    unfolding tx_data_def A Let_def prod.case tx_assemble_def m fin bind_option_assoc
    using assms(2,3) plain
    by (cases "want_fcs_32 z"; cases "can_fcs_32 z"; simp add: act subpacket_crc_def uses_crc32_def crc32_update_serial
       crc32_reduced_snoc crc16_buffer_snoc be_bytes16_def bind_option_assoc
       del: buffer_raw.simps buffer_tx.simps buffer_mobyturbo.simps buffer_each.simps)
qed


lemma encodes_assemble:
  "encodes (tx_assemble type p (classed z) (tx_active z))
     (\<lambda>q. codes (octet_code z) q p @ [ZDLE, type] @
          codes (octet_code z) (low7 type) (subpacket_crc z type p) @ (if type = ZCRCW then [XON] else []))
     (\<lambda>_. subpacket_last z type p) (classed z)"
proof -
  let ?f = "if use_mobyturbo z then buffer_mobyturbo (tx_active z) else buffer_tx (tx_active z)"
  have f: "encodes (?f c) (\<lambda>p. octet_code z p c) (\<lambda>p. low7 (last (octet_code z p c))) (classed z)" for c
    by (auto simp: octet_code_def encodes_tx encodes_mobyturbo)
  have crc: "subpacket_crc (classed z) type p = subpacket_crc z type p"
    by (simp add: subpacket_crc_def uses_crc32_def)
  have x: "encodes (\<lambda>b. if type = ZCRCW then buffer_raw XON b else Some b)
      (\<lambda>_. if type = ZCRCW then [XON] else []) (\<lambda>p. if type = ZCRCW then low7 XON else p) (classed z)"
    using encodes_raw encodes_skip by auto
  have a: "tx_assemble type p (classed z) (tx_active z) = (\<lambda>b. Option.bind (buffer_each ?f p b) (\<lambda>b.
      Option.bind (buffer_raw ZDLE b) (\<lambda>b. Option.bind (buffer_raw type b) (\<lambda>b.
      Option.bind (buffer_each ?f (subpacket_crc z type p) b)
        (\<lambda>b. if type = ZCRCW then buffer_raw XON b else Some b)))))"
    by (auto simp: tx_assemble_def crc fun_eq_iff)
  have e: "encodes (buffer_each ?f cs) (\<lambda>p. codes (octet_code z) p cs)
      (\<lambda>p. last_sent_after (octet_code z) p cs) (classed z)" for cs
    by (rule encodes_each) (rule f)
  note s = encodes_seq [OF e [of p] encodes_seq [OF encodes_raw [of ZDLE]
    encodes_seq [OF encodes_raw [of type] encodes_seq [OF e [of "subpacket_crc z type p"] x]]]]
  show ?thesis
    unfolding a using s
    by (simp add: subpacket_last_def if_distrib cong: if_cong)
qed

lemma tx_data_frame:
  assumes "classes_ok z" "\<not> escape_8th_bit z" "length p \<le> ZMAXSPLEN"
    and cap: "length (tx_data_wire z) = ZMODEM_TX_DATA_WIRE_CAPACITY"
  obtains d where "length d = ZMODEM_TX_DATA_WIRE_CAPACITY"
    and "tx_data type p z =
      (let (r, ctx) = io_write (io z) (io_context (io z)) (subpacket_wire z type p);
           z' = set_context ctx ((classed z)\<lparr>tx_data_wire := d\<rparr>)
       in Some (if r \<noteq> ZMODEM_OK then (- 1, z')
                else tx_flush (z'\<lparr>last_sent := subpacket_last z type p\<rparr>)))"
proof -
  have "length (subpacket_wire z type p) \<le> length (tx_data_wire (classed z))"
    using subpacket_wire_length [OF assms(3)] cap by simp
  then obtain b where b: "tx_assemble type p (classed z) (tx_active z) (classed z, 0, last_sent z) = Some b"
    "wired (classed z) (subpacket_wire z type p) (subpacket_last z type p) b"
    using encodesD [OF encodes_assemble [of type p z] wired_start [of _ "last_sent z"]]
    unfolding subpacket_wire_def by auto
  then obtain d where d: "length d = ZMODEM_TX_DATA_WIRE_CAPACITY"
    "take (length (subpacket_wire z type p)) d = subpacket_wire z type p"
    "b = ((classed z)\<lparr>tx_data_wire := d\<rparr>, length (subpacket_wire z type p), subpacket_last z type p)"
    using cap unfolding wired_def by auto
  show thesis
    by (rule that [OF d(1)])
       (simp add: tx_data_assemble [OF assms(1-3)] b(1) d(2,3) Let_def split: prod.splits)
qed


section \<open>No store outside the wire array\<close>

text \<open>The seven-bit formats write the array out whenever it is full; a failed write ends them
  (or, in Pack-7, leaves the array full), so their stores stay inside for every transport.\<close>

definition omen_ok :: "'c omen_tx_buffer \<Rightarrow> bool" where
  "omen_ok b \<longleftrightarrow> length (tx_data_wire (fst b)) = ZMODEM_TX_DATA_WIRE_CAPACITY \<and>
     fst (snd b) \<le> ZMODEM_TX_DATA_WIRE_CAPACITY"

definition omen_safe :: "('c omen_tx_buffer \<Rightarrow> (int \<times> 'c omen_tx_buffer) option) \<Rightarrow> bool" where
  "omen_safe f \<longleftrightarrow> (\<forall>b. omen_ok b \<longrightarrow> (\<exists>r b'. f b = Some (r, b') \<and> omen_ok b'))"

lemma omen_safeD: "omen_safe f \<Longrightarrow> omen_ok b \<Longrightarrow> \<exists>r b'. f b = Some (r, b') \<and> omen_ok b'"
  unfolding omen_safe_def by blast

lemma set_context_wire [simp]: "tx_data_wire (set_context c z) = tx_data_wire z"
  by (simp add: set_context_def)

lemma wire_store_length:
  "i < length (tx_data_wire z) \<Longrightarrow>
   \<exists>z'. wire_store z i c = Some z' \<and> length (tx_data_wire z') = length (tx_data_wire z)"
  by (simp add: wire_store_def)

lemma flush_omen_ok:
  "omen_ok b \<Longrightarrow> omen_ok (snd (flush_omen_tx_buffer b)) \<and>
     (fst (flush_omen_tx_buffer b) = 0 \<longrightarrow> fst (snd (snd (flush_omen_tx_buffer b))) = 0)"
  by (cases b) (auto simp: omen_ok_def Let_def split: prod.splits)

lemma wire_store_all_length:
  "u + length cs \<le> length (tx_data_wire z) \<Longrightarrow>
   \<exists>z'. wire_store_all cs z u = Some (z', u + length cs) \<and>
        length (tx_data_wire z') = length (tx_data_wire z)"
proof (induction cs arbitrary: z u)
  case (Cons c cs)
  obtain z1 where 1: "wire_store z u c = Some z1" "length (tx_data_wire z1) = length (tx_data_wire z)"
    using wire_store_length [of u z c] Cons.prems by auto
  show ?case using Cons.IH [of "u + 1" z1] Cons.prems 1 by auto
qed simp

lemma omen_safe_raw: "omen_safe (buffer_omen_raw c)"
  unfolding omen_safe_def
proof (intro allI impI)
  fix b :: "'a omen_tx_buffer" assume ok: "omen_ok b"
  obtain z u p where b: "b = (z, u, p)" by (cases b)
  obtain r z1 u1 p1 where f: "(if u = length (tx_data_wire z) then flush_omen_tx_buffer (z, u, p)
      else (0, z, u, p)) = (r, z1, u1, p1)" by (metis prod_cases4)
  have ok1: "omen_ok (z1, u1, p1)" and room: "r = 0 \<longrightarrow> u1 < ZMODEM_TX_DATA_WIRE_CAPACITY"
    using f ok flush_omen_ok [of "(z, u, p)"] unfolding b omen_ok_def
    by (auto simp del: flush_omen_tx_buffer.simps split: if_splits)
  show "\<exists>r b'. buffer_omen_raw c b = Some (r, b') \<and> omen_ok b'"
    using ok1 room wire_store_length [of u1 z1 c]
    by (auto simp: b f omen_ok_def simp del: flush_omen_tx_buffer.simps)
qed

lemma omen_encode_byte_length: "length (omen_encode_byte z c) \<in> {1, 2, 3}"
  by (simp add: omen_encode_byte_def Let_def)

lemma omen_safe_byte: "omen_safe (buffer_omen_byte c)"
  unfolding omen_safe_def
proof (intro allI impI)
  fix b :: "'a omen_tx_buffer" assume ok: "omen_ok b"
  obtain z u p where b: "b = (z, u, p)" by (cases b)
  let ?e = "omen_encode_byte z c"
  obtain r z1 u1 p1 where f: "(if length (tx_data_wire z) - u < length ?e
      then flush_omen_tx_buffer (z, u, p) else (0, z, u, p)) = (r, z1, u1, p1)" by (metis prod_cases4)
  have e: "length ?e \<le> 3" using omen_encode_byte_length [of z c] by auto
  have ok1: "omen_ok (z1, u1, p1)" and room: "r = 0 \<longrightarrow> u1 + length ?e \<le> ZMODEM_TX_DATA_WIRE_CAPACITY"
    using f e ok flush_omen_ok [of "(z, u, p)"] unfolding b omen_ok_def
    by (auto simp del: flush_omen_tx_buffer.simps split: if_splits)
  show "\<exists>r b'. buffer_omen_byte c b = Some (r, b') \<and> omen_ok b'"
    using ok1 room wire_store_all_length [of u1 ?e z1]
    by (auto simp: b f omen_ok_def Let_def simp del: flush_omen_tx_buffer.simps)
qed

lemma omen_safe_seq:
  assumes "omen_safe f" "omen_safe g" shows "omen_safe (\<lambda>b. omen_seq (f b) g)"
  unfolding omen_safe_def
proof (intro allI impI)
  fix b :: "'a omen_tx_buffer" assume "omen_ok b"
  then obtain r b1 where "f b = Some (r, b1)" "omen_ok b1" using omen_safeD [OF assms(1)] by blast
  then show "\<exists>r b'. omen_seq (f b) g = Some (r, b') \<and> omen_ok b'"
    using omen_safeD [OF assms(2), of b1] by (cases "r = 0") (simp_all add: omen_seq_def)
qed

lemma omen_safe_each: "(\<And>c. omen_safe (f c)) \<Longrightarrow> omen_safe (omen_each f cs)"
proof (induction cs)
  case Nil
  then show ?case by (simp add: omen_safe_def)
next
  case (Cons c cs)
  then show ?case using omen_safe_seq [OF Cons.prems [of c] Cons.IH [OF Cons.prems]] by simp
qed

lemma buffer_omen_symbols_safe:
  "omen_ok b \<Longrightarrow> \<exists>r crc' b'. buffer_omen_symbols cs b crc = Some (r, crc', b') \<and> omen_ok b'"
proof (induction cs arbitrary: b crc)
  case (Cons c cs)
  obtain r b1 where 1: "buffer_omen_byte c b = Some (r, b1)" "omen_ok b1"
    using omen_safeD [OF omen_safe_byte Cons.prems] by blast
  then show ?case using Cons.IH [OF 1(2)] by (cases "r = 0") (simp_all add: Let_def)
qed simp

lemma buffer_raw_ignoring_safe: "omen_ok b \<Longrightarrow> \<exists>b'. buffer_raw_ignoring cs b = Some b' \<and> omen_ok b'"
proof (induction cs arbitrary: b)
  case (Cons c cs)
  obtain r b1 where 1: "buffer_omen_raw c b = Some (r, b1)" "omen_ok b1"
    using omen_safeD [OF omen_safe_raw Cons.prems] by blast
  then show ?case using Cons.IH [OF 1(2)] by (auto simp del: buffer_omen_raw.simps)
qed simp

lemma buffer_pack7_groups_safe: "omen_ok b \<Longrightarrow> \<exists>b'. buffer_pack7_groups p b = Some b' \<and> omen_ok b'"
proof (induction p b rule: buffer_pack7_groups.induct)
  case (1 p b)
  show ?case
  proof (cases "p = []")
    case False
    obtain b1 where "buffer_pack7_group (take 4 p) b = Some b1" "omen_ok b1"
      using buffer_raw_ignoring_safe [OF 1(2)] unfolding buffer_pack7_group_def by blast
    then show ?thesis using 1(1) False by (simp add: buffer_pack7_groups.simps [of p])
  qed (use 1 in \<open>simp add: buffer_pack7_groups.simps [of "[]"]\<close>)
qed


lemma tx_flush_result: "fst (tx_flush z) = 0 \<or> fst (tx_flush z) = - 1"
  by (simp add: tx_flush_def split: prod.split)

lemma tx_flush_Some: "\<exists>r z'. Some (tx_flush z) = Some (r, z') \<and> (r = 0 \<or> r = - 1)"
  using tx_flush_result [of z] by (cases "tx_flush z") auto

lemma omen_safe_flush: "omen_safe (\<lambda>b. Some (flush_omen_tx_buffer b))"
  unfolding omen_safe_def using flush_omen_ok by (metis prod.collapse)

lemma omen_safe_xon: "omen_safe (if q then buffer_omen_raw c else (\<lambda>b. Some (0, b)))"
  using omen_safe_raw by (auto simp: omen_safe_def)

lemma tx_omen_data_total:
  assumes "length (tx_data_wire z) = ZMODEM_TX_DATA_WIRE_CAPACITY"
  shows "\<exists>r z'. tx_omen_data type p z = Some (r, z') \<and> (r = 0 \<or> r = - 1)"
proof -
  have "omen_ok (z, 0, last_sent z)" using assms by (simp add: omen_ok_def)
  from buffer_omen_symbols_safe [OF this, of "omen_rle_symbols p" "- 1"]
  obtain r crc b where 1: "buffer_omen_symbols (omen_rle_symbols p) (z, 0, last_sent z) (- 1) = Some (r, crc, b)"
    "omen_ok b" by blast
  let ?crc = "NOT (crc32_byte_update crc type)"
  have "omen_safe (\<lambda>b. omen_seq (buffer_omen_raw ZDLE b) (\<lambda>b. omen_seq (buffer_omen_raw type b) (\<lambda>b.
          omen_seq (omen_each buffer_omen_byte (le_bytes ?crc) b) (\<lambda>b.
          omen_seq ((if type = ZCRCW then buffer_omen_raw XON else (\<lambda>b. Some (0, b))) b) (\<lambda>b.
          Some (flush_omen_tx_buffer b))))))"
    by (intro omen_safe_seq omen_safe_raw omen_safe_each omen_safe_byte omen_safe_xon omen_safe_flush)
  from omen_safeD [OF this 1(2)] obtain r' b' where
    2: "omen_seq (buffer_omen_raw ZDLE b) (\<lambda>b. omen_seq (buffer_omen_raw type b) (\<lambda>b.
          omen_seq (omen_each buffer_omen_byte (le_bytes ?crc) b) (\<lambda>b.
          omen_seq (if type = ZCRCW then buffer_omen_raw XON b else Some (0, b)) (\<lambda>b.
          Some (flush_omen_tx_buffer b))))) = Some (r', b')"
    by (auto simp: if_distrib [of "\<lambda>f. f _"] simp del: buffer_omen_raw.simps cong: if_cong)
  obtain z' u' p' where b': "b' = (z', u', p')" by (cases b')
  show ?thesis
    using tx_flush_result [of "z'\<lparr>last_sent := p'\<rparr>"]
    by (cases "r = 0"; cases "r' = 0")
       (simp_all add: tx_omen_data_def 1(1) 2 b' Let_def del: buffer_omen_raw.simps, metis prod.collapse)
qed

lemma tx_pack7_data_total:
  assumes "length (tx_data_wire z) = ZMODEM_TX_DATA_WIRE_CAPACITY"
  shows "\<exists>r z'. tx_pack7_data type p z = Some (r, z') \<and> (r = 0 \<or> r = - 1)"
proof -
  have "omen_ok (z, 0, last_sent z)" using assms by (simp add: omen_ok_def)
  then obtain b1 where 1: "buffer_pack7_groups p (z, 0, last_sent z) = Some b1" "omen_ok b1"
    using buffer_pack7_groups_safe by blast
  then obtain b2 where 2: "buffer_raw_ignoring [0x21] b1 = Some b2" "omen_ok b2"
    using buffer_raw_ignoring_safe by blast
  then obtain b3 where 3: "buffer_raw_ignoring [type] b2 = Some b3" "omen_ok b3"
    using buffer_raw_ignoring_safe by blast
  let ?crc = "NOT (crc32_byte_update (crc32_update (- 1) p) type)"
  obtain b4 where 4: "buffer_pack7_group (le_bytes ?crc) b3 = Some b4" "omen_ok b4"
    using buffer_raw_ignoring_safe [OF 3(2)] unfolding buffer_pack7_group_def by blast
  then obtain b5 where 5: "(if type = ZCRCW then buffer_raw_ignoring [XON] b4 else Some b4) = Some b5"
    using buffer_raw_ignoring_safe [OF 4(2), of "[XON]"] by (cases "type = ZCRCW") (simp_all, blast)
  obtain r z' u' p' where 6: "flush_omen_tx_buffer b5 = (r, z', u', p')" by (metis prod_cases4)
  show ?thesis
    using tx_flush_result [of "z'\<lparr>last_sent := p'\<rparr>"]
    unfolding tx_pack7_data_def Let_def 1(1) 2(1) 3(1) bind.bind_lunit 4(1) 5 6
    by (cases "r = 0") (simp_all, metis prod.collapse)
qed

lemma tx_data_total:
  assumes "classes_ok z" "length (tx_data_wire z) = ZMODEM_TX_DATA_WIRE_CAPACITY"
  shows "\<exists>r z'. tx_data type p z = Some (r, z') \<and> (r = 0 \<or> r = - 1)"
proof (cases "ZMAXSPLEN < length p \<or> escape_8th_bit z")
  case True
  obtain A where A: "active_tx_classes z = (A, classed z)" using active_classed by blast
  have d: "tx_data type p z = (if ZMAXSPLEN < length p then Some (- 1, classed z)
      else if use_pack7 z then tx_pack7_data type p (classed z) else tx_omen_data type p (classed z))"
    unfolding tx_data_def A Let_def prod.case bind.bind_lunit using True
    by (cases "ZMAXSPLEN < length p"; cases "escape_8th_bit z") (simp_all only: classed_simps if_True if_False simp_thms)
  show ?thesis
    using tx_omen_data_total [of "classed z" type p] tx_pack7_data_total [of "classed z" type p] assms(2)
    unfolding d by simp
next
  case False
  obtain d where "tx_data type p z =
      (let (r, ctx) = io_write (io z) (io_context (io z)) (subpacket_wire z type p);
           z' = set_context ctx ((classed z)\<lparr>tx_data_wire := d\<rparr>)
       in Some (if r \<noteq> ZMODEM_OK then (- 1, z')
                else tx_flush (z'\<lparr>last_sent := subpacket_last z type p\<rparr>)))"
    using False by (rule_tac tx_data_frame [OF assms(1) _ _ assms(2), of p type]) auto
  moreover obtain r ctx where "io_write (io z) (io_context (io z)) (subpacket_wire z type p) = (r, ctx)"
    by fastforce
  ultimately show ?thesis by (cases "r = 0") (simp_all only: Let_def prod.case, use tx_flush_Some in auto)
qed


section \<open>Properties of data transmission\<close>

text \<open>A line on which nothing arrives and every write succeeds, for the witnesses.\<close>

definition idle_io :: "unit zmodem_io" where
  "idle_io = \<lparr>io_context = (), io_read = (\<lambda>_ _ _. (ZMODEM_TIMEOUT, [], 0, ())),
     io_write = (\<lambda>_ _. (ZMODEM_OK, ())), io_flush = (\<lambda>_. (ZMODEM_OK, ())),
     io_poll = (\<lambda>_. (0, ())), io_purge = (\<lambda>_. (ZMODEM_OK, ()))\<rparr>"

lemma cleared_ok: "classes_ok (zmodem_cleared i)" "length (tx_data_wire (zmodem_cleared i)) = ZMODEM_TX_DATA_WIRE_CAPACITY"
  "\<not> escape_8th_bit (zmodem_cleared i)"
  by (simp_all add: classes_ok_def zmodem_cleared_def)

text \<open>C27: \<open>tx_data\<close> never stores outside \<open>tx_data_wire\<close>: in every format, for every payload, frame
  end and transport (whatever its callbacks answer), it returns, with 0 or -1. The array is
  exactly as large as the longest plain subpacket; the seven-bit formats flush it when full.\<close>

theorem tx_data_never_overflows:
  assumes "classes_ok z" and "length (tx_data_wire z) = ZMODEM_TX_DATA_WIRE_CAPACITY"
  shows "\<exists>r z'. tx_data type p z = Some (r, z') \<and> (r = 0 \<or> r = - 1)"
  by (rule tx_data_total [OF assms])

theorem tx_data_never_overflows_witness:
  "\<exists>r z'. tx_data ZCRCE [1, 2, 3] (zmodem_cleared idle_io) = Some (r, z') \<and> (r = 0 \<or> r = - 1)"
  by (rule tx_data_never_overflows [OF cleared_ok(1,2)])

text \<open>C28: In the formats without eighth-bit quoting \<open>tx_data\<close> makes one call of the write callback,
  with exactly the encoded payload, the frame end and the encoded checksum (and XON after
  ZCRCW), then flushes and remembers the last octet sent; a failed write makes it -1.\<close>

theorem tx_data_writes_one_frame:
  assumes "classes_ok z" and "\<not> escape_8th_bit z" and "length p \<le> ZMAXSPLEN"
    and "length (tx_data_wire z) = ZMODEM_TX_DATA_WIRE_CAPACITY"
  shows "\<exists>d. length d = ZMODEM_TX_DATA_WIRE_CAPACITY \<and>
    tx_data type p z =
      (let (r, ctx) = io_write (io z) (io_context (io z)) (subpacket_wire z type p);
           z' = set_context ctx ((classed z)\<lparr>tx_data_wire := d\<rparr>)
       in Some (if r \<noteq> ZMODEM_OK then (- 1, z')
                else tx_flush (z'\<lparr>last_sent := subpacket_last z type p\<rparr>)))"
  using tx_data_frame [OF assms] by blast

theorem tx_data_writes_one_frame_witness:
  "\<exists>d. length d = ZMODEM_TX_DATA_WIRE_CAPACITY \<and>
    tx_data ZCRCW [0x18, 0x41] (zmodem_cleared idle_io) =
      (let z = zmodem_cleared idle_io;
           (r, ctx) = io_write (io z) (io_context (io z)) (subpacket_wire z ZCRCW [0x18, 0x41]);
           z' = set_context ctx ((classed z)\<lparr>tx_data_wire := d\<rparr>)
       in Some (if r \<noteq> ZMODEM_OK then (- 1, z')
                else tx_flush (z'\<lparr>last_sent := subpacket_last z ZCRCW [0x18, 0x41]\<rparr>)))"
  using tx_data_writes_one_frame [where z = "zmodem_cleared idle_io", OF cleared_ok(1,3) _ cleared_ok(2), where p = "[0x18, 0x41]" and type = ZCRCW]
  unfolding Let_def by simp

end
