(* ===== verification/Sink.thy ===== *)
theory Sink
  imports Tx_Wire
begin

text \<open>
  What reaches the line. \<open>octet_sink\<close> states what the sender relies on: a write appends its octets
  to the output, a flush changes nothing that was written. Under that contract every transmit
  routine is described by the octets it emits, as a function of the last octet sent.
\<close>

declare split_paired_Ex [simp del] split_paired_All [simp del]

section \<open>States that differ in the output only\<close>

definition tx_moved :: "'c zmodem \<Rightarrow> 'c zmodem \<Rightarrow> bool" where
  "tx_moved z z' \<longleftrightarrow> (\<exists>ctx c cls ini d. z' = set_context ctx
     (z\<lparr>last_sent := c, tx_classes := cls, tx_classes_initialized := ini, tx_data_wire := d\<rparr>))"

lemma tx_moved_refl [simp]: "tx_moved z z"
  unfolding tx_moved_def
  by (intro exI [of _ "io_context (io z)"] exI [of _ "last_sent z"] exI [of _ "tx_classes z"]
      exI [of _ "tx_classes_initialized z"] exI [of _ "tx_data_wire z"]) (simp add: set_context_def)

lemma tx_moved_trans [trans]: "tx_moved z z' \<Longrightarrow> tx_moved z' z'' \<Longrightarrow> tx_moved z z''"
proof -
  assume "tx_moved z z'" "tx_moved z' z''"
  then obtain c l s i d c' l' s' i' d' where
    "z' = set_context c (z\<lparr>last_sent := l, tx_classes := s, tx_classes_initialized := i, tx_data_wire := d\<rparr>)"
    "z'' = set_context c' (z'\<lparr>last_sent := l', tx_classes := s', tx_classes_initialized := i', tx_data_wire := d'\<rparr>)"
    unfolding tx_moved_def by auto
  then have "z'' = set_context c' (z\<lparr>last_sent := l', tx_classes := s', tx_classes_initialized := i', tx_data_wire := d'\<rparr>)"
    by (simp add: set_context_def)
  then show ?thesis unfolding tx_moved_def by blast
qed

lemma tx_moved_context: "tx_moved z (set_context ctx (z\<lparr>last_sent := c\<rparr>))"
  unfolding tx_moved_def
  by (intro exI [of _ ctx] exI [of _ c] exI [of _ "tx_classes z"]
      exI [of _ "tx_classes_initialized z"] exI [of _ "tx_data_wire z"]) (simp add: set_context_def)

lemma tx_moved_classed: "tx_moved z (classed z)"
  unfolding tx_moved_def classed_def active_tx_classes_def initialize_tx_classes_def Let_def
  by (intro exI [of _ "io_context (io z)"] exI [of _ "last_sent z"]
      exI [of _ "tx_classes (classed z)"] exI [of _ True] exI [of _ "tx_data_wire z"])
     (auto simp: set_context_def classed_def active_tx_classes_def initialize_tx_classes_def)

lemma tx_moved_fields [cfg_simps]:
  assumes "tx_moved z z'"
  shows "escape_all_control_characters z' = escape_all_control_characters z"
    "escape_8th_bit z' = escape_8th_bit z" "escape_iac z' = escape_iac z"
    "use_pack7 z' = use_pack7 z" "use_mobyturbo z' = use_mobyturbo z"
    "can_fcs_32 z' = can_fcs_32 z" "want_fcs_32 z' = want_fcs_32 z"
    "io_write (io z') = io_write (io z)" "io_flush (io z') = io_flush (io z)"
  using assms unfolding tx_moved_def set_context_def by auto

text \<open>The classes in force do not depend on what moved.\<close>

definition flags_active :: "'c zmodem \<Rightarrow> u8" where
  "flags_active z = (if use_mobyturbo z then 0 else TX_ESCAPE_ALWAYS) OR
     (if escape_all_control_characters z then TX_ESCAPE_CONTROL else 0) OR
     (if escape_8th_bit z \<and> \<not> use_mobyturbo z then TX_ESCAPE_8TH else 0) OR
     (if escape_iac z then TX_ESCAPE_IAC else 0)"

lemma tx_active_flags: "tx_active z = flags_active z"
  by (simp add: tx_active_def flags_active_def active_mobyturbo_classes_def active_tx_classes_def
      initialize_tx_classes_def Let_def)

lemma fst_active: "\<not> use_mobyturbo z \<Longrightarrow> fst (active_tx_classes z) = flags_active z"
  and fst_active_mobyturbo: "use_mobyturbo z \<Longrightarrow> fst (active_mobyturbo_classes z) = flags_active z"
  using tx_active_flags [of z] by (simp_all add: tx_active_def)

lemma flags_active_moved: "tx_moved z z' \<Longrightarrow> flags_active z' = flags_active z"
  by (simp add: flags_active_def cfg_simps)

text \<open>The encoder of an octet, from the settings alone.\<close>

definition needs_escape :: "'c zmodem \<Rightarrow> int \<Rightarrow> u8 \<Rightarrow> bool" where
  "needs_escape z previous c \<longleftrightarrow>
     tx_class_action c AND flags_active z \<noteq> 0 \<or>
     (use_mobyturbo z \<and> c = ZDLE) \<or>
     (tx_class_action c AND TX_ESCAPE_CR \<noteq> 0 \<and> previous = 0x40 \<and>
      (use_mobyturbo z \<longrightarrow> escape_all_control_characters z))"

definition code :: "'c zmodem \<Rightarrow> int \<Rightarrow> u8 \<Rightarrow> u8 list" where
  "code z previous c =
     (if needs_escape z previous c then [ZDLE, if c = 0xff then ZRUB1 else c XOR 0x40] else [c])"

lemma needs_escape_ff: "\<not> escape_8th_bit z \<Longrightarrow> needs_escape z p 0xff \<Longrightarrow> escape_iac z"
  by (auto simp: needs_escape_def flags_active_def tx_class_action_def split: if_splits)

lemma tx_needs_escape:
  assumes "tx_classes z' = tx_class_action" "\<not> use_mobyturbo z"
  shows "tx_byte_needs_escape z' c p (flags_active z) = needs_escape z p c"
  using assms by (auto simp: tx_byte_needs_escape_def needs_escape_def Let_def)

lemma mobyturbo_needs_escape:
  assumes "tx_classes z' = tx_class_action" "use_mobyturbo z"
    "escape_all_control_characters z' = escape_all_control_characters z"
  shows "mobyturbo_byte_needs_escape z' c p (flags_active z) = needs_escape z p c"
  using assms by (auto simp: mobyturbo_byte_needs_escape_def needs_escape_def Let_def)

lemma octet_code_code:
  assumes "classes_ok z" "\<not> escape_8th_bit z"
  shows "octet_code z = code z"
proof (rule ext, rule ext)
  fix p c
  have c: "tx_classes (classed z) = tx_class_action" using assms(1) by simp
  show "octet_code z p c = code z p c"
  proof (cases "use_mobyturbo z")
    case True
    then show ?thesis
      using needs_escape_ff [OF assms(2)]
      by (auto simp: octet_code_def mobyturbo_code_def code_def tx_active_flags mobyturbo_needs_escape [OF c True])
  next
    case False
    then show ?thesis
      by (auto simp: octet_code_def tx_code_def code_def tx_active_flags tx_needs_escape [OF c False])
  qed
qed

section \<open>The contract\<close>

locale octet_sink =
  fixes wr :: "'c \<Rightarrow> u8 list \<Rightarrow> int \<times> 'c" and fl :: "'c \<Rightarrow> int \<times> 'c"
    and open_for :: "'c \<Rightarrow> bool" and sent :: "'c \<Rightarrow> u8 list"
  assumes write_sends: "open_for c \<Longrightarrow> bs \<noteq> [] \<Longrightarrow>
      \<exists>c'. wr c bs = (ZMODEM_OK, c') \<and> open_for c' \<and> sent c' = sent c @ bs"
    and flush_sends: "open_for c \<Longrightarrow> \<exists>c'. fl c = (ZMODEM_OK, c') \<and> open_for c' \<and> sent c' = sent c"
begin

definition sending :: "'c zmodem \<Rightarrow> u8 list \<Rightarrow> 'c zmodem \<Rightarrow> bool" where
  "sending z0 w z \<longleftrightarrow> tx_moved z0 z \<and> io_write (io z) = wr \<and> io_flush (io z) = fl \<and>
     open_for (io_context (io z)) \<and> sent (io_context (io z)) = w \<and> classes_ok z \<and>
     length (tx_data_wire z) = ZMODEM_TX_DATA_WIRE_CAPACITY"

definition emits :: "'c zmodem \<Rightarrow> ('c zmodem \<Rightarrow> int \<times> 'c zmodem) \<Rightarrow> (int \<Rightarrow> u8 list) \<Rightarrow> (int \<Rightarrow> int) \<Rightarrow> bool" where
  "emits z0 f octets after \<longleftrightarrow> (\<forall>w z. sending z0 w z \<longrightarrow>
     (\<exists>z'. f z = (0, z') \<and> sending z0 (w @ octets (last_sent z)) z' \<and> last_sent z' = after (last_sent z)))"

lemma emitsD:
  assumes "emits z0 f octets after" "sending z0 w z"
  obtains z' where "f z = (0, z')" "sending z0 (w @ octets (last_sent z)) z'" "last_sent z' = after (last_sent z)"
  using assms unfolding emits_def by blast

lemma sending_classed: "sending z0 w z \<Longrightarrow> sending z0 w (classed z)"
  unfolding sending_def using tx_moved_trans [OF _ tx_moved_classed] by (auto simp: classes_ok_def)

lemma emits_raw: "emits z0 (tx_raw c) (\<lambda>_. [word_of_int c]) (\<lambda>_. c AND 0x7f)"
  unfolding emits_def
proof (intro allI impI)
  fix w z assume s: "sending z0 w z"
  have o: "open_for (io_context (io z))" "sent (io_context (io z)) = w" using s by (auto simp: sending_def)
  obtain ctx where w: "wr (io_context (io z)) [word_of_int c] = (ZMODEM_OK, ctx)" "open_for ctx"
    "sent ctx = w @ [word_of_int c]"
    using write_sends [OF o(1), of "[word_of_int c]"] o(2) by auto
  have "tx_raw c z = (0, set_context ctx (z\<lparr>last_sent := c AND 0x7f\<rparr>))"
    using w(1) s by (simp add: tx_raw_def sending_def set_context_def Let_def)
  moreover have "sending z0 (w @ [word_of_int c]) (set_context ctx (z\<lparr>last_sent := c AND 0x7f\<rparr>))"
    using s w tx_moved_trans [OF _ tx_moved_context, of z0 z] by (auto simp: sending_def set_context_def classes_ok_def)
  ultimately show "\<exists>z'. tx_raw c z = (0, z') \<and> sending z0 (w @ [word_of_int c]) z' \<and> last_sent z' = c AND 127"
    by (auto simp: set_context_def)
qed

lemma emits_flush: "emits z0 tx_flush (\<lambda>_. []) (\<lambda>p. p)"
  unfolding emits_def
proof (intro allI impI)
  fix w z assume s: "sending z0 w z"
  have o: "open_for (io_context (io z))" "sent (io_context (io z)) = w" using s by (auto simp: sending_def)
  obtain ctx where w: "fl (io_context (io z)) = (ZMODEM_OK, ctx)" "open_for ctx" "sent ctx = w"
    using flush_sends [OF o(1)] o(2) by auto
  have "set_context ctx z = set_context ctx (z\<lparr>last_sent := last_sent z\<rparr>)" by simp
  then have "sending z0 w (set_context ctx z)"
    using s w tx_moved_trans [OF _ tx_moved_context, of z0 z ctx "last_sent z"]
    by (auto simp: sending_def set_context_def classes_ok_def)
  then show "\<exists>z'. tx_flush z = (0, z') \<and> sending z0 (w @ []) z' \<and> last_sent z' = last_sent z"
    using w s by (auto simp: tx_flush_def sending_def set_context_def)
qed

lemma emits_nil: "emits z0 (tx_all []) (\<lambda>_. []) (\<lambda>p. p)"
  by (simp add: emits_def)

lemma emits_cons:
  assumes "emits z0 f a a'" "emits z0 (tx_all fs) b b'"
  shows "emits z0 (tx_all (f # fs)) (\<lambda>p. a p @ b (a' p)) (\<lambda>p. b' (a' p))"
  unfolding emits_def
proof (intro allI impI)
  fix w z assume s: "sending z0 w z"
  obtain z1 where 1: "f z = (0, z1)" "sending z0 (w @ a (last_sent z)) z1" "last_sent z1 = a' (last_sent z)"
    using emitsD [OF assms(1) s] .
  obtain z2 where "tx_all fs z1 = (0, z2)" "sending z0 ((w @ a (last_sent z)) @ b (last_sent z1)) z2"
    "last_sent z2 = b' (last_sent z1)"
    using emitsD [OF assms(2) 1(2)] .
  then show "\<exists>z'. tx_all (f # fs) z = (0, z') \<and> sending z0 (w @ a (last_sent z) @ b (a' (last_sent z))) z' \<and>
      last_sent z' = b' (a' (last_sent z))"
    using 1 by auto
qed

lemma emits_append:
  assumes "emits z0 (tx_all fs) a a'" "emits z0 (tx_all gs) b b'"
  shows "emits z0 (tx_all (fs @ gs)) (\<lambda>p. a p @ b (a' p)) (\<lambda>p. b' (a' p))"
  unfolding emits_def
proof (intro allI impI)
  fix w z assume s: "sending z0 w z"
  obtain z1 where 1: "tx_all fs z = (0, z1)" "sending z0 (w @ a (last_sent z)) z1" "last_sent z1 = a' (last_sent z)"
    using emitsD [OF assms(1) s] .
  obtain z2 where "tx_all gs z1 = (0, z2)" "sending z0 ((w @ a (last_sent z)) @ b (last_sent z1)) z2"
    "last_sent z2 = b' (last_sent z1)"
    using emitsD [OF assms(2) 1(2)] .
  then show "\<exists>z'. tx_all (fs @ gs) z = (0, z') \<and> sending z0 (w @ a (last_sent z) @ b (a' (last_sent z))) z' \<and>
      last_sent z' = b' (a' (last_sent z))"
    using 1 by (auto simp: tx_all_append)
qed

end

end
