(* ===== verification/Header_Wire.thy ===== *)
theory Header_Wire
  imports Sink
begin

text \<open>
  Headers on the wire: the octets of each style as a function of the settings and of the
  header, and the proof that the transmit routines emit exactly those.
\<close>

declare split_paired_Ex [simp del] split_paired_All [simp del]

section \<open>The octets of a header\<close>

definition hex_digit :: "u8 \<Rightarrow> u8" where
  "hex_digit n = (if n < 10 then n + 48 else n + 87)"

definition hex_code :: "u8 \<Rightarrow> u8 list" where
  "hex_code b = [hex_digit (drop_bit 4 b), hex_digit (b AND 0x0f)]"

definition crc16_of :: "u8 list \<Rightarrow> u16" where
  "crc16_of p = crc16_buffer_update 0 (p @ [0, 0])"

definition hex_header_wire :: "u8 list \<Rightarrow> u8 list" where
  "hex_header_wire h =
     [ZPAD, ZPAD, ZDLE] @
     (if length h \<noteq> HDRLEN then ZVHEX # hex_code (word_of_nat (length h - 1)) else [ZHEX]) @
     concat (map hex_code h) @ concat (map hex_code (be_bytes16 (crc16_of h))) @ [CR, LF] @
     (if hd h \<noteq> ZACK \<and> hd h \<noteq> ZFIN then [XON] else [])"

definition count_code :: "u8 list \<Rightarrow> u8 list" where
  "count_code h = (if length h \<noteq> HDRLEN then [word_of_nat (length h - 1)] else [])"

definition bin16_header_wire :: "'c zmodem \<Rightarrow> u8 list \<Rightarrow> u8 list" where
  "bin16_header_wire z h =
     (let style = if length h \<noteq> HDRLEN then ZVBIN else ZBIN
      in [ZPAD, ZPAD, ZDLE, style] @
         codes (code z) (low7 style) (count_code h @ h @ be_bytes16 (crc16_of h)))"

definition bin32_header_wire :: "'c zmodem \<Rightarrow> u8 list \<Rightarrow> u8 list" where
  "bin32_header_wire z h =
     (let style = if length h \<noteq> HDRLEN then ZVBIN32 else ZBIN32
      in [ZPAD, ZPAD, ZDLE, style] @
         codes (code z) (low7 style)
           (count_code h @ h @ le_bytes (NOT (crc32_update_reduced (- 1) h))))"

definition salted_crc32 :: "u8 list \<Rightarrow> u8 list" where
  "salted_crc32 h = le_bytes (NOT (crc32_update_reduced (- 1) (h @ omen_header_crc_suffix)))"

definition mobyturbo_header_wire :: "'c zmodem \<Rightarrow> u8 list \<Rightarrow> u8 list" where
  "mobyturbo_header_wire z h =
     [ZPAD, ZDLE, ZBINM32] @
     codes (code z) (low7 ZBINM32) (word_of_nat (length h - 1) # h @ salted_crc32 h)"

definition omen_header_wire :: "'c zmodem \<Rightarrow> u8 \<Rightarrow> u8 list \<Rightarrow> u8 list" where
  "omen_header_wire z style h =
     [ZPAD, ZDLE, style, 0x22 + word_of_nat (length h - 1)] @
     concat (map (omen_encode_byte z) (h @ salted_crc32 h))"

definition header_wire :: "'c zmodem \<Rightarrow> u8 list \<Rightarrow> u8 list" where
  "header_wire z h =
     (if escape_8th_bit z then omen_header_wire z (if use_pack7 z then ZBINP7 else ZBINR32ESC8) h
      else if use_mobyturbo z then mobyturbo_header_wire z h
      else if can_fcs_32 z \<and> want_fcs_32 z then bin32_header_wire z h
      else if can_fcs_32 z then bin16_header_wire z h
      else hex_header_wire h)"

lemma crc16_of_eq: "crc16_update (crc16_update (crc16_buffer_update 0 h) 0) 0 = crc16_of h"
  by (simp add: crc16_of_def crc16_buffer_append)

section \<open>What the routines emit\<close>

lemma low7_word [simp]: "uint (c :: u8) AND 0x7f = low7 c"
  by (simp add: low7_def unsigned_and_eq)

lemma salted: "crc32_update (crc32_update_reduced c h) s = crc32_update_reduced c (h @ s)"
  by (simp add: crc32_update_serial crc32_reduced_append)

context octet_sink
begin

lemma emits_octet: "emits z0 (tx_raw (uint (c :: u8))) (\<lambda>_. [c]) (\<lambda>_. low7 c)"
  using emits_raw [of z0 "uint c"] by simp

lemma emits_two: "emits z0 (tx_all [tx_raw (uint (c :: u8)), tx_raw (uint (d :: u8))]) (\<lambda>_. [c, d]) (\<lambda>_. low7 d)"
  using emits_cons [OF emits_octet [of z0 c] emits_cons [OF emits_octet [of z0 d] emits_nil]]
  by (simp only: append.simps)

lemma emits_tx:
  assumes "\<not> use_mobyturbo z0" "\<not> escape_8th_bit z0"
  shows "emits z0 (tx c) (\<lambda>p. code z0 p c) (\<lambda>p. low7 (last (code z0 p c)))"
  unfolding emits_def
proof (intro allI impI)
  fix w z assume s: "sending z0 w z"
  let ?p = "last_sent z"
  have m: "tx_moved z0 z" and ok: "classes_ok z" using s by (auto simp: sending_def)
  have a: "active_tx_classes z = (flags_active z0, classed z)"
    using active_classed [of z] fst_active [of z] assms(1) m by (simp add: cfg_simps flags_active_moved)
  have n: "tx_byte_needs_escape (classed z) c ?p (flags_active z0) = needs_escape z0 ?p c"
    using tx_needs_escape [OF classed_classes [OF ok] assms(1)] .
  have iac: "escape_iac (classed z) = escape_iac z0" using m by (simp add: cfg_simps)
  have two: "emits z0 (tx_all [tx_raw (uint ZDLE), tx_raw (uint d)]) (\<lambda>_. [ZDLE, d]) (\<lambda>_. low7 d)" for d :: u8
    by (rule emits_two)
  have x: "uint c XOR 0x40 = uint (c XOR 0x40)" by (simp add: unsigned_xor_eq)
  have t: "tx c z = (if needs_escape z0 ?p c then
             (if c = 0xff then tx_all [tx_raw (uint ZDLE), tx_raw (uint ZRUB1)] (classed z)
              else tx_all [tx_raw (uint ZDLE), tx_raw (uint (c XOR 0x40))] (classed z))
           else tx_raw (uint c) (classed z))"
    using needs_escape_ff [OF assms(2), of ?p] n iac
    by (auto simp: tx_def a tx_esc_def x simp del: tx_all.simps)
  note d = emitsD [OF _ sending_classed [OF s], unfolded classed_simps]
  show "\<exists>z'. tx c z = (0, z') \<and> sending z0 (w @ code z0 ?p c) z' \<and> last_sent z' = low7 (last (code z0 ?p c))"
  proof (cases "needs_escape z0 ?p c")
    case False
    show ?thesis by (rule d [OF emits_octet [of z0 c]]) (use False t in \<open>simp add: code_def\<close>)
  next
    case True
    show ?thesis
      by (cases "c = 0xff"; rule d [OF two [of "if c = 0xff then ZRUB1 else c XOR 0x40"]])
         (use True t in \<open>simp_all add: code_def del: tx_all.simps\<close>)
  qed
qed

lemma emits_mobyturbo:
  assumes "use_mobyturbo z0" "\<not> escape_8th_bit z0"
  shows "emits z0 (tx_mobyturbo_byte c) (\<lambda>p. code z0 p c) (\<lambda>p. low7 (last (code z0 p c)))"
  unfolding emits_def
proof (intro allI impI)
  fix w z assume s: "sending z0 w z"
  let ?p = "last_sent z"
  have m: "tx_moved z0 z" and ok: "classes_ok z" using s by (auto simp: sending_def)
  have a: "active_mobyturbo_classes z = (flags_active z0, classed z)"
  proof -
    have "snd (active_mobyturbo_classes z) = classed z"
      by (simp add: active_mobyturbo_classes_def classed_def Let_def split_beta)
    then show ?thesis
      using fst_active_mobyturbo [of z] assms(1) m
      by (metis flags_active_moved prod.collapse tx_moved_fields(5))
  qed
  have n: "mobyturbo_byte_needs_escape (classed z) c ?p (flags_active z0) = needs_escape z0 ?p c"
    using mobyturbo_needs_escape [OF classed_classes [OF ok] assms(1)] m by (simp add: cfg_simps)
  have two: "emits z0 (tx_all [tx_raw (uint ZDLE), tx_raw (uint d)]) (\<lambda>_. [ZDLE, d]) (\<lambda>_. low7 d)" for d :: u8
    by (rule emits_two)
  have x: "uint c XOR 0x40 = uint (c XOR 0x40)" by (simp add: unsigned_xor_eq)
  have t: "tx_mobyturbo_byte c z = (if needs_escape z0 ?p c then
             (if c = 0xff then tx_all [tx_raw (uint ZDLE), tx_raw (uint ZRUB1)] (classed z)
              else tx_all [tx_raw (uint ZDLE), tx_raw (uint (c XOR 0x40))] (classed z))
           else tx_raw (uint c) (classed z))"
    using n by (auto simp: tx_mobyturbo_byte_def a tx_esc_def x simp del: tx_all.simps)
  note d = emitsD [OF _ sending_classed [OF s], unfolded classed_simps]
  show "\<exists>z'. tx_mobyturbo_byte c z = (0, z') \<and> sending z0 (w @ code z0 ?p c) z' \<and> last_sent z' = low7 (last (code z0 ?p c))"
  proof (cases "needs_escape z0 ?p c")
    case False
    show ?thesis by (rule d [OF emits_octet [of z0 c]]) (use False t in \<open>simp add: code_def\<close>)
  next
    case True
    show ?thesis
      by (cases "c = 0xff"; rule d [OF two [of "if c = 0xff then ZRUB1 else c XOR 0x40"]])
         (use True t in \<open>simp_all add: code_def del: tx_all.simps\<close>)
  qed
qed

text \<open>Sequences of octets under one of the two encoders.\<close>

lemma emits_codes:
  assumes "\<And>c. emits z0 (f c) (\<lambda>p. g p c) (\<lambda>p. low7 (last (g p c)))"
  shows "emits z0 (tx_all (map f cs)) (\<lambda>p. codes g p cs) (\<lambda>p. last_sent_after g p cs)"
proof (induction cs)
  case Nil
  show ?case using emits_nil by (simp only: list.map codes.simps last_sent_after.simps if_True)
next
  case (Cons c cs)
  show ?case using emits_cons [OF assms Cons.IH] by (simp only: list.map codes.simps last_sent_after.simps)
qed

lemma emits_octets:
  "emits z0 (tx_all (map (\<lambda>c. tx_raw (uint c)) cs)) (\<lambda>_. cs) (\<lambda>p. if cs = [] then p else low7 (last cs))"
proof (induction cs)
  case Nil
  show ?case using emits_nil by (simp only: list.map refl if_True)
next
  case (Cons c cs)
  have "(if c # cs = [] then p else low7 (last (c # cs))) = (if cs = [] then low7 c else low7 (last cs))" for p :: int
    by simp
  then show ?case using emits_cons [OF emits_octet Cons.IH, of c] by (simp only: list.map append.simps)
qed

text \<open>Fixed octets, whatever was sent before.\<close>

definition puts :: "'c zmodem \<Rightarrow> ('c zmodem \<Rightarrow> int \<times> 'c zmodem) \<Rightarrow> u8 list \<Rightarrow> bool" where
  "puts z0 f w \<longleftrightarrow> (\<exists>after. emits z0 f (\<lambda>_. w) after)"

lemma putsI: "emits z0 f (\<lambda>_. w) after \<Longrightarrow> puts z0 f w"
  by (auto simp: puts_def)

lemma puts_nil: "puts z0 (tx_all []) []"
  by (rule putsI [OF emits_nil])

lemma puts_cons:
  assumes "puts z0 f v" "puts z0 (tx_all fs) w"
  shows "puts z0 (tx_all (f # fs)) (v @ w)"
proof -
  obtain a b where a: "emits z0 f (\<lambda>_. v) a" and b: "emits z0 (tx_all fs) (\<lambda>_. w) b"
    using assms by (auto simp: puts_def)
  show ?thesis by (rule putsI [OF emits_cons [OF a b]])
qed

lemma puts_append:
  assumes "puts z0 (tx_all fs) v" "puts z0 (tx_all gs) w"
  shows "puts z0 (tx_all (fs @ gs)) (v @ w)"
proof -
  obtain a b where a: "emits z0 (tx_all fs) (\<lambda>_. v) a" and b: "emits z0 (tx_all gs) (\<lambda>_. w) b"
    using assms by (auto simp: puts_def)
  show ?thesis by (rule putsI [OF emits_append [OF a b]])
qed

lemma puts_map:
  assumes "\<And>c. puts z0 (f c) (g c)"
  shows "puts z0 (tx_all (map f cs)) (concat (map g cs))"
proof (induction cs)
  case Nil
  show ?case using puts_nil by (simp only: list.map concat.simps)
next
  case (Cons c cs)
  then show ?case using puts_cons [OF assms Cons.IH] by (simp only: list.map concat.simps)
qed

lemma puts_octet: "puts z0 (tx_raw (uint (c :: u8))) [c]"
  by (rule putsI [OF emits_octet])

lemma puts_octets: "puts z0 (tx_all (map (\<lambda>c. tx_raw (uint c)) cs)) cs"
  by (rule putsI [OF emits_octets])

lemma putsD:
  assumes "puts z0 f v" "sending z0 w z"
  obtains z' where "f z = (0, z')" "sending z0 (w @ v) z'"
  using assms by (auto simp: puts_def elim: emitsD)

section \<open>Hexadecimal headers\<close>

lemma puts_nibble: "puts z0 (tx_nibble n) [hex_digit (word_of_int n AND 0x0f)]"
proof -
  have n: "word_of_int n AND (0x0f :: u8) = word_of_int (n AND 0x0f)"
    by (rule bit_word_eqI) (auto simp: bit_simps bit_numeral_rec)
  have "n AND 0x0f = n mod 16"
    using take_bit_eq_mask [of 4 n] take_bit_eq_mod [of 4 n] by (simp add: mask_eq_exp_minus_1)
  then have "0 \<le> n AND 0x0f \<and> n AND 0x0f < 16" by simp
  then have "n AND 0x0f = 0 \<or> n AND 0x0f = 1 \<or> n AND 0x0f = 2 \<or> n AND 0x0f = 3 \<or> n AND 0x0f = 4 \<or>
    n AND 0x0f = 5 \<or> n AND 0x0f = 6 \<or> n AND 0x0f = 7 \<or> n AND 0x0f = 8 \<or> n AND 0x0f = 9 \<or>
    n AND 0x0f = 10 \<or> n AND 0x0f = 11 \<or> n AND 0x0f = 12 \<or> n AND 0x0f = 13 \<or> n AND 0x0f = 14 \<or>
    n AND 0x0f = 15"
    by arith
  then have "tx_nibble n = (tx_raw (uint (hex_digit (word_of_int n AND 0x0f))) :: 'a zmodem \<Rightarrow> _)"
    unfolding tx_nibble_def n Let_def by (elim disjE) (simp_all add: hex_digit_def)
  then show ?thesis using puts_octet by metis
qed

lemma puts_hex: "puts z0 (tx_hex h) (hex_code (word_of_int h))"
proof -
  have "word_of_int (drop_bit 4 h) AND (0x0f :: u8) = drop_bit 4 (word_of_int h)"
    by (auto simp: u8_eq_iff bit_simps bit_numeral_rec)
  then have "puts z0 (tx_nibble (drop_bit 4 h)) [hex_digit (drop_bit 4 (word_of_int h))]"
    using puts_nibble [of z0 "drop_bit 4 h"] by simp
  then show ?thesis
    using puts_cons [OF _ puts_cons [OF puts_nibble [of z0 h] puts_nil [of z0]]]
    unfolding tx_hex_def hex_code_def by (metis append.simps)
qed

lemma puts_hex_octet: "puts z0 (tx_hex (uint (c :: u8))) (hex_code c)"
  using puts_hex [of z0 "uint c"] by simp

lemma puts_flush: "puts z0 tx_flush []"
  unfolding puts_def
proof
  show "emits z0 tx_flush (\<lambda>_. []) (\<lambda>p. p)" by (rule emits_flush)
qed

lemma tx_hex_header_length_puts:
  assumes "count \<le> length p" "5 \<le> count"
  shows "puts z0 (tx_hex_header_length p count) (hex_header_wire (take count p))"
proof -
  let ?h = "take count p"
  let ?crc = "crc16_of ?h"
  have crc: "crc16_update (crc16_update (crc16_buffer_update 0 ?h) 0) 0 = ?crc"
    by (simp add: crc16_of_def crc16_buffer_append)
  have len: "word_of_int (int count - 1) = (word_of_nat (length ?h - 1) :: u8)"
  proof -
    have "int count - 1 = int (length ?h - 1)" using assms by (simp add: of_nat_diff min_def)
    then show ?thesis by (metis of_int_of_nat_eq)
  qed
  have type: "hd ?h = p ! FTYPE" using assms by (cases p) (auto simp: take_Cons')
  let ?head = "if count \<noteq> HDRLEN then [tx_raw (uint ZVHEX), tx_hex (int count - 1)] else [tx_raw (uint ZHEX)]"
  let ?headw = "if length ?h \<noteq> HDRLEN then ZVHEX # hex_code (word_of_nat (length ?h - 1)) else [ZHEX]"
  let ?tail = "if p ! FTYPE \<noteq> ZACK \<and> p ! FTYPE \<noteq> ZFIN then [tx_raw (uint XON)] else []"
  let ?tailw = "if hd ?h \<noteq> ZACK \<and> hd ?h \<noteq> ZFIN then [XON] else []"
  have 1: "puts z0 (tx_all [tx_raw (uint ZPAD), tx_raw (uint ZPAD), tx_raw (uint ZDLE)]) [ZPAD, ZPAD, ZDLE]"
    using puts_octets [of z0 "[ZPAD, ZPAD, ZDLE]"] by (simp only: list.map)
  have 2: "puts z0 (tx_all ?head) ?headw"
  proof (cases "count = HDRLEN")
    case True
    then show ?thesis using puts_octets [of z0 "[ZHEX]"] assms by (simp only: list.map) (simp add: min_def)
  next
    case False
    then have "puts z0 (tx_all [tx_raw (uint ZVHEX), tx_hex (int count - 1)]) (ZVHEX # hex_code (word_of_nat (length ?h - 1)))"
      using puts_cons [OF puts_octet [of z0 ZVHEX] puts_cons [OF puts_hex [of z0 "int count - 1"] puts_nil [of z0]]]
      unfolding len by (simp only: append.simps append_Nil2)
    then show ?thesis using False assms by (simp only: if_True not_False_eq_True) (simp add: min_def)
  qed
  have 3: "puts z0 (tx_all (map (\<lambda>b. tx_hex (uint b)) ?h)) (concat (map hex_code ?h))"
    by (rule puts_map [OF puts_hex_octet])
  have 4: "puts z0 (tx_all [tx_hex (uint (drop_bit 8 ?crc)), tx_hex (uint ?crc), tx_raw (uint CR), tx_raw (uint LF)])
    (hex_code (ucast (drop_bit 8 ?crc)) @ hex_code (ucast ?crc) @ [CR] @ [LF] @ [])"
    using puts_hex [of z0 "uint (drop_bit 8 ?crc)"] puts_hex [of z0 "uint ?crc"]
    by (intro puts_cons puts_octet puts_nil) simp_all
  have 5: "puts z0 (tx_all ?tail) ?tailw"
    using puts_octets [of z0 "[XON]"] puts_nil [of z0] unfolding type by (simp only: list.map split: if_splits) simp
  have 6: "puts z0 (tx_all [tx_flush]) ([] @ [])"
    by (intro puts_cons puts_flush puts_nil)
  show ?thesis
    using puts_append [OF 1 puts_append [OF 2 puts_append [OF 3 puts_append [OF 4 puts_append [OF 5 6]]]]]
    unfolding tx_hex_header_length_def hex_header_wire_def Let_def crc be_bytes16_def
    by (simp only: append_assoc append.simps append_Nil2 concat.simps list.map)
qed

section \<open>Binary headers\<close>

text \<open>Raw octets, the last one the style, then encoded ones.\<close>

lemma puts_raw_codes:
  assumes "\<And>c. emits z0 (f c) (\<lambda>p. g p c) (\<lambda>p. low7 (last (g p c)))" "r \<noteq> []"
  shows "puts z0 (tx_all (map (\<lambda>c. tx_raw (uint c)) r @ map f cs)) (r @ codes g (low7 (last r)) cs)"
proof -
  have 1: "emits z0 (tx_all (map (\<lambda>c. tx_raw (uint c)) r)) (\<lambda>_. r) (\<lambda>_. low7 (last r))"
    using emits_octets [of z0 r] assms(2) by (simp only: if_False)
  show ?thesis by (rule putsI [OF emits_append [OF 1 emits_codes [OF assms(1)]]])
qed

lemma count_octet: "count \<le> length p \<Longrightarrow> (word_of_nat (length (take count p) - 1) :: u8) = word_of_nat (count - 1)"
  by (simp add: min_def)

lemma tx_bin32_header_puts:
  assumes "\<not> use_mobyturbo z0" "\<not> escape_8th_bit z0" "count \<le> length p"
  shows "puts z0 (tx_bin32_header p count) (bin32_header_wire z0 (take count p))"
proof -
  let ?h = "take count p"
  have len: "length ?h = count" using assms by simp
  let ?crc = "NOT (crc32_update_reduced (- 1) ?h)"
  note raw = puts_raw_codes [of z0 tx "code z0", OF emits_tx [OF assms(1,2)]]
  show ?thesis
  proof (cases "count = HDRLEN")
    case True
    then show ?thesis
      using raw [of "[ZPAD, ZPAD, ZDLE, ZBIN32]" "?h @ le_bytes ?crc"] len
      by (simp del: length_take add: tx_bin32_header_def bin32_header_wire_def count_code_def Let_def le_bytes_def
          del: tx_all.simps)
  next
    case False
    then show ?thesis
      using raw [of "[ZPAD, ZPAD, ZDLE, ZVBIN32]" "word_of_nat (count - 1) # ?h @ le_bytes ?crc"] len
      by (simp del: length_take add: tx_bin32_header_def bin32_header_wire_def count_code_def Let_def le_bytes_def
          del: tx_all.simps)
  qed
qed

lemma tx_bin16_header_puts:
  assumes "\<not> use_mobyturbo z0" "\<not> escape_8th_bit z0" "count \<le> length p"
  shows "puts z0 (tx_bin16_header p count) (bin16_header_wire z0 (take count p))"
proof -
  let ?h = "take count p"
  have len: "length ?h = count" using assms by simp
  let ?crc = "crc16_of ?h"
  note raw = puts_raw_codes [of z0 tx "code z0", OF emits_tx [OF assms(1,2)]]
  show ?thesis
  proof (cases "count = HDRLEN")
    case True
    then show ?thesis
      using raw [of "[ZPAD, ZPAD, ZDLE, ZBIN]" "?h @ be_bytes16 ?crc"] len
      by (simp del: length_take add: tx_bin16_header_def bin16_header_wire_def count_code_def Let_def be_bytes16_def crc16_of_eq
          del: tx_all.simps)
  next
    case False
    then show ?thesis
      using raw [of "[ZPAD, ZPAD, ZDLE, ZVBIN]" "word_of_nat (count - 1) # ?h @ be_bytes16 ?crc"] len
      by (simp del: length_take add: tx_bin16_header_def bin16_header_wire_def count_code_def Let_def be_bytes16_def crc16_of_eq
          del: tx_all.simps)
  qed
qed

section \<open>MobyTurbo and Omen headers\<close>

lemma tx_mobyturbo_header_puts:
  assumes "use_mobyturbo z0" "\<not> escape_8th_bit z0" "count \<le> length p"
  shows "puts z0 (tx_mobyturbo_header p count) (mobyturbo_header_wire z0 (take count p))"
proof -
  let ?h = "take count p"
  have len: "length ?h = count" using assms by simp
  note raw = puts_raw_codes [of z0 tx_mobyturbo_byte "code z0", OF emits_mobyturbo [OF assms(1,2)]]
  show ?thesis
    using raw [of "[ZPAD, ZDLE, ZBINM32]" "word_of_nat (count - 1) # ?h @ salted_crc32 ?h"] len
    by (simp del: length_take add: tx_mobyturbo_header_def mobyturbo_header_wire_def salted salted_crc32_def Let_def
        del: tx_all.simps)
qed

lemma puts_omen_byte: "puts z0 (tx_omen_byte c) (omen_encode_byte z0 c)"
proof -
  have e: "omen_encode_byte z c = omen_encode_byte z0 c" if "tx_moved z0 z" for z
    by (simp only: omen_encode_byte_def tx_moved_fields [OF that])
  obtain after where o: "emits z0 (tx_all (map (\<lambda>c. tx_raw (uint c)) (omen_encode_byte z0 c)))
    (\<lambda>_. omen_encode_byte z0 c) after"
    using puts_octets by (auto simp: puts_def)
  have "emits z0 (tx_omen_byte c) (\<lambda>_. omen_encode_byte z0 c) after"
    unfolding emits_def
  proof (intro allI impI)
    fix w z assume s: "sending z0 w z"
    show "\<exists>z'. tx_omen_byte c z = (0, z') \<and> sending z0 (w @ omen_encode_byte z0 c) z' \<and>
        last_sent z' = after (last_sent z)"
      using emitsD [OF o s] e [of z] s by (metis sending_def tx_each_def tx_omen_byte_def)
  qed
  then show ?thesis by (rule putsI)
qed

lemma tx_omen_header_puts:
  assumes "count \<le> length p" "count \<le> ZMAXHLEN + 1"
  shows "puts z0 (tx_omen_header style p count) (omen_header_wire z0 style (take count p))"
proof -
  let ?h = "take count p"
  have len: "length ?h = count" using assms by simp
  have n: "0x22 + uint (word_of_nat (count - 1) :: u8) = uint (0x22 + word_of_nat (count - 1) :: u8)"
    using assms(2) by (simp add: uint_word_ariths unsigned_of_nat take_bit_eq_mod)
  have 1: "puts z0 (tx_all [tx_raw (uint ZPAD), tx_raw (uint ZDLE), tx_raw (uint style),
      tx_raw (0x22 + uint (word_of_nat (count - 1) :: u8))])
    [ZPAD, ZDLE, style, 0x22 + word_of_nat (count - 1)]"
    unfolding n
    using puts_octets [of z0 "[ZPAD, ZDLE, style, 0x22 + word_of_nat (count - 1)]"] by (simp only: list.map)
  have 2: "puts z0 (tx_all (map tx_omen_byte (?h @ salted_crc32 ?h)))
    (concat (map (omen_encode_byte z0) (?h @ salted_crc32 ?h)))"
    by (rule puts_map [OF puts_omen_byte])
  show ?thesis
    using puts_append [OF 1 2] len
    by (simp del: length_take add: tx_omen_header_def omen_header_wire_def salted salted_crc32_def Let_def
        del: tx_all.simps)
qed

lemma tx_header_length_puts:
  assumes "HDRLEN \<le> count" "count \<le> ZMAXHLEN + 1" "count \<le> length p"
  shows "puts z0 (tx_header_length p count) (header_wire z0 (take count p))"
proof -
  have e: "puts z0 f w \<Longrightarrow> (\<And>z. tx_moved z0 z \<Longrightarrow> tx_header_length p count z = f z) \<Longrightarrow>
    puts z0 (tx_header_length p count) w" for f w
    unfolding puts_def emits_def by (simp add: sending_def)
  have t: "tx_header_length p count z =
     (if escape_8th_bit z0 then tx_omen_header (if use_pack7 z0 then ZBINP7 else ZBINR32ESC8) p count z
      else if use_mobyturbo z0 then tx_mobyturbo_header p count z
      else if can_fcs_32 z0 \<and> want_fcs_32 z0 then tx_bin32_header p count z
      else if can_fcs_32 z0 then tx_bin16_header p count z
      else tx_hex_header_length p count z)" if "tx_moved z0 z" for z
    using assms that by (simp add: tx_header_length_def cfg_simps)
  show ?thesis
    unfolding header_wire_def
    using assms tx_omen_header_puts [of count p z0] tx_mobyturbo_header_puts [of z0 count p]
      tx_bin32_header_puts [of z0 count p] tx_bin16_header_puts [of z0 count p]
      tx_hex_header_length_puts [of count p z0]
    by (auto intro!: e simp: t split: if_splits)
qed

end

end
