(* ===== verification/Data_Wire.thy ===== *)
theory Data_Wire
  imports Header_Wire
begin

text \<open>
  Data subpackets on the wire, for the seven-bit formats, which write their buffer out whenever
  it is full: whatever the pieces, the octets written are those of the format.
\<close>

declare split_paired_Ex [simp del] split_paired_All [simp del]

section \<open>The octets of a subpacket\<close>

definition omen_data_wire :: "'c zmodem \<Rightarrow> u8 \<Rightarrow> u8 list \<Rightarrow> u8 list" where
  "omen_data_wire z type p =
     (let symbols = omen_rle_symbols p
      in concat (map (omen_encode_byte z) symbols) @ [ZDLE, type] @
         concat (map (omen_encode_byte z)
           (le_bytes (NOT (crc32_update_reduced (- 1) (symbols @ [type]))))) @
         (if type = ZCRCW then [XON] else []))"

fun pack7_code :: "u8 list \<Rightarrow> u8 list" where
  "pack7_code data = (if data = [] then [] else pack7_encode_group (take 4 data) @ pack7_code (drop 4 data))"

declare pack7_code.simps [simp del]

definition pack7_data_wire :: "u8 \<Rightarrow> u8 list \<Rightarrow> u8 list" where
  "pack7_data_wire type p =
     pack7_code p @ [0x21, type] @
     pack7_encode_group (le_bytes (NOT (crc32_update_reduced (- 1) (p @ [type])))) @
     (if type = ZCRCW then [XON] else [])"

definition plain_data_wire :: "'c zmodem \<Rightarrow> int \<Rightarrow> u8 \<Rightarrow> u8 list \<Rightarrow> u8 list" where
  "plain_data_wire z previous type p =
     codes (code z) previous p @ [ZDLE, type] @
     codes (code z) (low7 type) (subpacket_crc z type p) @
     (if type = ZCRCW then [XON] else [])"

definition data_wire :: "'c zmodem \<Rightarrow> int \<Rightarrow> u8 \<Rightarrow> u8 list \<Rightarrow> u8 list" where
  "data_wire z previous type p =
     (if escape_8th_bit z then
        (if use_pack7 z then pack7_data_wire type p else omen_data_wire z type p)
      else plain_data_wire z previous type p)"

section \<open>Buffered output\<close>

lemma set_context_last: "(set_context ctx z)\<lparr>last_sent := c\<rparr> = set_context ctx (z\<lparr>last_sent := c\<rparr>)"
  by (rule zmodem.equality) (simp_all add: set_context_def)

lemma tx_moved_wire: "tx_moved z (z\<lparr>tx_data_wire := d\<rparr>)"
  unfolding tx_moved_def
  by (intro exI [of _ "io_context (io z)"] exI [of _ "last_sent z"] exI [of _ "tx_classes z"]
      exI [of _ "tx_classes_initialized z"] exI [of _ d]) (simp add: set_context_def)

context octet_sink
begin

lemma sending_wire: "sending z0 w z \<Longrightarrow> length d = ZMODEM_TX_DATA_WIRE_CAPACITY \<Longrightarrow> sending z0 w (z\<lparr>tx_data_wire := d\<rparr>)"
  using tx_moved_trans [OF _ tx_moved_wire] by (auto simp: sending_def classes_ok_def)

lemma sending_last: "sending z0 w z \<Longrightarrow> sending z0 w (z\<lparr>last_sent := c\<rparr>)"
  using tx_moved_trans [OF _ tx_moved_context [of z "io_context (io z)" c]]
  by (auto simp: sending_def classes_ok_def set_context_def)

text \<open>\<open>w\<close> is what was written out, followed by what is still in the buffer.\<close>

fun holds :: "'c zmodem \<Rightarrow> u8 list \<Rightarrow> 'c omen_tx_buffer \<Rightarrow> bool" where
  "holds z0 w (z, used, previous) \<longleftrightarrow>
     (\<exists>w'. sending z0 w' z \<and> w = w' @ take used (tx_data_wire z)) \<and>
     used \<le> length (tx_data_wire z) \<and> length (tx_data_wire z) = ZMODEM_TX_DATA_WIRE_CAPACITY"

lemma flush_holds:
  assumes "holds z0 w (z, used, previous)"
  shows "\<exists>z'. flush_omen_tx_buffer (z, used, previous) = (0, z', 0, previous) \<and>
    holds z0 w (z', 0, previous) \<and> sending z0 w z'"
proof (cases "used = 0")
  case True
  then show ?thesis using assms by auto
next
  case False
  obtain w' where w': "sending z0 w' z" "w = w' @ take used (tx_data_wire z)" using assms by auto
  have o: "open_for (io_context (io z))" "sent (io_context (io z)) = w'" "io_write (io z) = wr"
    using w'(1) by (auto simp: sending_def)
  have "take used (tx_data_wire z) \<noteq> []" using False assms by auto
  from write_sends [OF o(1) this] obtain ctx where
    c: "wr (io_context (io z)) (take used (tx_data_wire z)) = (ZMODEM_OK, ctx)" "open_for ctx" "sent ctx = w"
    using o(2) w'(2) by auto
  have "set_context ctx z = set_context ctx (z\<lparr>last_sent := last_sent z\<rparr>)" by simp
  then have "sending z0 w (set_context ctx z)"
    using w'(1) c tx_moved_trans [OF _ tx_moved_context, of z0 z ctx "last_sent z"]
    by (auto simp: sending_def set_context_def classes_ok_def)
  then show ?thesis using False c(1) o(3) assms by auto
qed

lemma store_holds:
  assumes "holds z0 w (z, used, previous)" "used < length (tx_data_wire z)"
  shows "\<exists>z'. wire_store z used c = Some z' \<and> holds z0 (w @ [c]) (z', Suc used, p) \<and>
    length (tx_data_wire z') = length (tx_data_wire z) \<and> tx_data_wire z' ! used = c"
proof -
  obtain w' where w': "sending z0 w' z" "w = w' @ take used (tx_data_wire z)" using assms(1) by auto
  let ?d = "(tx_data_wire z)[used := c]"
  have "holds z0 (w @ [c]) (z\<lparr>tx_data_wire := ?d\<rparr>, Suc used, p)"
    using assms w' sending_wire [OF w'(1), of ?d] by (auto simp: take_Suc_update intro!: exI [of _ w'])
  then show ?thesis using assms(2) by (simp add: wire_store_def)
qed

lemma store_all_holds:
  "holds z0 w (z, used, p) \<Longrightarrow> used + length cs \<le> length (tx_data_wire z) \<Longrightarrow>
   \<exists>z'. wire_store_all cs z used = Some (z', used + length cs) \<and> holds z0 (w @ cs) (z', used + length cs, q)"
proof (induction cs arbitrary: w z used p)
  case (Cons c cs)
  obtain z1 where 1: "wire_store z used c = Some z1" "holds z0 (w @ [c]) (z1, Suc used, p)"
    "length (tx_data_wire z1) = length (tx_data_wire z)"
    using store_holds [OF Cons.prems(1)] Cons.prems(2) by fastforce
  show ?case using Cons.IH [OF 1(2)] Cons.prems(2) 1(1,3) by auto
qed auto

definition buffers :: "('c omen_tx_buffer \<Rightarrow> (int \<times> 'c omen_tx_buffer) option) \<Rightarrow> 'c zmodem \<Rightarrow> u8 list \<Rightarrow> bool" where
  "buffers f z0 cs \<longleftrightarrow> (\<forall>w b. holds z0 w b \<longrightarrow> (\<exists>b'. f b = Some (0, b') \<and> holds z0 (w @ cs) b'))"

lemma buffersD: "buffers f z0 cs \<Longrightarrow> holds z0 w b \<Longrightarrow> \<exists>b'. f b = Some (0, b') \<and> holds z0 (w @ cs) b'"
  by (auto simp: buffers_def)

lemma buffers_seq: "buffers f z0 cs \<Longrightarrow> buffers g z0 ds \<Longrightarrow> buffers (\<lambda>b. omen_seq (f b) g) z0 (cs @ ds)"
  unfolding buffers_def omen_seq_def by fastforce

lemma buffers_raw: "buffers (buffer_omen_raw c) z0 [c]"
  unfolding buffers_def
proof (intro allI impI)
  fix w b assume h: "holds z0 w b"
  obtain z u p where b: "b = (z, u, p)" by (cases b)
  obtain z1 u1 where f: "(if u = length (tx_data_wire z) then flush_omen_tx_buffer (z, u, p)
      else (0, z, u, p)) = (0, z1, u1, p)" "holds z0 w (z1, u1, p)" "u1 < length (tx_data_wire z1)"
  proof (cases "u = length (tx_data_wire z)")
    case True
    then show ?thesis
      using flush_holds [OF h [unfolded b]] that by (auto simp del: flush_omen_tx_buffer.simps)
  next
    case False
    then show ?thesis using h that [of z u] unfolding b by auto
  qed
  obtain z2 where "wire_store z1 u1 c = Some z2" "holds z0 (w @ [c]) (z2, Suc u1, low7 c)"
    using store_holds [OF f(2,3)] by blast
  then show "\<exists>b'. buffer_omen_raw c b = Some (0, b') \<and> holds z0 (w @ [c]) b'"
    using f(1) by (simp add: b low7_def del: flush_omen_tx_buffer.simps holds.simps)
qed

lemma buffers_byte: "buffers (buffer_omen_byte c) z0 (omen_encode_byte z0 c)"
  unfolding buffers_def
proof (intro allI impI)
  fix w b assume h: "holds z0 w b"
  obtain z u p where b: "b = (z, u, p)" by (cases b)
  have "tx_moved z0 z" using h unfolding b by (auto simp: sending_def)
  from tx_moved_fields [OF this] have e: "omen_encode_byte z c = omen_encode_byte z0 c"
    by (simp only: omen_encode_byte_def)
  let ?e = "omen_encode_byte z0 c"
  have len: "length ?e \<le> 3" using omen_encode_byte_length [of z0 c] by auto
  obtain z1 u1 where f: "(if length (tx_data_wire z) - u < length ?e then flush_omen_tx_buffer (z, u, p)
      else (0, z, u, p)) = (0, z1, u1, p)" "holds z0 w (z1, u1, p)" "u1 + length ?e \<le> length (tx_data_wire z1)"
  proof (cases "length (tx_data_wire z) - u < length ?e")
    case True
    then show ?thesis
      using flush_holds [OF h [unfolded b]] that len by (auto simp del: flush_omen_tx_buffer.simps)
  next
    case False
    then show ?thesis using h that [of z u] unfolding b by auto
  qed
  obtain z2 where "wire_store_all ?e z1 u1 = Some (z2, u1 + length ?e)"
    "holds z0 (w @ ?e) (z2, u1 + length ?e, uint (tx_data_wire z2 ! (u1 + length ?e - 1) AND 0x7f))"
    using store_all_holds [OF f(2,3)] by (metis (no_types, lifting) holds.simps option.sel prod.inject)
  then show "\<exists>b'. buffer_omen_byte c b = Some (0, b') \<and> holds z0 (w @ ?e) b'"
    using f(1) by (simp add: b e Let_def del: flush_omen_tx_buffer.simps holds.simps)
qed

lemma buffers_skip: "buffers (\<lambda>b. Some (0, b)) z0 []"
  by (auto simp: buffers_def)

lemma buffers_each:
  assumes "\<And>c. buffers (f c) z0 (g c)"
  shows "buffers (omen_each f cs) z0 (concat (map g cs))"
proof (induction cs)
  case Nil
  then show ?case using buffers_skip by (simp add: buffers_def)
next
  case (Cons c cs)
  then show ?case using buffers_seq [OF assms Cons.IH] by (simp add: buffers_def)
qed

lemma symbols_holds:
  "holds z0 w b \<Longrightarrow> \<exists>b'. buffer_omen_symbols cs b crc = Some (0, crc32_update_reduced crc cs, b') \<and>
     holds z0 (w @ concat (map (omen_encode_byte z0) cs)) b'"
proof (induction cs arbitrary: w b crc)
  case (Cons c cs)
  obtain b1 where 1: "buffer_omen_byte c b = Some (0, b1)" "holds z0 (w @ omen_encode_byte z0 c) b1"
    using buffersD [OF buffers_byte Cons.prems] by blast
  show ?case using Cons.IH [OF 1(2)] 1(1) by (auto simp: Let_def simp del: holds.simps)
qed simp

lemma ignoring_holds:
  "holds z0 w b \<Longrightarrow> \<exists>b'. buffer_raw_ignoring cs b = Some b' \<and> holds z0 (w @ cs) b'"
proof (induction cs arbitrary: w b)
  case (Cons c cs)
  obtain b1 where 1: "buffer_omen_raw c b = Some (0, b1)" "holds z0 (w @ [c]) b1"
    using buffersD [OF buffers_raw Cons.prems] by blast
  show ?case using Cons.IH [OF 1(2)] 1(1) by (auto simp del: holds.simps buffer_omen_raw.simps)
qed simp

lemma groups_holds:
  "holds z0 w b \<Longrightarrow> \<exists>b'. buffer_pack7_groups p b = Some b' \<and> holds z0 (w @ pack7_code p) b'"
proof (induction p b arbitrary: w rule: buffer_pack7_groups.induct)
  case (1 p b)
  show ?case
  proof (cases "p = []")
    case True
    then show ?thesis
      using 1(2) by (simp add: buffer_pack7_groups.simps [of "[]"] pack7_code.simps [of "[]"] del: holds.simps)
  next
    case False
    obtain b1 where b1: "buffer_pack7_group (take 4 p) b = Some b1" "holds z0 (w @ pack7_encode_group (take 4 p)) b1"
      using ignoring_holds [OF 1(2)] unfolding buffer_pack7_group_def by blast
    then show ?thesis
      using 1(1) [OF False b1] False
      by (simp add: buffer_pack7_groups.simps [of p] pack7_code.simps [of p] del: holds.simps)
  qed
qed

lemma finish_holds:
  assumes "holds z0 w b"
  obtains z' p z'' where "flush_omen_tx_buffer b = (0, z', 0, p)"
    and "tx_flush (z'\<lparr>last_sent := p\<rparr>) = (0, z'')" "sending z0 w z''"
proof -
  obtain z u p where b: "b = (z, u, p)" by (cases b)
  obtain z' where z': "flush_omen_tx_buffer b = (0, z', 0, p)" "sending z0 w z'"
    using flush_holds assms unfolding b by blast
  show thesis
    by (rule emitsD [OF emits_flush sending_last [OF z'(2), of p]]) (rule that [OF z'(1)], simp_all)
qed

lemma sending_holds:
  "sending z0 w z \<Longrightarrow> length (tx_data_wire z) = ZMODEM_TX_DATA_WIRE_CAPACITY \<Longrightarrow> holds z0 w (z, 0, p)"
  by auto

lemma crc_symbols: "NOT (crc32_byte_update (crc32_update_reduced c p) t) = NOT (crc32_update_reduced c (p @ [t]))"
  by (simp add: crc32_reduced_append)

lemma tx_omen_data_sends:
  assumes "sending z0 w z" "length (tx_data_wire z) = ZMODEM_TX_DATA_WIRE_CAPACITY"
  shows "\<exists>z'. tx_omen_data type p z = Some (0, z') \<and> sending z0 (w @ omen_data_wire z0 type p) z'"
proof -
  let ?s = "omen_rle_symbols p"
  let ?crc = "NOT (crc32_update_reduced (- 1) (?s @ [type]))"
  obtain b where 1: "buffer_omen_symbols ?s (z, 0, last_sent z) (- 1) = Some (0, crc32_update_reduced (- 1) ?s, b)"
    "holds z0 (w @ concat (map (omen_encode_byte z0) ?s)) b"
    using symbols_holds [OF sending_holds [OF assms]] by blast
  have x: "buffers (if type = ZCRCW then buffer_omen_raw XON else (\<lambda>b. Some (0, b))) z0
      (if type = ZCRCW then [XON] else [])"
    using buffers_raw buffers_skip by simp
  have each: "buffers (omen_each buffer_omen_byte (le_bytes ?crc)) z0 (concat (map (omen_encode_byte z0) (le_bytes ?crc)))"
    by (rule buffers_each) (rule buffers_byte)
  obtain b2 where 2: "omen_seq (buffer_omen_raw ZDLE b) (\<lambda>b. omen_seq (buffer_omen_raw type b) (\<lambda>b.
        omen_seq (omen_each buffer_omen_byte (le_bytes ?crc) b)
        (if type = ZCRCW then buffer_omen_raw XON else (\<lambda>b. Some (0, b))))) = Some (0, b2)"
    "holds z0 (w @ omen_data_wire z0 type p) b2"
    using buffersD [OF buffers_seq [OF buffers_raw [of ZDLE] buffers_seq [OF buffers_raw [of type]
      buffers_seq [OF each x]]] 1(2)]
    unfolding omen_data_wire_def Let_def append_assoc append.simps by blast
  obtain z' q z'' where 3: "flush_omen_tx_buffer b2 = (0, z', 0, q)"
    "tx_flush (z'\<lparr>last_sent := q\<rparr>) = (0, z'')" "sending z0 (w @ omen_data_wire z0 type p) z''"
    using finish_holds [OF 2(2)] .
  have a: "omen_seq (omen_seq m f) g = omen_seq m (\<lambda>b. omen_seq (f b) g)" for m f and g :: "'c omen_tx_buffer \<Rightarrow> _"
    by (auto simp: omen_seq_def bind_option_assoc intro!: bind_cong_Some split: prod.splits)
  have if_b: "(if type = ZCRCW then buffer_omen_raw XON b else Some (0, b)) =
      (if type = ZCRCW then buffer_omen_raw XON else (\<lambda>b. Some (0, b))) b" for b :: "'c omen_tx_buffer"
    by simp
  have "omen_seq (buffer_omen_raw ZDLE b) (\<lambda>b. omen_seq (buffer_omen_raw type b) (\<lambda>b.
        omen_seq (omen_each buffer_omen_byte (le_bytes ?crc) b) (\<lambda>b.
        omen_seq (if type = ZCRCW then buffer_omen_raw XON b else Some (0, b))
          (\<lambda>b. Some (flush_omen_tx_buffer b))))) = Some (0, z', 0, q)"
    using 2(1) 3(1) unfolding if_b a [symmetric] by (simp add: omen_seq_def)
  then show ?thesis
    using 3(2,3) unfolding tx_omen_data_def 1(1) by (simp add: crc32_reduced_append Let_def)
qed

lemma tx_pack7_data_sends:
  assumes "sending z0 w z" "length (tx_data_wire z) = ZMODEM_TX_DATA_WIRE_CAPACITY"
  shows "\<exists>z'. tx_pack7_data type p z = Some (0, z') \<and> sending z0 (w @ pack7_data_wire type p) z'"
proof -
  let ?crc = "NOT (crc32_update_reduced (- 1) (p @ [type]))"
  have crc: "NOT (crc32_byte_update (crc32_update (- 1) p) type) = ?crc"
    by (simp add: crc32_update_serial crc32_reduced_append)
  obtain b1 where 1: "buffer_pack7_groups p (z, 0, last_sent z) = Some b1" "holds z0 (w @ pack7_code p) b1"
    using groups_holds [OF sending_holds [OF assms]] by blast
  obtain b2 where 2: "buffer_raw_ignoring [0x21] b1 = Some b2" "holds z0 ((w @ pack7_code p) @ [0x21]) b2"
    using ignoring_holds [OF 1(2)] by blast
  obtain b3 where 3: "buffer_raw_ignoring [type] b2 = Some b3" "holds z0 (((w @ pack7_code p) @ [0x21]) @ [type]) b3"
    using ignoring_holds [OF 2(2)] by blast
  obtain b4 where 4: "buffer_pack7_group (le_bytes ?crc) b3 = Some b4"
    "holds z0 ((((w @ pack7_code p) @ [0x21]) @ [type]) @ pack7_encode_group (le_bytes ?crc)) b4"
    using ignoring_holds [OF 3(2)] unfolding buffer_pack7_group_def by blast
  obtain b5 where 5: "(if type = ZCRCW then buffer_raw_ignoring [XON] b4 else Some b4) = Some b5"
    "holds z0 (w @ pack7_data_wire type p) b5"
    using ignoring_holds [OF 4(2), of "[XON]"] 4(2)
    by (cases "type = ZCRCW") (auto simp: pack7_data_wire_def simp del: holds.simps buffer_raw_ignoring.simps)
  obtain z' q z'' where 6: "flush_omen_tx_buffer b5 = (0, z', 0, q)"
    "tx_flush (z'\<lparr>last_sent := q\<rparr>) = (0, z'')" "sending z0 (w @ pack7_data_wire type p) z''"
    using finish_holds [OF 5(2)] .
  show ?thesis
    unfolding tx_pack7_data_def Let_def 1(1) 2(1) 3(1) bind.bind_lunit crc 4(1) 5(1) 6(1)
    using 6(2,3) by simp
qed

lemma sending_io: "sending z0 w z \<Longrightarrow> io_write (io z) = wr \<and> io_flush (io z) = fl"
  by (simp add: sending_def)

lemma tx_data_sends:
  assumes "sending z0 w z" "length (tx_data_wire z) = ZMODEM_TX_DATA_WIRE_CAPACITY" "length p \<le> ZMAXSPLEN"
  shows "\<exists>z'. tx_data type p z = Some (0, z') \<and> sending z0 (w @ data_wire z0 (last_sent z) type p) z'"
proof (cases "escape_8th_bit z0")
  case True
  have m: "tx_moved z0 z" using assms(1) by (simp add: sending_def)
  obtain A where A: "active_tx_classes z = (A, classed z)" using active_classed by blast
  have "tx_data type p z = (if use_pack7 z0 then tx_pack7_data type p (classed z)
      else tx_omen_data type p (classed z))"
    unfolding tx_data_def A Let_def prod.case bind.bind_lunit using True assms(3) m
    by (simp add: cfg_simps)
  then show ?thesis
    using tx_omen_data_sends [OF sending_classed [OF assms(1)], of type p]
      tx_pack7_data_sends [OF sending_classed [OF assms(1)], of type p] assms(2) True
    by (auto simp: data_wire_def)
next
  case False
  have m: "tx_moved z0 z" and ok: "classes_ok z" using assms(1) by (auto simp: sending_def)
  have e: "\<not> escape_8th_bit z" using False m by (simp add: cfg_simps)
  obtain d where d: "length d = ZMODEM_TX_DATA_WIRE_CAPACITY" "tx_data type p z =
      (let (r, ctx) = io_write (io z) (io_context (io z)) (subpacket_wire z type p);
           z' = set_context ctx ((classed z)\<lparr>tx_data_wire := d\<rparr>)
       in Some (if r \<noteq> ZMODEM_OK then (- 1, z')
                else tx_flush (z'\<lparr>last_sent := subpacket_last z type p\<rparr>)))"
    using tx_data_frame [OF ok e assms(3,2)] .
  have "code z = code z0"
    by (simp add: code_def needs_escape_def flags_active_moved [OF m] tx_moved_fields [OF m] fun_eq_iff)
  moreover have "subpacket_crc z type p = subpacket_crc z0 type p"
    by (simp add: subpacket_crc_def uses_crc32_def tx_moved_fields [OF m])
  ultimately have s: "subpacket_wire z type p = data_wire z0 (last_sent z) type p"
    using False by (simp only: subpacket_wire_def data_wire_def plain_data_wire_def octet_code_code [OF ok e] if_False)
  define w1 where "w1 = data_wire z0 (last_sent z) type p"
  have ne: "w1 \<noteq> []" using False by (simp add: data_wire_def plain_data_wire_def w1_def)
  have o: "open_for (io_context (io z))" "sent (io_context (io z)) = w" "io_write (io z) = wr"
    using assms(1) by (auto simp: sending_def)
  obtain ctx where c: "wr (io_context (io z)) w1 = (ZMODEM_OK, ctx)" "open_for ctx" "sent ctx = w @ w1"
    using write_sends [OF o(1) ne] o(2) by auto
  let ?z = "set_context ctx ((classed z)\<lparr>tx_data_wire := d, last_sent := subpacket_last z type p\<rparr>)"
  have t: "tx_data type p z = Some (tx_flush ?z)"
    unfolding d(2) s w1_def [symmetric] o(3) c(1) by (simp add: set_context_last)
  have "tx_moved z0 ?z"
    using sending_wire [OF sending_classed [OF assms(1)] d(1)]
      tx_moved_trans [OF _ tx_moved_context, of z0 "(classed z)\<lparr>tx_data_wire := d\<rparr>" ctx "subpacket_last z type p"]
    by (auto simp: sending_def set_context_def)
  moreover have "classes_ok (classed z)" using sending_classed [OF assms(1)] by (simp add: sending_def)
  ultimately have "sending z0 (w @ w1) ?z"
    using c(2,3) sending_io [OF assms(1)] d(1) by (simp add: sending_def set_context_def classes_ok_def)
  then obtain z' where "tx_flush ?z = (0, z')" "sending z0 ((w @ w1) @ []) z'"
    by (rule emitsD [OF emits_flush])
  then show ?thesis unfolding t w1_def by simp
qed

end

end
