(* ===== verification/Posix_Link.thy ===== *)
theory Posix_Link
  imports Posix Rx_Total_Header Data_Wire
begin

text \<open>
  What the POSIX adapter promises to the protocol, from what the system calls promise to it.
  \<open>posix_output\<close> is a descriptor whose writes may be short, fail, or be interrupted;
  \<open>posix_line\<close> adds the input side. The adapter then is an \<open>octet_link\<close>, and an \<open>octet_sink\<close>
  where writes do not fail.
\<close>

declare split_paired_Ex [simp del] split_paired_All [simp del]

section \<open>Output\<close>

text \<open>
  The adapter's invariant over what a good kernel state is, the octets it has taken (written, or
  in its buffer), and a descriptor whose writes make progress but for signals.
\<close>

definition posix_sound :: "('k \<Rightarrow> bool) \<Rightarrow> int \<Rightarrow> 'k posix \<Rightarrow> bool" where
  "posix_sound good outfd c \<longleftrightarrow> good (snd c) \<and> output_fd (fst c) = outfd \<and> output_buffer (fst c) \<noteq> [] \<and>
     output_count (fst c) \<le> length (output_buffer (fst c))"

definition posix_taken :: "('k \<Rightarrow> u8 list) \<Rightarrow> 'k posix \<Rightarrow> u8 list" where
  "posix_taken outgoing c = outgoing (snd c) @ take (output_count (fst c)) (output_buffer (fst c))"

definition reliable_writes :: "'k kernel \<Rightarrow> int \<Rightarrow> ('k \<Rightarrow> bool) \<Rightarrow> bool" where
  "reliable_writes ops outfd good \<longleftrightarrow>
     (\<forall>k bs r e k'. good k \<longrightarrow> bs \<noteq> [] \<longrightarrow> k_write ops outfd bs k = (r, e, k') \<longrightarrow> 0 < r \<or> r < 0 \<and> e = EINTR)"

definition posix_live :: "('k \<Rightarrow> bool) \<Rightarrow> int \<Rightarrow> int \<Rightarrow> 'k posix \<Rightarrow> bool" where
  "posix_live good outfd infd c \<longleftrightarrow> posix_sound good outfd c \<and> input_fd (fst c) = infd"

definition posix_pending :: "('k \<Rightarrow> u8 list) \<Rightarrow> 'k posix \<Rightarrow> u8 list" where
  "posix_pending incoming c = incoming (snd c)"

text \<open>The parts of the adapter that output leaves alone.\<close>

definition same_input :: "plat_io \<Rightarrow> plat_io \<Rightarrow> bool" where
  "same_input p p' \<longleftrightarrow> input_fd p' = input_fd p \<and> output_fd p' = output_fd p \<and> owned_fd p' = owned_fd p \<and>
     line p' = line p \<and> termios_saved p' = termios_saved p \<and> saved_termios p' = saved_termios p \<and>
     length (output_buffer p') = length (output_buffer p)"

lemma same_input_refl [simp]: "same_input p p"
  by (simp add: same_input_def)

lemma same_input_trans: "same_input p p' \<Longrightarrow> same_input p' p'' \<Longrightarrow> same_input p p''"
  by (simp add: same_input_def)

text \<open>Signals are finitely many: \<open>signals\<close> bounds those still to come.\<close>

locale posix_output =
  fixes ops :: "'k kernel" and outfd :: int and good :: "'k \<Rightarrow> bool"
    and outgoing :: "'k \<Rightarrow> u8 list" and incoming :: "'k \<Rightarrow> u8 list" and signals :: "'k \<Rightarrow> nat"
  assumes write_step: "good k \<Longrightarrow> k_write ops outfd bs k = (r, e, k') \<Longrightarrow>
      good k' \<and> r \<le> int (length bs) \<and> outgoing k' = outgoing k @ take (nat r) bs \<and>
      incoming k' = incoming k \<and> signals k' \<le> signals k \<and> (r < 0 \<and> e = EINTR \<longrightarrow> signals k' < signals k)"
begin

abbreviation reliable :: bool where
  "reliable \<equiv> reliable_writes ops outfd good"

lemma reliableD:
  "reliable \<Longrightarrow> good k \<Longrightarrow> bs \<noteq> [] \<Longrightarrow> k_write ops outfd bs k = (r, e, k') \<Longrightarrow> 0 < r \<or> r < 0 \<and> e = EINTR"
  unfolding reliable_writes_def by blast

lemma write_loop_returns:
  "good k \<Longrightarrow> \<exists>r k'. write_loop ops outfd bs k = Some (r, k') \<and> good k' \<and> r \<le> int (length bs) \<and>
     outgoing k' = outgoing k @ take (nat r) bs \<and> incoming k' = incoming k \<and> signals k' \<le> signals k \<and>
     (reliable \<and> bs \<noteq> [] \<longrightarrow> 0 < r)"
proof (induction "signals k" arbitrary: k rule: less_induct)
  case less
  obtain r e k1 where w: "k_write ops outfd bs k = (r, e, k1)" by (metis prod_cases3)
  note s = write_step [OF less.prems w]
  show ?case
  proof (cases "r < 0 \<and> e = EINTR")
    case True
    then have "signals k1 < signals k" "good k1" "outgoing k1 = outgoing k" "incoming k1 = incoming k" using s by auto
    from less.hyps [OF this(1,2)] this(1,3,4) True w show ?thesis
      by (subst write_loop.simps) auto
  next
    case False
    then have "reliable \<and> bs \<noteq> [] \<longrightarrow> 0 < r" using reliableD [OF _ less.prems _ w] by blast
    then show ?thesis using s w False by (subst write_loop.simps) auto
  qed
qed

abbreviation sound :: "'k posix \<Rightarrow> bool" where
  "sound \<equiv> posix_sound good outfd"

abbreviation taken :: "'k posix \<Rightarrow> u8 list" where
  "taken \<equiv> posix_taken outgoing"

lemma flush_loop_returns:
  assumes "good k" "output_fd p = outfd" "output_buffer p \<noteq> []" "output_count p \<le> length (output_buffer p)"
    "offset \<le> output_count p"
  shows "\<exists>r p' k'. flush_loop ops offset (p, k) = Some (r, (p', k')) \<and> sound (p', k') \<and> same_input p p' \<and>
    taken (p', k') = outgoing k @ take (output_count p - offset) (drop offset (output_buffer p)) \<and>
    incoming k' = incoming k \<and> (r = ZMODEM_OK \<and> output_count p' = 0 \<or> r = ZMODEM_IO_ERROR \<and> \<not> reliable)"
  using assms(1,5)
proof (induction "output_count p - offset" arbitrary: k offset rule: less_induct)
  case less
  let ?unsent = "take (output_count p - offset) (drop offset (output_buffer p))"
  show ?case
  proof (cases "offset < output_count p")
    case False
    then show ?thesis
      using less.prems assms(2-4)
      by (subst flush_loop.simps) (auto simp: posix_sound_def posix_taken_def same_input_def)
  next
    case True
    obtain r k1 where w: "write_loop ops outfd ?unsent k = Some (r, k1)" "good k1" "r \<le> int (length ?unsent)"
      "outgoing k1 = outgoing k @ take (nat r) ?unsent" "incoming k1 = incoming k"
      "reliable \<and> ?unsent \<noteq> [] \<longrightarrow> 0 < r"
      using write_loop_returns [OF less.prems(1), of ?unsent] by blast
    show ?thesis
    proof (cases "r \<le> 0")
      case r: True
      have "flush_loop ops offset (p, k) = Some (ZMODEM_IO_ERROR, (keep_unsent offset p, k1))"
        using True r w(1) assms(2) by (subst flush_loop.simps) simp
      moreover have "sound (keep_unsent offset p, k1)" "same_input p (keep_unsent offset p)"
        "taken (keep_unsent offset p, k1) = outgoing k @ ?unsent"
        using assms(2-4) less.prems(2) w(2,4) r True
        by (auto simp: posix_sound_def keep_unsent_def Let_def same_input_def posix_taken_def)
      moreover have "\<not> reliable" using w(6) r True assms(4) by auto
      ultimately show ?thesis using w(5) by blast
    next
      case r: False
      let ?o = "offset + nat r"
      have len: "length ?unsent = output_count p - offset" using assms(4) by simp
      have o: "?o \<le> output_count p" "output_count p - ?o < output_count p - offset"
        using r w(3) True unfolding len by auto
      obtain r' p' k' where 1: "flush_loop ops ?o (p, k1) = Some (r', (p', k'))" "sound (p', k')" "same_input p p'"
        "taken (p', k') = outgoing k1 @ take (output_count p - ?o) (drop ?o (output_buffer p))"
        "r' = ZMODEM_OK \<and> output_count p' = 0 \<or> r' = ZMODEM_IO_ERROR \<and> \<not> reliable" "incoming k' = incoming k1"
        using less.hyps [OF o(2) w(2) o(1)] by blast
      have "take (nat r) ?unsent @ take (output_count p - ?o) (drop ?o (output_buffer p)) = ?unsent"
      proof -
        have n: "nat r + (output_count p - ?o) = output_count p - offset" using o(1) by simp
        have "take (nat r) ?unsent = take (nat r) (drop offset (output_buffer p))" using o(1) by simp
        then show ?thesis using take_add [of "nat r" "output_count p - ?o" "drop offset (output_buffer p)"]
          unfolding n by (simp add: add.commute)
      qed
      then have "taken (p', k') = outgoing k @ ?unsent" using 1(4) w(4) by simp
      moreover have "flush_loop ops offset (p, k) = Some (r', (p', k'))"
        using True r w(1) assms(2) 1(1) by (subst flush_loop.simps) simp
      ultimately show ?thesis using 1(2,3,5,6) w(5) by auto
    qed
  qed
qed

lemma posix_flush_returns:
  assumes "sound c"
  shows "\<exists>r c'. posix_flush ops c = Some (r, c') \<and> sound c' \<and> same_input (fst c) (fst c') \<and> taken c' = taken c \<and>
    incoming (snd c') = incoming (snd c) \<and> (r = ZMODEM_OK \<and> output_count (fst c') = 0 \<or> r = ZMODEM_IO_ERROR \<and> \<not> reliable)"
  using flush_loop_returns [of "snd c" "fst c" 0] assms
  by (cases c) (fastforce simp: posix_flush_def posix_sound_def posix_taken_def)

text \<open>The octets copied into the buffer in one round of \<open>posix_write\<close>.\<close>

lemma copy_sound:
  assumes "sound (p, k)" "n \<le> length (output_buffer p) - output_count p" "n \<le> length bs"
  defines "p' \<equiv> p\<lparr>output_buffer := take (output_count p) (output_buffer p) @ take n bs @
                    drop (output_count p + n) (output_buffer p), output_count := output_count p + n\<rparr>"
  shows "sound (p', k)" "taken (p', k) = taken (p, k) @ take n bs" "same_input p p'"
  using assms(1-3) by (auto simp: p'_def posix_sound_def posix_taken_def same_input_def)

lemma posix_write_returns:
  "sound c \<Longrightarrow> \<exists>r c' n. posix_write ops bs c = Some (r, c') \<and> sound c' \<and> same_input (fst c) (fst c') \<and>
     taken c' = taken c @ take n bs \<and> incoming (snd c') = incoming (snd c) \<and>
     (r = ZMODEM_OK \<and> n = length bs \<or> r = ZMODEM_IO_ERROR \<and> \<not> reliable)"
proof (induction "2 * length bs + (if output_count (fst c) = length (output_buffer (fst c)) then 1 else 0)"
    arbitrary: bs c rule: less_induct)
  case less
  obtain p k where c: "c = (p, k)" by (cases c)
  show ?case
  proof (cases "bs = []")
    case True
    then show ?thesis using less.prems by (subst posix_write.simps) (auto simp: c)
  next
    case False
    let ?room = "length (output_buffer p) - output_count p"
    define n where "n = (if length bs < ?room then length bs else ?room)"
    define p1 where "p1 = p\<lparr>output_buffer := take (output_count p) (output_buffer p) @ take n bs @
        drop (output_count p + n) (output_buffer p), output_count := output_count p + n\<rparr>"
    have n: "n \<le> ?room" "n \<le> length bs" by (simp_all add: n_def)
    note p1 = copy_sound [OF less.prems [unfolded c] n, folded p1_def]
    have fits: "output_count p \<le> length (output_buffer p)" "output_buffer p \<noteq> []"
      using less.prems by (auto simp: posix_sound_def c)
    have step: "posix_write ops bs c =
        (if output_count p1 = length (output_buffer p1)
         then do { (r, c) \<leftarrow> posix_flush ops (p1, k);
                   if r \<noteq> ZMODEM_OK then Some (ZMODEM_IO_ERROR, c) else posix_write ops (drop n bs) c }
         else posix_write ops (drop n bs) (p1, k))"
    proof -
      have nl: "(length (output_buffer p) < output_count p) = False" using fits(1) by simp
      show ?thesis
        by (subst posix_write.simps)
           (simp only: c prod.case Let_def False nl if_False n_def [symmetric] p1_def [symmetric])
    qed
    have full: "output_count p1 = length (output_buffer p1) \<longleftrightarrow> n = ?room"
      using fits(1) n by (auto simp: p1_def)
    have more: "\<exists>r c' m. posix_write ops (drop n bs) c1 = Some (r, c') \<and> sound c' \<and> same_input (fst c) (fst c') \<and>
        taken c' = taken c @ take m bs \<and> incoming (snd c') = incoming (snd c) \<and>
        (r = ZMODEM_OK \<and> m = length bs \<or> r = ZMODEM_IO_ERROR \<and> \<not> reliable)"
      if c1: "sound c1" "same_input p (fst c1)" "taken c1 = taken c @ take n bs" "incoming (snd c1) = incoming k"
        and less1: "output_count (fst c1) \<noteq> length (output_buffer (fst c1))" for c1
    proof -
      have "2 * length (drop n bs) + (if output_count (fst c1) = length (output_buffer (fst c1)) then 1 else 0)
          < 2 * length bs + (if output_count (fst c) = length (output_buffer (fst c)) then 1 else 0)"
        using less1 False fits by (auto simp: n_def c)
      from less.hyps [OF this c1(1)] obtain r c' m where
        1: "posix_write ops (drop n bs) c1 = Some (r, c')" "sound c'" "same_input (fst c1) (fst c')"
        "taken c' = taken c1 @ take m (drop n bs)" "incoming (snd c') = incoming (snd c1)" "r = ZMODEM_OK \<and> m = length (drop n bs) \<or> r = ZMODEM_IO_ERROR \<and> \<not> reliable"
        by blast
      have "taken c' = taken c @ take (n + m) bs" using 1(4) c1(3) by (simp add: take_add)
      then show ?thesis
        using 1 same_input_trans [OF c1(2) 1(3)] n(2) c1(4) by (intro exI [of _ r] exI [of _ c'] exI [of _ "n + m"]) (auto simp: c)
    qed
    show ?thesis
    proof (cases "n = ?room")
      case room: False
      then have "output_count p1 \<noteq> length (output_buffer p1)" using full by simp
      then show ?thesis using more [of "(p1, k)"] p1 step by (simp add: c)
    next
      case True
      obtain r c1 where f: "posix_flush ops (p1, k) = Some (r, c1)" "sound c1" "same_input p1 (fst c1)"
        "taken c1 = taken (p1, k)" "incoming (snd c1) = incoming k" "r = ZMODEM_OK \<and> output_count (fst c1) = 0 \<or> r = ZMODEM_IO_ERROR \<and> \<not> reliable"
        using posix_flush_returns [OF p1(1)] by auto
      have s: "same_input p (fst c1)" "taken c1 = taken c @ take n bs" "incoming (snd c1) = incoming k"
        using same_input_trans [OF p1(3) f(3)] f(4,5) p1(2) by (simp_all add: c)
      show ?thesis
      proof (cases "r = ZMODEM_OK")
        case r: True
        then have "output_count (fst c1) \<noteq> length (output_buffer (fst c1))"
          using f(2,6) by (auto simp: posix_sound_def)
        then show ?thesis using more [OF f(2) s] step f(1) True full r by simp
      next
        case False
        then show ?thesis
          using step f(1,2,6) True full s by (intro exI [of _ ZMODEM_IO_ERROR] exI [of _ c1] exI [of _ n]) (simp add: c)
      qed
    qed
  qed
qed

end

section \<open>Input\<close>

text \<open>
  The octets of \<open>incoming\<close> can be read at once: while there are some, \<^verbatim>\<open>select\<close> does not wait, and no call
  fails otherwise than by a signal. When there are none a call may do anything that leaves
  the line silent. \<open>now\<close> is \<^verbatim>\<open>CLOCK_MONOTONIC\<close> in nanoseconds: it never goes back, and a reading of
  it lies between the start of the call and its end. A call that does not wait takes at most
  \<open>step\<close> nanoseconds; even interrupted by every signal still to come, the calls of one wait take less
  than a millisecond, the shortest time a caller allows.
\<close>

definition nanoseconds :: "timespec \<Rightarrow> int" where
  "nanoseconds t = fst t * 1000000000 + snd t"

definition normalised :: "timespec \<Rightarrow> bool" where
  "normalised t \<longleftrightarrow> 0 \<le> snd t \<and> snd t < 1000000000"

locale posix_line = posix_output ops outfd good outgoing incoming signals
  for ops :: "'k kernel" and outfd :: int and good :: "'k \<Rightarrow> bool"
    and outgoing :: "'k \<Rightarrow> u8 list" and incoming :: "'k \<Rightarrow> u8 list" and signals :: "'k \<Rightarrow> nat" +
  fixes infd :: int and now :: "'k \<Rightarrow> int" and step :: int
  assumes descriptor: "0 \<le> infd" "infd < k_fd_setsize ops"
    and brief: "0 \<le> step" "good k \<Longrightarrow> (2 * int (signals k) + 2) * step < 1000000"
    and clock_step: "good k \<Longrightarrow> k_clock ops k = (r, t, k') \<Longrightarrow>
      good k' \<and> incoming k' = incoming k \<and> outgoing k' = outgoing k \<and> signals k' \<le> signals k \<and>
      (incoming k \<noteq> [] \<longrightarrow> r = 0 \<and> normalised t \<and> now k \<le> nanoseconds t \<and> nanoseconds t \<le> now k' \<and>
        now k' \<le> now k + step)"
    and select_step: "good k \<Longrightarrow> k_select ops infd timeout k = (r, e, k') \<Longrightarrow>
      good k' \<and> incoming k' = incoming k \<and> outgoing k' = outgoing k \<and> signals k' \<le> signals k \<and>
      (r < 0 \<and> e = EINTR \<longrightarrow> signals k' < signals k) \<and>
      (incoming k \<noteq> [] \<longrightarrow> now k' \<le> now k + step \<and> (0 < r \<or> r < 0 \<and> e = EINTR))"
    and read_step: "good k \<Longrightarrow> 0 < n \<Longrightarrow> k_read ops infd n k = (r, e, bs, k') \<Longrightarrow>
      good k' \<and> outgoing k' = outgoing k \<and> signals k' \<le> signals k \<and>
      (r < 0 \<and> e = EINTR \<longrightarrow> signals k' < signals k) \<and>
      (if 0 < r then r = int (length bs) \<and> length bs \<le> n \<and> incoming k = bs @ incoming k'
       else incoming k' = incoming k \<and> (incoming k \<noteq> [] \<longrightarrow> r < 0 \<and> e = EINTR))"
begin

lemma time_left_positive:
  "normalised t \<Longrightarrow> normalised d \<Longrightarrow> nanoseconds t < nanoseconds d \<Longrightarrow> fst (time_left d t) = 1"
  by (auto simp: time_left_def Let_def normalised_def nanoseconds_def split: prod.splits)

text \<open>A wait returns; with octets to come it reports them, if the deadline is further ahead than its calls take.\<close>

definition ahead :: "timespec option \<Rightarrow> 'k \<Rightarrow> bool" where
  "ahead d k \<longleftrightarrow> (\<forall>s. d = Some s \<longrightarrow> normalised s \<and> now k + (2 * int (signals k) + 1) * step < nanoseconds s)"

lemma aheadD:
  assumes "ahead (Some s) k"
  shows "normalised s" "now k + step < nanoseconds s"
  using assms brief(1) mult_right_mono [of 1 "2 * int (signals k) + 1" step] unfolding ahead_def by force+

lemma ahead_interrupted:
  assumes "ahead d k" "signals k' < signals k" "now k' \<le> now k + 2 * step"
  shows "ahead d k'"
proof -
  have "(2 * int (signals k') + 1) * step \<le> (2 * int (signals k) - 1) * step"
    using assms(2) brief(1) by (intro mult_right_mono) simp_all
  then have "now k' + (2 * int (signals k') + 1) * step \<le> now k + (2 * int (signals k) + 1) * step"
    using assms(3) by (simp add: algebra_simps)
  then show ?thesis using assms(1) unfolding ahead_def by force
qed

lemma wait_loop_returns:
  "good k \<Longrightarrow> (incoming k \<noteq> [] \<longrightarrow> ahead d k) \<Longrightarrow>
   \<exists>r k'. wait_loop ops infd d k = Some (r, k') \<and> good k' \<and> incoming k' = incoming k \<and>
     outgoing k' = outgoing k \<and> (incoming k \<noteq> [] \<longrightarrow> 0 < r)"
proof (induction "signals k" arbitrary: k rule: less_induct)
  case less
  obtain r0 to k0 where c: "(case d of Some d \<Rightarrow> input_time_remaining ops d k | None \<Rightarrow> (1, (0, 0), k)) = (r0, to, k0)"
    by (metis prod_cases3)
  have k0: "good k0 \<and> incoming k0 = incoming k \<and> outgoing k0 = outgoing k \<and> signals k0 \<le> signals k \<and>
      (incoming k \<noteq> [] \<longrightarrow> r0 = 1 \<and> now k0 \<le> now k + step)"
  proof (cases d)
    case None
    then show ?thesis using c less.prems(1) brief(1) by auto
  next
    case (Some s)
    obtain r1 t1 k1 where cl: "k_clock ops k = (r1, t1, k1)" by (metis prod_cases3)
    note s1 = clock_step [OF less.prems(1) cl]
    show ?thesis
    proof (cases "incoming k = []")
      case True
      then show ?thesis using c s1 by (auto simp: Some input_time_remaining_def cl split: prod.splits if_splits)
    next
      case False
      have "fst (time_left s t1) = 1"
        using time_left_positive [of t1 s] s1 aheadD [of s k] less.prems(2) False by (simp add: Some)
      then show ?thesis using c s1 False by (auto simp: Some input_time_remaining_def cl split: prod.splits)
    qed
  qed
  show ?case
  proof (cases "r0 \<le> 0")
    case True
    then have "wait_loop ops infd d k = Some (r0, k0)" using c by (subst wait_loop.simps) simp
    then show ?thesis using k0 True by auto
  next
    case r0: False
    obtain r e k2 where s: "k_select ops infd to k0 = (r, e, k2)" by (metis prod_cases3)
    have k2: "good k2 \<and> incoming k2 = incoming k \<and> outgoing k2 = outgoing k \<and> signals k2 \<le> signals k0 \<and>
      (r < 0 \<and> e = EINTR \<longrightarrow> signals k2 < signals k0) \<and> (incoming k \<noteq> [] \<longrightarrow> now k2 \<le> now k + 2 * step \<and> (0 < r \<or> r < 0 \<and> e = EINTR))"
      using select_step [OF _ s] k0 by force
    show ?thesis
    proof (cases "r < 0 \<and> e = EINTR")
      case False
      then have "wait_loop ops infd d k = Some (r, k2)" using c r0 s by (subst wait_loop.simps) auto
      then show ?thesis using k2 False by auto
    next
      case True
      then have "signals k2 < signals k" "good k2" "incoming k2 \<noteq> [] \<longrightarrow> ahead d k2"
        using k2 k0 less.prems(2) ahead_interrupted [of d k k2] by auto
      from less.hyps [OF this] obtain r' k' where
        "wait_loop ops infd d k2 = Some (r', k')" "good k'" "incoming k' = incoming k2"
        "outgoing k' = outgoing k2" "incoming k2 \<noteq> [] \<longrightarrow> 0 < r'" by blast
      moreover have "wait_loop ops infd d k = wait_loop ops infd d k2"
        using c r0 s True by (subst wait_loop.simps) simp
      ultimately show ?thesis using k2 by auto
    qed
  qed
qed

lemma deadline_ahead:
  assumes "good k" "incoming k \<noteq> []" "0 < ms" "set_input_deadline ops ms k = (r, d, k')"
  shows "r = 0" "ahead (Some d) k'" "good k'" "incoming k' = incoming k" "outgoing k' = outgoing k"
proof -
  obtain r1 sec nsec k1 where cl: "k_clock ops k = (r1, (sec, nsec), k1)" by (metis prod_cases3 surj_pair)
  note s = clock_step [OF assms(1) cl]
  have t: "r1 = 0" "normalised (sec, nsec)" "now k \<le> nanoseconds (sec, nsec)" "now k1 \<le> now k + step"
    using s assms(2) by auto
  show k': "r = 0" "good k'" "incoming k' = incoming k" "outgoing k' = outgoing k"
    using assms(4) s t(1) by (auto simp: set_input_deadline_def cl Let_def split: if_splits)
  have split: "ms div 1000 * 1000000000 + ms mod 1000 * 1000000 = ms * 1000000"
    using div_mult_mod_eq [of ms 1000] by linarith
  have "normalised d" "nanoseconds d = nanoseconds (sec, nsec) + ms * 1000000" "k' = k1"
    using assms(4) t(1,2) split
    by (auto simp: set_input_deadline_def cl Let_def normalised_def nanoseconds_def split: if_splits)
  moreover have "(2 * int (signals k') + 2) * step < 1000000" using brief(2) k'(2) by blast
  ultimately show "ahead (Some d) k'" using t(3,4) assms(3) by (simp add: ahead_def algebra_simps)
qed

lemma wait_for_input_returns:
  assumes "good k"
  shows "\<exists>r k'. wait_for_input ops infd ms k = Some (r, k') \<and> good k' \<and> incoming k' = incoming k \<and>
    outgoing k' = outgoing k \<and> (incoming k \<noteq> [] \<longrightarrow> 0 < r)"
proof -
  have fd: "\<not> (infd < 0 \<or> k_fd_setsize ops \<le> infd)" using descriptor by auto
  show ?thesis
  proof (cases "0 < ms")
    case False
    then show ?thesis using wait_loop_returns [OF assms, of None] fd by (simp add: wait_for_input_def ahead_def)
  next
    case True
    obtain r d k1 where dl: "set_input_deadline ops ms k = (r, d, k1)" by (metis prod_cases3)
    obtain r1 t1 kc where cl: "k_clock ops k = (r1, t1, kc)" by (metis prod_cases3)
    have k1: "good k1" "incoming k1 = incoming k" "outgoing k1 = outgoing k"
      using dl clock_step [OF assms cl] by (auto simp: set_input_deadline_def cl Let_def split: prod.splits if_splits)
    show ?thesis
    proof (cases "r = 0")
      case False
      then have "incoming k = []" using deadline_ahead(1) [OF assms _ True dl] by auto
      then show ?thesis using k1 False True fd dl by (simp add: wait_for_input_def)
    next
      case r: True
      have "incoming k1 \<noteq> [] \<longrightarrow> ahead (Some d) k1" using deadline_ahead(2) [OF assms _ True dl] k1(2) by simp
      from wait_loop_returns [OF k1(1) this] show ?thesis using r True fd dl k1(2,3) by (simp add: wait_for_input_def)
    qed
  qed
qed

lemma read_loop_returns:
  "good k \<Longrightarrow> 0 < n \<Longrightarrow> \<exists>r bs k'. read_loop ops infd n k = Some (r, bs, k') \<and> good k' \<and> outgoing k' = outgoing k \<and>
     (if 0 < r then r = int (length bs) \<and> length bs \<le> n \<and> incoming k = bs @ incoming k'
      else incoming k = [] \<and> incoming k' = [])"
proof (induction "signals k" arbitrary: k rule: less_induct)
  case less
  obtain r e bs k1 where s: "k_read ops infd n k = (r, e, bs, k1)" by (metis prod_cases4)
  note k1 = read_step [OF less.prems s]
  show ?case
  proof (cases "r < 0 \<and> e = EINTR")
    case False
    then have "read_loop ops infd n k = Some (r, bs, k1)" using s by (subst read_loop.simps) auto
    then show ?thesis using k1 False by (auto split: if_splits)
  next
    case True
    then have "signals k1 < signals k" "good k1" using k1 by auto
    from less.hyps [OF this less.prems(2)] obtain r' bs' k' where
      1: "read_loop ops infd n k1 = Some (r', bs', k')" "good k'" "outgoing k' = outgoing k1"
      "if 0 < r' then r' = int (length bs') \<and> length bs' \<le> n \<and> incoming k1 = bs' @ incoming k'
       else incoming k1 = [] \<and> incoming k' = []" by blast
    have "read_loop ops infd n k = read_loop ops infd n k1" using True s by (subst read_loop.simps) simp
    then show ?thesis using 1 k1 True by (intro exI [of _ r'] exI [of _ bs'] exI [of _ k']) auto
  qed
qed

text \<open>The two ends of the adapter.\<close>

abbreviation live :: "'k posix \<Rightarrow> bool" where
  "live \<equiv> posix_live good outfd infd"

abbreviation pending :: "'k posix \<Rightarrow> u8 list" where
  "pending \<equiv> posix_pending incoming"

lemma posix_read_returns:
  assumes "live c" "0 < n"
  shows "\<exists>r bs m c'. posix_read ops n ms c = Some (r, bs, m, c') \<and> live c' \<and> taken c' = taken c \<and>
    (if pending c = [] then line_error r \<and> pending c' = []
     else r = ZMODEM_OK \<and> m = length bs \<and> bs \<noteq> [] \<and> length bs \<le> n \<and> pending c = bs @ pending c')"
proof -
  obtain p k where c: "c = (p, k)" by (cases c)
  have g: "good k" and p: "input_fd p = infd" using assms(1) by (auto simp: posix_live_def posix_sound_def c)
  have keep: "live (p, k')" "taken (p, k') = taken c" if "good k'" "outgoing k' = outgoing k" for k'
    using that assms(1) by (auto simp: posix_live_def posix_sound_def posix_taken_def c)
  obtain r k1 where w: "wait_for_input ops infd ms k = Some (r, k1)" "good k1" "incoming k1 = incoming k"
    "outgoing k1 = outgoing k" "incoming k \<noteq> [] \<longrightarrow> 0 < r"
    using wait_for_input_returns [OF g] by blast
  show ?thesis
  proof (cases "r \<le> 0")
    case True
    then have "posix_read ops n ms c = Some (if r = 0 then ZMODEM_TIMEOUT else ZMODEM_IO_ERROR, [], 0, (p, k1))"
      using w(1) p by (auto simp: posix_read_def c)
    moreover have "pending c = []" using w(5) True by (auto simp: posix_pending_def c)
    ultimately show ?thesis
      using keep [OF w(2,4)] w(3) by (auto simp: line_error_def posix_pending_def c)
  next
    case r: False
    obtain q bs k2 where d: "read_loop ops infd n k1 = Some (q, bs, k2)" "good k2" "outgoing k2 = outgoing k1"
      "if 0 < q then q = int (length bs) \<and> length bs \<le> n \<and> incoming k1 = bs @ incoming k2
       else incoming k1 = [] \<and> incoming k2 = []"
      using read_loop_returns [OF w(2) assms(2)] by blast
    have e: "posix_read ops n ms c = Some (if q \<le> 0
        then (if q = 0 then ZMODEM_TIMEOUT else ZMODEM_IO_ERROR, bs, 0, (p, k2)) else (ZMODEM_OK, bs, nat q, (p, k2)))"
      using w(1) d(1) p r by (simp add: posix_read_def c)
    have k2: "live (p, k2)" "taken (p, k2) = taken c" using keep [OF d(2)] d(3) w(4) by simp_all
    show ?thesis
    proof (cases "0 < q")
      case False
      then show ?thesis using e k2 d(4) w(3) by (auto simp: line_error_def posix_pending_def c)
    next
      case True
      then have "bs \<noteq> []" "nat q = length bs" "pending c = bs @ pending (p, k2)" "length bs \<le> n"
        using d(4) w(3) by (auto simp: posix_pending_def c)
      then show ?thesis using True e k2 by auto
    qed
  qed
qed

lemma posix_poll_returns:
  assumes "live c"
  shows "\<exists>r c'. posix_poll ops c = Some (r, c') \<and> live c' \<and> taken c' = taken c \<and> pending c' = pending c \<and>
    (pending c \<noteq> [] \<longrightarrow> 0 < r)"
proof -
  obtain p k where c: "c = (p, k)" by (cases c)
  have g: "good k" and p: "input_fd p = infd" using assms by (auto simp: posix_live_def posix_sound_def c)
  obtain r k1 where w: "wait_for_input ops infd 0 k = Some (r, k1)" "good k1" "incoming k1 = incoming k"
    "outgoing k1 = outgoing k" "incoming k \<noteq> [] \<longrightarrow> 0 < r"
    using wait_for_input_returns [OF g] by blast
  show ?thesis
    using w assms p by (auto simp: posix_poll_def c posix_live_def posix_sound_def posix_taken_def posix_pending_def)
qed

text \<open>Purging ends, with nothing left to read.\<close>

lemma posix_purge_returns:
  "live c \<Longrightarrow> \<exists>r c'. posix_purge ops c = Some (r, c') \<and> live c' \<and> taken c' = taken c \<and> pending c' = []"
proof (induction "length (pending c)" arbitrary: c rule: less_induct)
  case less
  obtain p k where c: "c = (p, k)" by (cases c)
  have g: "good k" and p: "input_fd p = infd" using less.prems by (auto simp: posix_live_def posix_sound_def c)
  have keep: "live (p, k')" "taken (p, k') = taken c" if "good k'" "outgoing k' = outgoing k" for k'
    using that less.prems by (auto simp: posix_live_def posix_sound_def posix_taken_def c)
  obtain r k1 where w: "wait_for_input ops infd 0 k = Some (r, k1)" "good k1" "incoming k1 = incoming k"
    "outgoing k1 = outgoing k" "incoming k \<noteq> [] \<longrightarrow> 0 < r"
    using wait_for_input_returns [OF g] by blast
  show ?case
  proof (cases "r \<le> 0")
    case True
    then show ?thesis
      using w keep [OF w(2,4)] p by (subst posix_purge.simps) (auto simp: c posix_pending_def)
  next
    case r: False
    obtain q bs k2 where d: "read_loop ops infd 1 k1 = Some (q, bs, k2)" "good k2" "outgoing k2 = outgoing k1"
      "if 0 < q then q = int (length bs) \<and> length bs \<le> 1 \<and> incoming k1 = bs @ incoming k2
       else incoming k1 = [] \<and> incoming k2 = []"
      using read_loop_returns [OF w(2), of 1] by auto
    have k2: "live (p, k2)" "taken (p, k2) = taken c" using keep [OF d(2)] d(3) w(4) by simp_all
    show ?thesis
    proof (cases "0 < q")
      case False
      then show ?thesis using d w k2 p r by (subst posix_purge.simps) (auto simp: c posix_pending_def)
    next
      case True
      then have "length (pending (p, k2)) < length (pending c)" using d(4) w(3) by (auto simp: posix_pending_def c)
      from less.hyps [OF this k2(1)] k2(2) show ?thesis
        using True d(1) w(1) p r by (subst posix_purge.simps) (auto simp: c)
    qed
  qed
qed

lemma posix_write_link:
  assumes "live c"
  shows "\<exists>r c' n. posix_write ops bs c = Some (r, c') \<and> live c' \<and> pending c' = pending c \<and>
    taken c' = taken c @ take n bs \<and> (r = ZMODEM_OK \<and> n = length bs \<or> r = ZMODEM_IO_ERROR \<and> \<not> reliable)"
  using posix_write_returns [of c bs] assms by (fastforce simp: posix_live_def posix_pending_def same_input_def)

lemma posix_flush_link:
  assumes "live c"
  shows "\<exists>r c'. posix_flush ops c = Some (r, c') \<and> live c' \<and> pending c' = pending c \<and>
    taken c' = taken c \<and> (r = ZMODEM_OK \<or> r = ZMODEM_IO_ERROR \<and> \<not> reliable)"
  using posix_flush_returns [of c] assms by (fastforce simp: posix_live_def posix_pending_def same_input_def)

end

text \<open>The callbacks \<open>zmodem_plat_io_bind\<close> installs.\<close>

definition read_callback :: "'k kernel \<Rightarrow> 'k posix \<Rightarrow> nat \<Rightarrow> int \<Rightarrow> int \<times> u8 list \<times> nat \<times> 'k posix" where
  "read_callback ops c capacity t = the (posix_read ops capacity t c)"

definition write_callback :: "'k kernel \<Rightarrow> 'k posix \<Rightarrow> u8 list \<Rightarrow> int \<times> 'k posix" where
  "write_callback ops c octets = the (posix_write ops octets c)"

definition flush_callback :: "'k kernel \<Rightarrow> 'k posix \<Rightarrow> int \<times> 'k posix" where
  "flush_callback ops c = the (posix_flush ops c)"

lemma bind_callbacks:
  "io_read (zmodem_plat_io_bind ops c) = read_callback ops"
  "io_write (zmodem_plat_io_bind ops c) = write_callback ops"
  "io_flush (zmodem_plat_io_bind ops c) = flush_callback ops"
  "io_context (zmodem_plat_io_bind ops c) = c"
  by (simp_all add: zmodem_plat_io_bind_def read_callback_def write_callback_def flush_callback_def fun_eq_iff)

sublocale posix_line \<subseteq> octet_link "read_callback ops" live pending "write_callback ops" "flush_callback ops"
proof
  fix c :: "'k posix" and capacity :: nat and t :: int
  show "live c \<Longrightarrow> pending c \<noteq> [] \<Longrightarrow> 0 < capacity \<Longrightarrow>
      \<exists>chunk c'. read_callback ops c capacity t = (ZMODEM_OK, chunk, length chunk, c') \<and> chunk \<noteq> [] \<and>
        length chunk \<le> capacity \<and> pending c = chunk @ pending c' \<and> live c'"
    using posix_read_returns [of c capacity t] by (auto simp: read_callback_def)
next
  fix c :: "'k posix" and capacity :: nat and t :: int
  show "live c \<Longrightarrow> pending c = [] \<Longrightarrow> 0 < capacity \<Longrightarrow>
      \<exists>r chunk n c'. read_callback ops c capacity t = (r, chunk, n, c') \<and> line_error r \<and> pending c' = [] \<and> live c'"
    using posix_read_returns [of c capacity t] by (auto simp: read_callback_def)
next
  fix c :: "'k posix" and bs
  show "live c \<Longrightarrow> live (snd (write_callback ops c bs)) \<and> pending (snd (write_callback ops c bs)) = pending c"
    using posix_write_link [of c bs] by (auto simp: write_callback_def)
next
  fix c :: "'k posix"
  show "live c \<Longrightarrow> live (snd (flush_callback ops c)) \<and> pending (snd (flush_callback ops c)) = pending c"
    using posix_flush_link [of c] by (auto simp: flush_callback_def)
qed

text \<open>A line whose writes make progress.\<close>

locale posix_pipe = posix_line +
  assumes reliable: "good k \<Longrightarrow> bs \<noteq> [] \<Longrightarrow> k_write ops outfd bs k = (r, e, k') \<Longrightarrow> 0 < r \<or> r < 0 \<and> e = EINTR"
begin

lemma is_reliable: "reliable"
  unfolding reliable_writes_def by (blast dest: reliable)

end

sublocale posix_pipe \<subseteq> octet_sink "write_callback ops" "flush_callback ops" live taken
proof
  fix c :: "'a posix" and bs :: "u8 list"
  show "live c \<Longrightarrow> bs \<noteq> [] \<Longrightarrow>
      \<exists>c'. write_callback ops c bs = (ZMODEM_OK, c') \<and> live c' \<and> taken c' = taken c @ bs"
    using posix_write_link [of c bs] is_reliable by (auto simp: write_callback_def)
next
  fix c :: "'a posix"
  show "live c \<Longrightarrow> \<exists>c'. flush_callback ops c = (ZMODEM_OK, c') \<and> live c' \<and> taken c' = taken c"
    using posix_flush_link [of c] is_reliable by (auto simp: flush_callback_def)
qed

section \<open>A pipe\<close>

text \<open>
  A kernel to interpret the contracts on: two queues of octets, signals still to come (at most nine),
  each of which interrupts a call, and a clock. A read gives at most three octets, a write takes at
  most five, a reading of the clock and a \<^verbatim>\<open>select\<close> take a microsecond each, interrupted or not.
\<close>

record pipe =
  pipe_in :: "u8 list"
  pipe_out :: "u8 list"
  pipe_signals :: nat
  pipe_time :: int

definition pipe_good :: "pipe \<Rightarrow> bool" where
  "pipe_good k \<longleftrightarrow> pipe_signals k \<le> 9"

definition pipe_tick :: "pipe \<Rightarrow> pipe" where
  "pipe_tick k = k\<lparr>pipe_time := pipe_time k + 1000\<rparr>"

definition pipe_call :: "(pipe \<Rightarrow> 'a) \<Rightarrow> (pipe \<Rightarrow> 'a) \<Rightarrow> pipe \<Rightarrow> 'a" where
  "pipe_call interrupted f k = (if pipe_signals k = 0 then f k else interrupted (k\<lparr>pipe_signals := pipe_signals k - 1\<rparr>))"

definition pipe_kernel :: "pipe kernel" where
  "pipe_kernel = \<lparr>k_fd_setsize = 1024, k_csize = 0x30, k_parenb = 0x100, k_cs8 = 0x30,
     k_clock = (\<lambda>k. (0, (pipe_time k div 1000000000, pipe_time k mod 1000000000), pipe_tick k)),
     k_select = (\<lambda>fd t. pipe_call (\<lambda>k. (- 1, EINTR, pipe_tick k))
       (\<lambda>k. (if pipe_in k = [] then 0 else 1, EOTHER, pipe_tick k))),
     k_read = (\<lambda>fd n. pipe_call (\<lambda>k. (- 1, EINTR, [], k))
       (\<lambda>k. let bs = take (min n 3) (pipe_in k)
            in (int (length bs), EOTHER, bs, k\<lparr>pipe_in := drop (min n 3) (pipe_in k)\<rparr>))),
     k_write = (\<lambda>fd bs. pipe_call (\<lambda>k. (- 1, EINTR, k))
       (\<lambda>k. (int (length (take 5 bs)), EOTHER, k\<lparr>pipe_out := pipe_out k @ take 5 bs\<rparr>))),
     k_open = (\<lambda>path k. (3, k)), k_close = (\<lambda>fd k. (0, k)), k_isatty = (\<lambda>fd k. (0, EOTHER, k)),
     k_tcgetattr = (\<lambda>fd k. (0, \<lparr>c_iflag = 0, c_oflag = 0, c_cflag = 0, c_lflag = 0, c_vmin = 1, c_vtime = 0\<rparr>, k)),
     k_tcsetattr = (\<lambda>fd a k. (0, k)), k_sigemptyset = (\<lambda>k. (0, k)), k_sigaction_ignore = (\<lambda>k. (0, k))\<rparr>"

interpretation pipe: posix_pipe pipe_kernel 1 pipe_good pipe_out pipe_in pipe_signals 0 pipe_time 1000
proof
  fix k k' :: pipe and bs r e n t timeout
  show "pipe_good k \<Longrightarrow> k_write pipe_kernel 1 bs k = (r, e, k') \<Longrightarrow>
      pipe_good k' \<and> r \<le> int (length bs) \<and> pipe_out k' = pipe_out k @ take (nat r) bs \<and> pipe_in k' = pipe_in k \<and>
      pipe_signals k' \<le> pipe_signals k \<and> (r < 0 \<and> e = EINTR \<longrightarrow> pipe_signals k' < pipe_signals k)"
    by (auto simp: pipe_kernel_def pipe_call_def pipe_good_def min_def split: if_splits)
  show "bs \<noteq> [] \<Longrightarrow> k_write pipe_kernel 1 bs k = (r, e, k') \<Longrightarrow> 0 < r \<or> r < 0 \<and> e = EINTR"
    by (auto simp: pipe_kernel_def pipe_call_def split: if_splits)
  show "pipe_good k \<Longrightarrow> (2 * int (pipe_signals k) + 2) * 1000 < 1000000"
    by (simp add: pipe_good_def)
  show "pipe_good k \<Longrightarrow> k_clock pipe_kernel k = (r, t, k') \<Longrightarrow>
      pipe_good k' \<and> pipe_in k' = pipe_in k \<and> pipe_out k' = pipe_out k \<and> pipe_signals k' \<le> pipe_signals k \<and>
      (pipe_in k \<noteq> [] \<longrightarrow> r = 0 \<and> normalised t \<and> pipe_time k \<le> nanoseconds t \<and> nanoseconds t \<le> pipe_time k' \<and>
        pipe_time k' \<le> pipe_time k + 1000)"
    by (auto simp: pipe_kernel_def pipe_tick_def pipe_good_def normalised_def nanoseconds_def)
  show "pipe_good k \<Longrightarrow> k_select pipe_kernel 0 timeout k = (r, e, k') \<Longrightarrow>
      pipe_good k' \<and> pipe_in k' = pipe_in k \<and> pipe_out k' = pipe_out k \<and> pipe_signals k' \<le> pipe_signals k \<and>
      (r < 0 \<and> e = EINTR \<longrightarrow> pipe_signals k' < pipe_signals k) \<and>
      (pipe_in k \<noteq> [] \<longrightarrow> pipe_time k' \<le> pipe_time k + 1000 \<and> (0 < r \<or> r < 0 \<and> e = EINTR))"
    by (auto simp: pipe_kernel_def pipe_call_def pipe_tick_def pipe_good_def split: if_splits)
  show "pipe_good k \<Longrightarrow> 0 < n \<Longrightarrow> k_read pipe_kernel 0 n k = (r, e, bs, k') \<Longrightarrow>
      pipe_good k' \<and> pipe_out k' = pipe_out k \<and> pipe_signals k' \<le> pipe_signals k \<and>
      (r < 0 \<and> e = EINTR \<longrightarrow> pipe_signals k' < pipe_signals k) \<and>
      (if 0 < r then r = int (length bs) \<and> length bs \<le> n \<and> pipe_in k = bs @ pipe_in k'
       else pipe_in k' = pipe_in k \<and> (pipe_in k \<noteq> [] \<longrightarrow> r < 0 \<and> e = EINTR))"
    by (auto simp: pipe_kernel_def pipe_call_def pipe_good_def Let_def split: if_splits)
qed (simp_all add: pipe_kernel_def)

end
