(* ===== verification/Decode.thy ===== *)
theory Decode
  imports Line Sink
begin

text \<open>
  The receiver undoes the sender's encoding. \<open>matched\<close> says that the settings of the two ends
  agree; under it the octets \<open>code\<close> produces for an octet are decoded to that octet, whatever
  pieces the transport delivers them in, and the receive loop that takes whole spans of plain
  octets is the octet-wise decoder.
\<close>

declare split_paired_Ex [simp del] split_paired_All [simp del]

section \<open>Octets\<close>

definition matched :: "'s zmodem \<Rightarrow> 'c zmodem \<Rightarrow> bool" where
  "matched s z \<longleftrightarrow> \<not> escape_8th_bit s \<and> receive_mobyturbo z = use_mobyturbo s \<and>
     receive_escape8_format z \<noteq> ZMODEM_ESCAPE8_LEGACY \<and>
     (receive_escaped_control_characters z \<longrightarrow> escape_all_control_characters s)"

definition is_frame_end :: "u8 \<Rightarrow> bool" where
  "is_frame_end c \<longleftrightarrow> c = ZCRCE \<or> c = ZCRCG \<or> c = ZCRCQ \<or> c = ZCRCW"

lemma needs_escape_iff:
  "needs_escape s p c \<longleftrightarrow>
     c = ZDLE \<or>
     (c \<in> {0x10, 0x90, XON, 0x91, XOFF, 0x93} \<and> \<not> use_mobyturbo s) \<or>
     (escape_all_control_characters s \<and> c AND 0x60 = 0 \<and> c \<notin> {0x10, 0x90, XON, 0x91, XOFF, 0x93}) \<or>
     (escape_8th_bit s \<and> \<not> use_mobyturbo s \<and> c AND 0x80 \<noteq> 0) \<or>
     (escape_iac s \<and> c = 0xff) \<or>
     ((c = CR \<or> c = 0x8d) \<and> p = 0x40 \<and> (use_mobyturbo s \<longrightarrow> escape_all_control_characters s))"
proof -
  have "tx_class_action c AND (a OR b) \<noteq> 0 \<longleftrightarrow> tx_class_action c AND a \<noteq> 0 \<or> tx_class_action c AND b \<noteq> 0" for a b
    by (simp only: bit.conj_disj_distrib or_eq_0_iff)
  note d = this
  show ?thesis
    using tx_class_always [of c] tx_class_control [of c] tx_class_8th [of c] tx_class_iac [of c] tx_class_cr [of c]
    unfolding needs_escape_def flags_active_def d by auto
qed

lemma unescaped_plain:
  assumes "\<not> needs_escape s p c" "matched s z"
  shows "\<not> rx_needs_slow_path z (uint c)"
  using assms unfolding slow_path_octet needs_escape_iff matched_def by auto

lemma escaped_control:
  "needs_escape s p c \<Longrightarrow> \<not> escape_8th_bit s \<Longrightarrow> c = 0xff \<or> c AND 0x60 = 0"
  unfolding needs_escape_iff by auto

lemma u8_and: "uint (a :: u8) AND uint b = uint (a AND b)"
  by (simp add: unsigned_and_eq)

lemma u8_xor: "uint (a :: u8) XOR uint b = uint (a XOR b)"
  by (simp add: unsigned_xor_eq)

lemma zdle_value_control:
  assumes "c AND 0x60 = (0 :: u8)"
  shows "rx_zdle_value (uint (c XOR 0x40)) = Some (uint c)" "\<not> rx_needs_slow_path z (uint (c XOR 0x40))"
proof -
  have d: "(c XOR 0x40) AND 0x60 = 0x40" using assms by (auto simp: u8_eq_iff bit_simps bit_numeral_rec)
  then have n: "c XOR 0x40 \<notin> {0x68, 0x69, 0x6a, 0x6b, 0x6c, 0x6d, 0x18, 0x11, 0x91, 0x13, 0x93}" by auto
  have "uint (c XOR 0x40) AND 0x60 = 0x40" "uint (c XOR 0x40) XOR 0x40 = uint c"
    using d u8_and [of "c XOR 0x40" "0x60"] u8_xor [of "c XOR 0x40" "0x40"] by (simp_all add: xor.assoc)
  moreover have "uint (c XOR 0x40) \<noteq> uint e" if "c XOR 0x40 \<noteq> e" for e :: u8
    using that u8_uint_iff [of "c XOR 0x40" e] by simp
  note e = this
  ultimately show "rx_zdle_value (uint (c XOR 0x40)) = Some (uint c)"
    using n e [of "0x68"] e [of "0x69"] e [of "0x6a"] e [of "0x6b"] e [of "0x6c"] e [of "0x6d"]
    by (simp add: rx_zdle_value_def)
  show "\<not> rx_needs_slow_path z (uint (c XOR 0x40))"
    unfolding slow_path_octet using n d by auto
qed

lemma be_word: "push_bit 8 (ucast (ucast (drop_bit 8 w) :: u8)) OR ucast (ucast w :: u8) = (w :: u16)"
proof (rule bit_word_eqI)
  fix n assume "n < LENGTH(16)"
  then consider "n < 8" | "8 \<le> n" "n < 16" by force
  then show "bit (push_bit 8 (ucast (ucast (drop_bit 8 w) :: u8)) OR ucast (ucast w :: u8) :: u16) n = bit w n"
    by cases (auto simp: bit_simps)
qed

context octet_source
begin

lemma next_plain:
  assumes "at z0 (b # bs) k z cur" "\<not> rx_needs_slow_path z0 (uint b)"
  shows "\<exists>z' cur'. rx_cursor_next t z cur = Some (uint b, z', cur') \<and> at z0 bs 0 z' cur'"
proof -
  have b: "b \<noteq> CAN" using assms(2) by (auto simp: slow_path_octet)
  obtain z' cur' where 1: "rx_cursor_raw t z cur = Some (uint b, z', cur')" "at z0 bs 0 z' cur'"
    using raw_at [OF assms(1), of t] b by (auto simp: raw_result_def raw_cancel_def)
  have "\<not> rx_needs_slow_path z' (uint b)"
    using rx_moved_decoder(1) [OF at_moved [OF 1(2)]] assms(2) by simp
  then show ?thesis using 1 by (simp add: rx_cursor_next_def)
qed

text \<open>The count of cancels does not reach five on the ZDLE of a pair.\<close>

definition calm :: "'c zmodem \<Rightarrow> u32 \<Rightarrow> bool" where
  "calm z0 k \<longleftrightarrow> receive_mobyturbo z0 \<or> k \<noteq> 4"

lemma calm_0 [simp]: "calm z0 0"
  by (simp add: calm_def)

lemma raw_zdle:
  assumes "at z0 (ZDLE # bs) k z cur" "calm z0 k"
  shows "\<exists>z' cur' k'. rx_cursor_raw t z cur = Some (uint ZDLE, z', cur') \<and> at z0 bs k' z' cur'"
proof -
  have k: "k + 1 = 5 \<longleftrightarrow> k = (4 :: u32)" using eq_diff_eq [of k "5 :: u32" 1] by simp
  have "raw_result (receive_mobyturbo z0) ZDLE k = uint ZDLE"
    using assms(2) unfolding raw_result_def calm_def k by auto
  then show ?thesis using raw_at [OF assms(1), of t] by auto
qed

lemma raw_other:
  assumes "at z0 (b # bs) k z cur" "b \<noteq> CAN"
  shows "\<exists>z' cur'. rx_cursor_raw t z cur = Some (uint b, z', cur') \<and> at z0 bs 0 z' cur'"
  using raw_at [OF assms(1), of t] assms(2) by (auto simp: raw_result_def raw_cancel_def)

lemma slow_pair:
  assumes "at z0 (d # bs) k z cur" "receive_escape8_format z0 \<noteq> ZMODEM_ESCAPE8_LEGACY"
    and d: "\<not> rx_needs_slow_path z0 (uint d)" "rx_zdle_value (uint d) = Some v"
  shows "\<exists>z' cur'. rx_cursor_slow t (uint ZDLE) z cur = Some (v, z', cur') \<and> at z0 bs 0 z' cur'"
proof -
  have "d \<noteq> CAN" using d(1) by (auto simp: slow_path_octet)
  then obtain z2 cur2 where 2: "rx_cursor_raw t z cur = Some (uint d, z2, cur2)" "at z0 bs 0 z2 cur2"
    using raw_other [OF assms(1)] by blast
  have s: "\<not> rx_needs_slow_path z2 (uint d)" "receive_escape8_format z2 \<noteq> ZMODEM_ESCAPE8_LEGACY"
    using rx_moved_decoder(1) [OF at_moved [OF 2(2)]] d(1) assms(2) at_moved [OF 2(2)]
    by (simp_all add: cfg_simps)
  have "rx_zdle_loop t z cur = Some (True, v, z2, cur2)"
    using 2(1) s d(2) by (subst rx_zdle_loop.simps) simp
  moreover have "rx_skip_flow t (uint ZDLE) z cur = Some (uint ZDLE, z, cur)"
    by (subst rx_skip_flow.simps) (simp add: rx_is_flow_control_def rx_is_unescaped_control_def)
  ultimately have "rx_cursor_slow t (uint ZDLE) z cur = Some (v, z2, cur2)"
    by (subst rx_cursor_slow.simps) simp
  then show ?thesis using 2(2) by blast
qed

lemma zdle_slow [simp]: "rx_needs_slow_path z (uint ZDLE)"
  by (simp add: rx_needs_slow_path_def)

lemma next_pair:
  assumes "at z0 (ZDLE # d # bs) k z cur" "calm z0 k" "receive_escape8_format z0 \<noteq> ZMODEM_ESCAPE8_LEGACY"
    and d: "\<not> rx_needs_slow_path z0 (uint d)" "rx_zdle_value (uint d) = Some v"
  shows "\<exists>z' cur'. rx_cursor_next t z cur = Some (v, z', cur') \<and> at z0 bs 0 z' cur'"
proof -
  obtain z1 cur1 k1 where 1: "rx_cursor_raw t z cur = Some (uint ZDLE, z1, cur1)" "at z0 (d # bs) k1 z1 cur1"
    using raw_zdle [OF assms(1,2)] by blast
  obtain z2 cur2 where "rx_cursor_slow t (uint ZDLE) z1 cur1 = Some (v, z2, cur2)" "at z0 bs 0 z2 cur2"
    using slow_pair [OF 1(2) assms(3) d] by blast
  then show ?thesis using 1(1) zdle_slow [of z1] by (simp add: rx_cursor_next_def del: zdle_slow)
qed

text \<open>What the octets of \<open>code\<close> are: one plain octet, or a pair.\<close>

lemma code_cases:
  assumes "matched s z"
  obtains "code s p c = [c]" "\<not> rx_needs_slow_path z (uint c)"
  | d where "code s p c = [ZDLE, d]" "\<not> rx_needs_slow_path z (uint d)" "rx_zdle_value (uint d) = Some (uint c)"
proof (cases "needs_escape s p c")
  case False
  then show ?thesis using that(1) unescaped_plain [OF False assms] by (simp add: code_def)
next
  case True
  show ?thesis
  proof (cases "c = 0xff")
    case ff: True
    have "rx_zdle_value (uint ZRUB1) = Some (uint c)" "\<not> rx_needs_slow_path z (uint ZRUB1)"
      unfolding slow_path_octet by (simp_all add: rx_zdle_value_def ff)
    then show ?thesis using that(2) [of ZRUB1] True ff by (simp add: code_def)
  next
    case False
    then have "c AND 0x60 = 0" using escaped_control [OF True] assms by (simp add: matched_def)
    then show ?thesis using that(2) [OF _ zdle_value_control(2,1)] True False by (simp add: code_def)
  qed
qed

lemma matched_legacy: "matched s z \<Longrightarrow> receive_escape8_format z \<noteq> ZMODEM_ESCAPE8_LEGACY"
  by (simp add: matched_def)

lemma next_code:
  assumes "at z0 (code s p c @ bs) k z cur" "calm z0 k" "matched s z0"
  shows "\<exists>z' cur'. rx_cursor_next t z cur = Some (uint c, z', cur') \<and> at z0 bs 0 z' cur'"
proof (cases rule: code_cases [OF assms(3), of p c])
  case 1
  then show ?thesis using next_plain assms(1) by simp
next
  case (2 d)
  then show ?thesis using next_pair [OF _ assms(2) matched_legacy [OF assms(3)] 2(2,3)] assms(1) by simp
qed

lemma frame_end_value:
  assumes "is_frame_end type"
  shows "rx_zdle_value (uint type) = Some (uint type OR RX_FRAME_END_FLAG)" "\<not> rx_needs_slow_path z (uint type)"
  using assms unfolding slow_path_octet by (auto simp: rx_zdle_value_def is_frame_end_def)

lemma next_frame_end:
  assumes "at z0 (ZDLE # type # bs) k z cur" "calm z0 k" "receive_escape8_format z0 \<noteq> ZMODEM_ESCAPE8_LEGACY"
    "is_frame_end type"
  shows "\<exists>z' cur'. rx_cursor_next t z cur = Some (uint type OR RX_FRAME_END_FLAG, z', cur') \<and> at z0 bs 0 z' cur'"
  using next_pair [OF assms(1-3) frame_end_value(2,1) [OF assms(4)]] .

section \<open>Octets off the stored cursor\<close>

definition queued :: "u8 list \<Rightarrow> u32 \<Rightarrow> 'c zmodem \<Rightarrow> bool" where
  "queued bs k z \<longleftrightarrow> at z bs k z (load_rx_cursor z)"

lemma queued_store:
  assumes "at z0 bs k z cur"
  shows "queued bs k (store_rx_cursor cur z)" "rx_moved z0 (store_rx_cursor cur z)"
proof -
  show "queued bs k (store_rx_cursor cur z)"
    using assms by (simp add: queued_def on_line_def upcoming_def load_rx_cursor_def store_rx_cursor_def)
  show "rx_moved z0 (store_rx_cursor cur z)" by (rule rx_moved_trans [OF at_moved [OF assms] rx_moved_store])
qed

lemma rx_raw_other:
  assumes "queued (b # bs) k z" "b \<noteq> CAN"
  shows "\<exists>z'. rx_raw t z = Some (uint b, z') \<and> rx_moved z z' \<and> queued bs 0 z'"
  using raw_other [OF assms(1) [unfolded queued_def] assms(2), of t] queued_store
  by (auto simp: rx_raw_def with_cursor_def)

lemma rx_raw_zdle:
  assumes "queued (ZDLE # bs) k z" "calm z k"
  shows "\<exists>z' k'. rx_raw t z = Some (uint ZDLE, z') \<and> rx_moved z z' \<and> queued bs k' z'"
proof -
  obtain z' cur' k' where "rx_cursor_raw t z (load_rx_cursor z) = Some (uint ZDLE, z', cur')" "at z bs k' z' cur'"
    using raw_zdle [OF assms(1) [unfolded queued_def] assms(2)] by blast
  then show ?thesis using queued_store [of z bs k' z' cur'] by (auto simp: rx_raw_def with_cursor_def)
qed

lemma rx_plain:
  assumes "queued (b # bs) k z" "\<not> rx_needs_slow_path z (uint b)"
  shows "\<exists>z'. rx t z = Some (uint b, z') \<and> rx_moved z z' \<and> queued bs 0 z'"
proof -
  have "b \<noteq> CAN" using assms(2) by (auto simp: slow_path_octet)
  then obtain z' where 1: "rx_raw t z = Some (uint b, z')" "rx_moved z z'" "queued bs 0 z'"
    using rx_raw_other [OF assms(1)] by blast
  then show ?thesis using assms(2) rx_moved_decoder(1) [OF 1(2)] by (simp add: rx_def)
qed

lemma rx_pair:
  assumes "queued (ZDLE # d # bs) k z" "calm z k" "receive_escape8_format z \<noteq> ZMODEM_ESCAPE8_LEGACY"
    and d: "\<not> rx_needs_slow_path z (uint d)" "rx_zdle_value (uint d) = Some v"
  shows "\<exists>z'. rx t z = Some (v, z') \<and> rx_moved z z' \<and> queued bs 0 z'"
proof -
  obtain z1 k1 where 1: "rx_raw t z = Some (uint ZDLE, z1)" "rx_moved z z1" "queued (d # bs) k1 z1"
    using rx_raw_zdle [OF assms(1,2)] by blast
  have "receive_escape8_format z1 \<noteq> ZMODEM_ESCAPE8_LEGACY" "\<not> rx_needs_slow_path z1 (uint d)"
    using assms(3) d(1) rx_moved_decoder(1) [OF 1(2)] rx_moved_config [OF 1(2)] by simp_all
  from slow_pair [OF 1(3) [unfolded queued_def] this d(2), of t]
  obtain z2 cur2 where 2: "rx_cursor_slow t (uint ZDLE) z1 (load_rx_cursor z1) = Some (v, z2, cur2)"
    "at z1 bs 0 z2 cur2"
    by blast
  have "rx t z = Some (v, store_rx_cursor cur2 z2)"
    using 1(1) 2(1) zdle_slow [of z1] by (simp add: rx_def rx_slow_def with_cursor_def del: zdle_slow)
  then show ?thesis using queued_store [OF 2(2)] rx_moved_trans [OF 1(2)] by blast
qed

lemma rx_code:
  assumes "queued (code s p c @ bs) k z" "calm z k" "matched s z"
  shows "\<exists>z'. rx t z = Some (uint c, z') \<and> rx_moved z z' \<and> queued bs 0 z'"
proof (cases rule: code_cases [OF assms(3), of p c])
  case 1
  then show ?thesis using rx_plain assms(1) by simp
next
  case (2 d)
  then show ?thesis using rx_pair [OF _ assms(2) matched_legacy [OF assms(3)] 2(2,3)] assms(1) by simp
qed

lemma rx_byte_code:
  assumes "queued (code s p c @ bs) k z" "calm z k" "matched s z"
  shows "\<exists>z'. rx_byte t e z = Some (uint c, z') \<and> rx_moved z z' \<and> queued bs 0 z'"
proof -
  have "rx_octet_result e (uint c) = uint c"
    using uint_u8_bounds [of c] by (simp add: rx_octet_result_def del: uint_u8_bounds)
  then show ?thesis using rx_code [OF assms, of t] by (auto simp: rx_byte_def)
qed

lemma matched_moved: "rx_moved z z' \<Longrightarrow> matched s z \<Longrightarrow> matched s z'"
  by (simp add: matched_def rx_moved_config)

section \<open>Checksums\<close>

text \<open>A reader of octets, applied to a state in which the octets' codes are next.\<close>

definition takes ::
  "('s \<Rightarrow> bool) \<Rightarrow> (u8 list \<Rightarrow> 's \<Rightarrow> bool) \<Rightarrow> ('s \<Rightarrow> (int \<times> 's) option) \<Rightarrow> (int \<Rightarrow> u8 \<Rightarrow> u8 list) \<Rightarrow> bool" where
  "takes ok Q read g \<longleftrightarrow> (\<forall>p c bs s. ok s \<longrightarrow> Q (g p c @ bs) s \<longrightarrow>
     (\<exists>s'. read s = Some (uint c, s') \<and> ok s' \<and> Q bs s'))"

lemma takesD:
  "takes ok Q read g \<Longrightarrow> ok s \<Longrightarrow> Q (g p c @ bs) s \<Longrightarrow>
   \<exists>s'. read s = Some (uint c, s') \<and> ok s' \<and> Q bs s'"
  unfolding takes_def by blast

lemma word_of_uint [simp]: "(word_of_int (uint c) :: u8) = c"
  by simp

lemma le_octets_4:
  assumes r: "takes ok Q read g" and "ok s" "Q (codes g p (le_bytes w) @ bs) s"
  shows "\<exists>s'. rx_le_octets read 0 4 0 s = Some (0, w, s') \<and> ok s' \<and> Q bs s'"
proof -
  let ?b = "\<lambda>n. ucast (drop_bit n w) :: u8"
  let ?p1 = "low7 (last (g p (ucast w)))"
  let ?p2 = "low7 (last (g ?p1 (?b 8)))"
  let ?p3 = "low7 (last (g ?p2 (?b 16)))"
  have q: "Q (g p (ucast w) @ g ?p1 (?b 8) @ g ?p2 (?b 16) @ g ?p3 (?b 24) @ bs) s"
    using assms(3) by (simp add: le_bytes_def)
  obtain s1 where 1: "read s = Some (uint (ucast w :: u8), s1)" "ok s1"
    "Q (g ?p1 (?b 8) @ g ?p2 (?b 16) @ g ?p3 (?b 24) @ bs) s1" using takesD [OF r assms(2) q] by blast
  obtain s2 where 2: "read s1 = Some (uint (?b 8), s2)" "ok s2" "Q (g ?p2 (?b 16) @ g ?p3 (?b 24) @ bs) s2"
    using takesD [OF r 1(2,3)] by blast
  obtain s3 where 3: "read s2 = Some (uint (?b 16), s3)" "ok s3" "Q (g ?p3 (?b 24) @ bs) s3"
    using takesD [OF r 2(2,3)] by blast
  obtain s4 where 4: "read s3 = Some (uint (?b 24), s4)" "ok s4" "Q bs s4"
    using takesD [OF r 3(2,3)] by blast
  have "rx_le_octets read 0 4 0 s = Some (0, le_word (ucast w) (?b 8) (?b 16) (?b 24), s4)"
    using 1(1) 2(1) 3(1) 4(1) by (simp add: eval_nat_numeral le_word_def or.assoc not_less)
  then show ?thesis using 4(2,3) by (simp add: le_word_le_bytes)
qed

text \<open>\<open>z0\<close> with input taken off the line, the octets \<open>bs\<close> next.\<close>

definition input :: "'c zmodem \<Rightarrow> u8 list \<Rightarrow> 'c zmodem \<Rightarrow> bool" where
  "input z0 bs z \<longleftrightarrow> rx_moved z0 z \<and> (\<exists>k. queued bs k z \<and> calm z k)"

lemma input_refl: "queued bs k z \<Longrightarrow> calm z k \<Longrightarrow> input z bs z"
  by (auto simp: input_def)

lemma calm_moved: "rx_moved z z' \<Longrightarrow> calm z' k = calm z k"
  by (simp add: calm_def rx_moved_config)

lemma input_step:
  assumes "input z0 bs z" "\<And>k. queued bs k z \<Longrightarrow> calm z k \<Longrightarrow>
    \<exists>z'. f z = Some (v, z') \<and> rx_moved z z' \<and> queued bs' 0 z'"
  shows "\<exists>z'. f z = Some (v, z') \<and> input z0 bs' z'"
  using assms(2) assms(1) rx_moved_trans unfolding input_def by (metis calm_0)

lemma input_byte:
  assumes "matched s z0"
  shows "takes (\<lambda>_. True) (input z0) (rx_byte t e) (code s)"
  unfolding takes_def
proof (intro allI impI)
  fix p c bs z assume i: "input z0 (code s p c @ bs) z"
  have "matched s z" using i matched_moved [OF _ assms] by (simp add: input_def)
  then have "\<exists>z'. rx_byte t e z = Some (uint c, z') \<and> input z0 bs z'"
    by (intro input_step [OF i] rx_byte_code)
  then show "\<exists>z'. rx_byte t e z = Some (uint c, z') \<and> True \<and> input z0 bs z'" by simp
qed

lemma rx_crc32_code:
  assumes "matched s z0" "input z0 (codes (code s) p (le_bytes w) @ bs) z"
  shows "\<exists>z'. rx_crc32 t e z = Some (0, w, z') \<and> input z0 bs z'"
  using le_octets_4 [OF input_byte [OF assms(1)] TrueI assms(2)] by (simp add: rx_crc32_def)

lemma rx_crc16_code:
  assumes "matched s z0" "input z0 (codes (code s) p (be_bytes16 w) @ bs) z"
  shows "\<exists>z'. rx_crc16 t e z = Some (0, w, z') \<and> input z0 bs z'"
proof -
  note r = takesD [OF input_byte [OF assms(1)] TrueI]
  let ?q = "low7 (last (code s p (ucast (drop_bit 8 w))))"
  have "input z0 (code s p (ucast (drop_bit 8 w)) @ code s ?q (ucast w) @ bs) z"
    using assms(2) by (simp add: be_bytes16_def)
  from r [OF this] obtain z1 where 1: "rx_byte t e z = Some (uint (ucast (drop_bit 8 w) :: u8), z1)"
    "input z0 (code s ?q (ucast w) @ bs) z1" by blast
  from r [OF 1(2)] obtain z2 where 2: "rx_byte t e z1 = Some (uint (ucast w :: u8), z2)" "input z0 bs z2"
    by blast
  show ?thesis using 1(1) 2 be_word [of w] by (simp add: rx_crc16_def not_less)
qed

end

end
