(* ===== verification/Decode_Data.thy ===== *)
theory Decode_Data
  imports Decode Data_Wire Rx_Total_Data
begin

text \<open>
  Plain data subpackets, sent by \<open>tx_data\<close> and received by \<open>rx_data\<close>: the payload arrives, or is
  rejected when it does not fit the caller's array.
\<close>

declare split_paired_Ex [simp del] split_paired_All [simp del]

section \<open>Stores, octet by octet\<close>

lemma mem_store_nil [simp]: "i \<le> length p \<Longrightarrow> mem_store p i [] = Some p"
  by (simp add: mem_store_def)

lemma mem_store_Cons:
  "mem_store p i (c # xs) = Option.bind (mem_store p i [c]) (\<lambda>p. mem_store p (Suc i) xs)"
  by (auto simp: mem_store_def min_def add.commute)

definition storing :: "nat \<Rightarrow> 'k rx_data_vars \<Rightarrow> bool" where
  "storing limit v \<longleftrightarrow> rd_used v \<le> limit \<and> limit \<le> length (rd_p v) \<and> (rd_overflow v \<longrightarrow> rd_used v = limit)"

lemma storing_octet: "storing limit v \<Longrightarrow> rx_put_octet u u1 limit c v = Some v' \<Longrightarrow> storing limit v'"
  by (auto simp: storing_def rx_put_octet_def mem_store_def split: if_splits)

definition checksum_laws :: "('k \<Rightarrow> u8 list \<Rightarrow> 'k) \<Rightarrow> ('k \<Rightarrow> u8 \<Rightarrow> 'k) \<Rightarrow> bool" where
  "checksum_laws u u1 \<longleftrightarrow> (\<forall>c. u c [] = c) \<and> (\<forall>c x xs. u c (x # xs) = u (u1 c x) xs)"

lemma checksum_laws_32: "checksum_laws crc32_update crc32_byte_update"
  and checksum_laws_16: "checksum_laws crc16_buffer_update crc16_update"
  by (simp_all add: checksum_laws_def crc32_update_serial)

lemma checksum_snoc: "checksum_laws u u1 \<Longrightarrow> u c (xs @ ys) = u (u c xs) ys"
  by (induction xs arbitrary: c) (simp_all add: checksum_laws_def)

lemma put_span_nil: "storing limit v \<Longrightarrow> rx_put_span u limit [] v = Some v"
  by (simp add: storing_def rx_put_span_def)

lemma put_span_Cons:
  assumes "storing limit v" "checksum_laws u u1"
  shows "rx_put_span u limit (c # s) v = Option.bind (rx_put_octet u u1 limit c v) (rx_put_span u limit s)"
proof (cases "rd_used v < limit")
  case True
  then have o: "\<not> rd_overflow v" using assms(1) by (auto simp: storing_def)
  obtain p where p: "mem_store (rd_p v) (rd_used v) [c] = Some p" "length p = length (rd_p v)"
    using True assms(1) by (auto simp: storing_def mem_store_def)
  have d: "limit - rd_used v = Suc (limit - Suc (rd_used v))" using True by simp
  have m: "mem_store (rd_p v) (rd_used v) (c # xs) = mem_store p (Suc (rd_used v)) xs" for xs
    using mem_store_Cons [of "rd_p v" "rd_used v" c xs] p(1) by simp
  show ?thesis
    using True p(1) by (simp add: rx_put_span_def rx_put_octet_def d m rx_overflow_crc_def o Let_def split: if_splits)
next
  case False
  then have l: "rd_used v = limit" "limit \<le> length (rd_p v)" using assms(1) by (auto simp: storing_def)
  show ?thesis
    using l assms(2)
    by (cases v; cases s) (auto simp: rx_put_span_def rx_put_octet_def rx_overflow_crc_def checksum_laws_def Let_def)
qed

text \<open>The variables after a payload: what fits is stored, the checksum covers all of it.\<close>

lemma put_span_result:
  assumes "limit \<le> length p" "checksum_laws u u1"
  shows "\<exists>v'. rx_put_span u limit s \<lparr>rd_p = p, rd_used = 0, rd_crc = c, rd_overflow = False\<rparr> = Some v' \<and>
    rd_used v' = min limit (length s) \<and> rx_overflow_crc u v' = u c s \<and>
    rd_overflow v' = (limit < length s) \<and> rd_p v' = take limit s @ drop (min limit (length s)) p"
proof -
  have "u (u c (take limit s)) (drop limit s) = u c s"
    using checksum_snoc [OF assms(2), of c "take limit s" "drop limit s"] by simp
  note u = this
  let ?v = "\<lparr>rd_p = p, rd_used = 0, rd_crc = c, rd_overflow = False\<rparr>"
  show ?thesis
  proof (cases "limit < length s")
    case True
    then have "mem_store p 0 (take limit s) = Some (take limit s @ drop limit p)"
      using assms(1) by (simp add: mem_store_def min_def)
    then have "rx_put_span u limit s ?v = Some \<lparr>rd_p = take limit s @ drop limit p, rd_used = limit,
        rd_crc = u (u c (take limit s)) (drop limit s), rd_overflow = True\<rparr>"
      using True by (simp add: rx_put_span_def Let_def rx_overflow_crc_def min_def)
    then show ?thesis using True u by (simp add: rx_overflow_crc_def)
  next
    case False
    then have "mem_store p 0 s = Some (s @ drop (length s) p)"
      using assms(1) by (simp add: mem_store_def)
    then have "rx_put_span u limit s ?v = Some \<lparr>rd_p = s @ drop (length s) p, rd_used = length s,
        rd_crc = c, rd_overflow = False\<rparr>"
      using False by (simp add: rx_put_span_def Let_def)
    then show ?thesis using False by (simp add: rx_overflow_crc_def min_def)
  qed
qed

section \<open>Checksum octets\<close>

lemma u8_bit_high: "8 \<le> k \<Longrightarrow> \<not> bit (x :: u8) (k + n)"
  using bit_imp_le_length [of x "k + n"] by auto

lemma le_bytes_inj: "le_bytes v = le_bytes w \<Longrightarrow> v = w"
proof -
  assume a: "le_bytes v = le_bytes w"
  have e: "le_word (le_bytes x ! 0) (le_bytes x ! 1) (le_bytes x ! 2) (le_bytes x ! 3) = x" for x
    by (simp add: le_bytes_def le_word_le_bytes)
  show "v = w" using e [of v] e [of w] unfolding a by simp
qed

lemma le_bytes_surj: "length xs = 4 \<Longrightarrow> \<exists>w. xs = le_bytes w"
proof -
  assume "length xs = 4"
  then obtain a b c d where x: "xs = [a, b, c, d]" by (auto simp: length_Suc_conv eval_nat_numeral)
  have "xs = le_bytes (le_word a b c d)"
    unfolding x le_bytes_def le_word_def
    by (auto intro!: bit_word_eqI simp: bit_simps u8_bit_high)
  then show ?thesis ..
qed

lemma be_bytes16_inj: "be_bytes16 v = be_bytes16 w \<Longrightarrow> v = w"
proof -
  assume a: "be_bytes16 v = be_bytes16 w"
  have e: "push_bit 8 (ucast (be_bytes16 x ! 0)) OR ucast (be_bytes16 x ! 1) = x" for x
    using be_word [of x] by (simp add: be_bytes16_def)
  show "v = w" using e [of v] e [of w] unfolding a by simp
qed

lemma be_bytes16_surj: "length xs = 2 \<Longrightarrow> \<exists>w. xs = be_bytes16 w"
proof -
  assume "length xs = 2"
  then obtain a b where x: "xs = [a, b]" by (auto simp: length_Suc_conv eval_nat_numeral)
  have "xs = be_bytes16 (push_bit 8 (ucast a) OR ucast b)"
    unfolding x be_bytes16_def
    by (auto intro!: bit_word_eqI simp: bit_simps u8_bit_high)
  then show ?thesis ..
qed

section \<open>The receive loop on encoded octets\<close>

text \<open>The octets of a subpacket with any checksum octets, and what follows it on the line.\<close>

definition subpacket_octets :: "'s zmodem \<Rightarrow> int \<Rightarrow> u8 \<Rightarrow> u8 list \<Rightarrow> u8 list \<Rightarrow> u8 list" where
  "subpacket_octets s previous type p crc =
     codes (code s) previous p @ [ZDLE, type] @ codes (code s) (low7 type) crc"

lemma plain_data_wire_octets:
  "plain_data_wire s previous type p =
     subpacket_octets s previous type p (subpacket_crc s type p) @ (if type = ZCRCW then [XON] else [])"
  by (simp add: plain_data_wire_def subpacket_octets_def)

definition frame_result :: "u8 \<Rightarrow> int" where
  "frame_result type = (if type = ZCRCG \<or> type = ZCRCQ then ZMODEM_FRAME_OK else ZMODEM_END_OF_FRAME)"

context octet_source
begin

lemma skip_skip: "rx_cursor_skip m (rx_cursor_skip n cur) = rx_cursor_skip (n + m) cur"
  by (simp add: rx_cursor_skip_def)

lemma skip_data:
  assumes "rx_cursor_data z cur = Some (b # d)"
  shows "rx_cursor_data z (rx_cursor_skip 1 cur) = Some d"
proof -
  have 1: "cur_index cur + cur_count cur \<le> length (input_buffer z)"
    "take (cur_count cur) (drop (cur_index cur) (input_buffer z)) = b # d"
    using assms by (auto simp: rx_cursor_data_def split: if_splits)
  obtain n where n: "cur_count cur = Suc n" using 1(2) by (cases "cur_count cur") auto
  have "cur_index cur < length (input_buffer z)" using 1(1) n by simp
  then have "take n (drop (Suc (cur_index cur)) (input_buffer z)) = d"
    using 1(2) unfolding n by (simp add: Cons_nth_drop_Suc [symmetric])
  then show ?thesis
    using 1(1) n by (simp add: rx_cursor_data_def rx_cursor_skip_def)
qed

lemma loop_next:
  assumes "rx_cursor_data z cur = Some d" "rx_plain_span z d = 0"
    "rx_cursor_next t z cur = Some (uint (c :: u8), z', cur')" "rx_put_octet u u1 limit c v = Some v1"
  shows "rx_data_loop t u u1 limit z cur v = rx_data_loop t u u1 limit z' cur' v1"
  using assms uint_u8_bounds [of c] by (subst rx_data_loop.simps) (simp del: uint_u8_bounds)

lemma loop_plain:
  assumes "at z0 (b # bs) k z cur" "\<not> rx_needs_slow_path z0 (uint b)" "storing limit v" "checksum_laws u u1"
    "rx_put_octet u u1 limit b v = Some v1"
  shows "\<exists>z' cur'. rx_data_loop t u u1 limit z cur v = rx_data_loop t u u1 limit z' cur' v1 \<and> at z0 bs 0 z' cur'"
proof -
  obtain d rest where d: "rx_cursor_data z cur = Some d" "b # bs = d @ rest"
    using cursor_data_at [OF assms(1)] by blast
  have slow: "rx_needs_slow_path z = rx_needs_slow_path z0" using rx_moved_decoder(1) [OF at_moved [OF assms(1)]] .
  show ?thesis
  proof (cases d)
    case Nil
    then have "rx_plain_span z d = 0" by (simp add: rx_plain_span_takeWhile)
    then show ?thesis using next_plain [OF assms(1,2), of t] loop_next [OF d(1) _ _ assms(5)] by blast
  next
    case (Cons b' d')
    then have b: "b' = b" using d(2) by simp
    let ?m = "rx_plain_span z d'"
    have span: "rx_plain_span z d = Suc ?m" using assms(2) by (simp add: rx_plain_span_takeWhile Cons b slow)
    have a: "at z0 bs 0 z (rx_cursor_skip 1 cur)" using skip_at [OF assms(1) d(1), of 1] Cons by simp
    have v1: "storing limit v1" using storing_octet [OF assms(3,5)] .
    have "rx_data_loop t u u1 limit z cur v =
        Option.bind (rx_put_span u limit (take ?m d') v1) (rx_data_loop t u u1 limit z (rx_cursor_skip (Suc ?m) cur))"
      using d(1) span put_span_Cons [OF assms(3,4), of b "take ?m d'"] assms(5)
      by (subst rx_data_loop.simps) (simp add: Cons b)
    also have "\<dots> = rx_data_loop t u u1 limit z (rx_cursor_skip 1 cur) v1"
    proof (cases "0 < ?m")
      case True
      then show ?thesis
        using skip_data [of z cur b d'] d(1) skip_skip [of ?m 1 cur]
        by (subst rx_data_loop.simps [of _ _ _ _ z "rx_cursor_skip 1 cur"]) (simp add: Cons b)
    next
      case False
      then show ?thesis using put_span_nil [OF v1] by simp
    qed
    finally show ?thesis using a by blast
  qed
qed

lemma span_zdle:
  assumes "at z0 (ZDLE # bs) k z cur"
  obtains d where "rx_cursor_data z cur = Some d" "rx_plain_span z d = 0"
proof -
  obtain d rest where d: "rx_cursor_data z cur = Some d" "ZDLE # bs = d @ rest"
    using cursor_data_at [OF assms] by blast
  then have "d = [] \<or> hd d = ZDLE" by (cases d) auto
  then have "rx_plain_span z d = 0"
    using zdle_slow [of z] by (cases d) (auto simp: rx_plain_span_takeWhile simp del: zdle_slow)
  then show thesis using that d(1) by blast
qed

lemma loop_code:
  assumes "at z0 (code s p c @ bs) k z cur" "calm z0 k" "matched s z0" "storing limit v" "checksum_laws u u1"
    "rx_put_octet u u1 limit c v = Some v1"
  shows "\<exists>z' cur'. rx_data_loop t u u1 limit z cur v = rx_data_loop t u u1 limit z' cur' v1 \<and> at z0 bs 0 z' cur'"
proof (cases rule: code_cases [OF assms(3), of p c])
  case 1
  then show ?thesis using loop_plain [of z0 c bs k z cur, OF _ 1(2) assms(4-6)] assms(1) by simp
next
  case (2 d)
  have a: "at z0 (ZDLE # d # bs) k z cur" using assms(1) 2(1) by simp
  obtain data where data: "rx_cursor_data z cur = Some data" "rx_plain_span z data = 0"
    using span_zdle [OF a] .
  obtain z' cur' where "rx_cursor_next t z cur = Some (uint c, z', cur')" "at z0 bs 0 z' cur'"
    using next_code [OF assms(1-3)] by blast
  then show ?thesis using loop_next [OF data _ assms(6)] by blast
qed

lemma loop_codes:
  assumes "at z0 (codes (code s) p cs @ bs) k z cur" "calm z0 k" "matched s z0" "storing limit v" "checksum_laws u u1"
    "rx_put_span u limit cs v = Some v'"
  shows "\<exists>z' cur' k'. rx_data_loop t u u1 limit z cur v = rx_data_loop t u u1 limit z' cur' v' \<and>
    at z0 bs k' z' cur' \<and> calm z0 k'"
  using assms(1,2,4,6)
proof (induction cs arbitrary: p k z cur v)
  case Nil
  have "v' = v" using put_span_nil [OF Nil.prems(3), of u] Nil.prems(4) by simp
  then show ?case using Nil.prems(1,2) by auto
next
  case (Cons c cs)
  obtain v1 where v1: "rx_put_octet u u1 limit c v = Some v1" "rx_put_span u limit cs v1 = Some v'"
    using Cons.prems(4) put_span_Cons [OF Cons.prems(3) assms(5), of c cs] by (cases "rx_put_octet u u1 limit c v") auto
  have "at z0 (code s p c @ codes (code s) (low7 (last (code s p c))) cs @ bs) k z cur"
    using Cons.prems(1) by simp
  from loop_code [OF this Cons.prems(2) assms(3) Cons.prems(3) assms(5) v1(1)]
  obtain z1 cur1 where 1: "rx_data_loop t u u1 limit z cur v = rx_data_loop t u u1 limit z1 cur1 v1"
    "at z0 (codes (code s) (low7 (last (code s p c))) cs @ bs) 0 z1 cur1" by blast
  from Cons.IH [OF 1(2) _ storing_octet [OF Cons.prems(3) v1(1)] v1(2)] show ?case
    unfolding 1(1) by simp
qed

lemma loop_frame:
  assumes "at z0 (codes (code s) p cs @ ZDLE # type # bs) k z cur" "calm z0 k" "matched s z0"
    "storing limit v" "checksum_laws u u1" "rx_put_span u limit cs v = Some v'" "is_frame_end type"
  shows "\<exists>z' cur'. rx_data_loop t u u1 limit z cur v = Some (uint type OR RX_FRAME_END_FLAG, z', cur', v') \<and>
    at z0 bs 0 z' cur'"
proof -
  obtain z1 cur1 k1 where 1: "rx_data_loop t u u1 limit z cur v = rx_data_loop t u u1 limit z1 cur1 v'"
    "at z0 (ZDLE # type # bs) k1 z1 cur1" "calm z0 k1"
    using loop_codes [OF assms(1-6)] by blast
  obtain z2 cur2 where 2: "rx_cursor_next t z1 cur1 = Some (uint type OR RX_FRAME_END_FLAG, z2, cur2)"
    "at z0 bs 0 z2 cur2"
    using next_frame_end [OF 1(2,3) matched_legacy [OF assms(3)] assms(7)] by blast
  obtain d where d: "rx_cursor_data z1 cur1 = Some d" "rx_plain_span z1 d = 0" using span_zdle [OF 1(2)] .
  have "255 < uint type OR 256" using assms(7) by (auto simp: is_frame_end_def)
  then have "rx_data_loop t u u1 limit z1 cur1 v' = Some (uint type OR RX_FRAME_END_FLAG, z2, cur2, v')"
    using d 2(1) by (subst rx_data_loop.simps) simp
  then show ?thesis using 1(1) 2(2) by auto
qed

section \<open>Whole subpackets\<close>

lemma input_at: "input z bs z \<Longrightarrow> \<exists>k. at z bs k z (load_rx_cursor z) \<and> calm z k"
  by (auto simp: input_def queued_def)

lemma input_store: "at z bs 0 z' cur \<Longrightarrow> input z bs (store_rx_cursor cur z')"
  unfolding input_def using queued_store [of z bs 0 z' cur] calm_0 by blast

lemma frame_octet: "is_frame_end type \<Longrightarrow> (word_of_int (uint type OR RX_FRAME_END_FLAG) :: u8) = type \<and>
    \<not> uint type OR RX_FRAME_END_FLAG < 0"
  by (auto simp: is_frame_end_def)

lemma rx_32_data_wire:
  assumes "matched s z" "input z (subpacket_octets s previous type p (le_bytes w) @ bs) z"
    "is_frame_end type" "capacity \<le> length buf"
  shows "\<exists>z'. rx_32_data buf capacity 0 z =
      Some (if w = NOT (crc32_update_reduced (- 1) (p @ [type])) \<and> length p \<le> rx_limit capacity
            then uint type else ZMODEM_INVALID_DATA, z',
            take (rx_limit capacity) p @ drop (min (rx_limit capacity) (length p)) buf,
            min (rx_limit capacity) (length p)) \<and> input z bs z'"
proof -
  let ?limit = "rx_limit capacity"
  have limit: "?limit \<le> length buf" using assms(4) by (simp add: rx_limit_def)
  let ?v = "\<lparr>rd_p = buf, rd_used = 0, rd_crc = - 1, rd_overflow = False\<rparr> :: u32 rx_data_vars"
  obtain v' where v: "rx_put_span crc32_update ?limit p ?v = Some v'" "rd_used v' = min ?limit (length p)"
    "rx_overflow_crc crc32_update v' = crc32_update (- 1) p" "rd_overflow v' = (?limit < length p)"
    "rd_p v' = take ?limit p @ drop (min ?limit (length p)) buf"
    using put_span_result [OF limit checksum_laws_32] by blast
  obtain k where k: "at z (subpacket_octets s previous type p (le_bytes w) @ bs) k z (load_rx_cursor z)" "calm z k"
    using input_at [OF assms(2)] by blast
  have "at z (codes (code s) previous p @ ZDLE # type # codes (code s) (low7 type) (le_bytes w) @ bs) k z (load_rx_cursor z)"
    using k(1) by (simp add: subpacket_octets_def)
  from loop_frame [where t = 1000, OF this k(2) assms(1) _ checksum_laws_32 v(1) assms(3)] limit
  obtain z1 cur1 where 1: "rx_data_loop 1000 crc32_update crc32_byte_update ?limit z (load_rx_cursor z) ?v =
      Some (uint type OR RX_FRAME_END_FLAG, z1, cur1, v')"
    "at z (codes (code s) (low7 type) (le_bytes w) @ bs) 0 z1 cur1"
    by (auto simp: storing_def)
  obtain z2 where 2: "rx_crc32 1000 ZMODEM_INVALID_DATA (store_rx_cursor cur1 z1) = Some (0, w, z2)" "input z bs z2"
    using rx_crc32_code [OF assms(1) input_store [OF 1(2)]] by blast
  show ?thesis
    using 1(1) 2 v(2-5) frame_octet [OF assms(3)]
    by (auto simp: rx_32_data_def Let_def crc32_update_serial crc32_reduced_append)
qed

lemma rx_16_data_wire:
  assumes "matched s z" "input z (subpacket_octets s previous type p (be_bytes16 w) @ bs) z"
    "is_frame_end type" "capacity \<le> length buf"
  shows "\<exists>z'. rx_16_data buf capacity 0 z =
      Some (if w = crc16_buffer_update 0 (p @ [type, 0, 0]) \<and> length p \<le> rx_limit capacity
            then uint type else ZMODEM_INVALID_DATA, z',
            take (rx_limit capacity) p @ drop (min (rx_limit capacity) (length p)) buf,
            min (rx_limit capacity) (length p)) \<and> input z bs z'"
proof -
  let ?limit = "rx_limit capacity"
  have limit: "?limit \<le> length buf" using assms(4) by (simp add: rx_limit_def)
  let ?v = "\<lparr>rd_p = buf, rd_used = 0, rd_crc = 0, rd_overflow = False\<rparr> :: u16 rx_data_vars"
  obtain v' where v: "rx_put_span crc16_buffer_update ?limit p ?v = Some v'" "rd_used v' = min ?limit (length p)"
    "rx_overflow_crc crc16_buffer_update v' = crc16_buffer_update 0 p" "rd_overflow v' = (?limit < length p)"
    "rd_p v' = take ?limit p @ drop (min ?limit (length p)) buf"
    using put_span_result [OF limit checksum_laws_16] by blast
  obtain k where k: "at z (subpacket_octets s previous type p (be_bytes16 w) @ bs) k z (load_rx_cursor z)" "calm z k"
    using input_at [OF assms(2)] by blast
  have "at z (codes (code s) previous p @ ZDLE # type # codes (code s) (low7 type) (be_bytes16 w) @ bs) k z (load_rx_cursor z)"
    using k(1) by (simp add: subpacket_octets_def)
  from loop_frame [where t = 5000, OF this k(2) assms(1) _ checksum_laws_16 v(1) assms(3)] limit
  obtain z1 cur1 where 1: "rx_data_loop 5000 crc16_buffer_update crc16_update ?limit z (load_rx_cursor z) ?v =
      Some (uint type OR RX_FRAME_END_FLAG, z1, cur1, v')"
    "at z (codes (code s) (low7 type) (be_bytes16 w) @ bs) 0 z1 cur1"
    by (auto simp: storing_def)
  obtain z2 where 2: "rx_crc16 1000 ZMODEM_INVALID_DATA (store_rx_cursor cur1 z1) = Some (0, w, z2)" "input z bs z2"
    using rx_crc16_code [OF assms(1) input_store [OF 1(2)]] by blast
  show ?thesis
    using 1(1) 2 v(2-5) frame_octet [OF assms(3)]
    by (auto simp: rx_16_data_def Let_def crc16_buffer_snoc)
qed

text \<open>\<open>rx_data\<close> on a plain subpacket with any checksum: it is accepted exactly when the checksum
  octets are the sender's and the payload fits.\<close>

lemma rx_data_wire:
  assumes m: "matched s z" and i: "input z (subpacket_octets s previous type p crc @ bs) z"
    and "is_frame_end type" "capacity \<le> length buf"
    and "receive_encoded_data z = ZMODEM_ENCODED_DATA_NONE" "receive_32_bit_data z = uses_crc32 s"
    and len: "length crc = length (subpacket_crc s type p)"
  shows "\<exists>z'. rx_data buf capacity z =
      Some (if crc = subpacket_crc s type p \<and> length p \<le> rx_limit capacity then frame_result type
            else ZMODEM_INVALID_DATA, z',
            take (rx_limit capacity) p @ drop (min (rx_limit capacity) (length p)) buf,
            min (rx_limit capacity) (length p),
            if crc = subpacket_crc s type p \<and> length p \<le> rx_limit capacity then type else 0) \<and>
      input z bs z'"
proof (cases "uses_crc32 s")
  case True
  let ?c = "NOT (crc32_update_reduced (- 1) (p @ [type]))"
  have c: "subpacket_crc s type p = le_bytes ?c" using True by (simp add: subpacket_crc_def)
  obtain w where w: "crc = le_bytes w" using len le_bytes_surj [of crc] unfolding c by auto
  have e: "crc = subpacket_crc s type p \<longleftrightarrow> w = ?c" unfolding c w using le_bytes_inj by blast
  obtain z' where z': "rx_32_data buf capacity 0 z = Some (if w = ?c \<and> length p \<le> rx_limit capacity
      then uint type else ZMODEM_INVALID_DATA, z',
      take (rx_limit capacity) p @ drop (min (rx_limit capacity) (length p)) buf,
      min (rx_limit capacity) (length p))" "input z bs z'"
    using rx_32_data_wire [OF m i [unfolded w] assms(3,4)] by blast
  show ?thesis
    using z'(2) assms(3) True
    unfolding rx_data_def assms(5,6) e z'(1) is_frame_end_def
    by (cases "w = ?c \<and> length p \<le> rx_limit capacity") (auto simp: frame_result_def)
next
  case False
  let ?c = "crc16_buffer_update 0 (p @ [type, 0, 0])"
  have c: "subpacket_crc s type p = be_bytes16 ?c" using False by (simp add: subpacket_crc_def)
  obtain w where w: "crc = be_bytes16 w" using len be_bytes16_surj [of crc] unfolding c by (auto simp: be_bytes16_def)
  have e: "crc = subpacket_crc s type p \<longleftrightarrow> w = ?c" unfolding c w using be_bytes16_inj by blast
  obtain z' where z': "rx_16_data buf capacity 0 z = Some (if w = ?c \<and> length p \<le> rx_limit capacity
      then uint type else ZMODEM_INVALID_DATA, z',
      take (rx_limit capacity) p @ drop (min (rx_limit capacity) (length p)) buf,
      min (rx_limit capacity) (length p))" "input z bs z'"
    using rx_16_data_wire [OF m i [unfolded w] assms(3,4)] by blast
  show ?thesis
    using z'(2) assms(3) False
    unfolding rx_data_def assms(5,6) e z'(1) is_frame_end_def
    by (cases "w = ?c \<and> length p \<le> rx_limit capacity") (auto simp: frame_result_def)
qed

end

end
