(* ===== verification/Decode_Header.thy ===== *)
theory Decode_Header
  imports Decode_Data Rx_Total_Header
begin

text \<open>
  Headers sent by \<open>tx_header_length\<close> and received by \<open>rx_header_raw\<close>: the receiver recognises
  the style, stores the header, and sets up the reception of the data that follows.
\<close>

declare split_paired_Ex [simp del] split_paired_All [simp del]

section \<open>Updates of the state between two reads\<close>

lemma rx_moved_update:
  assumes "rx_moved z z'"
    and "\<And>ctx buf n i k. f (set_context ctx (z\<lparr>input_buffer := buf, input_count := n, input_index := i, cancel_count := k\<rparr>)) =
      set_context ctx ((f z)\<lparr>input_buffer := buf, input_count := n, input_index := i, cancel_count := k\<rparr>)"
  shows "rx_moved (f z) (f z')"
proof -
  obtain ctx buf n i k where
    z': "z' = set_context ctx (z\<lparr>input_buffer := buf, input_count := n, input_index := i, cancel_count := k\<rparr>)"
    using assms(1) unfolding rx_moved_def by blast
  show ?thesis unfolding z' assms(2) unfolding rx_moved_def by blast
qed

lemma rx_moved_header: "rx_moved z z' \<Longrightarrow> rx_moved (z\<lparr>rxd_header := h\<rparr>) (z'\<lparr>rxd_header := h\<rparr>)"
  and rx_moved_len: "rx_moved z z' \<Longrightarrow> rx_moved (z\<lparr>rxd_header_len := l\<rparr>) (z'\<lparr>rxd_header_len := l\<rparr>)"
  and rx_moved_32: "rx_moved z z' \<Longrightarrow> rx_moved (z\<lparr>receive_32_bit_data := b\<rparr>) (z'\<lparr>receive_32_bit_data := b\<rparr>)"
  and rx_moved_encoded: "rx_moved z z' \<Longrightarrow> rx_moved (z\<lparr>receive_encoded_data := e\<rparr>) (z'\<lparr>receive_encoded_data := e\<rparr>)"
  and rx_moved_escape8: "rx_moved z z' \<Longrightarrow> rx_moved (z\<lparr>receive_escape8_format := f\<rparr>) (z'\<lparr>receive_escape8_format := f\<rparr>)"
  and rx_moved_mobyturbo: "rx_moved z z' \<Longrightarrow> rx_moved (z\<lparr>receive_mobyturbo := b\<rparr>) (z'\<lparr>receive_mobyturbo := b\<rparr>)"
  and rx_moved_probe: "rx_moved z z' \<Longrightarrow> rx_moved (z\<lparr>mobyturbo_probe_passed := b\<rparr>) (z'\<lparr>mobyturbo_probe_passed := b\<rparr>)"
  by (erule rx_moved_update, rule zmodem.equality, simp_all add: set_context_def)+

lemmas rx_moved_updates = rx_moved_header rx_moved_len rx_moved_32 rx_moved_encoded rx_moved_escape8
  rx_moved_mobyturbo rx_moved_probe

definition stored :: "u8 list \<Rightarrow> 'c zmodem \<Rightarrow> 'c zmodem" where
  "stored h z = z\<lparr>rxd_header := h @ drop (length h) (rxd_header z), rxd_header_len := length h\<rparr>"

text \<open>A header is a prefix, the style, a body, and XON after some hexadecimal headers.\<close>

definition header_style :: "'s zmodem \<Rightarrow> u8 list \<Rightarrow> u8" where
  "header_style s h =
     (if use_mobyturbo s then ZBINM32
      else if can_fcs_32 s \<and> want_fcs_32 s then (if length h \<noteq> HDRLEN then ZVBIN32 else ZBIN32)
      else if can_fcs_32 s then (if length h \<noteq> HDRLEN then ZVBIN else ZBIN)
      else if length h \<noteq> HDRLEN then ZVHEX else ZHEX)"

definition header_body :: "'s zmodem \<Rightarrow> u8 list \<Rightarrow> u8 list" where
  "header_body s h =
     (let style = header_style s h
      in if use_mobyturbo s then codes (code s) (low7 style) (word_of_nat (length h - 1) # h @ salted_crc32 h)
         else if can_fcs_32 s \<and> want_fcs_32 s then
           codes (code s) (low7 style) (count_code h @ h @ le_bytes (NOT (crc32_update_reduced (- 1) h)))
         else if can_fcs_32 s then codes (code s) (low7 style) (count_code h @ h @ be_bytes16 (crc16_of h))
         else concat (map hex_code (count_code h @ h @ be_bytes16 (crc16_of h))) @ [CR, LF])"

definition header_trailer :: "'s zmodem \<Rightarrow> u8 list \<Rightarrow> u8 list" where
  "header_trailer s h =
     (if \<not> escape_8th_bit s \<and> \<not> use_mobyturbo s \<and> \<not> can_fcs_32 s \<and> hd h \<noteq> ZACK \<and> hd h \<noteq> ZFIN then [XON] else [])"

lemma header_wire_parts:
  "\<not> escape_8th_bit s \<Longrightarrow> header_wire s h =
     (if use_mobyturbo s then [ZPAD, ZDLE] else [ZPAD, ZPAD, ZDLE]) @ header_style s h # header_body s h @ header_trailer s h"
  by (auto simp: header_wire_def mobyturbo_header_wire_def bin32_header_wire_def bin16_header_wire_def
      hex_header_wire_def header_style_def header_body_def header_trailer_def Let_def count_code_def)

definition accepted :: "'s zmodem \<Rightarrow> u8 list \<Rightarrow> 'c zmodem \<Rightarrow> 'c zmodem" where
  "accepted s h z = (stored h z)\<lparr>receive_mobyturbo := use_mobyturbo s, receive_32_bit_data := uses_crc32 s,
     receive_encoded_data := ZMODEM_ENCODED_DATA_NONE,
     receive_escape8_format := (if use_mobyturbo s then ZMODEM_ESCAPE8_NONE else receive_escape8_format z)\<rparr>"

text \<open>The settings of the two ends agree, but for what a header selects.\<close>

definition agreed :: "'s zmodem \<Rightarrow> 'c zmodem \<Rightarrow> bool" where
  "agreed s z \<longleftrightarrow> receive_escape8_format z \<noteq> ZMODEM_ESCAPE8_LEGACY \<and>
     (receive_escaped_control_characters z \<longrightarrow> escape_all_control_characters s)"

lemma agreed_matched:
  "\<not> escape_8th_bit s \<Longrightarrow> receive_mobyturbo z = use_mobyturbo s \<Longrightarrow> agreed s z \<Longrightarrow> matched s z"
  by (simp add: agreed_def matched_def)

lemma nibble_cases:
  assumes "n < (16 :: u8)"
  shows "n \<in> {0, 1, 2, 3, 4, 5, 6, 7, 8, 9, 10, 11, 12, 13, 14, 15}"
proof -
  have "unat n < 16" using assms by (simp add: word_less_nat_alt)
  then have "unat n = 0 \<or> unat n = 1 \<or> unat n = 2 \<or> unat n = 3 \<or> unat n = 4 \<or> unat n = 5 \<or>
      unat n = 6 \<or> unat n = 7 \<or> unat n = 8 \<or> unat n = 9 \<or> unat n = 10 \<or> unat n = 11 \<or> unat n = 12 \<or>
      unat n = 13 \<or> unat n = 14 \<or> unat n = 15"
    by arith
  then show ?thesis by (elim disjE) (simp_all add: word_unat_eq_iff)
qed

lemma nibbles: "drop_bit 4 c < (16 :: u8)" "c AND 0x0f < (16 :: u8)"
  "push_bit 4 (uint (drop_bit 4 c)) OR uint (c AND 0x0f) = uint (c :: u8)"
proof -
  show "drop_bit 4 c < (16 :: u8)"
    using uint_u8_bounds(2) [of c]
    by (simp add: word_less_alt unsigned_drop_bit_eq drop_bit_eq_div uint_div del: uint_u8_bounds)
  show "c AND 0x0f < (16 :: u8)" using word_and_le1 [of c "0x0f"] by (simp add: word_le_less_eq) (auto simp: word_less_alt)
  show "push_bit 4 (uint (drop_bit 4 c)) OR uint (c AND 0x0f) = uint (c :: u8)"
  proof (rule bit_eqI)
    fix n
    have low: "bit (0x0f :: int) n \<longleftrightarrow> n < 4"
    proof -
      have m: "(0x0f :: int) = mask 4" by (simp add: mask_eq_exp_minus_1)
      show ?thesis unfolding m by (auto simp: bit_mask_iff)
    qed
    show "bit (push_bit 4 (uint (drop_bit 4 c)) OR uint (c AND 0x0f)) n = bit (uint c) n"
      by (cases "n < 4") (auto simp: bit_simps low dest: bit_imp_le_length)
  qed
qed

context octet_source
begin

abbreviation ready :: "u8 list \<Rightarrow> 'c zmodem \<Rightarrow> bool" where
  "ready bs z \<equiv> input z bs z"

lemma readyI: "queued bs 0 z \<Longrightarrow> ready bs z"
  using input_refl [OF _ calm_0] by blast

lemma ready_input: "input z0 bs z \<Longrightarrow> ready bs z"
  by (auto simp: input_def)

lemma queued_update [simp]:
  "queued bs k (z\<lparr>rxd_header := h\<rparr>) = queued bs k z"
  "queued bs k (z\<lparr>rxd_header_len := n\<rparr>) = queued bs k z"
  "queued bs k (z\<lparr>receive_32_bit_data := b\<rparr>) = queued bs k z"
  "queued bs k (z\<lparr>receive_encoded_data := e\<rparr>) = queued bs k z"
  "queued bs k (z\<lparr>receive_escape8_format := f\<rparr>) = queued bs k z"
  "queued bs k (z\<lparr>receive_mobyturbo := b\<rparr>) = queued bs k z"
  "queued bs k (z\<lparr>mobyturbo_probe_passed := b\<rparr>) = queued bs k z"
  by (simp_all add: queued_def on_line_def upcoming_def load_rx_cursor_def)

lemma calm_update [simp]:
  "calm (z\<lparr>rxd_header := h\<rparr>) k = calm z k" "calm (z\<lparr>rxd_header_len := n\<rparr>) k = calm z k"
  "calm (z\<lparr>receive_32_bit_data := b\<rparr>) k = calm z k" "calm (z\<lparr>receive_encoded_data := e\<rparr>) k = calm z k"
  "calm (z\<lparr>receive_escape8_format := f\<rparr>) k = calm z k" "calm (z\<lparr>mobyturbo_probe_passed := b\<rparr>) k = calm z k"
  by (simp_all add: calm_def)

lemma ready_update [simp]:
  "ready bs (z\<lparr>rxd_header := h\<rparr>) = ready bs z" "ready bs (z\<lparr>rxd_header_len := n\<rparr>) = ready bs z"
  "ready bs (z\<lparr>receive_32_bit_data := b\<rparr>) = ready bs z" "ready bs (z\<lparr>receive_encoded_data := e\<rparr>) = ready bs z"
  "ready bs (z\<lparr>receive_escape8_format := f\<rparr>) = ready bs z" "ready bs (z\<lparr>mobyturbo_probe_passed := b\<rparr>) = ready bs z"
  by (simp_all add: input_def)

section \<open>Octets of a header\<close>

text \<open>A reader for the octets of an encoder, in every state that satisfies \<open>ok\<close>.\<close>

definition reads_header :: "('c zmodem \<Rightarrow> bool) \<Rightarrow> ('c zmodem \<Rightarrow> (int \<times> 'c zmodem) option) \<Rightarrow>
    (int \<Rightarrow> u8 \<Rightarrow> u8 list) \<Rightarrow> bool" where
  "reads_header ok read g \<longleftrightarrow>
     (\<forall>z z'. ok z \<longrightarrow> rx_moved z z' \<longrightarrow> ok z') \<and> (\<forall>z h. ok z \<longrightarrow> ok (z\<lparr>rxd_header := h\<rparr>)) \<and>
     (\<forall>z p c bs. ok z \<longrightarrow> ready (g p c @ bs) z \<longrightarrow>
        (\<exists>z'. read z = Some (uint c, z') \<and> rx_moved z z' \<and> ready bs z'))"

lemma header_octets:
  assumes "reads_header ok read g"
  shows "ok z \<Longrightarrow> ready (codes g p cs @ bs) z \<Longrightarrow> i + length cs \<le> length (rxd_header z) \<Longrightarrow>
    \<exists>z'. rx_header_octets read upd i (length cs) crc z = Some (0, foldl upd crc cs, z') \<and>
      rx_moved (z\<lparr>rxd_header := take i (rxd_header z) @ cs @ drop (i + length cs) (rxd_header z)\<rparr>) z' \<and>
      ready bs z'"
proof (induction cs arbitrary: z p i crc)
  case Nil
  then show ?case by simp
next
  case (Cons c cs)
  have r: "ready (g p c @ codes g (low7 (last (g p c))) cs @ bs) z" using Cons.prems(2) by simp
  obtain z1 where 1: "read z = Some (uint c, z1)" "rx_moved z z1" "ready (codes g (low7 (last (g p c))) cs @ bs) z1"
    using assms Cons.prems(1) r unfolding reads_header_def by blast
  have h: "rxd_header z1 = rxd_header z" using rx_moved_fields(6) [OF 1(2)] .
  let ?h = "take i (rxd_header z) @ [c] @ drop (Suc i) (rxd_header z)"
  let ?z = "z1\<lparr>rxd_header := ?h\<rparr>"
  have m: "mem_store (rxd_header z1) i [c] = Some ?h" using Cons.prems(3) by (simp add: mem_store_def h)
  have ok: "ok ?z" using assms Cons.prems(1) 1(2) unfolding reads_header_def by blast
  have len: "Suc i + length cs \<le> length (rxd_header ?z)" using Cons.prems(3) by simp
  have "ready (codes g (low7 (last (g p c))) cs @ bs) ?z" using 1(3) by simp
  from Cons.IH [OF ok this len, of "upd crc c"] obtain z2 where
    2: "rx_header_octets read upd (Suc i) (length cs) (upd crc c) ?z = Some (0, foldl upd (upd crc c) cs, z2)"
    "rx_moved (?z\<lparr>rxd_header := take (Suc i) ?h @ cs @ drop (Suc i + length cs) ?h\<rparr>) z2" "ready bs z2"
    by auto
  have "take (Suc i) ?h @ cs @ drop (Suc i + length cs) ?h =
      take i (rxd_header z) @ (c # cs) @ drop (i + length (c # cs)) (rxd_header z)"
    using Cons.prems(3) by (simp add: min_def add.commute)
  then have "rx_moved (z1\<lparr>rxd_header := take i (rxd_header z) @ (c # cs) @ drop (i + length (c # cs)) (rxd_header z)\<rparr>) z2"
    using 2(2) by simp
  moreover have "rx_header_octets read upd i (length (c # cs)) crc z =
      Some (0, foldl upd crc (c # cs), z2)"
    using 1(1) m 2(1) by (simp add: not_less)
  ultimately show ?case using rx_moved_trans [OF rx_moved_header [OF 1(2)]] 2(3) by blast
qed

lemma reads_header_byte: "reads_header (matched s) (rx_byte t e) (code s)"
  unfolding reads_header_def
proof (intro conjI allI impI)
  show "matched s z \<Longrightarrow> rx_moved z z' \<Longrightarrow> matched s z'" for z z' by (rule matched_moved)
  show "matched s z \<Longrightarrow> matched s (z\<lparr>rxd_header := h\<rparr>)" for z h by (simp add: matched_def)
  fix z p c bs assume m: "matched s z" and r: "ready (code s p c @ bs) z"
  show "\<exists>z'. rx_byte t e z = Some (uint c, z') \<and> rx_moved z z' \<and> ready bs z'"
    using takesD [OF input_byte [OF m] TrueI r] ready_input by (auto simp: input_def)
qed

section \<open>Hexadecimal digits\<close>

lemma hex_digit_plain: "n < 16 \<Longrightarrow> \<not> rx_needs_slow_path z (uint (hex_digit n))"
  using nibble_cases [of n] unfolding slow_path_octet by (auto simp: hex_digit_def)

lemma hex_digit_value:
  assumes "n < 16"
  shows "uint (hex_digit n) AND 0x7f = uint (hex_digit n)"
    "(if 57 < uint (hex_digit n) then uint (hex_digit n) - 87 else uint (hex_digit n) - 48) = uint n"
    "57 < uint (hex_digit n) \<longrightarrow> 97 \<le> uint (hex_digit n) \<and> uint (hex_digit n) \<le> 102"
    "48 \<le> uint (hex_digit n)"
  using nibble_cases [OF assms] by (auto simp: hex_digit_def low7_def)

lemma rx_nibble_digit:
  assumes "ready (hex_digit n # bs) z" "n < 16"
  shows "\<exists>z'. rx_nibble t z = Some (uint n, z') \<and> rx_moved z z' \<and> ready bs z'"
proof -
  obtain k where "queued (hex_digit n # bs) k z" using assms(1) by (auto simp: input_def)
  then obtain z' where 1: "rx t z = Some (uint (hex_digit n), z')" "rx_moved z z'" "queued bs 0 z'"
    using rx_plain [OF _ hex_digit_plain [OF assms(2)]] by blast
  have "rx_byte t ZMODEM_INVALID_HEADER z = Some (uint (hex_digit n), z')"
    using 1(1) uint_u8_bounds [of "hex_digit n"] by (simp add: rx_byte_def rx_octet_result_def del: uint_u8_bounds)
  then have "rx_nibble t z = Some (uint n, z')"
    using hex_digit_value [OF assms(2)] uint_u8_bounds(1) [of "hex_digit n"]
    by (auto simp: rx_nibble_def Let_def not_less simp del: uint_u8_bounds split: if_splits)
  then show ?thesis using 1(2,3) readyI by blast
qed

lemma rx_hex_octet:
  assumes "ready (hex_code c @ bs) z"
  shows "\<exists>z'. rx_hex t z = Some (uint c, z') \<and> rx_moved z z' \<and> ready bs z'"
proof -
  have r: "ready (hex_digit (drop_bit 4 c) # hex_digit (c AND 0x0f) # bs) z" using assms by (simp add: hex_code_def)
  obtain z1 where 1: "rx_nibble t z = Some (uint (drop_bit 4 c), z1)" "rx_moved z z1"
    "ready (hex_digit (c AND 0x0f) # bs) z1" using rx_nibble_digit [OF r nibbles(1)] by blast
  obtain z2 where 2: "rx_nibble t z1 = Some (uint (c AND 0x0f), z2)" "rx_moved z1 z2" "ready bs z2"
    using rx_nibble_digit [OF 1(3) nibbles(2)] by blast
  have "rx_hex t z = Some (uint c, z2)"
    using 1(1) 2(1) nibbles(3) [of c] by (simp add: rx_hex_def not_less)
  then show ?thesis using rx_moved_trans [OF 1(2) 2(2)] 2(3) by blast
qed

lemma reads_header_hex: "reads_header (\<lambda>_. True) (rx_hex t) (\<lambda>_. hex_code)"
  using rx_hex_octet by (simp add: reads_header_def)

lemma codes_const: "codes (\<lambda>_. g) p cs = concat (map g cs)"
  by (induction cs arbitrary: p) simp_all

section \<open>Binary headers\<close>

lemma foldl_crc32: "foldl crc32_byte_update c h = crc32_update_reduced c h"
  by (induction h arbitrary: c) simp_all

lemma foldl_crc16: "foldl crc16_update c h = crc16_buffer_update c h"
  by (induction h arbitrary: c) simp_all

lemma matched_header: "matched s (z\<lparr>rxd_header := h\<rparr>) = matched s z"
  by (simp add: matched_def)

lemma rx_bin32_header_wire:
  assumes "matched s z" "length h \<le> length (rxd_header z)"
    "ready (codes (code s) q (h @ le_bytes (NOT (crc32_update_reduced (- 1) h))) @ bs) z"
  shows "\<exists>z'. rx_bin32_header t (length h) z = Some (ZMODEM_OK, z') \<and> rx_moved (stored h z) z' \<and> ready bs z'"
proof -
  let ?q = "last_sent_after (code s) q h"
  have r: "ready (codes (code s) q h @ codes (code s) ?q (le_bytes (NOT (crc32_update_reduced (- 1) h))) @ bs) z"
    using assms(3) by (simp add: codes_append)
  have len: "0 + length h \<le> length (rxd_header z)" using assms(2) by simp
  obtain z1 where 1: "rx_header_octets (rx_byte t ZMODEM_INVALID_HEADER) crc32_byte_update 0 (length h) (- 1) z =
      Some (0, crc32_update_reduced (- 1) h, z1)"
    "rx_moved (z\<lparr>rxd_header := h @ drop (length h) (rxd_header z)\<rparr>) z1"
    "ready (codes (code s) ?q (le_bytes (NOT (crc32_update_reduced (- 1) h))) @ bs) z1"
    using header_octets [OF reads_header_byte assms(1) r len, of t ZMODEM_INVALID_HEADER crc32_byte_update "- 1"]
    by (auto simp: foldl_crc32)
  have m: "matched s z1" using matched_moved [OF 1(2)] assms(1) by (simp add: matched_header)
  obtain z2 where 2: "rx_crc32 t ZMODEM_INVALID_HEADER z1 = Some (0, NOT (crc32_update_reduced (- 1) h), z2)"
    "input z1 bs z2"
    using rx_crc32_code [OF m 1(3)] by blast
  have "rx_bin32_header t (length h) z = Some (ZMODEM_OK, z2\<lparr>rxd_header_len := length h\<rparr>)"
    using 1(1) 2(1) by (simp add: rx_bin32_header_def)
  moreover have "rx_moved (stored h z) (z2\<lparr>rxd_header_len := length h\<rparr>)"
    using rx_moved_len [OF rx_moved_trans [OF 1(2)], of z2] 2(2) by (simp add: input_def stored_def)
  ultimately show ?thesis using ready_input [OF 2(2)] by auto
qed

lemma rx_bin16_header_wire:
  assumes "matched s z" "length h \<le> length (rxd_header z)"
    "ready (codes (code s) q (h @ be_bytes16 (crc16_of h)) @ bs) z"
  shows "\<exists>z'. rx_bin16_header t (length h) z = Some (ZMODEM_OK, z') \<and> rx_moved (stored h z) z' \<and> ready bs z'"
proof -
  let ?q = "last_sent_after (code s) q h"
  have r: "ready (codes (code s) q h @ codes (code s) ?q (be_bytes16 (crc16_of h)) @ bs) z"
    using assms(3) by (simp add: codes_append)
  have len: "0 + length h \<le> length (rxd_header z)" using assms(2) by simp
  obtain z1 where 1: "rx_header_octets (rx_byte t ZMODEM_INVALID_HEADER) crc16_update 0 (length h) 0 z =
      Some (0, crc16_buffer_update 0 h, z1)"
    "rx_moved (z\<lparr>rxd_header := h @ drop (length h) (rxd_header z)\<rparr>) z1"
    "ready (codes (code s) ?q (be_bytes16 (crc16_of h)) @ bs) z1"
    using header_octets [OF reads_header_byte assms(1) r len, of t ZMODEM_INVALID_HEADER crc16_update 0]
    by (auto simp: foldl_crc16)
  have m: "matched s z1" using matched_moved [OF 1(2)] assms(1) by (simp add: matched_header)
  obtain z2 where 2: "rx_crc16 1000 ZMODEM_INVALID_HEADER z1 = Some (0, crc16_of h, z2)" "input z1 bs z2"
    using rx_crc16_code [OF m 1(3)] by blast
  have "rx_bin16_header t (length h) z = Some (ZMODEM_OK, z2\<lparr>rxd_header_len := length h\<rparr>)"
    using 1(1) 2(1) by (simp add: rx_bin16_header_def crc16_of_eq)
  moreover have "rx_moved (stored h z) (z2\<lparr>rxd_header_len := length h\<rparr>)"
    using rx_moved_len [OF rx_moved_trans [OF 1(2)], of z2] 2(2) by (simp add: input_def stored_def)
  ultimately show ?thesis using ready_input [OF 2(2)] by auto
qed

lemma matched_mobyturbo:
  "matched s (z\<lparr>rxd_header_len := l\<rparr>) = matched s z" "matched s (z\<lparr>receive_32_bit_data := b\<rparr>) = matched s z"
  "matched s (z\<lparr>receive_encoded_data := e\<rparr>) = matched s z"
  by (simp_all add: matched_def)

lemma rx_mobyturbo_header_wire:
  assumes "matched s (z\<lparr>receive_mobyturbo := True\<rparr>)" "5 \<le> length h" "length h \<le> 17" "length (rxd_header z) = 17"
    "queued (codes (code s) q (word_of_nat (length h - 1) # h @ salted_crc32 h) @ bs) 0 z"
  shows "\<exists>z'. rx_mobyturbo_header t z = Some (ZMODEM_OK, z') \<and>
    rx_moved ((stored h (z\<lparr>receive_mobyturbo := True\<rparr>))\<lparr>receive_32_bit_data := True,
      receive_encoded_data := ZMODEM_ENCODED_DATA_NONE, receive_escape8_format := ZMODEM_ESCAPE8_NONE\<rparr>) z' \<and>
    ready bs z'"
proof -
  let ?n = "word_of_nat (length h - 1) :: u8"
  let ?z = "z\<lparr>receive_mobyturbo := True\<rparr>"
  obtain k where k: "length h = Suc k" using assms(2) by (cases "length h") auto
  have n: "uint ?n = int k" using assms(3) k by (simp add: unsigned_of_nat take_bit_nat_eq_self)
  let ?q1 = "low7 (last (code s q ?n))"
  let ?q2 = "last_sent_after (code s) ?q1 h"
  have "ready (codes (code s) q (?n # h @ salted_crc32 h) @ bs) ?z"
    using readyI [of _ ?z] assms(5) by (simp only: queued_update)
  then have r: "ready (code s q ?n @ codes (code s) ?q1 h @ codes (code s) ?q2 (salted_crc32 h) @ bs) ?z"
    by (simp add: codes_append)
  obtain z1 where 1: "rx_byte t ZMODEM_INVALID_HEADER ?z = Some (uint ?n, z1)"
    "input ?z (codes (code s) ?q1 h @ codes (code s) ?q2 (salted_crc32 h) @ bs) z1"
    using takesD [OF input_byte [OF assms(1)] TrueI r] by blast
  have mv: "rx_moved ?z z1" using 1(2) by (simp add: input_def)
  have m1: "matched s z1" using matched_moved [OF mv assms(1)] .
  have hd: "rxd_header z1 = rxd_header z" using rx_moved_fields(6) [OF mv] by simp
  have len: "0 + length h \<le> length (rxd_header z1)" using assms(3,4) hd by simp
  obtain z2 where 2: "rx_header_octets (rx_byte t ZMODEM_INVALID_HEADER) crc32_byte_update 0 (length h) (- 1) z1 =
      Some (0, crc32_update_reduced (- 1) h, z2)"
    "rx_moved (z1\<lparr>rxd_header := h @ drop (length h) (rxd_header z)\<rparr>) z2"
    "ready (codes (code s) ?q2 (salted_crc32 h) @ bs) z2"
    using header_octets [OF reads_header_byte m1 ready_input [OF 1(2)] len, of t ZMODEM_INVALID_HEADER crc32_byte_update "- 1"]
    by (auto simp: foldl_crc32 hd)
  have m2: "matched s z2" using matched_moved [OF 2(2)] m1 by (simp add: matched_header)
  let ?crc = "NOT (crc32_update_reduced (- 1) (h @ omen_header_crc_suffix))"
  obtain z3 where 3: "rx_le_octets (rx_byte t ZMODEM_INVALID_HEADER) 0 4 0 z2 = Some (0, ?crc, z3)" "input z2 bs z3"
    using le_octets_4 [OF input_byte [OF m2] TrueI] 2(3) unfolding salted_crc32_def by blast
  let ?u = "\<lambda>z. z\<lparr>rxd_header_len := length h, receive_32_bit_data := True,
      receive_encoded_data := ZMODEM_ENCODED_DATA_NONE, receive_escape8_format := ZMODEM_ESCAPE8_NONE\<rparr>"
  have "rx_mobyturbo_header t z = Some (ZMODEM_OK, ?u z3)"
    using 1(1) 2(1) 3(1) k assms(2,3) unfolding n
    by (simp add: rx_mobyturbo_header_def salted Let_def not_less
        del: rx_header_octets.simps rx_le_octets.simps)
  moreover have "rx_moved (?u (?z\<lparr>rxd_header := h @ drop (length h) (rxd_header z)\<rparr>)) (?u z3)"
    using rx_moved_trans [OF rx_moved_trans [OF rx_moved_header [OF mv] 2(2)], of z3] 3(2)
    by (intro rx_moved_updates) (simp add: input_def)
  moreover have "ready bs (?u z3)" using ready_input [OF 3(2)] by simp
  ultimately show ?thesis by (auto simp: stored_def)
qed

section \<open>Hexadecimal headers\<close>

lemma rx_hex_terminator_octet:
  assumes "ready (b # bs) z" "b \<noteq> CAN" "\<not> rx_is_flow_control (uint b)"
  shows "\<exists>z'. rx_hex_terminator_byte t z = Some (uint b, z') \<and> rx_moved z z' \<and> ready bs z'"
proof -
  obtain k where "queued (b # bs) k z" using assms(1) by (auto simp: input_def)
  then obtain z' where 1: "rx_raw t z = Some (uint b, z')" "rx_moved z z'" "queued bs 0 z'"
    using rx_raw_other [OF _ assms(2)] by blast
  then show ?thesis
    using assms(3) readyI [OF 1(3)] by (subst rx_hex_terminator_byte.simps) (auto simp: not_less)
qed

lemma rx_hex_header_wire:
  assumes "length h \<le> length (rxd_header z)"
    "ready (concat (map hex_code h) @ concat (map hex_code (be_bytes16 (crc16_of h))) @ [CR, LF] @ bs) z"
  shows "\<exists>z'. rx_hex_header t (length h) z = Some (ZMODEM_OK, z') \<and> rx_moved (stored h z) z' \<and> ready bs z'"
proof -
  let ?hi = "ucast (drop_bit 8 (crc16_of h)) :: u8" and ?lo = "ucast (crc16_of h) :: u8"
  have r: "ready (codes (\<lambda>_. hex_code) 0 h @ hex_code ?hi @ hex_code ?lo @ [CR, LF] @ bs) z"
    using assms(2) by (simp add: codes_const be_bytes16_def)
  have len: "0 + length h \<le> length (rxd_header z)" using assms(1) by simp
  obtain z1 where 1: "rx_header_octets (rx_hex t) crc16_update 0 (length h) 0 z = Some (0, crc16_buffer_update 0 h, z1)"
    "rx_moved (z\<lparr>rxd_header := h @ drop (length h) (rxd_header z)\<rparr>) z1"
    "ready (hex_code ?hi @ hex_code ?lo @ [CR, LF] @ bs) z1"
    using header_octets [OF reads_header_hex TrueI r len, of t crc16_update 0] by (auto simp: foldl_crc16)
  obtain z2 where 2: "rx_hex t z1 = Some (uint ?hi, z2)" "rx_moved z1 z2" "ready (hex_code ?lo @ [CR, LF] @ bs) z2"
    using rx_hex_octet [OF 1(3)] by blast
  obtain z3 where 3: "rx_hex t z2 = Some (uint ?lo, z3)" "rx_moved z2 z3" "ready (CR # LF # bs) z3"
    using rx_hex_octet [OF 2(3)] by auto
  obtain z4 where 4: "rx_hex_terminator_byte t z3 = Some (uint CR, z4)" "rx_moved z3 z4" "ready (LF # bs) z4"
    using rx_hex_terminator_octet [OF 3(3), of t] by (auto simp: rx_is_flow_control_def)
  obtain z5 where 5: "rx_hex_terminator_byte t z4 = Some (uint LF, z5)" "rx_moved z4 z5" "ready bs z5"
    using rx_hex_terminator_octet [OF 4(3), of t] by (auto simp: rx_is_flow_control_def)
  have "rx_hex_header t (length h) z = Some (ZMODEM_OK, z5\<lparr>rxd_header_len := length h\<rparr>)"
    using 1(1) 2(1) 3(1) 4(1) 5(1) be_word [of "crc16_of h"]
    by (simp add: rx_hex_header_def crc16_of_eq not_less)
  moreover have "rx_moved (stored h z) (z5\<lparr>rxd_header_len := length h\<rparr>)"
    using rx_moved_len [OF rx_moved_trans [OF 1(2) rx_moved_trans [OF 2(2) rx_moved_trans [OF 3(2)
      rx_moved_trans [OF 4(2) 5(2)]]]]] by (simp add: stored_def)
  ultimately show ?thesis using 5(3) by auto
qed

section \<open>Headers that announce their length\<close>

lemma stored_moved: "rx_moved z z' \<Longrightarrow> rx_moved (stored h z) (stored h z')"
proof -
  assume m: "rx_moved z z'"
  show ?thesis unfolding stored_def rx_moved_fields(6) [OF m] by (rule rx_moved_len [OF rx_moved_header [OF m]])
qed

lemma count_range:
  "5 \<le> length h \<Longrightarrow> length h \<le> 17 \<Longrightarrow> uint (word_of_nat (length h - 1) :: u8) = int (length h) - 1"
  by (cases "length h") (simp_all add: unsigned_of_nat take_bit_nat_eq_self)

lemma rx_variable_header_wire:
  assumes count: "(if hex then rx_hex t z else rx_byte t ZMODEM_INVALID_HEADER z) =
      Some (uint (word_of_nat (length h - 1) :: u8), z1)" "rx_moved z z1"
    and len: "5 \<le> length h" "length h \<le> 17"
    and header: "\<exists>z'. header t (length h) z1 = Some (ZMODEM_OK, z') \<and> rx_moved (stored h z1) z' \<and> ready bs z'"
  shows "\<exists>z'. rx_variable_header t hex header z = Some (ZMODEM_OK, z') \<and> rx_moved (stored h z) z' \<and> ready bs z'"
proof -
  obtain z' where z': "header t (length h) z1 = Some (ZMODEM_OK, z')" "rx_moved (stored h z1) z'" "ready bs z'"
    using header by blast
  have c: "(if hex then rx_hex t z else rx_byte t ZMODEM_INVALID_HEADER z) = Some (int (length h) - 1, z1)"
    using count(1) count_range [OF len] by simp
  have "rx_variable_length t hex z = Some (int (length h), z1)"
    using len unfolding rx_variable_length_def c by auto
  then have "rx_variable_header t hex header z = Some (ZMODEM_OK, z')"
    using z'(1) by (simp add: rx_variable_header_def)
  then show ?thesis using rx_moved_trans [OF stored_moved [OF count(2)] z'(2)] z'(3) by blast
qed

section \<open>The style of a header\<close>

lemma agreed_moved: "rx_moved z z' \<Longrightarrow> agreed s z \<Longrightarrow> agreed s z'"
  by (simp add: agreed_def rx_moved_fields)

lemma accepted_moved: "rx_moved z z' \<Longrightarrow> rx_moved (accepted s h z) (accepted s h z')"
proof -
  assume m: "rx_moved z z'"
  have "receive_escape8_format z' = receive_escape8_format z" using rx_moved_fields [OF m] by simp
  then show ?thesis unfolding accepted_def
    by (simp only:) (intro rx_moved_escape8 rx_moved_encoded rx_moved_32 rx_moved_mobyturbo stored_moved m)
qed

lemma data_format_Some:
  "\<exists>z'. m = Some (ZMODEM_OK, z') \<and> rx_moved a z' \<and> ready bs z' \<Longrightarrow>
   \<exists>z'. data_format b e m = Some (ZMODEM_OK, z') \<and>
     rx_moved (a\<lparr>receive_32_bit_data := b, receive_encoded_data := e\<rparr>) z' \<and> ready bs z'"
proof -
  assume "\<exists>z'. m = Some (ZMODEM_OK, z') \<and> rx_moved a z' \<and> ready bs z'"
  then obtain z' where z': "m = Some (ZMODEM_OK, z')" "rx_moved a z'" "ready bs z'" by blast
  show ?thesis
    using rx_moved_encoded [OF rx_moved_32 [OF z'(2)]] z'(1,3)
    by (intro exI [of _ "z'\<lparr>receive_32_bit_data := b, receive_encoded_data := e\<rparr>"]) (simp add: data_format_def)
qed

lemma ready_no_mobyturbo: "queued bs 0 z \<Longrightarrow> ready bs (z\<lparr>receive_mobyturbo := b\<rparr>)"
  by (rule readyI) simp

text \<open>The three plain styles, each with and without the count of its octets.\<close>

lemma bin32_style:
  assumes "matched s z" "5 \<le> length h" "length h \<le> 17" "length (rxd_header z) = 17"
    "ready (codes (code s) q (count_code h @ h @ le_bytes (NOT (crc32_update_reduced (- 1) h))) @ bs) z"
  shows "\<exists>z'. (if length h = 5 then rx_bin32_header t 5 z else rx_variable_header t False rx_bin32_header z) =
    Some (ZMODEM_OK, z') \<and> rx_moved (stored h z) z' \<and> ready bs z'"
proof (cases "length h = 5")
  case True
  have "length h \<le> length (rxd_header z)" using assms(3,4) by simp
  from rx_bin32_header_wire [OF assms(1) this, of q bs t] assms(5) True show ?thesis by (simp add: count_code_def)
next
  case False
  let ?n = "word_of_nat (length h - 1) :: u8"
  have r: "ready (code s q ?n @ codes (code s) (low7 (last (code s q ?n)))
      (h @ le_bytes (NOT (crc32_update_reduced (- 1) h))) @ bs) z"
    using assms(5) False by (simp add: count_code_def)
  obtain z1 where 1: "rx_byte t ZMODEM_INVALID_HEADER z = Some (uint ?n, z1)"
    "input z (codes (code s) (low7 (last (code s q ?n))) (h @ le_bytes (NOT (crc32_update_reduced (- 1) h))) @ bs) z1"
    using takesD [OF input_byte [OF assms(1)] TrueI r] by blast
  have mv: "rx_moved z z1" using 1(2) by (simp add: input_def)
  have "length h \<le> length (rxd_header z1)" using assms(3,4) rx_moved_fields(6) [OF mv] by simp
  from rx_bin32_header_wire [OF matched_moved [OF mv assms(1)] this ready_input [OF 1(2)]]
  have "\<exists>z'. rx_variable_header t False rx_bin32_header z = Some (ZMODEM_OK, z') \<and> rx_moved (stored h z) z' \<and> ready bs z'"
    using rx_variable_header_wire [OF _ mv assms(2,3), of False t] 1(1) by simp
  then show ?thesis using False by simp
qed

lemma bin16_style:
  assumes "matched s z" "5 \<le> length h" "length h \<le> 17" "length (rxd_header z) = 17"
    "ready (codes (code s) q (count_code h @ h @ be_bytes16 (crc16_of h)) @ bs) z"
  shows "\<exists>z'. (if length h = 5 then rx_bin16_header t 5 z else rx_variable_header t False rx_bin16_header z) =
    Some (ZMODEM_OK, z') \<and> rx_moved (stored h z) z' \<and> ready bs z'"
proof (cases "length h = 5")
  case True
  have "length h \<le> length (rxd_header z)" using assms(3,4) by simp
  from rx_bin16_header_wire [OF assms(1) this, of q bs t] assms(5) True show ?thesis by (simp add: count_code_def)
next
  case False
  let ?n = "word_of_nat (length h - 1) :: u8"
  have r: "ready (code s q ?n @ codes (code s) (low7 (last (code s q ?n))) (h @ be_bytes16 (crc16_of h)) @ bs) z"
    using assms(5) False by (simp add: count_code_def)
  obtain z1 where 1: "rx_byte t ZMODEM_INVALID_HEADER z = Some (uint ?n, z1)"
    "input z (codes (code s) (low7 (last (code s q ?n))) (h @ be_bytes16 (crc16_of h)) @ bs) z1"
    using takesD [OF input_byte [OF assms(1)] TrueI r] by blast
  have mv: "rx_moved z z1" using 1(2) by (simp add: input_def)
  have "length h \<le> length (rxd_header z1)" using assms(3,4) rx_moved_fields(6) [OF mv] by simp
  from rx_bin16_header_wire [OF matched_moved [OF mv assms(1)] this ready_input [OF 1(2)]]
  have "\<exists>z'. rx_variable_header t False rx_bin16_header z = Some (ZMODEM_OK, z') \<and> rx_moved (stored h z) z' \<and> ready bs z'"
    using rx_variable_header_wire [OF _ mv assms(2,3), of False t] 1(1) by simp
  then show ?thesis using False by simp
qed

lemma hex_style:
  assumes "5 \<le> length h" "length h \<le> 17" "length (rxd_header z) = 17"
    "ready (concat (map hex_code (count_code h @ h @ be_bytes16 (crc16_of h))) @ [CR, LF] @ bs) z"
  shows "\<exists>z'. (if length h = 5 then rx_hex_header t 5 z else rx_variable_header t True rx_hex_header z) =
    Some (ZMODEM_OK, z') \<and> rx_moved (stored h z) z' \<and> ready bs z'"
proof (cases "length h = 5")
  case True
  have "length h \<le> length (rxd_header z)" using assms(2,3) by simp
  from rx_hex_header_wire [OF this, of bs t] assms(4) True show ?thesis by (simp add: count_code_def)
next
  case False
  let ?n = "word_of_nat (length h - 1) :: u8"
  have r: "ready (hex_code ?n @ concat (map hex_code h) @ concat (map hex_code (be_bytes16 (crc16_of h))) @ [CR, LF] @ bs) z"
    using assms(4) False by (simp add: count_code_def)
  obtain z1 where 1: "rx_hex t z = Some (uint ?n, z1)" "rx_moved z z1"
    "ready (concat (map hex_code h) @ concat (map hex_code (be_bytes16 (crc16_of h))) @ [CR, LF] @ bs) z1"
    using rx_hex_octet [OF r] by blast
  have "length h \<le> length (rxd_header z1)" using assms(2,3) rx_moved_fields(6) [OF 1(2)] by simp
  from rx_hex_header_wire [OF this 1(3)]
  have "\<exists>z'. rx_variable_header t True rx_hex_header z = Some (ZMODEM_OK, z') \<and> rx_moved (stored h z) z' \<and> ready bs z'"
    using rx_variable_header_wire [OF _ 1(2) assms(1,2), of True t] 1(1) by simp
  then show ?thesis using False by simp
qed

lemma rx_header_style_wire:
  assumes "agreed s z" "5 \<le> length h" "length h \<le> 17" "length (rxd_header z) = 17"
    "queued (header_body s h @ bs) 0 z" "\<not> escape_8th_bit s"
  shows "\<exists>z'. rx_header_style t (uint (header_style s h)) z = Some (Some (ZMODEM_OK, z')) \<and>
    rx_moved (accepted s h z) z' \<and> ready bs z'"
proof (cases "use_mobyturbo s")
  case True
  have m: "matched s (z\<lparr>receive_mobyturbo := True\<rparr>)" using assms(1,6) True by (simp add: agreed_def matched_def)
  have q: "queued (codes (code s) (low7 ZBINM32) (word_of_nat (length h - 1) # h @ salted_crc32 h) @ bs) 0 z"
    using assms(5) True by (simp add: header_body_def header_style_def)
  have "rx_header_style t (uint (header_style s h)) z = Some (rx_mobyturbo_header t z)"
    using True by (simp add: rx_header_style_def header_style_def)
  moreover have "accepted s h z = (stored h (z\<lparr>receive_mobyturbo := True\<rparr>))\<lparr>receive_32_bit_data := True,
      receive_encoded_data := ZMODEM_ENCODED_DATA_NONE, receive_escape8_format := ZMODEM_ESCAPE8_NONE\<rparr>"
    using True by (intro zmodem.equality) (simp_all add: accepted_def stored_def uses_crc32_def)
  ultimately show ?thesis using rx_mobyturbo_header_wire [OF m assms(2-4) q, of t] by simp
next
  case False
  let ?z = "z\<lparr>receive_mobyturbo := False\<rparr>"
  have m: "matched s ?z" using assms(1,6) False by (simp add: agreed_def matched_def)
  have len: "length (rxd_header ?z) = 17" using assms(4) by simp
  have r: "ready (header_body s h @ bs) ?z" by (rule ready_no_mobyturbo [OF assms(5)])
  have a: "accepted s h z = (stored h ?z)\<lparr>receive_32_bit_data := uses_crc32 s,
      receive_encoded_data := ZMODEM_ENCODED_DATA_NONE\<rparr>"
    using False by (intro zmodem.equality) (simp_all add: accepted_def stored_def)
  let ?style = "header_style s h"
  show ?thesis
  proof (cases "can_fcs_32 s")
    case can: True
    show ?thesis
    proof (cases "want_fcs_32 s")
      case True
      have "ready (codes (code s) (low7 ?style) (count_code h @ h @ le_bytes (NOT (crc32_update_reduced (- 1) h))) @ bs) ?z"
        using r can True False by (simp add: header_body_def)
      from data_format_Some [OF bin32_style [OF m assms(2,3) len this, of t], of True ZMODEM_ENCODED_DATA_NONE]
      show ?thesis
        using can True False unfolding a
        by (cases "length h = 5") (simp_all add: rx_header_style_def header_style_def uses_crc32_def)
    next
      case want: False
      have "ready (codes (code s) (low7 ?style) (count_code h @ h @ be_bytes16 (crc16_of h)) @ bs) ?z"
        using r can want False by (simp add: header_body_def)
      from data_format_Some [OF bin16_style [OF m assms(2,3) len this, of t], of False ZMODEM_ENCODED_DATA_NONE]
      show ?thesis
        using can want False unfolding a
        by (cases "length h = 5") (simp_all add: rx_header_style_def header_style_def uses_crc32_def)
    qed
  next
    case can: False
    have "ready (concat (map hex_code (count_code h @ h @ be_bytes16 (crc16_of h))) @ [CR, LF] @ bs) ?z"
      using r can False by (simp add: header_body_def)
    from data_format_Some [OF hex_style [OF assms(2,3) len this, of t], of False ZMODEM_ENCODED_DATA_NONE]
    show ?thesis
      using can False unfolding a
      by (cases "length h = 5") (simp_all add: rx_header_style_def header_style_def uses_crc32_def)
  qed
qed

section \<open>The hunt for a header\<close>

lemma pad_octet:
  assumes "ready (ZPAD # bs) z"
  shows "\<exists>z'. rx_header_pad t 0 False z = Some (uint ZPAD, 0, False, z') \<and> rx_moved z z' \<and> queued bs 0 z'"
proof -
  obtain k where "queued (ZPAD # bs) k z" using assms by (auto simp: input_def)
  then obtain z' where 1: "rx_raw t z = Some (uint ZPAD, z')" "rx_moved z z'" "queued bs 0 z'"
    using rx_raw_other [of ZPAD bs k z t] by auto
  have p: "probe_step (uint ZPAD) 0 False = (0, False)" by (simp add: probe_step_def mobyturbo_probe_def)
  have "rx_header_pad t 0 False z = Some (uint ZPAD, 0, False, z')"
    using 1(1) p by (subst rx_header_pad.simps) (simp add: low7_def)
  then show ?thesis using 1 by blast
qed

lemma style_plain: "\<not> rx_needs_slow_path z (uint (header_style s h))"
  unfolding slow_path_octet by (simp add: header_style_def)

text \<open>The hunt finds a header whose style the switch accepts, whatever the style.\<close>

lemma header_hunt:
  assumes r: "ready (ZPAD # pads @ ZDLE # style # rest) (z\<lparr>rxd_header_len := 0, mobyturbo_probe_passed := False\<rparr>)"
    and pads: "pads = [] \<or> pads = [ZPAD]" and plain: "\<And>z :: 'c zmodem. \<not> rx_needs_slow_path z (uint style)"
    and style: "\<And>y. rx_moved (z\<lparr>rxd_header_len := 0, mobyturbo_probe_passed := False\<rparr>) y \<Longrightarrow> queued rest 0 y \<Longrightarrow>
      \<exists>z'. rx_header_style t (uint style) y = Some (Some (ZMODEM_OK, z')) \<and> rx_moved a z' \<and> ready bs z'"
    and a: "rxd_header a ! 0 = v" "rxd_header_len a \<noteq> 0"
  shows "\<exists>z'. rx_header_raw t report z = Some (uint v, z') \<and>
    rx_moved (a\<lparr>mobyturbo_probe_passed := False\<rparr>) z' \<and> ready bs z'"
proof -
  let ?z = "z\<lparr>rxd_header_len := 0, mobyturbo_probe_passed := False\<rparr>"
  let ?rest = "style # rest"
  obtain z1 where 1: "rx_header_pad t 0 False ?z = Some (uint ZPAD, 0, False, z1)" "rx_moved ?z z1"
    "queued (pads @ ZDLE # ?rest) 0 z1"
    using pad_octet [OF r] by blast
  obtain z2 k2 where 2: "(do { (c, z) \<leftarrow> rx_raw t z1; if c AND 0x7f = uint ZPAD then rx_raw t z else Some (c, z) }) =
      Some (uint ZDLE, z2)" "\<exists>c z'. rx_raw t z1 = Some (c, z') \<and> 0 \<le> c" "rx_moved z1 z2" "queued ?rest k2 z2"
  proof (cases "pads = []")
    case True
    then obtain z2 k2 where "rx_raw t z1 = Some (uint ZDLE, z2)" "rx_moved z1 z2" "queued ?rest k2 z2"
      using rx_raw_zdle [of ?rest 0 z1 t] 1(3) calm_0 by auto
    then show ?thesis using that by (simp add: low7_def)
  next
    case False
    then obtain z2 where r: "rx_raw t z1 = Some (uint ZPAD, z2)" "rx_moved z1 z2" "queued (ZDLE # ?rest) 0 z2"
      using rx_raw_other [of ZPAD "ZDLE # ?rest" 0 z1 t] 1(3) pads by auto
    obtain z3 k3 where "rx_raw t z2 = Some (uint ZDLE, z3)" "rx_moved z2 z3" "queued ?rest k3 z3"
      using rx_raw_zdle [OF r(3) calm_0] by blast
    then show ?thesis using that r(1) rx_moved_trans [OF r(2)] by (simp add: low7_def)
  qed
  obtain z3 where 3: "rx t z2 = Some (uint style, z3)" "rx_moved z2 z3" "queued rest 0 z3"
    using rx_plain [OF 2(4) plain] by blast
  have m: "rx_moved ?z z3" by (rule rx_moved_trans [OF 1(2) rx_moved_trans [OF 2(3) 3(2)]])
  obtain z4 where 4: "rx_header_style t (uint style) z3 = Some (Some (ZMODEM_OK, z4))" "rx_moved a z4" "ready bs z4"
    using style [OF m 3(3)] by blast
  have f: "rxd_header z4 ! 0 = v" "rxd_header_len z4 \<noteq> 0" using rx_moved_fields(6,7) [OF 4(2)] a by simp_all
  obtain c1 y1 where r1: "rx_raw t z1 = Some (c1, y1)" "0 \<le> c1" using 2(2) by blast
  have 22: "(if c1 AND 0x7f = uint ZPAD then rx_raw t y1 else Some (c1, y1)) = Some (uint ZDLE, z2)"
    using 2(1) r1(1) by simp
  have n: "\<not> uint ZPAD < 0" "\<not> c1 < 0" "\<not> uint ZDLE < 0" "\<not> uint style < 0"
    "uint ZDLE AND 0x7f = uint ZDLE" "(ZMODEM_OK = ZMODEM_IO_ERROR \<or> ZMODEM_OK = ZMODEM_CANCELLED \<or> ZMODEM_OK = ZMODEM_TIMEOUT) = False"
    "(report \<and> rxd_header_len z4 = 0) = False" "(rxd_header_len z4 = 0) = False"
    using r1(2) f(2) by (simp_all add: low7_def)
  have "rx_header_loop t report 0 False ?z = rx_header_done False z4"
    by (subst rx_header_loop.simps)
       (simp only: 1(1) r1(1) 22 3(1) 4(1) n bind.bind_lunit prod.case if_False refl not_True_eq_False option.case simp_thms)
  then have "rx_header_raw t report z = Some (uint v, z4\<lparr>mobyturbo_probe_passed := False\<rparr>)"
    by (simp add: rx_header_raw_def rx_header_done_def f(1))
  then show ?thesis using 4(3) rx_moved_probe [OF 4(2), of False] by auto
qed

lemma rx_header_raw_wire:
  assumes "agreed s z" "\<not> escape_8th_bit s" "5 \<le> length h" "length h \<le> 17" "length (rxd_header z) = 17"
    "ready (header_wire s h @ bs) z"
  shows "\<exists>z'. rx_header_raw t report z = Some (uint (hd h), z') \<and>
    rx_moved ((accepted s h z)\<lparr>mobyturbo_probe_passed := False\<rparr>) z' \<and> ready (header_trailer s h @ bs) z'"
proof -
  let ?z = "z\<lparr>rxd_header_len := 0, mobyturbo_probe_passed := False\<rparr>"
  let ?pads = "if use_mobyturbo s then [] else [ZPAD]" and ?a = "accepted s h ?z"
  have r: "ready (ZPAD # ?pads @ ZDLE # header_style s h # header_body s h @ header_trailer s h @ bs) ?z"
    using assms(6) header_wire_parts [OF assms(2), of h] by (simp split: if_splits)
  have ag: "agreed s ?z" using assms(1) by (simp add: agreed_def)
  have st: "\<exists>z'. rx_header_style t (uint (header_style s h)) y = Some (Some (ZMODEM_OK, z')) \<and> rx_moved ?a z' \<and>
      ready (header_trailer s h @ bs) z'"
    if m: "rx_moved ?z y" and q: "queued (header_body s h @ header_trailer s h @ bs) 0 y" for y
  proof -
    have "length (rxd_header y) = 17" using rx_moved_fields(6) [OF m] assms(5) by simp
    from rx_header_style_wire [OF agreed_moved [OF m ag] assms(3,4) this q assms(2)] show ?thesis
      using rx_moved_trans [OF accepted_moved [OF m]] by blast
  qed
  have a: "rxd_header ?a ! 0 = hd h" "rxd_header_len ?a \<noteq> 0"
    using assms(3) by (cases h; simp add: accepted_def stored_def)+
  have "?a\<lparr>mobyturbo_probe_passed := False\<rparr> = (accepted s h z)\<lparr>mobyturbo_probe_passed := False\<rparr>"
    by (intro zmodem.equality) (simp_all add: accepted_def stored_def)
  then show ?thesis using header_hunt [OF r _ style_plain st a] by simp
qed

end

end
