(* ===== verification/Seven_Bit_Code.thy ===== *)
theory Seven_Bit_Code
  imports Decode_Data
begin

text \<open>
  The three codes of the eighth-bit formats, away from the line: the Omen code of an octet, the
  base-88 group of Pack-7 and the run-length symbols. Each is undone by the receiver's
  arithmetic. \<open>mobyturbo\<close> and the plain formats do not use them.
\<close>

declare split_paired_Ex [simp del] split_paired_All [simp del]

section \<open>The Omen code of an octet\<close>

lemma u8_less_32: "(x :: u8) < 0x20 \<longleftrightarrow> \<not> bit x 5 \<and> \<not> bit x 6 \<and> \<not> bit x 7"
proof -
  have "a < 32 \<longleftrightarrow> a div 32 = 0" if "0 \<le> a" for a :: int using that by presburger
  from this [of "uint x"] have "x < 0x20 \<longleftrightarrow> uint x div 2 ^ 5 = 0" by (simp add: word_less_def)
  also have "\<dots> \<longleftrightarrow> uint (drop_bit 5 x) = 0" by (simp add: drop_bit_eq_div uint_div_distrib)
  also have "\<dots> \<longleftrightarrow> drop_bit 5 x = 0" by (rule uint_0_iff)
  also have "\<dots> \<longleftrightarrow> \<not> bit x 5 \<and> \<not> bit x 6 \<and> \<not> bit x 7"
    using u8_bit_high [of _ x 0] by (simp add: u8_eq_iff bit_simps)
  finally show ?thesis .
qed

text \<open>An octet of the code that the decoder takes as it is.\<close>

definition omen_plain :: "bool \<Rightarrow> u8 \<Rightarrow> bool" where
  "omen_plain escape_all d \<longleftrightarrow>
     \<not> bit d 7 \<and> d \<noteq> ZDLE \<and> d \<noteq> SO \<and> d \<noteq> 0x11 \<and> d \<noteq> 0x13 \<and> (escape_all \<longrightarrow> d AND 0x60 \<noteq> 0)"

text \<open>An octet that may follow ZDLE, and what it stands for.\<close>

definition omen_quoted :: "bool \<Rightarrow> u8 \<Rightarrow> u8 \<Rightarrow> bool" where
  "omen_quoted high d c \<longleftrightarrow> \<not> bit d 7 \<and> d \<noteq> ZDLE \<and> d \<noteq> 0x11 \<and> d \<noteq> 0x13 \<and> rx_omen_value high (uint d) = uint c"

lemma u8_uint_or: "uint (a :: u8) OR uint b = uint (a OR b)"
  by (simp add: unsigned_or_eq)

lemma omen_quoted_control:
  assumes "low = c AND 0x7f" "low < 0x20" "high = bit c 7"
  shows "omen_quoted high (low XOR 0x40) c"
proof -
  let ?d = "low XOR 0x40"
  have d: "?d AND 0x60 = 0x40" "\<not> bit ?d 7"
    using assms(1,2) by (auto simp: u8_less_32 u8_eq_iff bit_simps bit_numeral_rec)
  then have n: "?d \<notin> {0x68, 0x69, 0x6a, 0x6b, 0x6c, 0x6d, 0x6e, 0x6f, 0x70, 0x71, 0x72, 0x73, 0x74, 0x18, 0x11, 0x13}"
    by auto
  have "uint ?d AND 0x60 = 0x40" using d(1) u8_and [of ?d "0x60"] by simp
  moreover have "uint ?d XOR 0x40 = uint low" using u8_xor [of ?d "0x40"] by (simp add: xor.assoc)
  moreover have "(if high then uint low OR 0x80 else uint low) = uint c"
  proof -
    have "(if high then low OR 0x80 else low) = c"
      using assms by (auto simp: u8_eq_iff bit_simps bit_numeral_rec)
    then show ?thesis using u8_uint_or [of low "0x80"] by (simp split: if_splits)
  qed
  moreover have "uint ?d \<noteq> uint e" if "?d \<noteq> e" for e :: u8
    using that u8_uint_iff [of ?d e] by simp
  note e = this
  ultimately have "rx_omen_value high (uint ?d) = uint c"
    using n e [of "0x68"] e [of "0x69"] e [of "0x6a"] e [of "0x6b"] e [of "0x6c"] e [of "0x6d"] e [of "0x6e"]
      e [of "0x6f"] e [of "0x70"] e [of "0x71"] e [of "0x72"] e [of "0x73"] e [of "0x74"]
    by (simp add: rx_omen_value_def Let_def)
  then show ?thesis using n d(2) by (simp add: omen_quoted_def)
qed

text \<open>The four shapes of the code of an octet.\<close>

lemma omen_code_cases:
  obtains "omen_encode_byte z c = [c]" "omen_plain (escape_all_control_characters z) c"
  | d where "omen_encode_byte z c = [ZDLE, d]" "omen_quoted False d c"
  | d where "omen_encode_byte z c = [SO, d]" "omen_plain (escape_all_control_characters z) d"
      "uint d OR 0x80 = uint c"
  | d where "omen_encode_byte z c = [SO, ZDLE, d]" "omen_quoted True d c"
proof -
  let ?e = "escape_all_control_characters z" and ?low = "c AND 0x7f"
  let ?code = "omen_code ?e c"
  show thesis
  proof (cases "?code = 0")
    case False
    then have "omen_quoted False ?code c"
      by (auto simp: omen_code_def omen_quoted_def rx_omen_value_def Let_def bit_numeral_rec split: if_splits)
    then show thesis using that(2) [of ?code] False by (simp add: omen_encode_byte_def)
  next
    case True
    then have n: "c \<notin> {SO, 0x10, XON, XOFF, ZDLE, 0x80, 0x8e, 0x90, 0x91, 0x93, 0x98, 0xff}"
      by (auto simp: omen_code_def split: if_splits)
    have high: "c AND 0x80 \<noteq> 0 \<longleftrightarrow> bit c 7" by (auto simp: u8_eq_iff bit_simps bit_numeral_rec)
    have low: "?low AND 0x60 = 0 \<longleftrightarrow> ?low < 0x20" by (auto simp: u8_less_32 u8_eq_iff bit_simps bit_numeral_rec)
    have l7: "\<not> bit ?low 7" by (simp add: bit_simps bit_numeral_rec)
    show thesis
    proof (cases "?e \<and> ?low < 0x20")
      case control: True
      then show thesis
        using that(2,4) [of "?low XOR 0x40"] True omen_quoted_control [of ?low c] high
        by (cases "bit c 7") (simp_all add: omen_encode_byte_def)
    next
      case plain: False
      have "?low \<noteq> ZDLE" "?low \<noteq> SO" "?low \<noteq> 0x11" "?low \<noteq> 0x13"
        using n by (auto simp: u8_eq_iff bit_simps bit_numeral_rec)
      then have p: "omen_plain ?e ?low" using plain low l7 by (auto simp: omen_plain_def)
      have "if bit c 7 then ?low OR 0x80 = c else ?low = c"
        by (auto simp: u8_eq_iff bit_simps bit_numeral_rec)
      then show thesis
        using that(1) that(3) [of ?low] True plain p high u8_uint_or [of ?low "0x80"]
        by (cases "bit c 7") (simp_all add: omen_encode_byte_def)
    qed
  qed
qed

section \<open>The base-88 groups of Pack-7\<close>

text \<open>A group as a big-endian number, and the number its digits denote.\<close>

definition group_number :: "u8 list \<Rightarrow> u32" where
  "group_number input = foldl (\<lambda>v b. push_bit 8 v OR ucast b) 0 input"

definition base88 :: "nat \<Rightarrow> u8 list \<Rightarrow> nat" where
  "base88 acc ds = foldl (\<lambda>a d. a * 88 + (unat d - 34)) acc ds"

definition base88_digit :: "u8 \<Rightarrow> bool" where
  "base88_digit d \<longleftrightarrow> 34 \<le> unat d \<and> unat d \<le> 121"

lemma group_number_snoc: "group_number (xs @ [b]) = push_bit 8 (group_number xs) OR ucast b"
  by (simp add: group_number_def)

lemma group_number_bound: "length xs \<le> 4 \<Longrightarrow> unat (group_number xs) < 256 ^ length xs"
proof (induction xs rule: rev_induct)
  case (snoc b xs)
  let ?v = "group_number xs"
  have v: "unat ?v < 256 ^ length xs" "256 ^ length xs \<le> (256 :: nat) ^ 3"
    using snoc power_increasing [of "length xs" 3 "256 :: nat"] by simp_all
  have disj: "push_bit 8 ?v AND ucast b = 0"
    using u8_bit_high [of _ b 0] by (auto intro!: bit_word_eqI simp: bit_simps)
  have "unat (push_bit 8 ?v) = take_bit 32 (push_bit 8 (unat ?v))" by (simp add: unsigned_push_bit_eq)
  then have "unat (push_bit 8 ?v) = 256 * unat ?v"
    using v by (simp add: push_bit_eq_mult take_bit_nat_eq_self)
  moreover have "unat b < 2 ^ 32" by (rule order_less_le_trans [OF unsigned_less]) simp
  from take_bit_nat_eq_self [OF this] have "unat (ucast b :: u32) = unat b" by (simp add: unsigned_ucast_eq)
  moreover have "push_bit 8 ?v OR ucast b = push_bit 8 ?v + ucast b"
    by (rule disjunctive_add_eq_or [OF disj, symmetric])
  ultimately have "unat (group_number (xs @ [b])) = (256 * unat ?v + unat b) mod 2 ^ 32"
    unfolding group_number_snoc by (simp add: unat_word_ariths)
  also have "\<dots> \<le> 256 * unat ?v + unat b" by simp
  also have "256 * n + m < 256 * k" if "n < k" "m < 256" for n m k :: nat using that by linarith
  from this [OF v(1), of "unat b"] have "256 * unat ?v + unat b < 256 ^ length (xs @ [b])"
    using unsigned_less [of b, where 'a = nat] by simp
  finally show ?case .
qed (simp add: group_number_def)

text \<open>The receiver takes the octets off the number again.\<close>

lemma pack7_octets_number: "length xs \<le> 4 \<Longrightarrow> pack7_octets (length xs) (group_number xs) out = xs @ out"
proof (induction xs arbitrary: out rule: rev_induct)
  case (snoc b xs)
  let ?v = "group_number xs"
  have v: "unat ?v < 2 ^ 24"
    using group_number_bound [of xs] snoc.prems power_increasing [of "length xs" 3 "256 :: nat"] by simp
  have n: "\<not> bit ?v n" if "24 \<le> n" for n
  proof -
    have "unat ?v < 2 ^ n" using v power_increasing [OF that, of "2 :: nat"] by simp
    then have "\<not> bit (unat ?v) n" by (simp add: bit_iff_odd)
    then show ?thesis by (simp add: bit_unsigned_iff)
  qed
  have "drop_bit 8 (push_bit 8 ?v OR ucast b) = ?v"
    using u8_bit_high [of _ b 0] n by (auto intro!: bit_word_eqI simp: bit_simps u8_bit_high) (meson not_le_imp_less)
  moreover have "ucast (push_bit 8 ?v OR ucast b) = b"
    by (auto intro!: bit_word_eqI simp: bit_simps)
  ultimately show ?case using snoc by (simp add: group_number_snoc)
qed simp

section \<open>Digits\<close>

lemma base88_mono: "acc \<le> base88 acc ds"
proof (induction ds arbitrary: acc)
  case (Cons d ds)
  have "acc \<le> acc * 88 + (unat d - 34)" by simp
  also have "\<dots> \<le> base88 \<dots> ds" by (rule Cons.IH)
  finally show ?case by (simp add: base88_def)
qed (simp add: base88_def)

lemma digit_value:
  fixes v :: u32
  shows "base88_digit (ucast (v mod 88) + 0x22)" "unat (ucast (v mod 88) + 0x22 :: u8) - 34 = unat v mod 88"
proof -
  have m: "unat (v mod 88) = unat v mod 88" by (simp add: unat_mod_distrib)
  have "unat (ucast (v mod 88) :: u8) = unat v mod 88"
    by (simp add: unsigned_ucast_eq m take_bit_nat_eq_self)
  then have "unat (ucast (v mod 88) + 0x22 :: u8) = unat v mod 88 + 34"
    by (simp add: unat_word_ariths)
  then show "base88_digit (ucast (v mod 88) + 0x22)" "unat (ucast (v mod 88) + 0x22 :: u8) - 34 = unat v mod 88"
    by (simp_all add: base88_digit_def)
qed

lemma pack7_digits_shape:
  "length (pack7_digits n v out) = n + length out"
  "list_all base88_digit out \<Longrightarrow> list_all base88_digit (pack7_digits n v out)"
  by (induction n v out rule: pack7_digits.induct) (simp_all add: digit_value)

lemma base88_digits: "base88 acc (pack7_digits n v out) = base88 (acc * 88 ^ n + unat v mod 88 ^ n) out"
proof (induction n v out arbitrary: acc rule: pack7_digits.induct)
  case (2 n v out)
  have "unat v mod 88 ^ Suc n = 88 * (unat v div 88 mod 88 ^ n) + unat v mod 88"
    by (simp add: mod_mult2_eq)
  moreover have "unat (v div 88) = unat v div 88" by (simp add: unat_div_distrib)
  ultimately show ?case using 2 digit_value(2) [of v] by (simp add: base88_def algebra_simps)
qed simp

text \<open>A group of \<open>n\<close> octets is \<open>n + 1\<close> digits that denote its number: \<open>256\<^sup>n < 88\<^sup>n\<^sup>+\<^sup>1\<close> up to four octets.\<close>

lemma group_digits:
  assumes "length xs \<le> 4"
  shows "length (pack7_encode_group xs) = length xs + 1" "list_all base88_digit (pack7_encode_group xs)"
    "base88 0 (pack7_encode_group xs) = unat (group_number xs)"
proof -
  have e: "pack7_encode_group xs = pack7_digits (length xs + 1) (group_number xs) []"
    by (simp add: pack7_encode_group_def group_number_def Let_def)
  show "length (pack7_encode_group xs) = length xs + 1" "list_all base88_digit (pack7_encode_group xs)"
    unfolding e by (simp_all add: pack7_digits_shape del: pack7_digits.simps)
  have "n \<in> {0, 1, 2, 3, 4}" if "n \<le> 4" for n :: nat using that by simp arith
  from this [OF assms] have "length xs \<in> {0, 1, 2, 3, 4}" .
  then have "(256 :: nat) ^ length xs < 88 ^ (length xs + 1)" by auto
  then have "unat (group_number xs) < 88 ^ (length xs + 1)" using group_number_bound [OF assms] by simp
  then show "base88 0 (pack7_encode_group xs) = unat (group_number xs)"
    unfolding e base88_digits by (simp add: base88_def)
qed

section \<open>What a receive loop has stored\<close>

text \<open>The caller's array after the octets \<open>s\<close>, those past the limit dropped.\<close>

definition filled :: "nat \<Rightarrow> u8 list \<Rightarrow> u8 list \<Rightarrow> u8 list" where
  "filled limit s buf = take limit s @ drop (min limit (length s)) buf"

lemma filled_nil [simp]: "filled limit [] buf = buf"
  by (simp add: filled_def)

lemma filled_store:
  assumes "length s < limit" "limit \<le> length buf"
  shows "mem_store (filled limit s buf) (length s) [c] = Some (filled limit (s @ [c]) buf)"
proof -
  have "min limit (Suc (length s)) = Suc (length s)" using assms(1) by simp
  then show ?thesis using assms by (simp add: filled_def mem_store_def)
qed

lemma filled_full: "limit \<le> length s \<Longrightarrow> filled limit (s @ [c]) buf = filled limit s buf"
  by (simp add: filled_def min_def)

lemma pack7_put_filled:
  assumes "limit \<le> length buf"
  shows "pack7_put limit bs (filled limit s buf) (min limit (length s)) crc (limit < length s) =
    Some (filled limit (s @ bs) buf, min limit (length (s @ bs)), crc32_update_reduced crc bs, limit < length (s @ bs))"
proof (induction bs arbitrary: s crc)
  case (Cons b bs)
  have "pack7_put limit (b # bs) (filled limit s buf) (min limit (length s)) crc (limit < length s) =
      pack7_put limit bs (filled limit (s @ [b]) buf) (min limit (length (s @ [b]))) (crc32_byte_update crc b)
        (limit < length (s @ [b]))"
  proof (cases "length s < limit")
    case True
    then have "min limit (Suc (length s)) = Suc (length s)" "\<not> limit < Suc (length s)" by simp_all
    then show ?thesis using True filled_store [OF True assms, of b] by (simp add: Let_def)
  next
    case False
    then show ?thesis using filled_full [of limit s b buf] by (simp add: Let_def min_def)
  qed
  then show ?case using Cons.IH [of "s @ [b]"] by simp
qed simp

definition rle_holds :: "nat \<Rightarrow> u8 list \<Rightarrow> u8 list \<Rightarrow> omen_rle \<Rightarrow> bool" where
  "rle_holds limit buf s d \<longleftrightarrow>
     rle_p d = filled limit s buf \<and> rle_used d = min limit (length s) \<and> rle_overflow d = (limit < length s)"

lemma rle_put_holds:
  assumes "limit \<le> length buf"
  shows "rle_holds limit buf s d \<Longrightarrow> \<exists>d'. rle_put limit n c d = Some d' \<and>
    rle_holds limit buf (s @ replicate n c) d' \<and> rle_state d' = rle_state d"
proof (induction n arbitrary: s d)
  case (Suc n)
  obtain d1 where d1: "rle_put limit (Suc n) c d = rle_put limit n c d1" "rle_holds limit buf (s @ [c]) d1"
    "rle_state d1 = rle_state d"
  proof (cases "length s < limit")
    case True
    then have "min limit (Suc (length s)) = Suc (length s)" "\<not> limit < Suc (length s)" by simp_all
    then show ?thesis
      using True that [of "d\<lparr>rle_p := filled limit (s @ [c]) buf, rle_used := rle_used d + 1\<rparr>"]
        filled_store [OF True assms, of c] Suc.prems by (simp add: rle_holds_def)
  next
    case False
    then show ?thesis
      using that [of "d\<lparr>rle_overflow := True\<rparr>"] filled_full [of limit s c buf] Suc.prems
      by (simp add: rle_holds_def min_def)
  qed
  from Suc.IH [OF d1(2)] show ?case unfolding d1(1) d1(3) by simp
qed simp

section \<open>The run-length symbols\<close>

text \<open>The symbols of one subpacket through the receiver's switch, \<open>None\<close> if one is refused.\<close>

fun rle_steps :: "nat \<Rightarrow> u8 list \<Rightarrow> omen_rle \<Rightarrow> omen_rle option" where
  "rle_steps limit [] d = Some d"
| "rle_steps limit (c # cs) d =
     do { (ok, d) \<leftarrow> omen_rle_step limit c d; if ok then rle_steps limit cs d else None }"

lemma rle_steps_append: "rle_steps limit (xs @ ys) d = Option.bind (rle_steps limit xs d) (rle_steps limit ys)"
  by (induction xs arbitrary: d) (auto simp: bind_option_assoc intro!: bind_cong_Some split: prod.splits)

lemma run_from_bounds: "run \<le> 63 \<Longrightarrow> omen_run_from run v xs \<le> 63"
  by (induction xs arbitrary: run) auto

lemma run_from_take:
  "take (omen_run_from run v xs - run) xs = replicate (omen_run_from run v xs - run) v"
proof (induction xs arbitrary: run)
  case (Cons x xs)
  show ?case
  proof (cases "run < 63 \<and> x = v")
    case True
    have "omen_run_from (Suc run) v xs - run = Suc (omen_run_from (Suc run) v xs - Suc run)"
      using omen_run_from_ge [of "Suc run" v xs] by simp
    then show ?thesis using True Cons.IH [of "Suc run"] by simp
  next
    case False
    then show ?thesis by auto
  qed
qed simp

lemma run_split:
  "v # rest = replicate (omen_run_from 1 v rest) v @ drop (omen_run_from 1 v rest - 1) rest"
proof -
  have "omen_run_from 1 v rest = Suc (omen_run_from 1 v rest - 1)"
    using omen_run_from_ge [of 1 v rest] by simp
  then show ?thesis
    using run_from_take [of 1 v rest] append_take_drop_id [of "omen_run_from 1 v rest - 1" rest]
    by (metis append_Cons replicate_Suc)
qed

lemma uint_small: "n < 256 \<Longrightarrow> uint (word_of_nat n :: u8) = int n"
  by (simp add: unsigned_of_nat take_bit_nat_eq_self)

lemmas put_simps = omen_rle_step_def classify_omen_rle_count_def Let_def

lemma literal_steps:
  assumes "limit \<le> length buf" "rle_holds limit buf s d" "rle_state d = OMEN_RLE_NORMAL" "v \<noteq> ZRESC"
  shows "\<exists>d'. rle_steps limit [v] d = Some d' \<and> rle_state d' = OMEN_RLE_NORMAL \<and> rle_holds limit buf (s @ [v]) d'"
proof -
  obtain d' where "rle_put limit 1 v d = Some d'" "rle_holds limit buf (s @ [v]) d'" "rle_state d' = rle_state d"
    using rle_put_holds [OF assms(1,2), of 1 v] by auto
  then show ?thesis using assms(3,4) by (simp add: put_simps del: rle_put.simps One_nat_def)
qed

text \<open>ZRESC with a count of \<open>run\<close> spaces, and ZRESC with a count and the octet.\<close>

lemma space_run_steps:
  assumes "limit \<le> length buf" "rle_holds limit buf s d" "rle_state d = OMEN_RLE_NORMAL" "3 \<le> run" "run \<le> 34"
  shows "\<exists>d'. rle_steps limit [ZRESC, word_of_nat (run + 0x1d)] d = Some d' \<and> rle_state d' = OMEN_RLE_NORMAL \<and>
    rle_holds limit buf (s @ replicate run 0x20) d'"
proof -
  have u: "uint (word_of_nat (run + 0x1d) :: u8) = int run + 0x1d" using assms(5) uint_small [of "run + 0x1d"] by simp
  have "rle_holds limit buf s (d\<lparr>rle_state := OMEN_RLE_COUNT\<rparr>)" using assms(2) by (simp add: rle_holds_def)
  from rle_put_holds [OF assms(1) this, of run "0x20"] obtain d' where
    "rle_put limit run 0x20 (d\<lparr>rle_state := OMEN_RLE_COUNT\<rparr>) = Some d'" "rle_holds limit buf (s @ replicate run 0x20) d'"
    by blast
  then show ?thesis
    using assms(3-5) u by (simp add: put_simps rle_holds_def del: rle_put.simps of_nat_add)
qed

lemma value_run_steps:
  assumes "limit \<le> length buf" "rle_holds limit buf s d" "rle_state d = OMEN_RLE_NORMAL" "2 \<le> run" "run \<le> 63"
  shows "\<exists>d'. rle_steps limit [ZRESC, word_of_nat (run + 0x40), v] d = Some d' \<and> rle_state d' = OMEN_RLE_NORMAL \<and>
    rle_holds limit buf (s @ replicate run v) d'"
proof -
  have u: "uint (word_of_nat (run + 0x40) :: u8) = int run + 0x40" using assms(5) uint_small [of "run + 0x40"] by simp
  let ?d = "d\<lparr>rle_state := OMEN_RLE_COUNT, rle_run := run, rle_state := OMEN_RLE_VALUE\<rparr>"
  have "rle_holds limit buf s ?d" using assms(2) by (simp add: rle_holds_def)
  from rle_put_holds [OF assms(1) this, of run v] obtain d' where
    "rle_put limit run v ?d = Some d'" "rle_holds limit buf (s @ replicate run v) d'"
    by blast
  then show ?thesis
    using assms(3-5) u by (simp add: put_simps rle_holds_def del: rle_put.simps of_nat_add)
qed

lemma resc_steps:
  assumes "limit \<le> length buf" "rle_holds limit buf s d" "rle_state d = OMEN_RLE_NORMAL"
  shows "\<exists>d'. rle_steps limit [ZRESC, 0x40] d = Some d' \<and> rle_state d' = OMEN_RLE_NORMAL \<and>
    rle_holds limit buf (s @ [ZRESC]) d'"
proof -
  have "rle_holds limit buf s (d\<lparr>rle_state := OMEN_RLE_COUNT\<rparr>)" using assms(2) by (simp add: rle_holds_def)
  from rle_put_holds [OF assms(1) this, of 1 ZRESC] obtain d' where
    "rle_put limit 1 ZRESC (d\<lparr>rle_state := OMEN_RLE_COUNT\<rparr>) = Some d'" "rle_holds limit buf (s @ [ZRESC]) d'"
    by auto
  then show ?thesis
    using assms(3) by (simp add: put_simps rle_holds_def del: rle_put.simps One_nat_def)
qed

lemma run_steps:
  assumes "limit \<le> length buf" "rle_holds limit buf s d" "rle_state d = OMEN_RLE_NORMAL" "1 \<le> run" "run \<le> 63"
  shows "\<exists>d'. rle_steps limit (omen_run_symbols run v) d = Some d' \<and> rle_state d' = OMEN_RLE_NORMAL \<and>
    rle_holds limit buf (s @ replicate run v) d'"
proof -
  consider "run = 1" "v = ZRESC" | "run = 1" "v \<noteq> ZRESC" | "run \<noteq> 1" "\<not> omen_rle_requires_marker run v" |
    "run \<noteq> 1" "omen_rle_requires_marker run v" "omen_rle_uses_space_run run v" |
    "run \<noteq> 1" "omen_rle_requires_marker run v" "\<not> omen_rle_uses_space_run run v" by blast
  then show ?thesis
  proof cases
    case 1
    then show ?thesis using resc_steps [OF assms(1-3)] by (simp add: omen_run_symbols_def)
  next
    case 2
    then show ?thesis using literal_steps [OF assms(1-3)] by (simp add: omen_run_symbols_def)
  next
    case 3
    then have v: "run = 2" "v \<noteq> ZRESC" by (auto simp: omen_rle_requires_marker_def split: if_splits)
    obtain d1 where d1: "rle_steps limit [v] d = Some d1" "rle_state d1 = OMEN_RLE_NORMAL" "rle_holds limit buf (s @ [v]) d1"
      using literal_steps [OF assms(1-3) v(2)] by blast
    obtain d2 where "rle_steps limit [v] d1 = Some d2" "rle_state d2 = OMEN_RLE_NORMAL" "rle_holds limit buf (s @ [v, v]) d2"
      using literal_steps [OF assms(1) d1(3,2) v(2)] by auto
    then show ?thesis
      using 3 v(1) d1(1) rle_steps_append [of limit "[v]" "[v]" d]
      by (simp add: omen_run_symbols_def numeral_2_eq_2 del: rle_steps.simps)
  next
    case 4
    then have "v = 0x20" "run \<le> 34" "3 \<le> run"
      using assms(4) by (auto simp: omen_rle_requires_marker_def omen_rle_uses_space_run_def split: if_splits)
    then show ?thesis using 4 space_run_steps [OF assms(1-3), of run] by (simp add: omen_run_symbols_def del: rle_steps.simps)
  next
    case 5
    then show ?thesis
      using value_run_steps [OF assms(1-3), of run v] assms(4,5) by (simp add: omen_run_symbols_def del: rle_steps.simps)
  qed
qed

text \<open>The symbols of a payload store the payload.\<close>

lemma symbols_steps:
  assumes "limit \<le> length buf"
  shows "rle_holds limit buf s d \<Longrightarrow> rle_state d = OMEN_RLE_NORMAL \<Longrightarrow>
    \<exists>d'. rle_steps limit (omen_rle_symbols p) d = Some d' \<and> rle_state d' = OMEN_RLE_NORMAL \<and> rle_holds limit buf (s @ p) d'"
proof (induction p arbitrary: s d rule: omen_rle_symbols.induct)
  case (2 v rest)
  let ?run = "omen_run_from 1 v rest"
  have run: "1 \<le> ?run" "?run \<le> 63" using omen_run_from_ge [of 1 v rest] run_from_bounds [of 1 v rest] by simp_all
  obtain d1 where d1: "rle_steps limit (omen_run_symbols ?run v) d = Some d1" "rle_state d1 = OMEN_RLE_NORMAL"
    "rle_holds limit buf (s @ replicate ?run v) d1"
    using run_steps [OF assms 2(2,3) run] by blast
  have "(s @ replicate ?run v) @ drop (?run - 1) rest = s @ v # rest" using run_split [of v rest] by simp
  then show ?case using 2(1) [OF refl d1(3,2)] d1(1) by (simp add: Let_def rle_steps_append)
qed simp

end
