(* ===== verification/Decode_Seven_Bit.thy ===== *)
theory Decode_Seven_Bit
  imports Decode_Header Seven_Bit_Code
begin

text \<open>
  The eighth-bit formats on the line: \<open>rx_omen_cursor\<close> decodes the Omen code of an octet,
  \<open>rx_pack7_data\<close> and \<open>rx_rle_data\<close> decode the subpackets \<open>tx_data\<close> sends, and \<open>rx_omen_header\<close>
  the headers that announce them. \<open>seven_bit\<close> says that the two ends agree.
\<close>

declare split_paired_Ex [simp del] split_paired_All [simp del]

definition seven_bit :: "'s zmodem \<Rightarrow> 'c zmodem \<Rightarrow> bool" where
  "seven_bit s z \<longleftrightarrow> escape_8th_bit s \<and>
     (receive_escaped_control_characters z \<longrightarrow> escape_all_control_characters s)"

lemma seven_bit_moved: "rx_moved z z' \<Longrightarrow> seven_bit s z \<Longrightarrow> seven_bit s z'"
  by (simp add: seven_bit_def rx_moved_config)

definition encoded_format :: "'s zmodem \<Rightarrow> zmodem_encoded_data_format" where
  "encoded_format s = (if use_pack7 s then ZMODEM_ENCODED_DATA_PACK7 else ZMODEM_ENCODED_DATA_RLE)"

definition accepted_seven_bit :: "'s zmodem \<Rightarrow> u8 list \<Rightarrow> 'c zmodem \<Rightarrow> 'c zmodem" where
  "accepted_seven_bit s h z = (stored h z)\<lparr>receive_mobyturbo := False, receive_32_bit_data := True,
     receive_encoded_data := encoded_format s, receive_escape8_format := ZMODEM_ESCAPE8_OMEN\<rparr>"

text \<open>A group on the wire: four octets in five digits, fewer up to the terminator.\<close>

definition group_wire :: "u8 list \<Rightarrow> u8 list" where
  "group_wire xs = (if xs = [] then [0x21] else pack7_encode_group xs @ (if length xs < 4 then [0x21] else []))"

lemma u8_low7: "\<not> bit (d :: u8) 7 \<Longrightarrow> uint d AND 0x7f = uint d"
proof -
  assume "\<not> bit d 7"
  then have "d AND 0x7f = d" by (auto simp: u8_eq_iff bit_simps bit_numeral_rec)
  then show ?thesis using u8_and [of d "0x7f"] by simp
qed

lemma omen_flow:
  assumes "\<not> bit (d :: u8) 7" "d \<noteq> 0x11" "d \<noteq> 0x13"
  shows "\<not> rx_is_flow_control (uint d)"
  using assms u8_uint_iff [of d "0x11"] u8_uint_iff [of d "0x13"] u8_uint_iff [of d "0x91"] u8_uint_iff [of d "0x93"]
  by (auto simp: rx_is_flow_control_def bit_numeral_rec)

context octet_source
begin

section \<open>Octets\<close>

lemma omen_plain_next:
  assumes "at z0 (d # bs) k z cur" "seven_bit s z0" "omen_plain (escape_all_control_characters s) d"
  shows "\<exists>z' cur'. rx_omen_loop t high z cur = Some (uint d OR (if high then 0x80 else 0), z', cur') \<and>
    at z0 bs 0 z' cur'"
proof -
  have d: "\<not> bit d 7" "d \<noteq> ZDLE" "d \<noteq> SO" "d \<noteq> 0x11" "d \<noteq> 0x13" using assms(3) by (auto simp: omen_plain_def)
  then obtain z' cur' where 1: "rx_cursor_raw t z cur = Some (uint d, z', cur')" "at z0 bs 0 z' cur'"
    using raw_other [OF assms(1)] by blast
  have "receive_escaped_control_characters z' \<longrightarrow> d AND 0x60 \<noteq> 0"
    using assms(2,3) at_moved [OF 1(2)] by (auto simp: seven_bit_def omen_plain_def cfg_simps)
  then have "\<not> rx_is_unescaped_control z' (uint d)"
    using u8_and [of d "0x60"] uint_0_iff [of "d AND 0x60"] by (auto simp: rx_is_unescaped_control_def)
  then show ?thesis
    using 1 d u8_low7 [OF d(1)] omen_flow [OF d(1,4,5)] u8_uint_iff [of d ZDLE] u8_uint_iff [of d SO]
    by (subst rx_omen_loop.simps) (simp add: Let_def)
qed

lemma omen_quoted_next:
  assumes "at z0 (ZDLE # d # bs) k z cur" "calm z0 k" "omen_quoted high d c"
  shows "\<exists>z' cur'. rx_omen_loop t high z cur = Some (uint c, z', cur') \<and> at z0 bs 0 z' cur'"
proof -
  have d: "\<not> bit d 7" "d \<noteq> ZDLE" "d \<noteq> 0x11" "d \<noteq> 0x13" "rx_omen_value high (uint d) = uint c"
    using assms(3) by (auto simp: omen_quoted_def)
  obtain z1 cur1 k1 where 1: "rx_cursor_raw t z cur = Some (uint ZDLE, z1, cur1)" "at z0 (d # bs) k1 z1 cur1"
    using raw_zdle [OF assms(1,2)] by blast
  obtain z2 cur2 where 2: "rx_cursor_raw t z1 cur1 = Some (uint d, z2, cur2)" "at z0 bs 0 z2 cur2"
    using raw_other [OF 1(2)] d(2) by blast
  have "rx_omen_quoted t z1 cur1 = Some (uint d, z2, cur2)"
    using 2(1) u8_low7 [OF d(1)] omen_flow [OF d(1,3,4)] by (subst rx_omen_quoted.simps) (simp add: Let_def)
  then show ?thesis
    using 1(1) 2(2) d(5) by (subst rx_omen_loop.simps) (simp add: Let_def rx_is_flow_control_def)
qed

lemma omen_so:
  assumes "at z0 (SO # bs) k z cur"
  shows "\<exists>z' cur'. rx_omen_loop t high z cur = rx_omen_loop t True z' cur' \<and> at z0 bs 0 z' cur'"
proof -
  obtain z' cur' where 1: "rx_cursor_raw t z cur = Some (uint SO, z', cur')" "at z0 bs 0 z' cur'"
    using raw_other [OF assms, of t] by auto
  then have "rx_omen_loop t high z cur = rx_omen_loop t True z' cur'"
    by (subst rx_omen_loop.simps) (simp add: Let_def rx_is_flow_control_def)
  then show ?thesis using 1(2) by blast
qed

lemma omen_next:
  assumes "at z0 (omen_encode_byte s c @ bs) k z cur" "calm z0 k" "seven_bit s z0"
  shows "\<exists>z' cur'. rx_omen_cursor t z cur = Some (uint c, z', cur') \<and> at z0 bs 0 z' cur'"
  unfolding rx_omen_cursor_def
proof (cases rule: omen_code_cases [of s c])
  case 1
  then show "\<exists>z' cur'. rx_omen_loop t False z cur = Some (uint c, z', cur') \<and> at z0 bs 0 z' cur'"
    using omen_plain_next [of z0 c bs k z cur s t False] assms(1,3) by simp
next
  case (2 d)
  then show "\<exists>z' cur'. rx_omen_loop t False z cur = Some (uint c, z', cur') \<and> at z0 bs 0 z' cur'"
    using omen_quoted_next [OF _ assms(2)] assms(1) by simp
next
  case (3 d)
  obtain z1 cur1 where 1: "rx_omen_loop t False z cur = rx_omen_loop t True z1 cur1" "at z0 (d # bs) 0 z1 cur1"
    using omen_so [of z0 "d # bs" k z cur t False] assms(1) 3(1) by auto
  then show "\<exists>z' cur'. rx_omen_loop t False z cur = Some (uint c, z', cur') \<and> at z0 bs 0 z' cur'"
    using omen_plain_next [OF 1(2) assms(3) 3(2), of t True] 3(3) by simp
next
  case (4 d)
  obtain z1 cur1 where 1: "rx_omen_loop t False z cur = rx_omen_loop t True z1 cur1" "at z0 (ZDLE # d # bs) 0 z1 cur1"
    using omen_so [of z0 "ZDLE # d # bs" k z cur t False] assms(1) 4(1) by auto
  then show "\<exists>z' cur'. rx_omen_loop t False z cur = Some (uint c, z', cur') \<and> at z0 bs 0 z' cur'"
    using omen_quoted_next [OF 1(2) calm_0 4(2)] by simp
qed

text \<open>The octet after ZDLE ends a frame; Pack-7 sends the same octets without ZDLE.\<close>

lemma omen_frame_end:
  assumes "at z0 (ZDLE # type # bs) k z cur" "calm z0 k" "is_frame_end type"
  shows "\<exists>z' cur'. rx_omen_cursor t z cur = Some (uint type OR RX_FRAME_END_FLAG, z', cur') \<and> at z0 bs 0 z' cur'"
proof -
  have d: "\<not> bit type 7" "type \<noteq> ZDLE" "type \<noteq> 0x11" "type \<noteq> 0x13"
    "rx_omen_value False (uint type) = uint type OR RX_FRAME_END_FLAG"
    using assms(3) by (auto simp: is_frame_end_def rx_omen_value_def bit_numeral_rec)
  obtain z1 cur1 k1 where 1: "rx_cursor_raw t z cur = Some (uint ZDLE, z1, cur1)" "at z0 (type # bs) k1 z1 cur1"
    using raw_zdle [OF assms(1,2)] by blast
  obtain z2 cur2 where 2: "rx_cursor_raw t z1 cur1 = Some (uint type, z2, cur2)" "at z0 bs 0 z2 cur2"
    using raw_other [OF 1(2)] d(2) by blast
  have "rx_omen_quoted t z1 cur1 = Some (uint type, z2, cur2)"
    using 2(1) u8_low7 [OF d(1)] omen_flow [OF d(1,3,4)] by (subst rx_omen_quoted.simps) (simp add: Let_def)
  then show ?thesis
    using 1(1) 2(2) d(5) unfolding rx_omen_cursor_def
    by (subst rx_omen_loop.simps) (simp add: Let_def rx_is_flow_control_def)
qed

lemma omen_printable:
  assumes "at z0 (d # bs) k z cur" "0x21 \<le> unat d" "unat d \<le> 0x7e" "seven_bit s z0"
  shows "\<exists>z' cur'. rx_omen_cursor t z cur = Some (uint d, z', cur') \<and> at z0 bs 0 z' cur'"
proof -
  have "\<not> bit (unat d) 7" using assms(3) by (simp add: bit_iff_odd)
  then have 7: "\<not> bit d 7" by (simp add: bit_unsigned_iff)
  have "\<not> d < 0x20" using assms(2) by (simp add: word_less_nat_alt)
  then have "d AND 0x60 \<noteq> 0" using 7 by (auto simp: u8_less_32 u8_eq_iff bit_simps bit_numeral_rec)
  moreover have "d \<notin> {ZDLE, SO, 0x11, 0x13}" using assms(2) by auto
  ultimately have "omen_plain (escape_all_control_characters s) d" using 7 by (auto simp: omen_plain_def)
  from omen_plain_next [OF assms(1,4) this, of t False] show ?thesis by (simp add: rx_omen_cursor_def)
qed

section \<open>Pack-7\<close>

lemma unat_u32: "n < 2 ^ 32 \<Longrightarrow> unat (word_of_nat n :: u32) = n"
  by (simp add: unsigned_of_nat take_bit_nat_eq_self)

lemma digit_step:
  assumes "at z0 (d # bs) k z cur" "seven_bit s z0" "base88_digit d" "unat v * 88 + (unat d - 34) < 2 ^ 32"
  shows "\<exists>z' cur'. at z0 bs 0 z' cur' \<and> rx_pack7_digits t v n z cur =
    (let v' = word_of_nat (unat v * 88 + (unat d - 34))
     in if n + 1 = 5 then Some (ZMODEM_OK, v', n + 1, z', cur') else rx_pack7_digits t v' (n + 1) z' cur')"
proof -
  have d: "34 \<le> unat d" "unat d \<le> 121" using assms(3) by (auto simp: base88_digit_def)
  then obtain z' cur' where 1: "rx_omen_cursor t z cur = Some (uint d, z', cur')" "at z0 bs 0 z' cur'"
    using omen_printable [OF assms(1) _ _ assms(2)] by force
  have u: "uint d = int (unat d)" by simp
  let ?digit = "word_of_int (uint d - 0x22) :: u32"
  have "uint d - 0x22 = int (unat d - 34)" using d(1) by (simp add: of_nat_diff)
  then have digit: "?digit = word_of_nat (unat d - 34)" by (simp only: of_int_of_nat_eq)
  have ud: "unat ?digit = unat d - 34" unfolding digit by (rule unat_u32) (use d in simp)
  have "?digit \<le> - 1" by (rule word_order.extremum)
  from unat_sub [OF this] have "unat (- 1 - ?digit) = 2 ^ 32 - 1 - (unat d - 34)"
    unfolding ud by (simp add: unsigned_minus_1_eq_mask mask_eq_exp_minus_1)
  then have "unat ((- 1 - ?digit) div 88) = (2 ^ 32 - 1 - (unat d - 34)) div 88" by (simp add: unat_div_distrib)
  moreover have "unat v \<le> (2 ^ 32 - 1 - (unat d - 34)) div 88"
    using assms(4) by (simp add: less_eq_div_iff_mult_less_eq)
  ultimately have guard: "\<not> (- 1 - ?digit) div 88 < v" by (simp add: word_less_nat_alt)
  have val: "v * 88 + ?digit = word_of_nat (unat v * 88 + (unat d - 34))" unfolding digit by simp
  have c: "\<not> uint d < 0" "\<not> 255 < uint d" "uint d \<noteq> 0x21" "\<not> (uint d < 0x22 \<or> 0x79 < uint d)"
    using d u by linarith+
  have "rx_pack7_digits t v n z cur = (let v' = v * 88 + ?digit
     in if n + 1 = 5 then Some (ZMODEM_OK, v', n + 1, z', cur') else rx_pack7_digits t v' (n + 1) z' cur')"
    using guard c by (subst rx_pack7_digits.simps) (simp only: 1(1) bind.bind_lunit prod.case if_False Let_def)
  then show ?thesis using 1(2) unfolding val by blast
qed

lemma pack7_digits_at:
  assumes "seven_bit s z0"
  shows "at z0 (ds @ bs) k z cur \<Longrightarrow> calm z0 k \<Longrightarrow> list_all base88_digit ds \<Longrightarrow> base88 (unat v) ds < 2 ^ 32 \<Longrightarrow>
    n + length ds \<le> 5 \<Longrightarrow> n < 5 \<Longrightarrow>
    \<exists>z' cur' k'. at z0 bs k' z' cur' \<and> calm z0 k' \<and> rx_pack7_digits t v n z cur =
      (let v' = word_of_nat (base88 (unat v) ds)
       in if n + length ds = 5 then Some (ZMODEM_OK, v', 5, z', cur') else rx_pack7_digits t v' (n + length ds) z' cur')"
proof (induction ds arbitrary: k z cur v n)
  case Nil
  then show ?case by (auto simp: base88_def)
next
  case (Cons d ds)
  let ?a = "unat v * 88 + (unat d - 34)"
  have b: "base88 (unat v) (d # ds) = base88 ?a ds" by (simp add: base88_def)
  have a: "?a < 2 ^ 32" using base88_mono [of ?a ds] Cons.prems(4) unfolding b by simp
  note ua = unat_u32 [OF a]
  have "at z0 (d # ds @ bs) k z cur" "base88_digit d" using Cons.prems(1,3) by simp_all
  from digit_step [OF this(1) assms this(2) a, of t n] obtain z1 cur1 where 1: "at z0 (ds @ bs) 0 z1 cur1"
    "rx_pack7_digits t v n z cur = (let v' = word_of_nat ?a
     in if n + 1 = 5 then Some (ZMODEM_OK, v', n + 1, z1, cur1) else rx_pack7_digits t v' (n + 1) z1 cur1)"
    by blast
  show ?case
  proof (cases "n + 1 = 5")
    case True
    then have "ds = []" using Cons.prems(5) by simp
    then show ?thesis using 1 True calm_0 [of z0] unfolding b by (auto simp: base88_def Let_def)
  next
    case False
    have "base88 (unat (word_of_nat ?a :: u32)) ds < 2 ^ 32" using Cons.prems(4) unfolding b ua .
    from Cons.IH [OF 1(1) calm_0 _ this, of "n + 1"] Cons.prems(3,5,6) False obtain z' cur' k' where
      2: "at z0 bs k' z' cur'" "calm z0 k'" "rx_pack7_digits t (word_of_nat ?a) (n + 1) z1 cur1 =
        (let v' = word_of_nat (base88 ?a ds)
         in if n + 1 + length ds = 5 then Some (ZMODEM_OK, v', 5, z', cur')
            else rx_pack7_digits t v' (n + 1 + length ds) z' cur')"
      unfolding ua by auto
    have n: "n + length (d # ds) = n + 1 + length ds" by simp
    have "rx_pack7_digits t v n z cur = rx_pack7_digits t (word_of_nat ?a) (n + 1) z1 cur1"
      unfolding 1(2) Let_def using False by (simp only: if_False)
    then show ?thesis using 2 unfolding b n by metis
  qed
qed

lemma digits_end:
  assumes "at z0 (0x21 # bs) k z cur" "seven_bit s z0"
  shows "\<exists>z' cur'. rx_pack7_digits t v n z cur =
      Some (if n = 1 then ZMODEM_INVALID_DATA else ZMODEM_OK, v, n, z', cur') \<and> at z0 bs 0 z' cur'"
proof -
  obtain z' cur' where 1: "rx_omen_cursor t z cur = Some (uint (0x21 :: u8), z', cur')" "at z0 bs 0 z' cur'"
    using omen_printable [OF assms(1) _ _ assms(2), of t] by auto
  then show ?thesis by (subst rx_pack7_digits.simps) auto
qed

lemma group_at:
  assumes "at z0 (group_wire xs @ bs) k z cur" "calm z0 k" "seven_bit s z0" "length xs \<le> 4"
  shows "\<exists>z' cur' k'. rx_pack7_group t z cur = Some (ZMODEM_OK, xs, z', cur') \<and> at z0 bs k' z' cur' \<and> calm z0 k'"
proof (cases "xs = []")
  case True
  then obtain z' cur' where "rx_pack7_digits t 0 0 z cur = Some (ZMODEM_OK, 0, 0, z', cur')" "at z0 bs 0 z' cur'"
    using digits_end [of z0 bs k z cur s t 0 0] assms(1,3) by (auto simp: group_wire_def)
  then show ?thesis using True calm_0 by (auto simp: rx_pack7_group_def)
next
  case False
  let ?tail = "if length xs < 4 then [0x21] else []" and ?v = "group_number xs"
  note g = group_digits [OF assms(4)]
  have "at z0 (pack7_encode_group xs @ ?tail @ bs) k z cur" using assms(1) False by (simp add: group_wire_def)
  moreover have "base88 (unat (0 :: u32)) (pack7_encode_group xs) < 2 ^ 32"
    unfolding unsigned_0 g(3) by (rule order_less_le_trans [OF unsigned_less]) simp
  moreover have "0 + length (pack7_encode_group xs) \<le> 5" "(0 :: nat) < 5" using g(1) assms(4) by simp_all
  ultimately obtain z1 cur1 k1 where
    1: "at z0 (?tail @ bs) k1 z1 cur1" "calm z0 k1" "rx_pack7_digits t 0 0 z cur =
      (if length xs = 4 then Some (ZMODEM_OK, ?v, 5, z1, cur1) else rx_pack7_digits t ?v (length xs + 1) z1 cur1)"
    using pack7_digits_at [OF assms(3) _ assms(2) g(2), of "?tail @ bs" z cur 0 0 t] g(1,3)
    by (auto simp: Let_def)
  obtain z2 cur2 k2 where 2: "rx_pack7_digits t 0 0 z cur = Some (ZMODEM_OK, ?v, length xs + 1, z2, cur2)"
    "at z0 bs k2 z2 cur2" "calm z0 k2"
  proof (cases "length xs = 4")
    case True
    then show ?thesis using that 1 by simp
  next
    case short: False
    then have "at z0 (0x21 # bs) k1 z1 cur1" using 1(1) assms(4) by simp
    from digits_end [OF this assms(3), of t ?v "length xs + 1"] obtain z2 cur2 where
      "rx_pack7_digits t ?v (length xs + 1) z1 cur1 = Some (ZMODEM_OK, ?v, length xs + 1, z2, cur2)" "at z0 bs 0 z2 cur2"
      using False by auto
    then show ?thesis using that 1(3) short calm_0 by simp
  qed
  have "(256 :: nat) ^ n = 2 ^ (n * 8)" for n by (simp add: mult.commute [of n 8] power_mult)
  then have v: "unat ?v < 2 ^ (length xs * 8)" using group_number_bound [OF assms(4)] by simp
  have "\<not> push_bit (length xs * 8) 1 \<le> ?v" if "length xs < 4"
  proof -
    have "(2 :: nat) ^ (length xs * 8) < 2 ^ 32" using that by (intro power_strict_increasing) simp_all
    from unat_u32 [OF this] have "unat (push_bit (length xs * 8) 1 :: u32) = 2 ^ (length xs * 8)"
      by (simp add: push_bit_eq_mult)
    then show ?thesis using v by (simp add: word_le_nat_alt)
  qed
  then have "\<not> (length xs < 4 \<and> push_bit (length xs * 8) 1 \<le> ?v)" by blast
  then show ?thesis
    using 2 pack7_octets_number [OF assms(4), of "[]"] by (auto simp: rx_pack7_group_def Let_def)
qed

lemma pack7_wire_split:
  "pack7_code p @ 0x21 # bs =
     group_wire (take 4 p) @ (if length p < 4 then bs else pack7_code (drop 4 p) @ 0x21 # bs)"
proof (cases "p = []")
  case False
  have "drop 4 p = [] \<longleftrightarrow> length p \<le> 4" by simp
  with False show ?thesis
    by (cases "length p < 4") (simp_all add: pack7_code.simps [of p] pack7_code.simps [of "[]"] group_wire_def)
qed (simp add: pack7_code.simps [of "[]"] group_wire_def)

lemma pack7_loop_at:
  assumes "seven_bit s z0" "limit \<le> length buf"
  shows "at z0 (pack7_code p @ 0x21 # bs) k z cur \<Longrightarrow> calm z0 k \<Longrightarrow>
    \<exists>z' cur' k'. rx_pack7_loop limit z cur (filled limit q buf) (min limit (length q)) crc (limit < length q) =
      Some (ZMODEM_OK, z', cur', filled limit (q @ p) buf, min limit (length (q @ p)),
            crc32_update_reduced crc p, limit < length (q @ p)) \<and>
      at z0 bs k' z' cur' \<and> calm z0 k'"
proof (induction p arbitrary: q k z cur crc rule: pack7_code.induct)
  case (1 p)
  let ?g = "take 4 p"
  have "at z0 (group_wire ?g @ (if length p < 4 then bs else pack7_code (drop 4 p) @ 0x21 # bs)) k z cur"
    using "1.prems"(1) by (subst pack7_wire_split [symmetric])
  moreover have "length ?g \<le> 4" by simp
  ultimately obtain z1 cur1 k1 where 1: "rx_pack7_group 1000 z cur = Some (ZMODEM_OK, ?g, z1, cur1)"
    "at z0 (if length p < 4 then bs else pack7_code (drop 4 p) @ 0x21 # bs) k1 z1 cur1" "calm z0 k1"
    using group_at [OF _ "1.prems"(2) assms(1)] by blast
  note put = pack7_put_filled [OF assms(2), of ?g q crc]
  show ?case
  proof (cases "length p < 4")
    case True
    then have g: "?g = p" and a: "at z0 bs k1 z1 cur1" using 1(2) by simp_all
    have "rx_pack7_loop limit z cur (filled limit q buf) (min limit (length q)) crc (limit < length q) =
        Some (ZMODEM_OK, z1, cur1, filled limit (q @ p) buf, min limit (length (q @ p)),
            crc32_update_reduced crc p, limit < length (q @ p))"
      by (subst rx_pack7_loop.simps)
         (simp only: 1(1) [unfolded g] put [unfolded g] bind.bind_lunit prod.case True if_True if_False refl not_True_eq_False)
    then show ?thesis using a 1(3) by blast
  next
    case False
    then have ne: "p \<noteq> []" by auto
    have a: "at z0 (pack7_code (drop 4 p) @ 0x21 # bs) k1 z1 cur1" using 1(2) False by simp
    have crc: "crc32_update_reduced (crc32_update_reduced crc ?g) (drop 4 p) = crc32_update_reduced crc p"
      by (simp flip: crc32_reduced_append)
    have app: "(q @ ?g) @ drop 4 p = q @ p" by simp
    from "1.IH" [OF ne a 1(3), of "q @ ?g" "crc32_update_reduced crc ?g"] obtain z2 cur2 k2 where
      2: "rx_pack7_loop limit z1 cur1 (filled limit (q @ ?g) buf) (min limit (length (q @ ?g)))
          (crc32_update_reduced crc ?g) (limit < length (q @ ?g)) =
        Some (ZMODEM_OK, z2, cur2, filled limit (q @ p) buf, min limit (length (q @ p)),
            crc32_update_reduced crc p, limit < length (q @ p))"
      "at z0 bs k2 z2 cur2" "calm z0 k2"
      unfolding crc app by blast
    have len: "\<not> length ?g < 4" using False by simp
    have "rx_pack7_loop limit z cur (filled limit q buf) (min limit (length q)) crc (limit < length q) =
        rx_pack7_loop limit z1 cur1 (filled limit (q @ ?g) buf) (min limit (length (q @ ?g)))
          (crc32_update_reduced crc ?g) (limit < length (q @ ?g))"
      by (subst rx_pack7_loop.simps) (simp only: 1(1) put bind.bind_lunit prod.case len if_False refl not_True_eq_False)
    then show ?thesis using 2 by auto
  qed
qed

lemma input_after: "at z bs k z' cur \<Longrightarrow> calm z k \<Longrightarrow> input z bs (store_rx_cursor cur z')"
  using queued_store [of z bs k z' cur] calm_moved by (auto simp: input_def)

lemma group_wire_crc: "group_wire (le_bytes w) = pack7_encode_group (le_bytes w)"
  by (simp add: group_wire_def le_bytes_def)

lemma rx_pack7_data_wire:
  assumes "seven_bit s z" "input z (pack7_data_wire type p @ bs) z" "is_frame_end type" "capacity \<le> length buf"
  shows "\<exists>z'. rx_pack7_data buf capacity z =
      Some (if length p \<le> rx_limit capacity then uint type else ZMODEM_INVALID_DATA, z',
            filled (rx_limit capacity) p buf, min (rx_limit capacity) (length p)) \<and>
      input z ((if type = ZCRCW then [XON] else []) @ bs) z'"
proof -
  let ?limit = "rx_limit capacity" and ?xon = "if type = ZCRCW then [XON] else []"
  let ?crc = "NOT (crc32_update_reduced (- 1) (p @ [type]))"
  have limit: "?limit \<le> length buf" using assms(4) by (simp add: rx_limit_def)
  obtain k where k: "at z (pack7_data_wire type p @ bs) k z (load_rx_cursor z)" "calm z k"
    using input_at [OF assms(2)] by blast
  have "at z (pack7_code p @ 0x21 # type # group_wire (le_bytes ?crc) @ ?xon @ bs) k z (load_rx_cursor z)"
    using k(1) by (simp add: pack7_data_wire_def group_wire_crc)
  from pack7_loop_at [OF assms(1) limit this k(2), of "[]" "- 1"] obtain z1 cur1 k1 where
    1: "rx_pack7_loop ?limit z (load_rx_cursor z) buf 0 (- 1) False =
      Some (ZMODEM_OK, z1, cur1, filled ?limit p buf, min ?limit (length p), crc32_update_reduced (- 1) p, ?limit < length p)"
    "at z (type # group_wire (le_bytes ?crc) @ ?xon @ bs) k1 z1 cur1"
    by auto
  have t: "0x21 \<le> unat type" "unat type \<le> 0x7e" "\<not> uint type < 0"
    "\<not> (uint type < uint ZCRCE \<or> uint ZCRCW < uint type)"
    using assms(3) by (auto simp: is_frame_end_def)
  obtain z2 cur2 where 2: "rx_omen_cursor 1000 z1 cur1 = Some (uint type, z2, cur2)"
    "at z (group_wire (le_bytes ?crc) @ ?xon @ bs) 0 z2 cur2"
    using omen_printable [OF 1(2) t(1,2) assms(1)] by blast
  obtain z3 cur3 k3 where 3: "rx_pack7_group 1000 z2 cur2 = Some (ZMODEM_OK, le_bytes ?crc, z3, cur3)"
    "at z (?xon @ bs) k3 z3 cur3" "calm z k3"
    using group_at [OF 2(2) calm_0 assms(1), of 1000] by auto
  have crc: "NOT (crc32_byte_update (crc32_update_reduced (- 1) p) type) = ?crc"
    by (simp add: crc32_reduced_append)
  have got: "ucast (le_bytes ?crc ! 0) OR push_bit 8 (ucast (le_bytes ?crc ! 1)) OR
      push_bit 16 (ucast (le_bytes ?crc ! 2)) OR push_bit 24 (ucast (le_bytes ?crc ! 3)) = ?crc"
    using le_word_le_bytes [of ?crc] by (simp add: le_bytes_def le_word_def)
  have "rx_pack7_data buf capacity z =
      Some (if length p \<le> ?limit then uint type else ZMODEM_INVALID_DATA, store_rx_cursor cur3 z3,
            filled ?limit p buf, min ?limit (length p))"
    unfolding rx_pack7_data_def 1(1) bind.bind_lunit prod.case 2(1) Let_def word_of_uint crc 3(1) got
    using t(3,4) by (auto simp: not_less)
  then show ?thesis using input_after [OF 3(2,3)] by blast
qed

section \<open>Run-length symbols\<close>

lemma rle_next:
  assumes "at z0 (omen_encode_byte s c @ bs) k z cur" "calm z0 k" "seven_bit s z0"
    "receive_escape8_format z0 = ZMODEM_ESCAPE8_OMEN"
  shows "\<exists>z' cur'. rx_rle_cursor t z cur = Some (uint c, z', cur') \<and> at z0 bs 0 z' cur'"
proof -
  have "receive_escape8_format z = ZMODEM_ESCAPE8_OMEN" using at_moved [OF assms(1)] assms(4) by (simp add: cfg_simps)
  then show ?thesis using omen_next [OF assms(1-3)] by (simp add: rx_rle_cursor_def)
qed

lemma rle_loop_at:
  assumes "seven_bit s z0" "receive_escape8_format z0 = ZMODEM_ESCAPE8_OMEN"
  shows "at z0 (concat (map (omen_encode_byte s) syms) @ bs) k z cur \<Longrightarrow> calm z0 k \<Longrightarrow>
    rle_steps limit syms d = Some d' \<Longrightarrow>
    \<exists>z' cur' k'. rx_rle_loop limit z cur d crc = rx_rle_loop limit z' cur' d' (crc32_update_reduced crc syms) \<and>
      at z0 bs k' z' cur' \<and> calm z0 k'"
proof (induction syms arbitrary: k z cur d crc)
  case Nil
  then show ?case by auto
next
  case (Cons c cs)
  obtain d1 where d1: "omen_rle_step limit c d = Some (True, d1)" "rle_steps limit cs d1 = Some d'"
    using Cons.prems(3) by (auto simp: bind_eq_Some_conv split: if_splits)
  have "at z0 (omen_encode_byte s c @ concat (map (omen_encode_byte s) cs) @ bs) k z cur" using Cons.prems(1) by simp
  from rle_next [OF this Cons.prems(2) assms] obtain z1 cur1 where
    1: "rx_rle_cursor 1000 z cur = Some (uint c, z1, cur1)" "at z0 (concat (map (omen_encode_byte s) cs) @ bs) 0 z1 cur1"
    by blast
  have c: "\<not> uint c < 0" "\<not> 255 < uint c" using uint_u8_bounds [of c] by linarith+
  have "rx_rle_loop limit z cur d crc = rx_rle_loop limit z1 cur1 d1 (crc32_byte_update crc c)"
    by (subst rx_rle_loop.simps)
       (simp only: 1(1) d1(1) bind.bind_lunit prod.case c if_False if_True word_of_uint Let_def)
  then show ?case using Cons.IH [OF 1(2) calm_0 d1(2)] by simp
qed

text \<open>A reader that takes the Omen code of one octet off the cursor, and a checksum read with it.\<close>

definition omen_reader :: "'s zmodem \<Rightarrow> 'c zmodem \<Rightarrow>
    ('c zmodem \<Rightarrow> rx_cursor \<Rightarrow> (int \<times> 'c zmodem \<times> rx_cursor) option) \<Rightarrow> bool" where
  "omen_reader s z0 f \<longleftrightarrow> (\<forall>c bs k z cur. at z0 (omen_encode_byte s c @ bs) k z cur \<longrightarrow> calm z0 k \<longrightarrow>
     (\<exists>z' cur'. f z cur = Some (uint c, z', cur') \<and> at z0 bs 0 z' cur'))"

lemma omen_readerD:
  "omen_reader s z0 f \<Longrightarrow> at z0 (omen_encode_byte s c @ bs) k z cur \<Longrightarrow> calm z0 k \<Longrightarrow>
   \<exists>z' cur'. f z cur = Some (uint c, z', cur') \<and> at z0 bs 0 z' cur'"
  unfolding omen_reader_def by blast

lemma cursor_reader:
  assumes "omen_reader s z0 f"
  shows "takes (\<lambda>_. True) (\<lambda>bs (z, cur). \<exists>k. at z0 bs k z cur \<and> calm z0 k) (on_cursor f) (\<lambda>_. omen_encode_byte s)"
  unfolding takes_def
proof (intro allI impI)
  fix p :: int and c bs zc
  assume "case zc of (z, cur) \<Rightarrow> \<exists>k. at z0 (omen_encode_byte s c @ bs) k z cur \<and> calm z0 k"
  then obtain z cur k where zc: "zc = (z, cur)" and a: "at z0 (omen_encode_byte s c @ bs) k z cur" "calm z0 k"
    by (cases zc) auto
  obtain z' cur' where r: "f z cur = Some (uint c, z', cur')" "at z0 bs 0 z' cur'"
    using omen_readerD [OF assms a] by blast
  then have "\<exists>k. at z0 bs k z' cur' \<and> calm z0 k" using calm_0 [of z0] by blast
  then show "\<exists>s'. on_cursor f zc = Some (uint c, s') \<and> True \<and>
      (case s' of (z, cur) \<Rightarrow> \<exists>k. at z0 bs k z cur \<and> calm z0 k)"
    using r(1) by (simp add: zc on_cursor_def)
qed

lemma cursor_crc:
  assumes "omen_reader s z0 f" "at z0 (concat (map (omen_encode_byte s) (le_bytes w)) @ bs) k z cur" "calm z0 k"
  shows "\<exists>z' cur' k'. rx_le_octets (on_cursor f) 0 4 0 (z, cur) = Some (0, w, z', cur') \<and> at z0 bs k' z' cur' \<and> calm z0 k'"
proof -
  have "(\<lambda>bs (z', cur). \<exists>k. at z0 bs k z' cur \<and> calm z0 k) (codes (\<lambda>_. omen_encode_byte s) 0 (le_bytes w) @ bs) (z, cur)"
    using assms(2,3) by (auto simp: codes_const)
  from le_octets_4 [OF cursor_reader [OF assms(1)] TrueI this] show ?thesis by auto
qed

lemma rle_byte_next:
  assumes "seven_bit s z0" "receive_escape8_format z0 = ZMODEM_ESCAPE8_OMEN"
  shows "omen_reader s z0 (rx_rle_byte_cursor t)"
  unfolding omen_reader_def
proof (intro allI impI)
  fix c bs k z cur assume a: "at z0 (omen_encode_byte s c @ bs) k z cur" "calm z0 k"
  have "\<not> 255 < uint c" using uint_u8_bounds [of c] by linarith
  then show "\<exists>z' cur'. rx_rle_byte_cursor t z cur = Some (uint c, z', cur') \<and> at z0 bs 0 z' cur'"
    using rle_next [OF a assms, of t] by (auto simp: rx_rle_byte_cursor_def)
qed

lemma rx_rle_data_wire:
  assumes "seven_bit s z" "receive_escape8_format z = ZMODEM_ESCAPE8_OMEN"
    "input z (omen_data_wire s type p @ bs) z" "is_frame_end type" "capacity \<le> length buf"
  shows "\<exists>z'. rx_rle_data buf capacity z =
      Some (if length p \<le> rx_limit capacity then uint type else ZMODEM_INVALID_DATA, z',
            filled (rx_limit capacity) p buf, min (rx_limit capacity) (length p)) \<and>
      input z ((if type = ZCRCW then [XON] else []) @ bs) z'"
proof -
  let ?limit = "rx_limit capacity" and ?xon = "if type = ZCRCW then [XON] else []" and ?s = "omen_rle_symbols p"
  let ?crc = "NOT (crc32_update_reduced (- 1) (?s @ [type]))" and ?e = "\<lambda>cs. concat (map (omen_encode_byte s) cs)"
  let ?d = "\<lparr>rle_state = OMEN_RLE_NORMAL, rle_run = 0, rle_p = buf, rle_used = 0, rle_overflow = False\<rparr>"
  have "rle_holds ?limit buf [] ?d" by (simp add: rle_holds_def)
  moreover have "?limit \<le> length buf" using assms(5) by (simp add: rx_limit_def)
  ultimately obtain d where d: "rle_steps ?limit ?s ?d = Some d" "rle_state d = OMEN_RLE_NORMAL" "rle_holds ?limit buf p d"
    using symbols_steps [of ?limit buf "[]" ?d p] by auto
  obtain k where k: "at z (omen_data_wire s type p @ bs) k z (load_rx_cursor z)" "calm z k"
    using input_at [OF assms(3)] by blast
  have "at z (?e ?s @ ZDLE # type # ?e (le_bytes ?crc) @ ?xon @ bs) k z (load_rx_cursor z)"
    using k(1) by (simp add: omen_data_wire_def Let_def)
  from rle_loop_at [OF assms(1,2) this k(2) d(1), of "- 1"] obtain z1 cur1 k1 where
    1: "rx_rle_loop ?limit z (load_rx_cursor z) ?d (- 1) = rx_rle_loop ?limit z1 cur1 d (crc32_update_reduced (- 1) ?s)"
    "at z (ZDLE # type # ?e (le_bytes ?crc) @ ?xon @ bs) k1 z1 cur1" "calm z k1"
    by blast
  have "receive_escape8_format z1 = ZMODEM_ESCAPE8_OMEN" using at_moved [OF 1(2)] assms(2) by (simp add: cfg_simps)
  then obtain z2 cur2 where 2: "rx_rle_cursor 1000 z1 cur1 = Some (uint type OR RX_FRAME_END_FLAG, z2, cur2)"
    "at z (?e (le_bytes ?crc) @ ?xon @ bs) 0 z2 cur2"
    using omen_frame_end [OF 1(2,3) assms(4)] unfolding rx_rle_cursor_def by fastforce
  have t: "255 < uint type OR RX_FRAME_END_FLAG" "\<not> uint type < 0" using assms(4) by (auto simp: is_frame_end_def)
  have loop: "rx_rle_loop ?limit z (load_rx_cursor z) ?d (- 1) =
      Some (uint type, z2, cur2, d, crc32_update_reduced (- 1) (?s @ [type]))"
    unfolding 1(1) using 2(1) t frame_octet [OF assms(4)] d(2)
    by (subst rx_rle_loop.simps) (simp add: crc32_reduced_append)
  obtain z3 cur3 k3 where
    3: "rx_le_octets (on_cursor (rx_rle_byte_cursor 1000)) 0 4 0 (z2, cur2) = Some (0, ?crc, z3, cur3)"
    "at z (?xon @ bs) k3 z3 cur3" "calm z k3"
    using cursor_crc [OF rle_byte_next [OF assms(1,2)] 2(2) calm_0] by blast
  have "rx_rle_data buf capacity z =
      Some (if length p \<le> ?limit then uint type else ZMODEM_INVALID_DATA, store_rx_cursor cur3 z3,
            filled ?limit p buf, min ?limit (length p))"
    unfolding rx_rle_data_def loop bind.bind_lunit prod.case Let_def 3(1)
    using t(2) d(3) by (auto simp: rle_holds_def)
  then show ?thesis using input_after [OF 3(2,3)] by blast
qed

section \<open>Headers\<close>

lemma at_header: "at z0 bs k z cur \<Longrightarrow> at (z0\<lparr>rxd_header := h\<rparr>) bs k (z\<lparr>rxd_header := h\<rparr>) cur"
  using rx_moved_header [of z0 z h] by (simp add: on_line_def upcoming_def)

lemma omen_byte_next:
  assumes "seven_bit s z0"
  shows "omen_reader s z0 (rx_omen_byte_cursor t e)"
  unfolding omen_reader_def
proof (intro allI impI)
  fix c bs k z cur assume a: "at z0 (omen_encode_byte s c @ bs) k z cur" "calm z0 k"
  have "rx_octet_result e (uint c) = uint c"
    using uint_u8_bounds [of c] by (simp add: rx_octet_result_def del: uint_u8_bounds)
  then show "\<exists>z' cur'. rx_omen_byte_cursor t e z cur = Some (uint c, z', cur') \<and> at z0 bs 0 z' cur'"
    using omen_next [OF a assms, of t] by (auto simp: rx_omen_byte_cursor_def)
qed

lemma omen_octets_at:
  "seven_bit s z0 \<Longrightarrow> at z0 (concat (map (omen_encode_byte s) cs) @ bs) k z cur \<Longrightarrow> calm z0 k \<Longrightarrow>
   i + length cs \<le> length (rxd_header z0) \<Longrightarrow>
   \<exists>z' cur' k'. rx_omen_octets t i (length cs) crc z cur = Some (0, crc32_update_reduced crc cs, z', cur') \<and>
     at (z0\<lparr>rxd_header := take i (rxd_header z0) @ cs @ drop (i + length cs) (rxd_header z0)\<rparr>) bs k' z' cur' \<and>
     calm z0 k'"
proof (induction cs arbitrary: z0 k z cur i crc)
  case Nil
  then show ?case by auto
next
  case (Cons c cs)
  have "at z0 (omen_encode_byte s c @ concat (map (omen_encode_byte s) cs) @ bs) k z cur" using Cons.prems(2) by simp
  from omen_readerD [OF omen_byte_next [OF Cons.prems(1)] this Cons.prems(3)] obtain z1 cur1 where
    1: "rx_omen_byte_cursor t ZMODEM_INVALID_HEADER z cur = Some (uint c, z1, cur1)"
    "at z0 (concat (map (omen_encode_byte s) cs) @ bs) 0 z1 cur1" by blast
  let ?h = "take i (rxd_header z0) @ [c] @ drop (Suc i) (rxd_header z0)"
  let ?z0 = "z0\<lparr>rxd_header := ?h\<rparr>"
  have h: "rxd_header z1 = rxd_header z0" using rx_moved_fields(6) [OF at_moved [OF 1(2)]] .
  have m: "mem_store (rxd_header z1) i [c] = Some ?h" using Cons.prems(4) by (simp add: mem_store_def h)
  have sz: "seven_bit s ?z0" using Cons.prems(1) by (simp add: seven_bit_def)
  have len: "Suc i + length cs \<le> length (rxd_header ?z0)" using Cons.prems(4) by simp
  have hh: "rxd_header ?z0 = ?h" by simp
  note IH = Cons.IH [OF sz at_header [OF 1(2), of ?h] _ len, unfolded calm_update, OF calm_0]
  obtain z2 cur2 k2 where
    2: "rx_omen_octets t (Suc i) (length cs) (crc32_byte_update crc c) (z1\<lparr>rxd_header := ?h\<rparr>) cur1 =
      Some (0, crc32_update_reduced (crc32_byte_update crc c) cs, z2, cur2)"
    "at (?z0\<lparr>rxd_header := take (Suc i) ?h @ cs @ drop (Suc i + length cs) ?h\<rparr>) bs k2 z2 cur2" "calm z0 k2"
    using IH unfolding hh by blast
  have "take (Suc i) ?h @ cs @ drop (Suc i + length cs) ?h =
      take i (rxd_header z0) @ (c # cs) @ drop (i + length (c # cs)) (rxd_header z0)"
    using Cons.prems(4) by (simp add: min_def add.commute)
  then have "at (z0\<lparr>rxd_header := take i (rxd_header z0) @ (c # cs) @ drop (i + length (c # cs)) (rxd_header z0)\<rparr>)
      bs k2 z2 cur2" using 2(2) by simp
  moreover have "rx_omen_octets t i (length (c # cs)) crc z cur = Some (0, crc32_update_reduced crc (c # cs), z2, cur2)"
    using 1(1) m 2(1) by (simp add: not_less)
  ultimately show ?case using 2(3) by blast
qed

lemma omen_count_next:
  assumes "at z0 (d # bs) k z cur" "0x21 \<le> unat d" "unat d \<le> 0x7e"
  shows "\<exists>z' cur'. rx_omen_count t z cur = Some (uint d, z', cur') \<and> at z0 bs 0 z' cur'"
proof -
  have "\<not> bit (unat d) 7" using assms(3) by (simp add: bit_iff_odd)
  then have 7: "\<not> bit d 7" by (simp add: bit_unsigned_iff)
  have d: "d \<noteq> 0x11" "d \<noteq> 0x13" "d \<noteq> CAN" using assms(2) by auto
  obtain z' cur' where "rx_cursor_raw t z cur = Some (uint d, z', cur')" "at z0 bs 0 z' cur'"
    using raw_other [OF assms(1) d(3)] by blast
  then show ?thesis
    using u8_low7 [OF 7] omen_flow [OF 7 d(1,2)] by (subst rx_omen_count.simps) (simp add: Let_def)
qed

lemma rx_omen_header_wire:
  assumes "seven_bit s z" "5 \<le> length h" "length h \<le> 17" "length (rxd_header z) = 17"
    "ready ((0x22 + word_of_nat (length h - 1)) # concat (map (omen_encode_byte s) (h @ salted_crc32 h)) @ bs) z"
  shows "\<exists>z'. rx_omen_header t format z = Some (ZMODEM_OK, z') \<and>
    rx_moved ((stored h z)\<lparr>receive_32_bit_data := True, receive_encoded_data := format,
      receive_escape8_format := ZMODEM_ESCAPE8_OMEN\<rparr>) z' \<and> ready bs z'"
proof -
  let ?d = "0x22 + word_of_nat (length h - 1) :: u8" and ?e = "\<lambda>cs. concat (map (omen_encode_byte s) cs)"
  let ?crc = "NOT (crc32_update_reduced (- 1) (h @ omen_header_crc_suffix))"
  have "?d = word_of_nat (0x22 + (length h - 1))" by simp
  moreover have "0x22 + (length h - 1) = length h + 33" using assms(2) by simp
  ultimately have w: "?d = word_of_nat (length h + 33)" by (simp only:)
  have d: "uint ?d = int (length h + 33)" unfolding w by (rule uint_small) (use assms(3) in simp)
  then have d': "unat ?d = length h + 33" by (simp only: unat_eq_nat_uint nat_int)
  obtain k where "at z (?d # ?e h @ ?e (salted_crc32 h) @ bs) k z (load_rx_cursor z)"
    using input_at [OF assms(5)] by auto
  from omen_count_next [OF this, of t] obtain z1 cur1 where
    1: "rx_omen_count t z (load_rx_cursor z) = Some (uint ?d, z1, cur1)" "at z (?e h @ ?e (salted_crc32 h) @ bs) 0 z1 cur1"
    using d' assms(2,3) by auto
  let ?z = "z\<lparr>rxd_header := h @ drop (length h) (rxd_header z)\<rparr>"
  obtain z2 cur2 k2 where 2: "rx_omen_octets t 0 (length h) (- 1) z1 cur1 = Some (0, crc32_update_reduced (- 1) h, z2, cur2)"
    "at ?z (?e (le_bytes ?crc) @ bs) k2 z2 cur2" "calm ?z k2"
    using omen_octets_at [OF assms(1) 1(2) calm_0, of 0 t "- 1"] assms(3,4) by (auto simp: salted_crc32_def)
  have sz: "seven_bit s ?z" using assms(1) by (simp add: seven_bit_def)
  obtain z3 cur3 k3 where
    3: "rx_le_octets (on_cursor (rx_omen_byte_cursor t ZMODEM_INVALID_HEADER)) 0 4 0 (z2, cur2) = Some (0, ?crc, z3, cur3)"
    "at ?z bs k3 z3 cur3" "calm ?z k3"
    using cursor_crc [OF omen_byte_next [OF sz] 2(2,3)] by blast
  let ?y = "(store_rx_cursor cur3 z3)\<lparr>rxd_header_len := length h, receive_32_bit_data := True,
    receive_encoded_data := format, receive_escape8_format := ZMODEM_ESCAPE8_OMEN\<rparr>"
  have c: "\<not> uint ?d < 0" "\<not> uint ?d < 0x22" "\<not> ZMAXHLEN < nat (uint ?d - 0x22)" "nat (uint ?d - 0x22) + 1 = length h"
    using assms(2,3) unfolding d(1) by auto
  have "rx_omen_header t format z = Some (ZMODEM_OK, ?y)"
    unfolding rx_omen_header_def 1(1) bind.bind_lunit prod.case c(4) 2(1) Let_def salted 3(1)
    using c(1-3) by simp
  moreover have "rx_moved ?z (store_rx_cursor cur3 z3)" using queued_store [OF 3(2)] by blast
  then have "rx_moved ((stored h z)\<lparr>receive_32_bit_data := True, receive_encoded_data := format,
      receive_escape8_format := ZMODEM_ESCAPE8_OMEN\<rparr>) ?y"
    unfolding stored_def by (intro rx_moved_escape8 rx_moved_encoded rx_moved_32 rx_moved_len)
  moreover have "ready bs ?y" using ready_input [OF input_after [OF 3(2,3)]] by simp
  ultimately show ?thesis by blast
qed

lemma rx_seven_bit_style:
  assumes "seven_bit s z" "5 \<le> length h" "length h \<le> 17" "length (rxd_header z) = 17"
    "queued ((0x22 + word_of_nat (length h - 1)) # concat (map (omen_encode_byte s) (h @ salted_crc32 h)) @ bs) 0 z"
  shows "\<exists>z'. rx_header_style t (uint (if use_pack7 s then ZBINP7 else ZBINR32ESC8)) z = Some (Some (ZMODEM_OK, z')) \<and>
    rx_moved (accepted_seven_bit s h z) z' \<and> ready bs z'"
proof -
  let ?z = "z\<lparr>receive_mobyturbo := False\<rparr>"
  have "seven_bit s ?z" using assms(1) by (simp add: seven_bit_def)
  moreover have "length (rxd_header ?z) = 17" using assms(4) by simp
  ultimately obtain z' where z': "rx_omen_header t (encoded_format s) ?z = Some (ZMODEM_OK, z')"
    "rx_moved ((stored h ?z)\<lparr>receive_32_bit_data := True, receive_encoded_data := encoded_format s,
      receive_escape8_format := ZMODEM_ESCAPE8_OMEN\<rparr>) z'" "ready bs z'"
    using rx_omen_header_wire [OF _ assms(2,3) _ ready_no_mobyturbo [OF assms(5)]] by blast
  have "(stored h ?z)\<lparr>receive_32_bit_data := True, receive_encoded_data := encoded_format s,
      receive_escape8_format := ZMODEM_ESCAPE8_OMEN\<rparr> = accepted_seven_bit s h z"
    by (intro zmodem.equality) (simp_all add: accepted_seven_bit_def stored_def)
  moreover have "rx_header_style t (uint (if use_pack7 s then ZBINP7 else ZBINR32ESC8)) z =
      Some (rx_omen_header t (encoded_format s) ?z)"
    by (simp add: rx_header_style_def Let_def low7_def encoded_format_def)
  ultimately show ?thesis using z' by auto
qed

lemma rx_header_raw_seven_bit:
  assumes "seven_bit s z" "5 \<le> length h" "length h \<le> 17" "length (rxd_header z) = 17" "ready (header_wire s h @ bs) z"
  shows "\<exists>z'. rx_header_raw t report z = Some (uint (hd h), z') \<and>
    rx_moved ((accepted_seven_bit s h z)\<lparr>mobyturbo_probe_passed := False\<rparr>) z' \<and> ready bs z'"
proof -
  let ?z = "z\<lparr>rxd_header_len := 0, mobyturbo_probe_passed := False\<rparr>" and ?a = "\<lambda>z. accepted_seven_bit s h z"
  let ?style = "if use_pack7 s then ZBINP7 else ZBINR32ESC8"
  let ?rest = "(0x22 + word_of_nat (length h - 1)) # concat (map (omen_encode_byte s) (h @ salted_crc32 h)) @ bs"
  have r: "ready (ZPAD # [] @ ZDLE # ?style # ?rest) ?z"
    using assms(1,5) by (simp add: header_wire_def omen_header_wire_def seven_bit_def)
  have plain: "\<not> rx_needs_slow_path y (uint ?style)" for y :: "'c zmodem"
    unfolding slow_path_octet by simp
  have st: "\<exists>z'. rx_header_style t (uint ?style) y = Some (Some (ZMODEM_OK, z')) \<and> rx_moved (?a ?z) z' \<and> ready bs z'"
    if m: "rx_moved ?z y" and q: "queued ?rest 0 y" for y
  proof -
    have "seven_bit s ?z" using assms(1) by (simp add: seven_bit_def)
    then have s: "seven_bit s y" by (rule seven_bit_moved [OF m])
    have l: "length (rxd_header y) = 17" using rx_moved_fields(6) [OF m] assms(4) by simp
    obtain z' where "rx_header_style t (uint ?style) y = Some (Some (ZMODEM_OK, z'))" "rx_moved (?a y) z'" "ready bs z'"
      using rx_seven_bit_style [OF s assms(2,3) l q] by blast
    moreover have "rx_moved (?a ?z) (?a y)"
      unfolding accepted_seven_bit_def by (intro rx_moved_escape8 rx_moved_encoded rx_moved_32 rx_moved_mobyturbo stored_moved m)
    ultimately show ?thesis using rx_moved_trans by blast
  qed
  have a: "rxd_header (?a ?z) ! 0 = hd h" "rxd_header_len (?a ?z) \<noteq> 0"
    using assms(2) by (cases h; simp add: accepted_seven_bit_def stored_def)+
  have "(?a ?z)\<lparr>mobyturbo_probe_passed := False\<rparr> = (?a z)\<lparr>mobyturbo_probe_passed := False\<rparr>"
    by (intro zmodem.equality) (simp_all add: accepted_seven_bit_def stored_def)
  then show ?thesis using header_hunt [OF r _ plain st a, of report] by simp
qed

section \<open>Data\<close>

lemma rx_data_seven_bit:
  assumes "seven_bit s z" "input z (data_wire s previous type p @ bs) z" "is_frame_end type" "capacity \<le> length buf"
    "receive_encoded_data z = encoded_format s" "receive_escape8_format z = ZMODEM_ESCAPE8_OMEN"
  shows "\<exists>z'. rx_data buf capacity z =
      Some (if length p \<le> rx_limit capacity then frame_result type else ZMODEM_INVALID_DATA, z',
            filled (rx_limit capacity) p buf, min (rx_limit capacity) (length p),
            if length p \<le> rx_limit capacity then type else 0) \<and>
    input z ((if type = ZCRCW then [XON] else []) @ bs) z'"
proof -
  let ?limit = "rx_limit capacity" and ?f = "if use_pack7 s then rx_pack7_data else rx_rle_data"
  obtain z' where z': "?f buf capacity z = Some (if length p \<le> ?limit then uint type else ZMODEM_INVALID_DATA, z',
      filled ?limit p buf, min ?limit (length p))" "input z ((if type = ZCRCW then [XON] else []) @ bs) z'"
    using rx_pack7_data_wire [OF assms(1) _ assms(3,4), of p bs] rx_rle_data_wire [OF assms(1,6) _ assms(3,4), of p bs]
      assms(1,2) by (cases "use_pack7 s") (auto simp: data_wire_def seven_bit_def)
  have "rx_data buf capacity z =
      Some (if length p \<le> ?limit then frame_result type else ZMODEM_INVALID_DATA, z',
            filled ?limit p buf, min ?limit (length p), if length p \<le> ?limit then type else 0)"
    using z'(1) assms(3,5) unfolding is_frame_end_def
    by (cases "use_pack7 s"; cases "length p \<le> ?limit") (auto simp: rx_data_def encoded_format_def frame_result_def)
  then show ?thesis using z'(2) by blast
qed

end

end
