(* ===== verification/Exchange.thy ===== *)
theory Exchange
  imports Posix_Link Decode_Seven_Bit Crc_Correct
begin

text \<open>
  A sender and a receiver over a transport that keeps the contracts \<open>octet_sink\<close> and
  \<open>octet_source\<close>: what one end sends, the other end receives. The witnesses run on the POSIX
  adapter over the pipe, with one descriptor pair for each end.
\<close>

declare split_paired_Ex [simp del] split_paired_All [simp del]

section \<open>A sender and a receiver\<close>

text \<open>The sender \<open>s\<close> may write; what it has sent is \<open>w\<close>. The octets \<open>bs\<close> are what the receiver \<open>z\<close>
  will read; the receiver is not in the middle of a sequence of cancels.\<close>

definition may_send :: "('c \<Rightarrow> u8 list \<Rightarrow> int \<times> 'c) \<Rightarrow> ('c \<Rightarrow> int \<times> 'c) \<Rightarrow> ('c \<Rightarrow> bool) \<Rightarrow> ('c \<Rightarrow> u8 list) \<Rightarrow>
    'c zmodem \<Rightarrow> u8 list \<Rightarrow> bool" where
  "may_send wr fl open_for sent s w \<longleftrightarrow>
     io_write (io s) = wr \<and> io_flush (io s) = fl \<and> open_for (io_context (io s)) \<and>
     sent (io_context (io s)) = w \<and> classes_ok s \<and> length (tx_data_wire s) = ZMODEM_TX_DATA_WIRE_CAPACITY"

definition will_read :: "('c \<Rightarrow> nat \<Rightarrow> int \<Rightarrow> int \<times> u8 list \<times> nat \<times> 'c) \<Rightarrow> ('c \<Rightarrow> bool) \<Rightarrow> ('c \<Rightarrow> u8 list) \<Rightarrow>
    'c zmodem \<Rightarrow> u8 list \<Rightarrow> bool" where
  "will_read rd live pending z bs \<longleftrightarrow>
     io_read (io z) = rd \<and> live (io_context (io z)) \<and> length (input_buffer z) = ZMODEM_INPUT_CAPACITY \<and>
     input_index z + input_count z \<le> ZMODEM_INPUT_CAPACITY \<and> (receive_mobyturbo z \<or> cancel_count z \<noteq> 4) \<and>
     length (rxd_header z) = ZMAXHLEN + 1 \<and>
     take (input_count z) (drop (input_index z) (input_buffer z)) @ pending (io_context (io z)) = bs"

text \<open>What a header leaves the decoder with, for the data of its frame.\<close>

definition in_frame :: "'s zmodem \<Rightarrow> 'c zmodem \<Rightarrow> bool" where
  "in_frame s z \<longleftrightarrow> agreed s z \<and>
     receive_encoded_data z = (if escape_8th_bit s then encoded_format s else ZMODEM_ENCODED_DATA_NONE) \<and>
     (if escape_8th_bit s then receive_escape8_format z = ZMODEM_ESCAPE8_OMEN
      else receive_mobyturbo z = use_mobyturbo s \<and> receive_32_bit_data z = uses_crc32 s)"

lemma in_frame_moved: "in_frame s z \<Longrightarrow> rx_moved z z' \<Longrightarrow> in_frame s z'"
  by (simp add: in_frame_def agreed_def rx_moved_fields)

lemma in_frame_matched: "in_frame s z \<Longrightarrow> \<not> escape_8th_bit s \<Longrightarrow> matched s z"
  by (simp add: in_frame_def agreed_matched)

lemma agreed_seven_bit: "agreed s z \<Longrightarrow> escape_8th_bit s \<Longrightarrow> seven_bit s z"
  by (simp add: agreed_def seven_bit_def)

context octet_sink
begin

lemma may_send_sending: "may_send wr fl open_for sent s w \<Longrightarrow> sending s w s"
  by (simp add: may_send_def sending_def)

lemma sending_may_send: "sending s0 w s \<Longrightarrow> may_send wr fl open_for sent s w"
  by (simp add: may_send_def sending_def)

text \<open>Headers and data, as octets sent.\<close>

lemma header_sent:
  assumes "may_send wr fl open_for sent s w" "HDRLEN \<le> length h" "length h \<le> ZMAXHLEN + 1"
  shows "\<exists>s'. tx_header_length h (length h) s = (0, s') \<and>
    may_send wr fl open_for sent s' (w @ header_wire s h) \<and> tx_moved s s'"
proof -
  have "puts s (tx_header_length h (length h)) (header_wire s h)"
    using tx_header_length_puts [of "length h" h s] assms(2,3) by simp
  then obtain s' where "tx_header_length h (length h) s = (0, s')" "sending s (w @ header_wire s h) s'"
    using putsD may_send_sending [OF assms(1)] by blast
  then show ?thesis using sending_may_send [of s "w @ header_wire s h" s'] by (simp add: sending_def)
qed

lemma data_sent:
  assumes "may_send wr fl open_for sent s w" "length p \<le> ZMAXSPLEN"
  shows "\<exists>s'. tx_data type p s = Some (0, s') \<and>
    may_send wr fl open_for sent s' (w @ data_wire s (last_sent s) type p) \<and> tx_moved s s'"
proof -
  have "length (tx_data_wire s) = ZMODEM_TX_DATA_WIRE_CAPACITY" using assms(1) by (simp add: may_send_def)
  from tx_data_sends [OF may_send_sending [OF assms(1)] this assms(2), of type] obtain s' where
    "tx_data type p s = Some (0, s')" "sending s (w @ data_wire s (last_sent s) type p) s'" by blast
  then show ?thesis
    using sending_may_send [of s "w @ data_wire s (last_sent s) type p" s'] by (simp add: sending_def)
qed

end

context octet_source
begin

lemma will_read_ready:
  "will_read rd live pending z bs \<longleftrightarrow> ready bs z \<and> length (rxd_header z) = ZMAXHLEN + 1"
proof -
  have "(\<exists>k. queued bs k z \<and> calm z k) \<longleftrightarrow> queued bs (cancel_count z) z \<and> calm z (cancel_count z)"
    by (auto simp: queued_def on_line_def load_rx_cursor_def)
  then show ?thesis
    by (auto simp: will_read_def input_def queued_def on_line_def upcoming_def load_rx_cursor_def calm_def)
qed

lemma will_read_sane: "will_read rd live pending z bs \<Longrightarrow> sane (length bs) z z"
  by (auto simp: will_read_def sane_def on_line_def upcoming_def load_rx_cursor_def same_io_def
      intro!: exI [of _ bs] exI [of _ "cancel_count z"])

lemma header_received_keeping:
  assumes "will_read rd live pending z (header_wire s h @ bs)" "agreed s z" "HDRLEN \<le> length h" "length h \<le> ZMAXHLEN + 1"
  shows "\<exists>z'. rx_header_raw t report z = Some (uint (hd h), z') \<and>
    rxd_header_len z' = length h \<and> take (length h) (rxd_header z') = h \<and> in_frame s z' \<and>
    will_read rd live pending z' (header_trailer s h @ bs) \<and> escape_8th_bit z' = escape_8th_bit z \<and>
    peer_can_variable_headers z' = peer_can_variable_headers z"
proof -
  let ?a = "(if escape_8th_bit s then accepted_seven_bit s h z else accepted s h z)\<lparr>mobyturbo_probe_passed := False\<rparr>"
  have r: "ready (header_wire s h @ bs) z" and len: "length (rxd_header z) = 17"
    using assms(1) by (simp_all add: will_read_ready)
  have h: "5 \<le> length h" "length h \<le> 17" using assms(3,4) by simp_all
  obtain z' where z': "rx_header_raw t report z = Some (uint (hd h), z')" "rx_moved ?a z'"
    "ready (header_trailer s h @ bs) z'"
  proof (cases "escape_8th_bit s")
    case True
    then have "header_trailer s h = []" by (simp add: header_trailer_def)
    then show ?thesis
      using rx_header_raw_seven_bit [OF agreed_seven_bit [OF assms(2) True] h len r, of t report] True that by auto
  next
    case False
    then show ?thesis using rx_header_raw_wire [OF assms(2) False h len r, of t report] that by auto
  qed
  have "in_frame s ?a"
    using assms(2) by (simp add: in_frame_def agreed_def accepted_def accepted_seven_bit_def stored_def)
  then have "in_frame s z'" by (rule in_frame_moved [OF _ z'(2)])
  moreover have "rxd_header ?a = h @ drop (length h) (rxd_header z)" "rxd_header_len ?a = length h"
    by (simp_all add: accepted_def accepted_seven_bit_def stored_def)
  moreover have "escape_8th_bit z' = escape_8th_bit ?a" "peer_can_variable_headers z' = peer_can_variable_headers ?a"
    using z'(2) unfolding rx_moved_def set_context_def by auto
  moreover have "escape_8th_bit ?a = escape_8th_bit z" "peer_can_variable_headers ?a = peer_can_variable_headers z"
    by (simp_all add: accepted_def accepted_seven_bit_def stored_def)
  ultimately show ?thesis
    using z'(1,3) rx_moved_fields(6,7) [OF z'(2)] len h by (simp add: will_read_ready)
qed

lemma header_received:
  assumes "will_read rd live pending z (header_wire s h @ bs)" "agreed s z" "HDRLEN \<le> length h" "length h \<le> ZMAXHLEN + 1"
  shows "\<exists>z'. rx_header_raw t report z = Some (uint (hd h), z') \<and>
    rxd_header_len z' = length h \<and> take (length h) (rxd_header z') = h \<and> in_frame s z' \<and>
    will_read rd live pending z' (header_trailer s h @ bs)"
  using header_received_keeping [OF assms, of t report] by blast

lemma plain_data_received:
  assumes "will_read rd live pending z (subpacket_octets s previous type p crc @ bs)" "matched s z"
    "is_frame_end type" "capacity \<le> length buf" "length crc = length (subpacket_crc s type p)"
    "receive_encoded_data z = ZMODEM_ENCODED_DATA_NONE" "receive_32_bit_data z = uses_crc32 s"
  shows "\<exists>z'. rx_data buf capacity z =
      Some (if crc = subpacket_crc s type p \<and> length p \<le> rx_limit capacity then frame_result type
            else ZMODEM_INVALID_DATA, z',
            take (rx_limit capacity) p @ drop (min (rx_limit capacity) (length p)) buf,
            min (rx_limit capacity) (length p),
            if crc = subpacket_crc s type p \<and> length p \<le> rx_limit capacity then type else 0) \<and>
      will_read rd live pending z' bs \<and> rx_moved z z'"
proof -
  have r: "ready (subpacket_octets s previous type p crc @ bs) z" and len: "length (rxd_header z) = 17"
    using assms(1) by (simp_all add: will_read_ready)
  obtain z' where z': "rx_data buf capacity z =
      Some (if crc = subpacket_crc s type p \<and> length p \<le> rx_limit capacity then frame_result type
            else ZMODEM_INVALID_DATA, z',
            take (rx_limit capacity) p @ drop (min (rx_limit capacity) (length p)) buf,
            min (rx_limit capacity) (length p),
            if crc = subpacket_crc s type p \<and> length p \<le> rx_limit capacity then type else 0)" "input z bs z'"
    using rx_data_wire [OF assms(2) r assms(3,4,6,7,5)] by blast
  have m: "rx_moved z z'" "ready bs z'" using z'(2) ready_input by (auto simp: input_def)
  then have "will_read rd live pending z' bs" using len rx_moved_fields(6) [of z z'] by (simp add: will_read_ready)
  with z'(1) m(1) show ?thesis by blast
qed

text \<open>A subpacket in the format of its frame, plain, Pack-7 or run-length symbols.\<close>

lemma data_received:
  assumes "will_read rd live pending z (data_wire s previous type p @ bs)" "in_frame s z" "is_frame_end type"
    "capacity \<le> length buf"
  shows "\<exists>z'. rx_data buf capacity z =
      Some (if length p \<le> rx_limit capacity then frame_result type else ZMODEM_INVALID_DATA, z',
            filled (rx_limit capacity) p buf, min (rx_limit capacity) (length p),
            if length p \<le> rx_limit capacity then type else 0) \<and>
    will_read rd live pending z' ((if type = ZCRCW then [XON] else []) @ bs) \<and> rx_moved z z'"
proof (cases "escape_8th_bit s")
  case True
  have r: "ready (data_wire s previous type p @ bs) z" and len: "length (rxd_header z) = 17"
    using assms(1) by (simp_all add: will_read_ready)
  have "seven_bit s z" using assms(2) True agreed_seven_bit by (auto simp: in_frame_def)
  from rx_data_seven_bit [OF this r assms(3,4)] assms(2) True obtain z' where z': "rx_data buf capacity z =
      Some (if length p \<le> rx_limit capacity then frame_result type else ZMODEM_INVALID_DATA, z',
            filled (rx_limit capacity) p buf, min (rx_limit capacity) (length p),
            if length p \<le> rx_limit capacity then type else 0)"
    "input z ((if type = ZCRCW then [XON] else []) @ bs) z'" by (auto simp: in_frame_def)
  have m: "rx_moved z z'" using z'(2) by (simp add: input_def)
  have "will_read rd live pending z' ((if type = ZCRCW then [XON] else []) @ bs)"
    using ready_input [OF z'(2)] len rx_moved_fields(6) [OF m] by (simp add: will_read_ready)
  with z'(1) m show ?thesis by blast
next
  case False
  let ?xon = "if type = ZCRCW then [XON] else []"
  have "data_wire s previous type p @ bs = subpacket_octets s previous type p (subpacket_crc s type p) @ ?xon @ bs"
    using False by (simp add: data_wire_def plain_data_wire_octets)
  from plain_data_received [OF assms(1) [unfolded this] in_frame_matched [OF assms(2) False] assms(3,4) refl]
  show ?thesis using assms(2) False by (simp add: in_frame_def filled_def)
qed

end

section \<open>A line in both directions\<close>

context octet_sink
begin

lemma header_sent_count:
  assumes "may_send wr fl open_for sent s w" "HDRLEN \<le> n" "n \<le> ZMAXHLEN + 1" "n \<le> length p"
  shows "\<exists>s'. tx_header_length p n s = (0, s') \<and>
    may_send wr fl open_for sent s' (w @ header_wire s (take n p)) \<and> tx_moved s s'"
proof -
  obtain s' where "tx_header_length p n s = (0, s')" "sending s (w @ header_wire s (take n p)) s'"
    using putsD [OF tx_header_length_puts [OF assms(2-4)] may_send_sending [OF assms(1)]] by blast
  then show ?thesis using sending_may_send [of s "w @ header_wire s (take n p)" s'] by (simp add: sending_def)
qed

lemma hex_header_sent:
  assumes "may_send wr fl open_for sent s w" "length p = HDRLEN"
  shows "\<exists>s'. tx_hex_header p s = (0, s') \<and> may_send wr fl open_for sent s' (w @ hex_header_wire p) \<and> tx_moved s s'"
proof -
  have "puts s (tx_hex_header p) (hex_header_wire p)"
    using tx_hex_header_length_puts [of HDRLEN p s] assms(2) by (simp add: tx_hex_header_def)
  then obtain s' where "tx_hex_header p s = (0, s')" "sending s (w @ hex_header_wire p) s'"
    using putsD may_send_sending [OF assms(1)] by blast
  then show ?thesis using sending_may_send [of s "w @ hex_header_wire p" s'] by (simp add: sending_def)
qed

end

locale octet_line = octet_link rd live pending wr fl + octet_sink wr fl live sent
  for rd :: "'c \<Rightarrow> nat \<Rightarrow> int \<Rightarrow> int \<times> u8 list \<times> nat \<times> 'c" and live :: "'c \<Rightarrow> bool" and pending :: "'c \<Rightarrow> u8 list"
    and wr :: "'c \<Rightarrow> u8 list \<Rightarrow> int \<times> 'c" and fl :: "'c \<Rightarrow> int \<times> 'c" and sent :: "'c \<Rightarrow> u8 list"
begin

text \<open>What is sent does not touch what is still to be read.\<close>

lemma sink_keeping: "octet_sink wr fl (\<lambda>c. live c \<and> pending c = bs) sent"
proof
  fix c :: 'c and out :: "u8 list"
  show "live c \<and> pending c = bs \<Longrightarrow> out \<noteq> [] \<Longrightarrow>
      \<exists>c'. wr c out = (ZMODEM_OK, c') \<and> (live c' \<and> pending c' = bs) \<and> sent c' = sent c @ out"
    using write_sends [of c out] write_keeps [of c out] by auto
  show "live c \<and> pending c = bs \<Longrightarrow> \<exists>c'. fl c = (ZMODEM_OK, c') \<and> (live c' \<and> pending c' = bs) \<and> sent c' = sent c"
    using flush_sends [of c] flush_keeps [of c] by auto
qed

lemma header_sent_reading:
  assumes "may_send wr fl live sent z w" "will_read rd live pending z bs" "HDRLEN \<le> n" "n \<le> ZMAXHLEN + 1" "n \<le> length p"
  shows "\<exists>z'. tx_header_length p n z = (0, z') \<and> may_send wr fl live sent z' (w @ header_wire z (take n p)) \<and>
    will_read rd live pending z' bs \<and> tx_moved z z'"
proof -
  let ?p = "pending (io_context (io z))"
  have "may_send wr fl (\<lambda>c. live c \<and> pending c = ?p) sent z w" using assms(1) by (simp add: may_send_def)
  then obtain z' where z': "tx_header_length p n z = (0, z')"
    "may_send wr fl (\<lambda>c. live c \<and> pending c = ?p) sent z' (w @ header_wire z (take n p))" "tx_moved z z'"
    using octet_sink.header_sent_count [OF sink_keeping _ assms(3-5)] by blast
  have m: "io_read (io z') = io_read (io z)" "input_buffer z' = input_buffer z" "input_index z' = input_index z"
    "input_count z' = input_count z" "receive_mobyturbo z' = receive_mobyturbo z" "cancel_count z' = cancel_count z"
    "rxd_header z' = rxd_header z"
    using z'(3) unfolding tx_moved_def set_context_def by auto
  have "live (io_context (io z'))" "pending (io_context (io z')) = ?p" using z'(2) by (simp_all add: may_send_def)
  then have "will_read rd live pending z' bs" using assms(2) by (simp add: will_read_def m)
  then show ?thesis using z' by (auto simp: may_send_def)
qed

end

sublocale posix_pipe \<subseteq> octet_line "read_callback ops" live pending "write_callback ops" "flush_callback ops" taken
  by unfold_locales

section \<open>Damage\<close>

definition burst_limit :: "'c zmodem \<Rightarrow> nat" where
  "burst_limit s = (if uses_crc32 s then 4 else 2)"

lemma subpacket_crc_burst:
  assumes "length good = length bad" "length good \<le> burst_limit s" "good \<noteq> bad"
  shows "subpacket_crc s type (a @ good @ c) \<noteq> subpacket_crc s type (a @ bad @ c)"
  using assms crc32_burst_inj [of good bad "- 1" a "c @ [type]"] crc16_burst_inj [of good bad 0 a "c @ [type, 0, 0]"]
  by (auto simp: subpacket_crc_def burst_limit_def dest!: le_bytes_inj be_bytes16_inj split: if_splits)

section \<open>The two ends of a pipe\<close>

text \<open>A session on the POSIX adapter over the pipe: the octets to read, and the signals that will
  interrupt its calls, nine at most. The adapter's output buffer has four octets.\<close>

definition pipe_end :: "u8 list \<Rightarrow> nat \<Rightarrow> pipe posix zmodem" where
  "pipe_end bs n = zmodem_cleared (zmodem_plat_io_bind pipe_kernel
     (\<lparr>input_fd = 0, output_fd = 1, owned_fd = - 1, line = None, termios_saved = False,
       saved_termios = \<lparr>c_iflag = 0, c_oflag = 0, c_cflag = 0, c_lflag = 0, c_vmin = 1, c_vtime = 0\<rparr>,
       output_buffer = [0, 0, 0, 0], output_count = 0\<rparr>,
      \<lparr>pipe_in = bs, pipe_out = [], pipe_signals = min n 9, pipe_time = 0\<rparr>))"

lemma numeral_4: "(4 :: nat) = Suc (Suc (Suc (Suc 0)))"
  and numeral_5: "(5 :: nat) = Suc (Suc (Suc (Suc (Suc 0))))"
  by simp_all

lemmas pipe_sink = pipe.octet_sink_axioms
lemmas pipe_source = pipe.octet_source_axioms

lemma pipe_end_fields [simp]:
  "can_fcs_32 (pipe_end bs n) = False" "use_mobyturbo (pipe_end bs n) = False"
  "escape_8th_bit (pipe_end bs n) = False" "receive_mobyturbo (pipe_end bs n) = False"
  "want_fcs_32 (pipe_end bs n) = False" "last_sent (pipe_end bs n) = 0"
  "receive_32_bit_data (pipe_end bs n) = False"
  "receive_encoded_data (pipe_end bs n) = ZMODEM_ENCODED_DATA_NONE"
  by (simp_all add: pipe_end_def zmodem_cleared_def)

lemma pipe_end_sends:
  "may_send (write_callback pipe_kernel) (flush_callback pipe_kernel) pipe.live pipe.taken (pipe_end bs n) []"
  by (simp add: may_send_def pipe_end_def zmodem_cleared_def bind_callbacks posix_live_def posix_sound_def
      posix_taken_def classes_ok_def pipe_good_def)

lemma pipe_end_reads:
  "will_read (read_callback pipe_kernel) pipe.live pipe.pending (pipe_end bs n) bs"
  by (simp add: will_read_def pipe_end_def zmodem_cleared_def bind_callbacks posix_live_def posix_sound_def
      posix_pending_def pipe_good_def)

lemma pipe_end_agrees: "matched (pipe_end [] m) (pipe_end bs n)" "agreed (pipe_end [] m) (pipe_end bs n)"
  by (simp_all add: agreed_def matched_def pipe_end_def zmodem_cleared_def)

text \<open>A sender for a seven-bit line, with Pack-7 or with run-length symbols, and a receiver in its frame.\<close>

definition seven_bit_end :: "bool \<Rightarrow> nat \<Rightarrow> pipe posix zmodem" where
  "seven_bit_end pack7 n = (pipe_end [] n)\<lparr>escape_8th_bit := True, use_pack7 := pack7\<rparr>"

definition seven_bit_start :: "bool \<Rightarrow> u8 list \<Rightarrow> pipe posix zmodem" where
  "seven_bit_start pack7 bs = (pipe_end bs 2)\<lparr>receive_escape8_format := ZMODEM_ESCAPE8_OMEN,
     receive_encoded_data := (if pack7 then ZMODEM_ENCODED_DATA_PACK7 else ZMODEM_ENCODED_DATA_RLE)\<rparr>"

lemma seven_bit_end_sends:
  "may_send (write_callback pipe_kernel) (flush_callback pipe_kernel) pipe.live pipe.taken (seven_bit_end pack7 n) []"
  using pipe_end_sends [of "[]" n] by (simp add: seven_bit_end_def may_send_def classes_ok_def)

lemma seven_bit_start_reads:
  "will_read (read_callback pipe_kernel) pipe.live pipe.pending (seven_bit_start pack7 bs) bs"
  using pipe_end_reads [of bs 2] by (simp add: seven_bit_start_def will_read_def)

lemma seven_bit_end_agrees:
  "agreed (seven_bit_end pack7 m) (pipe_end bs n)" "in_frame (seven_bit_end pack7 m) (seven_bit_start pack7 bs)"
  by (simp_all add: agreed_def in_frame_def encoded_format_def seven_bit_end_def seven_bit_start_def
      pipe_end_def zmodem_cleared_def)

section \<open>Properties\<close>

text \<open>C4: A header arrives. Every header of five to seventeen octets, in every style the sender's
  settings select (hexadecimal, 16-bit, 32-bit, with or without a count, MobyTurbo, Pack-7, the Omen
  code of a seven-bit line), is sent with result 0; a receiver whose settings agree, reading those
  octets in whatever pieces, stores exactly that header, returns its type, is set up for the data that
  follows, and has taken nothing of what comes after it (but for the XON that ends a hexadecimal
  header, still to come).\<close>

theorem header_roundtrip:
  assumes "octet_sink wr fl open_for sent" and "octet_source rd live pending"
    and "may_send wr fl open_for sent s w" and "HDRLEN \<le> length h" and "length h \<le> ZMAXHLEN + 1"
  shows "\<exists>s' octets. tx_header_length h (length h) s = (0, s') \<and>
    may_send wr fl open_for sent s' (w @ octets) \<and>
    (\<forall>z bs. agreed s z \<longrightarrow> will_read rd live pending z (octets @ bs) \<longrightarrow>
      (\<exists>z'. rx_header_raw t report z = Some (uint (hd h), z') \<and>
        rxd_header_len z' = length h \<and> take (length h) (rxd_header z') = h \<and> in_frame s z' \<and>
        will_read rd live pending z' (header_trailer s h @ bs)))"
proof -
  obtain s' where s': "tx_header_length h (length h) s = (0, s')"
    "may_send wr fl open_for sent s' (w @ header_wire s h)"
    using octet_sink.header_sent [OF assms(1,3-5)] by blast
  note r = octet_source.header_received [OF assms(2) _ _ assms(4,5), where s = s and t = t and report = report]
  have "agreed s z \<longrightarrow> will_read rd live pending z (header_wire s h @ bs) \<longrightarrow>
      (\<exists>z'. rx_header_raw t report z = Some (uint (hd h), z') \<and>
        rxd_header_len z' = length h \<and> take (length h) (rxd_header z') = h \<and> in_frame s z' \<and>
        will_read rd live pending z' (header_trailer s h @ bs))" for z bs
    by (intro impI) (rule r)
  then show ?thesis using s' by blast
qed

theorem header_roundtrip_witness:
  "\<exists>s' octets z'. tx_header_length [9, 0x98, 0x11, 0xff, 0] 5 (seven_bit_end False 3) = (0, s') \<and>
     pipe.taken (io_context (io s')) = octets \<and>
     rx_header_raw 1000 False (pipe_end octets 2) = Some (9, z') \<and>
     take 5 (rxd_header z') = [9, 0x98, 0x11, 0xff, 0]"
proof -
  let ?h = "[9, 0x98, 0x11, 0xff, 0] :: u8 list"
  have "HDRLEN \<le> length ?h" "length ?h \<le> ZMAXHLEN + 1" by simp_all
  then obtain s' octets where 1: "tx_header_length ?h (length ?h) (seven_bit_end False 3) = (0, s')"
    "may_send (write_callback pipe_kernel) (flush_callback pipe_kernel) pipe.live pipe.taken s' ([] @ octets)"
    and 2: "agreed (seven_bit_end False 3) z \<longrightarrow>
      will_read (read_callback pipe_kernel) pipe.live pipe.pending z (octets @ bs) \<longrightarrow>
      (\<exists>z'. rx_header_raw 1000 False z = Some (uint (hd ?h), z') \<and> take (length ?h) (rxd_header z') = ?h)" for z bs
    using header_roundtrip [OF pipe_sink pipe_source seven_bit_end_sends [of False 3], of ?h 1000 False] by blast
  have "\<exists>z'. rx_header_raw 1000 False (pipe_end octets 2) = Some (9, z') \<and> take 5 (rxd_header z') = ?h"
    using 2 [of "pipe_end octets 2" "[]"] seven_bit_end_agrees(1) pipe_end_reads by (simp add: numeral_5)
  moreover have "pipe.taken (io_context (io s')) = octets" using 1(2) by (simp add: may_send_def)
  moreover have "tx_header_length ?h 5 (seven_bit_end False 3) = (0, s')" using 1(1) by (simp add: numeral_5)
  ultimately show ?thesis by blast
qed

text \<open>C5: Data arrive. A subpacket of at most \<open>ZMAXSPLEN\<close> octets, with any frame end, is sent with
  result 0 in the format the sender's settings select (plain, MobyTurbo, base-88 groups of Pack-7,
  run-length symbols in the Omen code), and \<open>rx_data\<close> at a receiver set up for that frame returns the
  payload, its length and the frame end; a payload that does not fit the caller's array is refused,
  with nothing stored past the limit.\<close>

theorem data_roundtrip:
  assumes "octet_sink wr fl open_for sent" and "octet_source rd live pending"
    and "may_send wr fl open_for sent s w" and "length p \<le> ZMAXSPLEN" and "is_frame_end type"
  shows "\<exists>s' octets. tx_data type p s = Some (0, s') \<and> may_send wr fl open_for sent s' (w @ octets) \<and>
    (\<forall>z bs buf. in_frame s z \<longrightarrow> will_read rd live pending z (octets @ bs) \<longrightarrow>
      (\<exists>z'. rx_data buf (length buf) z =
         (if length p \<le> rx_limit (length buf)
          then Some (frame_result type, z', p @ drop (length p) buf, length p, type)
          else Some (ZMODEM_INVALID_DATA, z', take (rx_limit (length buf)) p @ drop (rx_limit (length buf)) buf,
                 rx_limit (length buf), 0)) \<and>
         in_frame s z' \<and> will_read rd live pending z' ((if type = ZCRCW then [XON] else []) @ bs)))"
proof -
  let ?w = "data_wire s (last_sent s) type p"
  obtain s' where s': "tx_data type p s = Some (0, s')" "may_send wr fl open_for sent s' (w @ ?w)"
    using octet_sink.data_sent [OF assms(1,3,4)] by blast
  have r: "\<exists>z'. rx_data buf (length buf) z =
         (if length p \<le> rx_limit (length buf)
          then Some (frame_result type, z', p @ drop (length p) buf, length p, type)
          else Some (ZMODEM_INVALID_DATA, z', take (rx_limit (length buf)) p @ drop (rx_limit (length buf)) buf,
                 rx_limit (length buf), 0)) \<and>
         in_frame s z' \<and> will_read rd live pending z' ((if type = ZCRCW then [XON] else []) @ bs)"
    if a: "in_frame s z" "will_read rd live pending z (?w @ bs)" for z bs and buf :: "u8 list"
    using octet_source.data_received [OF assms(2) a(2,1) assms(5) order_refl, of buf] in_frame_moved [OF a(1)]
    by (cases "length p \<le> rx_limit (length buf)") (auto simp: min_def filled_def)
  then show ?thesis using s' by blast
qed

theorem data_roundtrip_witness:
  "\<exists>s' octets z'. tx_data ZCRCW [0x18, 0xff, 0x11] (seven_bit_end True 3) = Some (0, s') \<and>
     pipe.taken (io_context (io s')) = octets \<and>
     rx_data [7, 7, 7, 7] 4 (seven_bit_start True octets) =
       Some (ZMODEM_END_OF_FRAME, z', [0x18, 0xff, 0x11, 7], 3, ZCRCW)"
proof -
  let ?p = "[0x18, 0xff, 0x11] :: u8 list" and ?buf = "[7, 7, 7, 7] :: u8 list"
  have "length ?p \<le> ZMAXSPLEN" "is_frame_end ZCRCW" by (simp_all add: is_frame_end_def)
  then obtain s' octets where 1: "tx_data ZCRCW ?p (seven_bit_end True 3) = Some (0, s')"
    "may_send (write_callback pipe_kernel) (flush_callback pipe_kernel) pipe.live pipe.taken s' ([] @ octets)"
    and 2: "in_frame (seven_bit_end True 3) z \<longrightarrow>
      will_read (read_callback pipe_kernel) pipe.live pipe.pending z (octets @ bs) \<longrightarrow>
      (\<exists>z'. rx_data ?buf (length ?buf) z =
         (if length ?p \<le> rx_limit (length ?buf)
          then Some (frame_result ZCRCW, z', ?p @ drop (length ?p) ?buf, length ?p, ZCRCW)
          else Some (ZMODEM_INVALID_DATA, z', take (rx_limit (length ?buf)) ?p @
            drop (rx_limit (length ?buf)) ?buf, rx_limit (length ?buf), 0)))" for z bs
    using data_roundtrip [OF pipe_sink pipe_source seven_bit_end_sends [of True 3], of ?p ZCRCW] by blast
  have "\<exists>z'. rx_data ?buf 4 (seven_bit_start True octets) =
      Some (ZMODEM_END_OF_FRAME, z', [0x18, 0xff, 0x11, 7], 3, ZCRCW)"
    using 2 [of "seven_bit_start True octets" "[]"] seven_bit_end_agrees(2) seven_bit_start_reads [of True octets]
    by (simp add: rx_limit_def frame_result_def numeral_3_eq_3 numeral_4)
  moreover have "pipe.taken (io_context (io s')) = octets" using 1(2) by (simp add: may_send_def)
  ultimately show ?thesis using 1(1) by auto
qed

text \<open>C6: Damage is noticed. When at most four consecutive octets of a payload (two, under CRC-16)
  arrive changed, but the checksum octets arrive as sent, \<open>rx_data\<close> returns
  \<open>ZMODEM_INVALID_DATA\<close> with frame end 0, and the line is at the end of the subpacket.\<close>

theorem damaged_data_rejected:
  assumes "octet_source rd live pending"
    and "will_read rd live pending z
      (subpacket_octets s previous type (a @ bad @ c) (subpacket_crc s type (a @ good @ c)) @ bs)"
    and "matched s z" and "is_frame_end type"
    and "receive_encoded_data z = ZMODEM_ENCODED_DATA_NONE" and "receive_32_bit_data z = uses_crc32 s"
    and "length good = length bad" and "length good \<le> burst_limit s" and "good \<noteq> bad"
  shows "\<exists>z' buf' used. rx_data buf (length buf) z = Some (ZMODEM_INVALID_DATA, z', buf', used, 0) \<and>
    will_read rd live pending z' bs"
proof -
  have "length (subpacket_crc s type (a @ good @ c)) = length (subpacket_crc s type (a @ bad @ c))"
    by (simp add: subpacket_crc_def le_bytes_def be_bytes16_def)
  from octet_source.plain_data_received [OF assms(1-4) order_refl this assms(5,6), of buf]
    subpacket_crc_burst [OF assms(7-9), of type a c]
  show ?thesis by auto
qed

theorem damaged_data_rejected_witness:
  "\<exists>z' buf' used. rx_data [7, 7, 7, 7] (length [7, 7, 7, 7 :: u8])
     (pipe_end (subpacket_octets (pipe_end [] 0) 0 ZCRCG ([1] @ [2] @ [3])
        (subpacket_crc (pipe_end [] 0) ZCRCG ([1] @ [4] @ [3])) @ []) 2) =
     Some (ZMODEM_INVALID_DATA, z', buf', used, 0) \<and>
     will_read (read_callback pipe_kernel) pipe.live pipe.pending z' []"
  by (rule damaged_data_rejected [OF pipe_source pipe_end_reads pipe_end_agrees(1)])
     (simp_all add: is_frame_end_def uses_crc32_def burst_limit_def)

text \<open>C22: MobyTurbo does not quote six control characters, DLE, XON and XOFF and their forms with the high
  bit, even when the receiver asked for every control character to be escaped: the class of
  these octets is the one MobyTurbo leaves out.\<close>

theorem mobyturbo_controls_unquoted:
  assumes "classes_ok z" and "c \<in> {0x10, 0x90, XON, 0x91, XOFF, 0x93}"
  shows "case active_mobyturbo_classes z of (active, z') \<Rightarrow> \<not> mobyturbo_byte_needs_escape z' c previous active"
proof -
  have c: "tx_classes (classed z) = tx_class_action" using assms(1) by simp
  have "tx_class_action c AND ((if b then TX_ESCAPE_CONTROL else 0) OR (if b' then TX_ESCAPE_IAC else 0)) = 0"
    "tx_class_action c AND TX_ESCAPE_CR = 0" "c \<noteq> ZDLE" for b b'
    using assms(2) by (auto simp: tx_class_action_def)
  moreover obtain a where "active_tx_classes z = (a, classed z)" using active_classed by blast
  ultimately show ?thesis
    using c by (simp add: active_mobyturbo_classes_def mobyturbo_byte_needs_escape_def Let_def)
qed

theorem mobyturbo_controls_unquoted_witness:
  "case active_mobyturbo_classes ((pipe_end [] 0)\<lparr>escape_all_control_characters := True\<rparr>) of
     (active, z) \<Rightarrow> \<not> mobyturbo_byte_needs_escape z XON 0 active"
  by (rule mobyturbo_controls_unquoted) (simp_all add: classes_ok_def pipe_end_def zmodem_cleared_def)

end
