(* ===== verification/Receive.thy ===== *)
theory Receive
  imports Exchange
begin

text \<open>
  What the receive operations promise whatever the line carries: they return, stay inside the
  caller's array, and report only the results the header file documents; five cancel octets stop
  the hunt for a header.
\<close>

declare split_paired_Ex [simp del] split_paired_All [simp del]

context octet_source
begin

lemma sane_will_read: "sane n z0 z \<Longrightarrow> \<exists>bs k. queued bs k z \<and> length bs \<le> n \<and> length (rxd_header z) = ZMAXHLEN + 1"
  by (auto simp: sane_def queued_def on_line_def load_rx_cursor_def upcoming_def)

lemma header_raw_returns:
  assumes "will_read rd live pending z bs"
  shows "\<exists>c z'. rx_header_raw t report z = Some (c, z') \<and>
    (if c = ZMODEM_INVALID_HEADER then (\<exists>n < length bs. sane n z z')
     else sane (length bs) z z' \<and> (c < 0 \<longrightarrow> line_error c))"
  using huntD [OF header_raw_hunt [OF will_read_sane [OF assms], of t report]] by metis

text \<open>Cancels while hunting.\<close>

definition cancelling :: "u32 \<Rightarrow> 'c zmodem \<Rightarrow> u8 list \<Rightarrow> bool" where
  "cancelling k z bs \<longleftrightarrow> queued bs k z \<and> \<not> receive_mobyturbo z"

lemma rx_raw_queued:
  assumes "queued (b # bs) k z"
  shows "\<exists>z'. rx_raw t z = Some (raw_result (receive_mobyturbo z) b k, z') \<and> rx_moved z z' \<and>
    queued bs (raw_cancel (receive_mobyturbo z) b k) z'"
  using raw_at [OF assms [unfolded queued_def], of t] queued_store
  by (auto simp: rx_raw_def with_cursor_def)

lemma cancelling_raw:
  assumes "cancelling k z (b # bs)"
  shows "\<exists>z'. rx_raw t z = Some (raw_result False b k, z') \<and> cancelling (raw_cancel False b k) z' bs"
  using rx_raw_queued [of b bs k z t] assms rx_moved_fields(1) by (auto simp: cancelling_def)

lemma pad_skip:
  assumes "cancelling k z (b # bs)" "raw_result False b k = uint b" "b AND 0x7f \<noteq> ZPAD"
  shows "\<exists>z' i' p'. rx_header_pad t i p z = rx_header_pad t i' p' z' \<and> cancelling (raw_cancel False b k) z' bs"
proof -
  obtain z' where r: "rx_raw t z = Some (uint b, z')" "cancelling (raw_cancel False b k) z' bs"
    using cancelling_raw [OF assms(1), of t] assms(2) by auto
  have "uint b AND 0x7f \<noteq> uint ZPAD"
    using assms(3) u8_and [of b "0x7f"] by (simp add: word_uint_eq_iff)
  then show ?thesis
    using r by (cases "probe_step (uint b) i p", subst rx_header_pad.simps) auto
qed

lemma pad_noise:
  "cancelling 0 z (noise @ bs) \<Longrightarrow> \<forall>b\<in>set noise. b \<noteq> CAN \<and> b AND 0x7f \<noteq> ZPAD \<Longrightarrow>
   \<exists>z' i' p'. rx_header_pad t i p z = rx_header_pad t i' p' z' \<and> cancelling 0 z' bs"
proof (induction noise arbitrary: z i p)
  case Nil
  then show ?case by auto
next
  case (Cons b noise)
  have "raw_result False b 0 = uint b" "raw_cancel False b 0 = 0" "b AND 0x7f \<noteq> ZPAD"
    using Cons.prems(2) by (auto simp: raw_result_def raw_cancel_def)
  then obtain z1 i1 p1 where "rx_header_pad t i p z = rx_header_pad t i1 p1 z1" "cancelling 0 z1 (noise @ bs)"
    using pad_skip [of 0 z b "noise @ bs" t i p] Cons.prems(1) by auto
  then show ?case using Cons.IH [of z1 i1 p1] Cons.prems(2) by auto
qed

lemma pad_cancel_4:
  assumes "cancelling k z (CAN # bs)" "k \<noteq> 4"
  shows "\<exists>z' i' p'. rx_header_pad t i p z = rx_header_pad t i' p' z' \<and> cancelling (k + 1) z' bs"
proof -
  have "k + 1 \<noteq> 5" using assms(2) eq_diff_eq [of k "5 :: u32" 1] by auto
  then show ?thesis
    using pad_skip [OF assms(1), of t i p] by (auto simp: raw_result_def raw_cancel_def)
qed

lemma pad_cancelled:
  assumes "cancelling 4 z (CAN # bs)"
  shows "\<exists>z'. rx_header_pad t i p z = Some (ZMODEM_CANCELLED, i, p, z') \<and> cancelling 5 z' bs"
  using cancelling_raw [OF assms, of t]
  by (subst rx_header_pad.simps) (auto simp: raw_result_def raw_cancel_def)

lemma pad_cancels:
  assumes "cancelling 0 z (noise @ replicate 5 CAN @ bs)"
    "\<forall>b\<in>set noise. b \<noteq> CAN \<and> b AND 0x7f \<noteq> ZPAD"
  shows "\<exists>z' i' p'. rx_header_pad t i p z = Some (ZMODEM_CANCELLED, i', p', z') \<and> cancelling 5 z' bs"
proof -
  obtain z0 i0 p0 where 0: "rx_header_pad t i p z = rx_header_pad t i0 p0 z0" "cancelling 0 z0 (replicate 5 CAN @ bs)"
    using pad_noise [OF assms] by blast
  have r: "replicate 5 CAN @ bs = CAN # CAN # CAN # CAN # CAN # bs" by (simp add: numeral_5)
  obtain z1 i1 p1 where 1: "rx_header_pad t i0 p0 z0 = rx_header_pad t i1 p1 z1" "cancelling 1 z1 (CAN # CAN # CAN # CAN # bs)"
    using pad_cancel_4 [OF 0(2) [unfolded r], of t i0 p0] by auto
  obtain z2 i2 p2 where 2: "rx_header_pad t i1 p1 z1 = rx_header_pad t i2 p2 z2" "cancelling 2 z2 (CAN # CAN # CAN # bs)"
    using pad_cancel_4 [OF 1(2), of t i1 p1] by auto
  obtain z3 i3 p3 where 3: "rx_header_pad t i2 p2 z2 = rx_header_pad t i3 p3 z3" "cancelling 3 z3 (CAN # CAN # bs)"
    using pad_cancel_4 [OF 2(2), of t i2 p2] by auto
  obtain z4 i4 p4 where 4: "rx_header_pad t i3 p3 z3 = rx_header_pad t i4 p4 z4" "cancelling 4 z4 (CAN # bs)"
    using pad_cancel_4 [OF 3(2), of t i3 p3] by auto
  show ?thesis using pad_cancelled [OF 4(2)] unfolding 0(1) 1(1) 2(1) 3(1) 4(1) by blast
qed

lemma header_cancelled:
  assumes "will_read rd live pending z (noise @ replicate 5 CAN @ bs)" "cancel_count z = 0" "\<not> receive_mobyturbo z"
    "\<forall>b\<in>set noise. b \<noteq> CAN \<and> b AND 0x7f \<noteq> ZPAD"
  shows "\<exists>z'. rx_header_raw t report z = Some (ZMODEM_CANCELLED, z') \<and> queued bs 5 z'"
proof -
  let ?z = "z\<lparr>rxd_header_len := 0, mobyturbo_probe_passed := False\<rparr>"
  have "cancelling 0 ?z (noise @ replicate 5 CAN @ bs)"
    using assms(1-3) by (auto simp: cancelling_def queued_def will_read_def on_line_def upcoming_def load_rx_cursor_def)
  from pad_cancels [OF this assms(4)] obtain z' i p where
    "rx_header_pad t 0 False ?z = Some (ZMODEM_CANCELLED, i, p, z')" "cancelling 5 z' bs" by blast
  then show ?thesis
    unfolding rx_header_raw_def by (subst rx_header_loop.simps) (auto simp: cancelling_def)
qed

text \<open>In MobyTurbo a CAN is an octet like another.\<close>

lemma pad_moby:
  "receive_mobyturbo z \<Longrightarrow> queued (replicate n CAN @ bs) k z \<Longrightarrow>
   \<exists>z' k'. rx_header_pad t 0 False z = rx_header_pad t 0 False z' \<and> rx_moved z z' \<and> queued bs k' z'"
proof (induction n arbitrary: z k)
  case 0
  then show ?case using rx_moved_refl [of z] by auto
next
  case (Suc n)
  then obtain z1 where 1: "rx_raw t z = Some (uint CAN, z1)" "rx_moved z z1" "queued (replicate n CAN @ bs) 0 z1"
    using rx_raw_queued [of CAN "replicate n CAN @ bs" k z t] by (auto simp: raw_result_def raw_cancel_def)
  have "probe_step (uint CAN) 0 False = (0, False)" by (simp add: probe_step_def mobyturbo_probe_def)
  then have "rx_header_pad t 0 False z = rx_header_pad t 0 False z1"
    using 1(1) by (subst rx_header_pad.simps) (simp add: low7_def)
  moreover have "receive_mobyturbo z1" using Suc.prems(1) rx_moved_fields(1) [OF 1(2)] by simp
  ultimately show ?case using Suc.IH [OF _ 1(3)] rx_moved_trans [OF 1(2)] by metis
qed

lemma header_past_cancels:
  assumes "will_read rd live pending z (replicate n CAN @ bs)" "receive_mobyturbo z"
  shows "\<exists>z'. rx_header_raw t report z = rx_header_raw t report z' \<and> will_read rd live pending z' bs \<and>
    rx_moved (z\<lparr>rxd_header_len := 0, mobyturbo_probe_passed := False\<rparr>) z'"
proof -
  let ?z = "z\<lparr>rxd_header_len := 0, mobyturbo_probe_passed := False\<rparr>"
  have "queued (replicate n CAN @ bs) (cancel_count z) ?z" and l: "length (rxd_header z) = ZMAXHLEN + 1"
    using assms by (auto simp: queued_def will_read_def on_line_def upcoming_def load_rx_cursor_def)
  then obtain z' k' where z': "rx_header_pad t 0 False ?z = rx_header_pad t 0 False z'" "rx_moved ?z z'" "queued bs k' z'"
    using pad_moby [of ?z n bs "cancel_count z" t] assms(2) by auto
  have "rx_header_loop t report 0 False ?z = rx_header_loop t report 0 False z'"
    by (subst (1 2) rx_header_loop.simps) (simp only: z'(1))
  moreover have "z'\<lparr>rxd_header_len := 0, mobyturbo_probe_passed := False\<rparr> = z'"
    using z'(2) unfolding rx_moved_def set_context_def by auto
  moreover have "receive_mobyturbo z'" "length (rxd_header z') = ZMAXHLEN + 1"
    using rx_moved_fields(1,6) [OF z'(2)] assms(2) l by simp_all
  then have "will_read rd live pending z' bs"
    using z'(3) by (auto simp: will_read_def queued_def on_line_def upcoming_def load_rx_cursor_def)
  ultimately show ?thesis using z'(2) unfolding rx_header_raw_def by metis
qed

lemma header_after_cancels:
  assumes "will_read rd live pending z (replicate n CAN @ header_wire s h @ bs)" "receive_mobyturbo z" "agreed s z"
    "HDRLEN \<le> length h" "length h \<le> ZMAXHLEN + 1"
  shows "\<exists>z'. rx_header_raw t report z = Some (uint (hd h), z') \<and> take (length h) (rxd_header z') = h"
proof -
  obtain z1 where 1: "rx_header_raw t report z = rx_header_raw t report z1" "will_read rd live pending z1 (header_wire s h @ bs)"
    "rx_moved (z\<lparr>rxd_header_len := 0, mobyturbo_probe_passed := False\<rparr>) z1"
    using header_past_cancels [OF assms(1,2)] by blast
  have "agreed s z1" using assms(3) by (simp add: agreed_def rx_moved_fields [OF 1(3)])
  from header_received [OF 1(2) this assms(4,5), of t report] show ?thesis unfolding 1(1) by blast
qed

end

section \<open>Properties\<close>

text \<open>C13: \<open>rx_data\<close> returns, in every data format and on every line: with a documented result, at
  most \<open>ZMAXSPLEN\<close> octets used, no store outside the caller's array (\<open>None\<close>), and no octet
  read that was not there.\<close>

theorem rx_data_returns:
  assumes "octet_source rd live pending" and "will_read rd live pending z bs" and "capacity \<le> length buf"
  shows "\<exists>c z' buf' used frame_end. rx_data buf capacity z = Some (c, z', buf', used, frame_end) \<and>
    (c = ZMODEM_FRAME_OK \<or> c = ZMODEM_END_OF_FRAME \<or>
     c \<in> {ZMODEM_TIMEOUT, ZMODEM_IO_ERROR, ZMODEM_CANCELLED, ZMODEM_INVALID_HEADER, ZMODEM_INVALID_DATA}) \<and>
    length buf' = length buf \<and> used \<le> min capacity ZMAXSPLEN"
proof -
  obtain c z' buf' used frame_end where "rx_data buf capacity z = Some (c, z', buf', used, frame_end)"
    "c = ZMODEM_FRAME_OK \<or> c = ZMODEM_END_OF_FRAME \<or> c < 0 \<and> proto_error c"
    "length buf' = length buf" "used \<le> rx_limit capacity"
    using octet_source.rx_data_total [OF assms(1) octet_source.will_read_sane [OF assms(1,2)] assms(3)] by blast
  then show ?thesis by (auto simp: proto_error_def line_error_def rx_limit_def split: if_splits)
qed

theorem rx_data_returns_witness:
  "\<exists>c z' buf' used frame_end. rx_data [7, 7, 7] 2 (pipe_end [0x41, 0x18, 0x18, 0x0d, 0x7f] 2) =
     Some (c, z', buf', used, frame_end) \<and> used \<le> 2"
  using rx_data_returns [OF pipe_source pipe_end_reads [of "[0x41, 0x18, 0x18, 0x0d, 0x7f]" 2],
      where capacity = 2 and buf = "[7, 7, 7]"]
  by auto

text \<open>C14: \<open>rx_header_raw\<close> returns, however long the noise before a header, with either reporting
  mode: a header type, a transport error or a cancel, or (when asked) an invalid header.\<close>

theorem rx_header_raw_returns:
  assumes "octet_source rd live pending" and "will_read rd live pending z bs"
  shows "\<exists>c z'. rx_header_raw t report z = Some (c, z') \<and>
    (0 \<le> c \<or> c \<in> {ZMODEM_TIMEOUT, ZMODEM_IO_ERROR, ZMODEM_CANCELLED, ZMODEM_INVALID_HEADER})"
proof -
  obtain c z' where "rx_header_raw t report z = Some (c, z')" "c \<noteq> ZMODEM_INVALID_HEADER \<longrightarrow> c < 0 \<longrightarrow> line_error c"
    using octet_source.header_raw_returns [OF assms, of t report] by auto
  then show ?thesis by (auto simp: line_error_def)
qed

theorem rx_header_raw_returns_witness:
  "\<exists>c z'. rx_header_raw 1000 True (pipe_end [0x2a, 0x2a, 0x18, 0x58, 0x2a] 2) = Some (c, z') \<and>
    (0 \<le> c \<or> c \<in> {ZMODEM_TIMEOUT, ZMODEM_IO_ERROR, ZMODEM_CANCELLED, ZMODEM_INVALID_HEADER})"
  by (rule rx_header_raw_returns [OF pipe_source pipe_end_reads])

text \<open>C15: \<open>rx_header_and_check\<close>, which answers every invalid header with a ZNAK and tries again,
  returns, and never with an invalid header.\<close>

theorem rx_header_and_check_returns:
  assumes "octet_link rd live pending wr fl" and "will_read rd live pending z bs"
    and "io_write (io z) = wr" and "io_flush (io z) = fl"
  shows "\<exists>c z'. rx_header_and_check t z = Some (c, z') \<and>
    (0 \<le> c \<or> c \<in> {ZMODEM_TIMEOUT, ZMODEM_IO_ERROR, ZMODEM_CANCELLED})"
proof -
  have s: "octet_source rd live pending" using assms(1) by (simp add: octet_link_def)
  have "octet_link.linked rd live pending wr fl (length bs) z"
    using octet_source.will_read_sane [OF s assms(2)] assms(3,4)
    by (simp add: octet_link.linked_def [OF assms(1)])
  from octet_link.header_and_check_total [OF assms(1) this, of t] obtain c z' where
    "rx_header_and_check t z = Some (c, z')" "c < 0 \<longrightarrow> line_error c" by blast
  then show ?thesis by (auto simp: line_error_def)
qed

theorem rx_header_and_check_returns_witness:
  "\<exists>c z'. rx_header_and_check 1000 (pipe_end [0x2a, 0x2a, 0x18, 0x58, 0x2a] 2) = Some (c, z') \<and>
    (0 \<le> c \<or> c \<in> {ZMODEM_TIMEOUT, ZMODEM_IO_ERROR, ZMODEM_CANCELLED})"
  by (rule rx_header_and_check_returns [OF pipe.octet_link_axioms pipe_end_reads])
     (simp_all add: pipe_end_def zmodem_cleared_def bind_callbacks)

text \<open>C34: Outside MobyTurbo five consecutive CAN octets stop the hunt for a header with
  \<open>ZMODEM_CANCELLED\<close>, whatever noise without CAN and ZPAD comes before them; what comes after them is
  not read. A receiver that a header has put in MobyTurbo, where CAN is data, does not count them in
  its next hunt either: however many come, they are passed over, and the header behind them is received.\<close>

theorem five_cancels_stop_the_hunt:
  assumes "octet_source rd live pending" and "will_read rd live pending z octets"
  shows "(octets = noise @ replicate 5 CAN @ bs \<and> \<not> receive_mobyturbo z \<and> cancel_count z = 0 \<and>
      (\<forall>b\<in>set noise. b \<noteq> CAN \<and> b AND 0x7f \<noteq> ZPAD) \<longrightarrow>
      (\<exists>z'. rx_header_raw t report z = Some (ZMODEM_CANCELLED, z') \<and>
        take (input_count z') (drop (input_index z') (input_buffer z')) @ pending (io_context (io z')) = bs)) \<and>
    (octets = replicate n CAN @ header_wire s h @ bs \<and> receive_mobyturbo z \<and> agreed s z \<and>
      HDRLEN \<le> length h \<and> length h \<le> ZMAXHLEN + 1 \<longrightarrow>
      (\<exists>z'. rx_header_raw t report z = Some (uint (hd h), z') \<and> take (length h) (rxd_header z') = h))"
proof (intro conjI impI; elim conjE)
  assume o: "octets = noise @ replicate 5 CAN @ bs" and a: "\<not> receive_mobyturbo z" "cancel_count z = 0"
    "\<forall>b\<in>set noise. b \<noteq> CAN \<and> b AND 0x7f \<noteq> ZPAD"
  show "\<exists>z'. rx_header_raw t report z = Some (ZMODEM_CANCELLED, z') \<and>
      take (input_count z') (drop (input_index z') (input_buffer z')) @ pending (io_context (io z')) = bs"
    using octet_source.header_cancelled [OF assms(1) assms(2) [unfolded o] a(2,1,3), of t report]
    by (auto simp: octet_source.queued_def [OF assms(1)] on_line_def upcoming_def load_rx_cursor_def)
next
  assume o: "octets = replicate n CAN @ header_wire s h @ bs" and a: "receive_mobyturbo z" "agreed s z"
    "HDRLEN \<le> length h" "length h \<le> ZMAXHLEN + 1"
  show "\<exists>z'. rx_header_raw t report z = Some (uint (hd h), z') \<and> take (length h) (rxd_header z') = h"
    by (rule octet_source.header_after_cancels [OF assms(1) assms(2) [unfolded o] a])
qed

theorem five_cancels_stop_the_hunt_witness:
  "(\<exists>z'. rx_header_raw 1000 False (pipe_end ([0x4f, 0x4b] @ replicate 5 CAN @ [0x41]) 2) = Some (ZMODEM_CANCELLED, z')) \<and>
   (\<exists>z'. rx_header_raw 1000 False ((pipe_end (replicate 5 CAN @ header_wire (pipe_end [] 0) [9, 1, 2, 3, 4] @ []) 2)
      \<lparr>receive_mobyturbo := True\<rparr>) = Some (9, z') \<and> take 5 (rxd_header z') = [9, 1, 2, 3, 4])"
proof
  show "\<exists>z'. rx_header_raw 1000 False (pipe_end ([0x4f, 0x4b] @ replicate 5 CAN @ [0x41]) 2) = Some (ZMODEM_CANCELLED, z')"
    using conjunct1 [OF five_cancels_stop_the_hunt [OF pipe_source pipe_end_reads [of "[0x4f, 0x4b] @ replicate 5 CAN @ [0x41]" 2],
        where noise = "[0x4f, 0x4b]" and bs = "[0x41]" and t = 1000 and report = False]]
    by (auto simp: pipe_end_def zmodem_cleared_def)
  let ?h = "[9, 1, 2, 3, 4] :: u8 list"
  let ?octets = "replicate 5 CAN @ header_wire (pipe_end [] 0) ?h @ []"
  let ?z = "(pipe_end ?octets 2)\<lparr>receive_mobyturbo := True\<rparr>"
  have r: "will_read (read_callback pipe_kernel) pipe.live pipe.pending ?z ?octets"
    using pipe_end_reads [of ?octets 2] by (simp add: will_read_def)
  have "agreed (pipe_end [] 0) ?z" by (simp add: agreed_def pipe_end_def zmodem_cleared_def)
  then show "\<exists>z'. rx_header_raw 1000 False ?z = Some (9, z') \<and> take 5 (rxd_header z') = ?h"
    using conjunct2 [OF five_cancels_stop_the_hunt [OF pipe_source r, where t = 1000 and report = False and n = 5 and
        s = "pipe_end [] 0" and h = ?h and bs = "[]"]]
    by (auto simp: numeral_5)
qed

end
