(* ===== verification/Posix_Correct.thy ===== *)
theory Posix_Correct
  imports Exchange
begin

text \<open>
  Properties of the POSIX adapter: its deadlines, its output buffer, and that it implements the
  transport contracts the protocol's proofs rest on.
\<close>

declare split_paired_Ex [simp del] split_paired_All [simp del]

section \<open>Deadlines\<close>

definition nanoseconds :: "timespec \<Rightarrow> int" where
  "nanoseconds t = fst t * 1000000000 + snd t"

definition normalised :: "timespec \<Rightarrow> bool" where
  "normalised t \<longleftrightarrow> 0 \<le> snd t \<and> snd t < 1000000000"

lemma round_up: "0 \<le> n \<Longrightarrow> n \<le> (n + 999) div 1000 * 1000 \<and> (n + 999) div 1000 * 1000 < n + (1000 :: int)"
  by (simp add: minus_mod_eq_div_mult [symmetric]) (smt (verit) pos_mod_bound pos_mod_sign)

lemma time_left_future:
  assumes "normalised deadline" "normalised now" "nanoseconds now < nanoseconds deadline"
  shows "\<exists>sec usec. time_left deadline now = (1, (sec, usec)) \<and> 0 \<le> sec \<and> 0 \<le> usec \<and> usec < 1000000 \<and>
    nanoseconds deadline - nanoseconds now \<le> (sec * 1000000 + usec) * 1000 \<and>
    (sec * 1000000 + usec) * 1000 < nanoseconds deadline - nanoseconds now + 1000"
proof -
  obtain ds dn s n where d: "deadline = (ds, dn)" "now = (s, n)" by (cases deadline, cases now)
  have r: "0 \<le> dn" "dn < 1000000000" "0 \<le> n" "n < 1000000000" "s * 1000000000 + n < ds * 1000000000 + dn"
    using assms by (simp_all add: d normalised_def nanoseconds_def)
  define sec where "sec = (if dn < n then ds - s - 1 else ds - s)"
  define nano where "nano = (if dn < n then dn + 1000000000 - n else dn - n)"
  have later: "\<not> (ds < s \<or> s = ds \<and> dn \<le> n)" using r by auto
  have total: "sec * 1000000000 + nano = nanoseconds deadline - nanoseconds now"
    by (simp add: sec_def nano_def nanoseconds_def d algebra_simps)
  have nano: "0 \<le> nano" "nano < 1000000000" and sec: "0 \<le> sec" using r by (auto simp: nano_def sec_def)
  have u: "0 \<le> (nano + 999) div 1000" "(nano + 999) div 1000 \<le> 1000000"
    "nano \<le> (nano + 999) div 1000 * 1000" "(nano + 999) div 1000 * 1000 < nano + 1000"
    using nano round_up [of nano] by auto
  have e: "time_left deadline now =
      (if 1000000 \<le> (nano + 999) div 1000 then (1, (sec + 1, (nano + 999) div 1000 - 1000000))
       else (1, (sec, (nano + 999) div 1000)))"
    using later by (simp add: time_left_def d sec_def nano_def Let_def)
  show ?thesis
  proof (cases "1000000 \<le> (nano + 999) div 1000")
    case True
    then show ?thesis using u sec total e
      by (intro exI [of _ "sec + 1"] exI [of _ "(nano + 999) div 1000 - 1000000"]) (simp add: algebra_simps)
  next
    case False
    then show ?thesis using u sec total e
      by (intro exI [of _ sec] exI [of _ "(nano + 999) div 1000"]) (simp add: algebra_simps)
  qed
qed

text \<open>C40: The time left before a deadline is never rounded down: the \<^verbatim>\<open>timeval\<close> handed to \<^verbatim>\<open>select\<close>
  is normalised, covers the whole remaining time, and exceeds it by less than a microsecond; at
  or after the deadline the wait is over.\<close>

theorem time_left_covers_the_deadline:
  assumes "normalised deadline" and "normalised now"
  shows "if nanoseconds deadline \<le> nanoseconds now then time_left deadline now = (0, (0, 0))
    else \<exists>sec usec. time_left deadline now = (1, (sec, usec)) \<and> 0 \<le> sec \<and> 0 \<le> usec \<and> usec < 1000000 \<and>
      nanoseconds deadline - nanoseconds now \<le> (sec * 1000000 + usec) * 1000 \<and>
      (sec * 1000000 + usec) * 1000 < nanoseconds deadline - nanoseconds now + 1000"
proof (cases "nanoseconds deadline \<le> nanoseconds now")
  case True
  then have "fst deadline < fst now \<or> fst now = fst deadline \<and> snd deadline \<le> snd now"
    using assms by (auto simp: nanoseconds_def normalised_def)
  then show ?thesis using True by (simp add: time_left_def)
next
  case False
  then show ?thesis using time_left_future [OF assms] by simp
qed

theorem time_left_covers_the_deadline_witness:
  "\<exists>sec usec. time_left (3, 500) (2, 999999999) = (1, (sec, usec)) \<and> 501 \<le> (sec * 1000000 + usec) * 1000"
  using time_left_covers_the_deadline [of "(3, 500)" "(2, 999999999)"]
  by (auto simp: normalised_def nanoseconds_def)

section \<open>Output\<close>

text \<open>C31: The output buffer neither loses, repeats nor reorders an octet: whatever short writes,
  failures and signals happen, \<open>posix_write\<close> returns, what was written plus what the buffer
  holds is what it was before plus a prefix of the new octets, all of them on \<open>ZMODEM_OK\<close>, and
  an error is reported only by a descriptor that can fail.\<close>

theorem posix_write_keeps_octets:
  assumes "posix_output ops outfd good outgoing incoming signals" and "posix_sound good outfd c"
  shows "\<exists>r c' n. posix_write ops octets c = Some (r, c') \<and> posix_sound good outfd c' \<and>
    posix_taken outgoing c' = posix_taken outgoing c @ take n octets \<and>
    (r = ZMODEM_OK \<and> n = length octets \<or> r = ZMODEM_IO_ERROR \<and> \<not> reliable_writes ops outfd good)"
  using posix_output.posix_write_returns [OF assms, of octets] by blast

theorem posix_write_keeps_octets_witness:
  "\<exists>r c' n. posix_write pipe_kernel [1, 2, 3] (\<lparr>input_fd = 0, output_fd = 1, owned_fd = - 1, line = None,
       termios_saved = False,
       saved_termios = \<lparr>c_iflag = 0, c_oflag = 0, c_cflag = 0, c_lflag = 0, c_vmin = 1, c_vtime = 0\<rparr>,
       output_buffer = [9, 9], output_count = 1\<rparr>, \<lparr>pipe_in = [], pipe_out = [5], pipe_signals = 1, pipe_time = 0\<rparr>) = Some (r, c') \<and>
     posix_taken pipe_out c' = [5, 9] @ take n [1, 2, 3]"
  using posix_write_keeps_octets [OF pipe.posix_output_axioms,
      where octets = "[1, 2, 3]" and c = "(\<lparr>input_fd = 0, output_fd = 1, owned_fd = - 1, line = None,
       termios_saved = False,
       saved_termios = \<lparr>c_iflag = 0, c_oflag = 0, c_cflag = 0, c_lflag = 0, c_vmin = 1, c_vtime = 0\<rparr>,
       output_buffer = [9, 9], output_count = 1\<rparr>, \<lparr>pipe_in = [], pipe_out = [5], pipe_signals = 1, pipe_time = 0\<rparr>)"]
  by (auto simp: posix_sound_def posix_taken_def pipe_good_def)

text \<open>C32: A failed flush loses nothing: \<open>posix_flush\<close> returns, the octets written and those still in
  the buffer are together what they were, and success means an empty buffer.\<close>

theorem posix_flush_keeps_octets:
  assumes "posix_output ops outfd good outgoing incoming signals" and "posix_sound good outfd c"
  shows "\<exists>r c'. posix_flush ops c = Some (r, c') \<and> posix_sound good outfd c' \<and>
    posix_taken outgoing c' = posix_taken outgoing c \<and>
    (r = ZMODEM_OK \<and> output_count (fst c') = 0 \<or> r = ZMODEM_IO_ERROR \<and> \<not> reliable_writes ops outfd good)"
  using posix_output.posix_flush_returns [OF assms] by blast

theorem posix_flush_keeps_octets_witness:
  "\<exists>r c'. posix_flush pipe_kernel (\<lparr>input_fd = 0, output_fd = 1, owned_fd = - 1, line = None,
       termios_saved = False,
       saved_termios = \<lparr>c_iflag = 0, c_oflag = 0, c_cflag = 0, c_lflag = 0, c_vmin = 1, c_vtime = 0\<rparr>,
       output_buffer = [9, 8], output_count = 2\<rparr>, \<lparr>pipe_in = [], pipe_out = [5], pipe_signals = 1, pipe_time = 0\<rparr>) = Some (r, c') \<and>
     posix_taken pipe_out c' = [5, 9, 8]"
  using posix_flush_keeps_octets [OF pipe.posix_output_axioms,
      where c = "(\<lparr>input_fd = 0, output_fd = 1, owned_fd = - 1, line = None,
       termios_saved = False,
       saved_termios = \<lparr>c_iflag = 0, c_oflag = 0, c_cflag = 0, c_lflag = 0, c_vmin = 1, c_vtime = 0\<rparr>,
       output_buffer = [9, 8], output_count = 2\<rparr>, \<lparr>pipe_in = [], pipe_out = [5], pipe_signals = 1, pipe_time = 0\<rparr>)"]
  by (auto simp: posix_sound_def posix_taken_def pipe_good_def)

section \<open>The contracts\<close>

context posix_pipe
begin

lemma is_line: "octet_line (read_callback ops) live pending (write_callback ops) (flush_callback ops) taken"
  by (rule octet_line_axioms)

lemma flush_empties: "live c \<Longrightarrow> outgoing (snd (snd (flush_callback ops c))) = taken c"
  using posix_flush_returns [of c] is_reliable
  by (auto simp: posix_live_def flush_callback_def posix_taken_def)

end

text \<open>C8: The adapter's read, write and flush callbacks implement the full-duplex transport contract
  of the protocol. A read delivers the next octets of the line, in pieces of any size, and fails only
  when none are left; a write hands over all its octets, in order, behind those still in the adapter's
  buffer, and succeeds; a flush succeeds, and then the system has them all; output leaves the input alone. The system calls may be
  short and may be interrupted; the clock goes on, a wait on a line with input taking less than a
  millisecond of it. So what is proved of the protocol over any such line holds on this adapter.\<close>

theorem posix_refines_line:
  assumes "posix_pipe ops outfd good outgoing incoming signals infd now step"
  shows "octet_line (io_read (zmodem_plat_io_bind ops a)) (posix_live good outfd infd) (posix_pending incoming)
    (io_write (zmodem_plat_io_bind ops a)) (io_flush (zmodem_plat_io_bind ops a)) (posix_taken outgoing) \<and>
    (\<forall>c. posix_live good outfd infd c \<longrightarrow>
      outgoing (snd (snd (io_flush (zmodem_plat_io_bind ops a) c))) = posix_taken outgoing c)"
  using posix_pipe.is_line [OF assms] posix_pipe.flush_empties [OF assms] by (simp add: bind_callbacks)

theorem posix_refines_line_witness:
  "\<forall>a. octet_line (io_read (zmodem_plat_io_bind pipe_kernel a)) (posix_live pipe_good 1 0) (posix_pending pipe_in)
     (io_write (zmodem_plat_io_bind pipe_kernel a)) (io_flush (zmodem_plat_io_bind pipe_kernel a)) (posix_taken pipe_out)"
  using posix_refines_line [OF pipe.posix_pipe_axioms] by blast

section \<open>Closing\<close>

text \<open>C33: Closing the adapter always forgets the descriptor it owns, having closed it, and leaves no
  terminal settings to restore when it reports success; it returns, though the flush before
  may fail.\<close>

theorem io_close_releases:
  assumes "posix_output ops outfd good outgoing incoming signals" and "posix_sound good outfd c"
  shows "\<exists>r c'. zmodem_plat_io_close ops c = Some (r, c') \<and> owned_fd (fst c') < 0 \<and>
    (r = 0 \<longrightarrow> \<not> termios_saved (fst c') \<and> output_count (fst c') = 0) \<and>
    (0 \<le> owned_fd (fst c) \<longrightarrow> (\<exists>k q. k_close ops (owned_fd (fst c)) k = (q, snd c') \<and> (r = 0 \<longrightarrow> q = 0)))"
proof -
  obtain f c1 where f1: "posix_flush ops c = Some (f, c1)" "same_input (fst c) (fst c1)"
    "f = ZMODEM_OK \<and> output_count (fst c1) = 0 \<or> f = ZMODEM_IO_ERROR \<and> \<not> reliable_writes ops outfd good"
    using posix_output.posix_flush_returns [OF assms] by blast
  obtain p k where c1: "c1 = (p, k)" by (cases c1)
  note f = f1 [unfolded c1 fst_conv]
  obtain s p2 k2 where s: "zmodem_plat_io_restore ops (p, k) = (s, (p2, k2))" by (metis prod_cases3)
  have p2: "owned_fd p2 = owned_fd p" "output_count p2 = output_count p" "s = 0 \<longrightarrow> \<not> termios_saved p2"
    using s by (auto simp: zmodem_plat_io_restore_def Let_def split: if_splits prod.splits)
  obtain q k3 where q: "k_close ops (owned_fd p2) k2 = (q, k3)" by fastforce
  have "owned_fd p = owned_fd (fst c)" using f(2) by (simp add: same_input_def)
  then have "zmodem_plat_io_close ops c = Some
      (if 0 \<le> owned_fd (fst c)
       then (if q \<noteq> 0 then - 1 else if s \<noteq> 0 then - 1 else if f \<noteq> ZMODEM_OK then - 1 else 0, (p2\<lparr>owned_fd := - 1\<rparr>, k3))
       else (if s \<noteq> 0 then - 1 else if f \<noteq> ZMODEM_OK then - 1 else 0, (p2, k2)))"
    using f(1) s p2(1) q by (simp add: zmodem_plat_io_close_def Let_def)
  then show ?thesis
    using f(3) p2 q \<open>owned_fd p = owned_fd (fst c)\<close>
    by (cases "0 \<le> owned_fd (fst c)") auto
qed

theorem io_close_releases_witness:
  "\<exists>r c'. zmodem_plat_io_close pipe_kernel (\<lparr>input_fd = 0, output_fd = 1, owned_fd = 7, line = None,
       termios_saved = True,
       saved_termios = \<lparr>c_iflag = 0, c_oflag = 0, c_cflag = 0, c_lflag = 0, c_vmin = 1, c_vtime = 0\<rparr>,
       output_buffer = [9, 8], output_count = 2\<rparr>, \<lparr>pipe_in = [], pipe_out = [5], pipe_signals = 1, pipe_time = 0\<rparr>) = Some (r, c') \<and>
     owned_fd (fst c') < 0"
  using io_close_releases [OF pipe.posix_output_axioms,
      where c = "(\<lparr>input_fd = 0, output_fd = 1, owned_fd = 7, line = None,
       termios_saved = True,
       saved_termios = \<lparr>c_iflag = 0, c_oflag = 0, c_cflag = 0, c_lflag = 0, c_vmin = 1, c_vtime = 0\<rparr>,
       output_buffer = [9, 8], output_count = 2\<rparr>, \<lparr>pipe_in = [], pipe_out = [5], pipe_signals = 1, pipe_time = 0\<rparr>)"]
  by (auto simp: posix_sound_def pipe_good_def)

end
