(* ===== verification/Quiet.thy ===== *)
theory Quiet
  imports Exchange
begin

text \<open>
  A line on which nothing comes back while the sender streams: the contract \<open>quiet_sink\<close> adds to
  \<open>octet_sink\<close> that a poll finds nothing. The POSIX adapter keeps it when \<^verbatim>\<open>select\<close> reports no input
  on a line that has none.
\<close>

declare split_paired_Ex [simp del] split_paired_All [simp del]

locale quiet_sink = octet_sink wr fl open_for sent
  for wr :: "'c \<Rightarrow> u8 list \<Rightarrow> int \<times> 'c" and fl :: "'c \<Rightarrow> int \<times> 'c"
    and open_for :: "'c \<Rightarrow> bool" and sent :: "'c \<Rightarrow> u8 list" +
  fixes pl :: "'c \<Rightarrow> int \<times> 'c"
  assumes polls_none: "open_for c \<Longrightarrow> \<exists>c'. pl c = (0, c') \<and> open_for c' \<and> sent c' = sent c"
begin

lemma quiet_poll:
  assumes "may_send wr fl open_for sent s w" "io_poll (io s) = pl" "input_count s = 0"
  shows "\<exists>s'. rx_poll s = (0, s') \<and> may_send wr fl open_for sent s' w \<and> tx_moved s s'"
proof -
  obtain c' where c': "pl (io_context (io s)) = (0, c')" "open_for c'" "sent c' = w"
    using polls_none [of "io_context (io s)"] assms(1) by (auto simp: may_send_def)
  have "rx_poll s = (0, set_context c' s)" using assms(2,3) c'(1) by (simp add: rx_poll_def)
  moreover have "may_send wr fl open_for sent (set_context c' s) w"
    using assms(1) c'(2,3) by (simp add: may_send_def set_context_def classes_ok_def)
  moreover have "tx_moved s (set_context c' s)" using tx_moved_context [of s c' "last_sent s"] by simp
  ultimately show ?thesis by blast
qed

end

lemma tx_moved_quiet:
  assumes "tx_moved s s'"
  shows "io_poll (io s') = io_poll (io s)" "input_count s' = input_count s"
    "can_full_duplex s' = can_full_duplex s" "can_overlap_io s' = can_overlap_io s" "rxd_header s' = rxd_header s"
  using assms unfolding tx_moved_def set_context_def by auto

section \<open>The POSIX adapter\<close>

definition poll_callback :: "'k kernel \<Rightarrow> 'k posix \<Rightarrow> int \<times> 'k posix" where
  "poll_callback ops c = the (posix_poll ops c)"

locale posix_quiet = posix_pipe +
  assumes select_none: "good k \<Longrightarrow> incoming k = [] \<Longrightarrow> k_select ops infd timeout k = (r, e, k') \<Longrightarrow>
      r = 0 \<or> r < 0 \<and> e = EINTR"
begin

abbreviation silent :: "'a posix \<Rightarrow> bool" where
  "silent c \<equiv> live c \<and> pending c = []"

lemma wait_loop_none:
  "good k \<Longrightarrow> incoming k = [] \<Longrightarrow>
   \<exists>k'. wait_loop ops infd None k = Some (0, k') \<and> good k' \<and> incoming k' = [] \<and> outgoing k' = outgoing k"
proof (induction "signals k" arbitrary: k rule: less_induct)
  case less
  obtain r e k1 where s: "k_select ops infd (0, 0) k = (r, e, k1)" by (metis prod_cases3)
  note step = select_step [OF less.prems(1) s] and none = select_none [OF less.prems s]
  show ?case
  proof (cases "r = 0")
    case True
    then show ?thesis using s step less.prems(2) by (subst wait_loop.simps) simp
  next
    case False
    then have "r < 0" "e = EINTR" using none by simp_all
    then show ?thesis
      using less.hyps [of k1] s step less.prems(2) by (subst wait_loop.simps) auto
  qed
qed

lemma silent_poll:
  assumes "silent c"
  shows "\<exists>c'. poll_callback ops c = (0, c') \<and> silent c' \<and> taken c' = taken c"
proof -
  obtain p k where c: "c = (p, k)" by fastforce
  have k: "good k" "incoming k = []" "input_fd p = infd"
    using assms by (simp_all add: c posix_live_def posix_sound_def posix_pending_def)
  obtain k' where "wait_loop ops infd None k = Some (0, k')" "good k'" "incoming k' = []" "outgoing k' = outgoing k"
    using wait_loop_none [OF k(1,2)] by blast
  then show ?thesis
    using assms k descriptor
    by (auto simp: c poll_callback_def posix_poll_def wait_for_input_def posix_live_def posix_sound_def
        posix_pending_def posix_taken_def)
qed

end

sublocale posix_quiet \<subseteq> quiet: quiet_sink "write_callback ops" "flush_callback ops" silent taken "poll_callback ops"
proof
  fix c :: "'a posix" and bs :: "u8 list"
  show "silent c \<Longrightarrow> bs \<noteq> [] \<Longrightarrow>
      \<exists>c'. write_callback ops c bs = (ZMODEM_OK, c') \<and> silent c' \<and> taken c' = taken c @ bs"
    using write_sends [of c bs] write_keeps [of c bs] by auto
  show "silent c \<Longrightarrow> \<exists>c'. flush_callback ops c = (ZMODEM_OK, c') \<and> silent c' \<and> taken c' = taken c"
    using flush_sends [of c] flush_keeps [of c] by auto
  show "silent c \<Longrightarrow> \<exists>c'. poll_callback ops c = (0, c') \<and> silent c' \<and> taken c' = taken c"
    by (rule silent_poll)
qed

interpretation quiet_pipe: posix_quiet pipe_kernel 1 pipe_good pipe_out pipe_in pipe_signals 0 pipe_time 1000
proof
  fix k k' :: pipe and r e timeout
  show "pipe_in k = [] \<Longrightarrow> k_select pipe_kernel 0 timeout k = (r, e, k') \<Longrightarrow> r = 0 \<or> r < 0 \<and> e = EINTR"
    by (auto simp: pipe_kernel_def pipe_call_def split: if_splits)
qed

lemmas pipe_quiet_sink = quiet_pipe.quiet.quiet_sink_axioms

lemma pipe_end_poll: "io_poll (io (pipe_end bs n)) = poll_callback pipe_kernel" "input_count (pipe_end bs n) = 0"
  by (simp_all add: pipe_end_def zmodem_cleared_def zmodem_plat_io_bind_def poll_callback_def fun_eq_iff)

lemma pipe_end_silent:
  "may_send (write_callback pipe_kernel) (flush_callback pipe_kernel) quiet_pipe.silent pipe.taken (pipe_end [] n) []"
  using pipe_end_sends [of "[]" n] by (simp add: may_send_def pipe_end_def zmodem_cleared_def bind_callbacks posix_pending_def)

end
