(* ===== verification/Clib.thy ===== *)
theory Clib
  imports Zmodem
begin

text \<open>
  The functions of the C library the two programs parse and print with. A C string is the list of
  its octets, without the final NUL. \<^verbatim>\<open>uintmax_t\<close> has 64 bits, and characters are ASCII.
\<close>

abbreviation (input) UINTMAX_MAX :: nat where "UINTMAX_MAX \<equiv> 0xFFFFFFFFFFFFFFFF"
abbreviation (input) UINT32_MAX :: nat where "UINT32_MAX \<equiv> 0xFFFFFFFF"

definition octets_of :: "string \<Rightarrow> u8 list" where
  "octets_of s = map of_char s"

definition string_of :: "u8 list \<Rightarrow> string" where
  "string_of bs = map (\<lambda>b. char_of (unat b)) bs"

lemma unat_of_char [simp]: "unat (of_char c :: u8) = of_char c"
  by (subst of_nat_of_char [symmetric], subst unat_of_nat) simp

lemma string_of_octets [simp]: "string_of (octets_of s) = s"
  by (simp add: string_of_def octets_of_def o_def)

lemma octets_of_string [simp]: "octets_of (string_of bs) = bs"
proof -
  have "of_char (char_of (unat b)) = b" for b :: u8
  proof -
    have "unat b < 2 ^ 8" by (rule order_less_le_trans [OF unsigned_less]) simp
    then have "unat b mod 256 = unat b" by simp
    then have "of_nat (of_char (char_of (unat b))) = b" by (simp only: of_char_of) simp
    then show ?thesis by (simp only: of_nat_of_char)
  qed
  then show ?thesis by (simp add: octets_of_def string_of_def o_def)
qed

definition toupper :: "char \<Rightarrow> char" where
  "toupper c = (let n = of_char c :: nat in if 97 \<le> n \<and> n \<le> 122 then char_of (n - 32) else c)"

text \<open>What the programs look at in a \<^verbatim>\<open>struct stat\<close>; both members are signed.\<close>

record stat =
  st_size :: int
  st_mtime :: int

text \<open>\<^verbatim>\<open>memchr\<close> of NUL: the index of the first one; and the string that starts at an index.\<close>

definition find_nul :: "u8 list \<Rightarrow> nat option" where
  "find_nul bs = (if 0 \<in> set bs then Some (length (takeWhile (\<lambda>b. b \<noteq> 0) bs)) else None)"

definition cstring_at :: "nat \<Rightarrow> u8 list \<Rightarrow> u8 list" where
  "cstring_at i bs = takeWhile (\<lambda>b. b \<noteq> 0) (drop i bs)"

section \<open>Numbers read\<close>

definition is_space :: "u8 \<Rightarrow> bool" where
  "is_space c \<longleftrightarrow> c = 0x20 \<or> 9 \<le> c \<and> c \<le> 13"

definition is_digit :: "nat \<Rightarrow> u8 \<Rightarrow> bool" where
  "is_digit base c \<longleftrightarrow> 0x30 \<le> c \<and> unat c < 0x30 + base"

definition digits_value :: "nat \<Rightarrow> u8 list \<Rightarrow> nat" where
  "digits_value base ds = foldl (\<lambda>v d. v * base + (unat d - 0x30)) 0 ds"

text \<open>\<^verbatim>\<open>strtoumax\<close> in a base of at most ten: the value, whether \<^verbatim>\<open>errno\<close> is \<^verbatim>\<open>ERANGE\<close>, and the rest of the
  text; without a digit the rest is the text itself.\<close>

definition strtoumax :: "u8 list \<Rightarrow> nat \<Rightarrow> nat \<times> bool \<times> u8 list" where
  "strtoumax text base =
     (let s = dropWhile is_space text;
          negative = (s \<noteq> [] \<and> hd s = 0x2d);
          s = (if s \<noteq> [] \<and> (hd s = 0x2d \<or> hd s = 0x2b) then tl s else s);
          ds = takeWhile (is_digit base) s;
          v = digits_value base ds
      in if ds = [] then (0, False, text)
         else if UINTMAX_MAX < v then (UINTMAX_MAX, True, dropWhile (is_digit base) s)
         else (if negative \<and> v \<noteq> 0 then 2 ^ 64 - v else v, False, dropWhile (is_digit base) s))"

section \<open>Numbers printed\<close>

fun print_base :: "nat \<Rightarrow> nat \<Rightarrow> u8 list" where
  "print_base base n =
     (if n < base \<or> base < 2 then [0x30 + word_of_nat n]
      else print_base base (n div base) @ [0x30 + word_of_nat (n mod base)])"

declare print_base.simps [simp del]

definition print_int :: "int \<Rightarrow> u8 list" where
  "print_int i = (if i < 0 then 0x2d # print_base 10 (nat (- i)) else print_base 10 (nat i))"

lemma print_base_digits:
  "2 \<le> base \<Longrightarrow> base \<le> 10 \<Longrightarrow> (\<forall>d\<in>set (print_base base n). is_digit base d) \<and> print_base base n \<noteq> [] \<and>
     digits_value base (print_base base n) = n"
proof (induction base n rule: print_base.induct)
  case (1 base n)
  have d: "is_digit base (0x30 + word_of_nat k) \<and> unat (0x30 + word_of_nat k :: u8) - 0x30 = k" if "k < base" for k
  proof -
    have k: "k < 10" using that "1.prems"(2) by simp
    then have "unat (0x30 + word_of_nat k :: u8) = 0x30 + k"
      by (simp add: unat_plus_if' unat_of_nat)
    then show ?thesis using that by (simp add: is_digit_def word_le_nat_alt)
  qed
  show ?case
  proof (cases "n < base")
    case True
    then show ?thesis using d by (subst (1 2 3) print_base.simps) (simp add: digits_value_def)
  next
    case False
    then have "\<not> (n < base \<or> base < 2)" using "1.prems" by simp
    note IH = "1.IH" [OF this "1.prems"]
    have "n mod base < base" using "1.prems" by simp
    note m = d [OF this]
    have e: "print_base base n = print_base base (n div base) @ [0x30 + word_of_nat (n mod base)]"
      using False "1.prems" by (subst print_base.simps) simp
    show ?thesis using IH m unfolding e by (simp add: digits_value_def)
  qed
qed

text \<open>A printed number, followed by something that is no digit, is read back.\<close>

lemma strtoumax_print:
  assumes "2 \<le> base" "base \<le> 10" "n \<le> UINTMAX_MAX" "rest = [] \<or> \<not> is_digit base (hd rest)"
  shows "strtoumax (print_base base n @ rest) base = (n, False, rest)"
proof -
  note p = print_base_digits [OF assms(1,2), of n]
  obtain d ds where d: "print_base base n = d # ds" "is_digit base d" using p by (cases "print_base base n") auto
  have "unat d < 58" "48 \<le> unat d" using d(2) assms(2) by (auto simp: is_digit_def word_le_nat_alt)
  then have s: "\<not> is_space d" "d \<noteq> 0x2d" "d \<noteq> 0x2b"
    by (auto simp: is_space_def word_le_nat_alt)
  have "takeWhile (is_digit base) (print_base base n @ rest) = print_base base n"
    "dropWhile (is_digit base) (print_base base n @ rest) = rest"
    using p assms(4) by (cases rest; simp add: takeWhile_append2 dropWhile_append2)+
  then show ?thesis
    using p s assms(3) by (simp add: strtoumax_def d(1) Let_def)
qed

end
