(* ===== verification/Zmtx.thy ===== *)
theory Zmtx
  imports Clib Posix Zmdm_Tx_Data Zmdm_Rx_Header
begin

text \<open>
  The sender, \<^verbatim>\<open>src/zmtx.c\<close>. Its static variables are the record \<open>sender\<close>; the files it reads are a
  state of their own, and the calls on them (\<^verbatim>\<open>open\<close>, \<^verbatim>\<open>fstat\<close>, \<^verbatim>\<open>lseek\<close>, \<^verbatim>\<open>read\<close>, \<^verbatim>\<open>close\<close>) a
  record of functions, a parameter of every operation. Messages to the terminal, and the clock
  and the progress line behind them, are left out; \<open>send_error_reported\<close> is kept.
  \<open>None\<close> is a wait that never ends, or a store outside an array.
\<close>

section \<open>Files\<close>

datatype whence = SEEK_CUR | SEEK_SET

record 'f file_calls =
  f_open :: "string \<Rightarrow> 'f \<Rightarrow> int \<times> 'f"
  f_close :: "int \<Rightarrow> 'f \<Rightarrow> int \<times> 'f"
  f_fstat :: "int \<Rightarrow> 'f \<Rightarrow> int \<times> stat \<times> 'f"
  f_lseek :: "int \<Rightarrow> int \<Rightarrow> whence \<Rightarrow> 'f \<Rightarrow> int \<times> 'f"
  f_read :: "int \<Rightarrow> nat \<Rightarrow> 'f \<Rightarrow> int \<times> errno \<times> u8 list \<times> 'f"

section \<open>State\<close>

abbreviation (input) MAX_RETRIES :: nat where "MAX_RETRIES \<equiv> 10"
abbreviation (input) EXIT_TRANSFER_FAILED :: int where "EXIT_TRANSFER_FAILED \<equiv> 4"
abbreviation (input) EXIT_CLEANUP_FAILED :: int where "EXIT_CLEANUP_FAILED \<equiv> 5"

datatype send_result = SEND_FAILED | SEND_SKIPPED | SEND_SUCCEEDED

record ('c, 'f) sender =
  protocol :: "'c zmodem"
  files :: 'f
  opt_s :: bool
  opt_m :: bool
  opt_M :: bool
  window_argument :: "string option"
  subpacket_size :: nat
  max_subpacket_size :: nat
  receiver_buffer_size :: u16
  window_size :: u32
  n_files_remaining :: int
  tx_data_subpacket :: "u8 list"
  current_file_size :: int
  send_error_reported :: bool

text \<open>A protocol operation on the sender's protocol state, total or partial.\<close>

definition with_protocol :: "('c zmodem \<Rightarrow> int \<times> 'c zmodem) \<Rightarrow> ('c, 'f) sender \<Rightarrow> int \<times> ('c, 'f) sender" where
  "with_protocol f st = (let (r, z) = f (protocol st) in (r, st\<lparr>protocol := z\<rparr>))"

definition on_protocol ::
  "('c zmodem \<Rightarrow> (int \<times> 'c zmodem) option) \<Rightarrow> ('c, 'f) sender \<Rightarrow> (int \<times> ('c, 'f) sender) option" where
  "on_protocol f st = do { (r, z) \<leftarrow> f (protocol st); Some (r, st\<lparr>protocol := z\<rparr>) }"

text \<open>The effect that is left of \<open>report_sender_errno\<close>, \<open>report_sender_protocol\<close> and \<open>report_sender_file\<close>.\<close>

definition report_sender :: "('c, 'f) sender \<Rightarrow> ('c, 'f) sender" where
  "report_sender st = st\<lparr>send_error_reported := True\<rparr>"

section \<open>Positions and blocks of a file\<close>

definition file_position :: "'f file_calls \<Rightarrow> int \<Rightarrow> 'f \<Rightarrow> int option \<times> 'f" where
  "file_position fs file_fd f =
     (let (result, f) = f_lseek fs file_fd 0 SEEK_CUR f in (if result < 0 then None else Some result, f))"

definition recovery_position_value :: "int \<Rightarrow> u32 option" where
  "recovery_position_value result =
     (if result < 0 then None else if int UINT32_MAX < result then None else Some (word_of_int result))"

definition recovery_position :: "'f file_calls \<Rightarrow> int \<Rightarrow> ('c, 'f) sender \<Rightarrow> u32 option \<times> ('c, 'f) sender" where
  "recovery_position fs file_fd st =
     (let (position, f) = file_position fs file_fd (files st); st = st\<lparr>files := f\<rparr>
      in case position of None \<Rightarrow> (None, report_sender st)
         | Some result \<Rightarrow> (case recovery_position_value result of
               None \<Rightarrow> (None, report_sender st) | Some position \<Rightarrow> (Some position, st)))"

text \<open>One \<^verbatim>\<open>read\<close>, retried after a signal.\<close>

partial_function (option) read_retry ::
  "'f file_calls \<Rightarrow> int \<Rightarrow> nat \<Rightarrow> 'f \<Rightarrow> (int \<times> u8 list \<times> 'f) option" where
  "read_retry fs file_fd capacity f =
     (let (result, e, octets, f) = f_read fs file_fd capacity f
      in if 0 \<le> result then Some (result, octets, f)
         else if e \<noteq> EINTR then Some (result, octets, f)
         else read_retry fs file_fd capacity f)"

text \<open>The octets in the buffer so far are \<open>block\<close>. \<open>None\<close> in the result is a failed read, else
  the block and whether the file ended.\<close>

partial_function (option) read_block_loop ::
  "'f file_calls \<Rightarrow> int \<Rightarrow> nat \<Rightarrow> u8 list \<Rightarrow> 'f \<Rightarrow> ((u8 list \<times> bool) option \<times> 'f) option" where
  "read_block_loop fs file_fd capacity block f =
     (if length block < capacity then
        do { (result, octets, f) \<leftarrow> read_retry fs file_fd (capacity - length block) f;
             if result < 0 then Some (None, f)
             else if result = 0 then Some (Some (block, True), f)
             else read_block_loop fs file_fd capacity (block @ take (nat result) octets) f }
      else Some (Some (block, False), f))"

definition read_file_block ::
  "'f file_calls \<Rightarrow> int \<Rightarrow> nat \<Rightarrow> 'f \<Rightarrow> ((u8 list \<times> bool) option \<times> 'f) option" where
  "read_file_block fs file_fd capacity f = read_block_loop fs file_fd capacity [] f"

section \<open>Negotiation\<close>

definition parse_zrinit :: "('c, 'f) sender \<Rightarrow> ('c, 'f) sender" where
  "parse_zrinit st =
     (let z = protocol st; h = rxd_header z
      in st\<lparr>protocol := z\<lparr>can_full_duplex := h ! ZF0 AND ZF0_CANFDX \<noteq> 0,
              can_overlap_io := h ! ZF0 AND ZF0_CANOVIO \<noteq> 0,
              can_break := h ! ZF0 AND ZF0_CANBRK \<noteq> 0,
              can_rle := h ! ZF0 AND ZF0_CANRLE \<noteq> 0,
              can_fcs_32 := h ! ZF0 AND ZF0_CANFC32 \<noteq> 0,
              escape_all_control_characters := h ! ZF0 AND ZF0_ESCCTL \<noteq> 0,
              escape_8th_bit := h ! ZF0 AND ZF0_ESC8 \<noteq> 0,
              peer_can_variable_headers := h ! ZF1 AND ZF1_CANVHDR \<noteq> 0\<rparr>,
            receiver_buffer_size := ucast (h ! ZP0) OR push_bit 8 (ucast (h ! ZP1))\<rparr>)"

definition select_zrpos_encoding :: "('c, 'f) sender \<Rightarrow> ('c, 'f) sender" where
  "select_zrpos_encoding st =
     (let z = protocol st;
          flags = (if rxd_header_len z > ZMODEM90_ZRPOS_FLAGS then rxd_header z ! ZMODEM90_ZRPOS_FLAGS else 0);
          mobyturbo_requested = (flags AND ZMODEM90_REQUEST_MOBYTURBO \<noteq> 0);
          pack7_requested = (flags AND ZMODEM90_REQUEST_PACK7 \<noteq> 0);
          pack7 = pack7_requested;
          pack7 = (if \<not> escape_8th_bit z then False else pack7);
          pack7 = (if \<not> peer_can_variable_headers z then False else pack7);
          moby = mobyturbo_requested;
          moby = (if \<not> opt_m st then False else moby);
          moby = (if opt_M st then False else moby);
          moby = (if escape_8th_bit z then False else moby);
          moby = (if \<not> peer_can_variable_headers z then False else moby)
      in st\<lparr>protocol := z\<lparr>use_pack7 := pack7, use_mobyturbo := moby\<rparr>\<rparr>)"

section \<open>The size of a subpacket\<close>

definition increase_subpacket_size :: "('c, 'f) sender \<Rightarrow> ('c, 'f) sender" where
  "increase_subpacket_size st =
     (if subpacket_size st < max_subpacket_size st then
        let n = subpacket_size st * 2
        in st\<lparr>subpacket_size := (if max_subpacket_size st < n then max_subpacket_size st else n)\<rparr>
      else st)"

definition reduce_subpacket_size :: "('c, 'f) sender \<Rightarrow> ('c, 'f) sender" where
  "reduce_subpacket_size st =
     (let st = (if subpacket_size st = max_subpacket_size st \<and> ZBLOCKLEN < max_subpacket_size st
                then st\<lparr>max_subpacket_size := max_subpacket_size st div 2\<rparr> else st)
      in if 128 < subpacket_size st then st\<lparr>subpacket_size := subpacket_size st div 2\<rparr> else st)"

section \<open>Accounting\<close>

text \<open>Whether there is progress, the furthest position and the attempts.\<close>

definition account_recovery :: "u32 \<Rightarrow> u32 \<Rightarrow> u32 \<Rightarrow> bool \<times> u32 \<times> u32" where
  "account_recovery position furthest_position attempts =
     (if furthest_position < position then (True, position, 0)
      else (False, furthest_position, attempts + 1))"

definition parse_window_size :: "string option \<Rightarrow> u32 option" where
  "parse_window_size text =
     (case text of None \<Rightarrow> None | Some t \<Rightarrow>
        if t = [] then None
        else if hd t = CHR ''-'' then None
        else let (parsed, erange, end) = strtoumax (octets_of t) 10
             in if end = octets_of t then None
                else if erange then None
                else let multiplier = (if end = [] then Some 1
                       else if tl end \<noteq> [] then None
                       else if toupper (hd (string_of end)) = CHR ''K'' then Some 1024
                       else if toupper (hd (string_of end)) = CHR ''M'' then Some (1024 * 1024)
                       else None)
                     in (case multiplier of None \<Rightarrow> None
                         | Some multiplier \<Rightarrow>
                             (if parsed = 0 then None
                              else if UINT32_MAX div multiplier < parsed then None
                              else Some (word_of_nat (parsed * multiplier)))))"

definition accept_acknowledgement :: "u8 list \<Rightarrow> u32 \<Rightarrow> u32 \<Rightarrow> u32 option" where
  "accept_acknowledgement header sent_position acknowledged =
     (let position = zmodem_header_position header
      in if sent_position < position then None
         else Some (if acknowledged < position then position else acknowledged))"

end
