(* ===== verification/Zmrx.thy ===== *)
theory Zmrx
  imports Clib Posix Zmdm_Rx_Header
begin

text \<open>
  The receiver, \<^verbatim>\<open>src/zmrx.c\<close>: its static variables as the record \<open>receiver\<close>, the requests it sends,
  and \<open>receive_file_data\<close>. Names it shares with the sender end in \<open>_r\<close>. The calls on the files it
  writes are a record of functions on a state of their own; a \<^verbatim>\<open>FILE *\<close> is a number. Messages to
  the terminal, and the clock and the progress line behind them, are left out;
  \<open>receive_error_reported\<close> is kept. \<open>None\<close> is a wait that never ends, or a store outside an array.
\<close>

section \<open>Files\<close>

record 'f stdio_calls =
  s_stat :: "string \<Rightarrow> 'f \<Rightarrow> int \<times> errno \<times> stat \<times> 'f"
  s_create :: "string \<Rightarrow> 'f \<Rightarrow> int \<times> 'f"
  s_close :: "int \<Rightarrow> 'f \<Rightarrow> int \<times> 'f"
  s_fdopen :: "int \<Rightarrow> string \<Rightarrow> 'f \<Rightarrow> nat option \<times> 'f"
  s_fopen :: "string \<Rightarrow> string \<Rightarrow> 'f \<Rightarrow> nat option \<times> 'f"
  s_ftello :: "nat \<Rightarrow> 'f \<Rightarrow> int \<times> 'f"
  s_fwrite :: "u8 list \<Rightarrow> nat \<Rightarrow> 'f \<Rightarrow> nat \<times> 'f"
  s_fflush :: "nat \<Rightarrow> 'f \<Rightarrow> int \<times> 'f"
  s_fclose :: "nat \<Rightarrow> 'f \<Rightarrow> int \<times> 'f"
  s_utime :: "string \<Rightarrow> int \<Rightarrow> 'f \<Rightarrow> int \<times> 'f"

section \<open>State\<close>

abbreviation (input) MAX_RETRIES_r :: nat where "MAX_RETRIES_r \<equiv> 10"
abbreviation (input) FILENAME_CAPACITY :: nat where "FILENAME_CAPACITY \<equiv> 0x80"

text \<open>The receive buffer of the POSIX platform: \<^verbatim>\<open>ZMODEM_PLAT_RECEIVE_BUFFER_SIZE\<close>.\<close>

abbreviation (input) PLAT_RECEIVE_BUFFER_SIZE :: nat where "PLAT_RECEIVE_BUFFER_SIZE \<equiv> 0"

datatype receive_result = RECEIVE_FAILED | RECEIVE_RETRY | RECEIVE_SKIPPED | RECEIVE_SUCCEEDED

record ('c, 'f) receiver =
  protocol_r :: "'c zmodem"
  files_r :: 'f
  fp :: "nat option"
  mdate :: int
  mdate_known :: bool
  filename :: string
  name_r :: string
  opt_s_r :: bool
  opt_m_r :: bool
  opt_M_r :: bool
  opt_escape_control :: bool
  opt_escape_8th_bit :: bool
  opt_pack7 :: bool
  junk_pathnames :: bool
  rx_data_subpacket :: "u8 list"
  attention_sequence :: "u8 list"
  current_file_size_r :: nat
  current_file_size_known :: bool
  receive_error_reported :: bool
  current_mobyturbo :: bool
  extended_zrpos_sent :: bool

definition with_protocol_r :: "('c zmodem \<Rightarrow> int \<times> 'c zmodem) \<Rightarrow> ('c, 'f) receiver \<Rightarrow> int \<times> ('c, 'f) receiver" where
  "with_protocol_r f st = (let (r, z) = f (protocol_r st) in (r, st\<lparr>protocol_r := z\<rparr>))"

definition on_protocol_r ::
  "('c zmodem \<Rightarrow> (int \<times> 'c zmodem) option) \<Rightarrow> ('c, 'f) receiver \<Rightarrow> (int \<times> ('c, 'f) receiver) option" where
  "on_protocol_r f st = do { (r, z) \<leftarrow> f (protocol_r st); Some (r, st\<lparr>protocol_r := z\<rparr>) }"

definition with_files :: "('f \<Rightarrow> 'a \<times> 'f) \<Rightarrow> ('c, 'f) receiver \<Rightarrow> 'a \<times> ('c, 'f) receiver" where
  "with_files g st = (let (r, f) = g (files_r st) in (r, st\<lparr>files_r := f\<rparr>))"

definition report_receiver :: "('c, 'f) receiver \<Rightarrow> ('c, 'f) receiver" where
  "report_receiver st = st\<lparr>receive_error_reported := True\<rparr>"

definition file_position_r :: "'f stdio_calls \<Rightarrow> nat option \<Rightarrow> 'f \<Rightarrow> u32 option \<times> 'f" where
  "file_position_r fs file f =
     (case file of None \<Rightarrow> (None, f)
      | Some h \<Rightarrow>
          (let (offset, f) = s_ftello fs h f
           in if offset < 0 then (None, f)
              else if int UINT32_MAX < offset then (None, f)
              else (Some (word_of_int offset), f)))"

definition terminal_receive_result :: "int \<Rightarrow> bool" where
  "terminal_receive_result result \<longleftrightarrow> result \<le> ZMODEM_CANCELLED"

section \<open>Requests\<close>

definition zrpos_flags :: "('c, 'f) receiver \<Rightarrow> u8" where
  "zrpos_flags st =
     (let request_mobyturbo = (if \<not> extended_zrpos_sent st then current_mobyturbo st else False);
          request_pack7 = (if \<not> extended_zrpos_sent st then
              (if opt_pack7 st then peer_can_variable_headers (protocol_r st) else False) else False);
          flags = (if request_mobyturbo then 0 OR ZMODEM90_REQUEST_MOBYTURBO else 0)
      in if request_pack7 then flags OR ZMODEM90_REQUEST_PACK7 else flags)"

definition tx_zrpos :: "u32 \<Rightarrow> ('c, 'f) receiver \<Rightarrow> int \<times> ('c, 'f) receiver" where
  "tx_zrpos position st =
     (let header = zmodem_set_header_position [ZRPOS, 0, 0, 0, 0, 0, 0, 0] position; flags = zrpos_flags st
      in if flags = 0 then with_protocol_r (tx_header header) st
         else let header = header[ZMODEM90_ZRPOS_FLAGS := flags];
                  (result, st) = with_protocol_r (tx_header_length header ZMODEM90_ZRPOS_HEADER_LEN) st
              in if result = 0 then (result, st\<lparr>extended_zrpos_sent := True\<rparr>) else (result, st))"

definition zrinit_header :: "('c, 'f) receiver \<Rightarrow> u8 list" where
  "zrinit_header st =
     (let h = [ZRINIT, 0, 0, 0, ZF0_CANBRK OR ZF0_CANFDX OR ZF0_CANOVIO OR ZF0_CANRLE OR ZF0_CANFC32];
          h = (if opt_pack7 st then h[ZF1 := h ! ZF1 OR ZF1_CANVHDR] else h);
          h = (if opt_m_r st then (if \<not> opt_M_r st then h[ZF1 := h ! ZF1 OR ZF1_CANVHDR] else h) else h);
          size = (if PLAT_RECEIVE_BUFFER_SIZE = 0 \<or> ZMAXSPLEN < PLAT_RECEIVE_BUFFER_SIZE then ZMAXSPLEN
                  else PLAT_RECEIVE_BUFFER_SIZE);
          h = (if opt_s_r st
               then h[ZP0 := word_of_nat size, ZP1 := word_of_nat (size div 256), ZF0 := h ! ZF0 AND NOT ZF0_CANOVIO]
               else h);
          h = (if opt_escape_control st then h[ZF0 := h ! ZF0 OR ZF0_ESCCTL] else h)
      in if opt_escape_8th_bit st then h[ZF0 := h ! ZF0 OR ZF0_ESC8] else h)"

definition tx_zrinit :: "('c, 'f) receiver \<Rightarrow> int \<times> ('c, 'f) receiver" where
  "tx_zrinit st =
     (let h = zrinit_header st; z = protocol_r st;
          z = (if opt_escape_control st then z\<lparr>receive_escaped_control_characters := True\<rparr> else z);
          z = (if opt_escape_8th_bit st then z\<lparr>receive_escape8_format := ZMODEM_ESCAPE8_LEGACY\<rparr> else z)
      in with_protocol_r (tx_hex_header h) (st\<lparr>protocol_r := z\<rparr>))"

section \<open>The data of a file\<close>

text \<open>\<open>rx_data\<close> into the static buffer: the result, the octets and the frame end.\<close>

definition receive_subpacket ::
  "('c, 'f) receiver \<Rightarrow> (int \<times> nat \<times> u8 \<times> ('c, 'f) receiver) option" where
  "receive_subpacket st =
     do { (type, z, buffer, n, frame_end) \<leftarrow> rx_data (rx_data_subpacket st) ZMAXSPLEN (protocol_r st);
          Some (type, n, frame_end, st\<lparr>protocol_r := z, rx_data_subpacket := buffer\<rparr>) }"

text \<open>Sending ZFERR and reporting; \<open>ZFERR\<close> is the result.\<close>

definition refuse_data :: "u32 \<Rightarrow> ('c, 'f) receiver \<Rightarrow> (int + 'a) \<times> ('c, 'f) receiver" where
  "refuse_data pos st = (Inl (uint ZFERR), report_receiver (snd (with_protocol_r (tx_pos_header ZFERR pos) st)))"

text \<open>A subpacket that did not arrive whole: purge, count, ask again. \<open>Inr\<close> leaves the inner loop.\<close>

definition reject_data ::
  "int \<Rightarrow> u32 \<Rightarrow> nat \<Rightarrow> ('c, 'f) receiver \<Rightarrow> (int + u32 \<times> nat) \<times> ('c, 'f) receiver" where
  "reject_data type pos errors st =
     (let (r, st) = with_protocol_r rx_purge st
      in if r \<noteq> ZMODEM_OK then (Inl ZMODEM_IO_ERROR, report_receiver st)
         else let errors = errors + 1
              in if MAX_RETRIES_r \<le> errors then (Inl type, st)
                 else let (r, st) = tx_zrpos pos st
                      in if r \<noteq> 0 then (Inl type, report_receiver st) else (Inr (pos, errors), st))"

text \<open>Storing a subpacket: \<open>Inr\<close> is the new position, after the acknowledgement the frame end asks for.\<close>

definition store_data ::
  "'f stdio_calls \<Rightarrow> nat \<Rightarrow> u32 \<Rightarrow> nat \<Rightarrow> u8 \<Rightarrow> ('c, 'f) receiver \<Rightarrow> (int + u32) \<times> ('c, 'f) receiver" where
  "store_data fs file pos n frame_end st =
     (if UINT32_MAX < n then refuse_data pos st
      else if pos + word_of_nat n < pos then refuse_data pos st
      else let (written, st) = with_files (s_fwrite fs (take n (rx_data_subpacket st)) file) st
           in if written \<noteq> n then refuse_data pos st
              else let (new_pos, st) = with_files (file_position_r fs (Some file)) st
                   in case new_pos of
                        None \<Rightarrow> refuse_data pos st
                      | Some new_pos \<Rightarrow>
                          if new_pos \<noteq> pos + word_of_nat n then refuse_data pos st
                          else if frame_end = ZCRCQ \<or> frame_end = ZCRCW then
                            (let (r, st) = with_protocol_r (tx_pos_header ZACK new_pos) st
                             in if r \<noteq> 0 then (Inl (uint ZFERR), report_receiver st) else (Inr new_pos, st))
                          else (Inr new_pos, st))"

text \<open>The subpackets of a frame: \<open>Inr\<close> is the position and the errors when the inner loop ends.\<close>

partial_function (option) frame_loop ::
  "'f stdio_calls \<Rightarrow> nat \<Rightarrow> u32 \<Rightarrow> nat \<Rightarrow> ('c, 'f) receiver \<Rightarrow>
   ((int + u32 \<times> nat) \<times> ('c, 'f) receiver) option" where
  "frame_loop fs file pos errors st =
     do { (type, n, frame_end, st) \<leftarrow> receive_subpacket st;
          if terminal_receive_result type then Some (Inl type, st)
          else if type \<noteq> ZMODEM_FRAME_OK \<and> type \<noteq> ZMODEM_END_OF_FRAME then Some (reject_data type pos errors st)
          else case store_data fs file pos n frame_end st of
              (Inl c, st) \<Rightarrow> Some (Inl c, st)
            | (Inr pos, st) \<Rightarrow> if type = ZMODEM_FRAME_OK then frame_loop fs file pos 0 st else Some (Inr (pos, 0), st) }"

text \<open>One header of \<open>receive_file_data\<close>: \<open>Inl\<close> is its result.\<close>

definition data_round ::
  "'f stdio_calls \<Rightarrow> nat \<Rightarrow> u32 \<Rightarrow> nat \<Rightarrow> ('c, 'f) receiver \<Rightarrow>
   ((int + u32 \<times> nat) \<times> ('c, 'f) receiver) option" where
  "data_round fs file pos errors st =
     do { (type, st) \<leftarrow> on_protocol_r (rx_header 10000) st;
          if type = ZMODEM_TIMEOUT then
            (if MAX_RETRIES_r \<le> errors + 1 then Some (Inl ZMODEM_TIMEOUT, st)
             else let (r, st) = tx_zrpos pos st
                  in Some (if r \<noteq> 0 then (Inl ZMODEM_TIMEOUT, report_receiver st) else (Inr (pos, errors + 1), st)))
          else if type = uint ZEOF then
            Some (if zmodem_header_position (rxd_header (protocol_r st)) = pos then Inl (uint ZEOF)
                  else Inr (pos, errors), st)
          else if type = uint ZFILE then
            do { (data_result, n, frame_end, st) \<leftarrow> receive_subpacket st;
                 if terminal_receive_result data_result then Some (Inl data_result, st)
                 else let (r, st) = tx_zrpos pos st
                      in Some (if r \<noteq> 0 then (Inl (uint ZFERR), report_receiver st) else (Inr (pos, errors), st)) }
          else if type \<noteq> uint ZDATA then Some (Inl type, st)
          else if zmodem_header_position (rxd_header (protocol_r st)) \<noteq> pos then
            (let (r, st) = with_protocol_r rx_purge st
             in if r \<noteq> ZMODEM_OK then Some (Inl ZMODEM_IO_ERROR, report_receiver st)
                else if MAX_RETRIES_r \<le> errors + 1 then Some (Inl ZMODEM_INVALID_DATA, st)
                else let (r, st) = tx_zrpos pos st
                     in Some (if r \<noteq> 0 then (Inl ZMODEM_INVALID_DATA, report_receiver st)
                              else (Inr (pos, errors + 1), st)))
          else frame_loop fs file pos errors st }"

partial_function (option) data_loop ::
  "'f stdio_calls \<Rightarrow> nat \<Rightarrow> u32 \<Rightarrow> nat \<Rightarrow> ('c, 'f) receiver \<Rightarrow> (int \<times> ('c, 'f) receiver) option" where
  "data_loop fs file pos errors st =
     do { (r, st) \<leftarrow> data_round fs file pos errors st;
          case r of Inl c \<Rightarrow> Some (c, st) | Inr (pos, errors) \<Rightarrow> data_loop fs file pos errors st }"

definition receive_file_data :: "'f stdio_calls \<Rightarrow> nat \<Rightarrow> ('c, 'f) receiver \<Rightarrow> (int \<times> ('c, 'f) receiver) option" where
  "receive_file_data fs file st =
     (let (p, st) = with_files (file_position_r fs (Some file)) st
      in case p of
           None \<Rightarrow> Some (uint ZFERR, report_receiver (snd (with_protocol_r (tx_pos_header ZFERR 0) st)))
         | Some pos \<Rightarrow>
             (let (r, st) = tx_zrpos pos st
              in if r \<noteq> 0 then Some (uint ZFERR, report_receiver st) else data_loop fs file pos 0 st))"

end
