(* ===== verification/Disk.thy ===== *)
theory Disk
  imports Zmtx Zmrx
begin

text \<open>
  A file system on which the contracts of the files are interpreted: the contents and the date of
  each name, the open streams with their offsets, the octets left on the device, and the signals
  that will interrupt a read. A read gives at most five octets; a write that finds no room is short.
  The calls of the sender and of the receiver share it; a \<^verbatim>\<open>FILE *\<close> and a descriptor are the same
  number.
\<close>

record disk =
  disk_files :: "string \<Rightarrow> (u8 list \<times> int) option"
  disk_streams :: "int \<Rightarrow> (string \<times> nat) option"
  disk_next :: nat
  disk_room :: nat
  disk_signals :: nat

definition disk_stream :: "string \<Rightarrow> disk \<Rightarrow> disk" where
  "disk_stream name d =
     d\<lparr>disk_streams := (disk_streams d)(int (disk_next d) \<mapsto> (name, 0)), disk_next := disk_next d + 1\<rparr>"

definition disk_open :: "int \<Rightarrow> disk \<Rightarrow> bool" where
  "disk_open h d \<longleftrightarrow> (case disk_streams d h of None \<Rightarrow> False | Some (name, p) \<Rightarrow> disk_files d name \<noteq> None)"

definition disk_contents :: "int \<Rightarrow> disk \<Rightarrow> u8 list" where
  "disk_contents h d =
     (case disk_streams d h of None \<Rightarrow> []
      | Some (name, p) \<Rightarrow> (case disk_files d name of None \<Rightarrow> [] | Some (bs, t) \<Rightarrow> bs))"

definition disk_offset :: "int \<Rightarrow> disk \<Rightarrow> nat" where
  "disk_offset h d = (case disk_streams d h of None \<Rightarrow> 0 | Some (name, p) \<Rightarrow> p)"

section \<open>The calls\<close>

definition disk_stat :: "string \<Rightarrow> disk \<Rightarrow> int \<times> errno \<times> stat" where
  "disk_stat name d =
     (case disk_files d name of None \<Rightarrow> (- 1, ENOENT, \<lparr>st_size = 0, st_mtime = 0\<rparr>)
      | Some (bs, t) \<Rightarrow> (0, EOTHER, \<lparr>st_size = int (length bs), st_mtime = t\<rparr>))"

definition disk_fopen :: "string \<Rightarrow> string \<Rightarrow> disk \<Rightarrow> nat option \<times> disk" where
  "disk_fopen name mode d =
     (Some (disk_next d), disk_stream name (d\<lparr>disk_files := (disk_files d)(name \<mapsto>
        (case disk_files d name of None \<Rightarrow> ([], 0) | Some (bs, t) \<Rightarrow> (if mode = ''ab'' then bs else [], t)))\<rparr>))"

definition disk_close :: "int \<Rightarrow> disk \<Rightarrow> int \<times> disk" where
  "disk_close h d = (0, d\<lparr>disk_streams := (disk_streams d)(h := None)\<rparr>)"

definition disk_write :: "u8 list \<Rightarrow> int \<Rightarrow> disk \<Rightarrow> nat \<times> disk" where
  "disk_write bs h d =
     (case disk_streams d h of None \<Rightarrow> (0, d)
      | Some (name, p) \<Rightarrow>
          (case disk_files d name of None \<Rightarrow> (0, d)
           | Some (old, t) \<Rightarrow> (min (length bs) (disk_room d),
               d\<lparr>disk_files := (disk_files d)(name \<mapsto> (old @ take (disk_room d) bs, t)),
                 disk_room := disk_room d - length bs\<rparr>)))"

definition disk_utime :: "string \<Rightarrow> int \<Rightarrow> disk \<Rightarrow> int \<times> disk" where
  "disk_utime name t d =
     (case disk_files d name of None \<Rightarrow> (- 1, d)
      | Some (bs, u) \<Rightarrow> (0, d\<lparr>disk_files := (disk_files d)(name \<mapsto> (bs, t))\<rparr>))"

definition disk_seek :: "int \<Rightarrow> int \<Rightarrow> whence \<Rightarrow> disk \<Rightarrow> int \<times> disk" where
  "disk_seek h offset whence d =
     (case disk_streams d h of None \<Rightarrow> (- 1, d)
      | Some (name, p) \<Rightarrow>
          (let q = (case whence of SEEK_CUR \<Rightarrow> int p + offset | SEEK_SET \<Rightarrow> offset)
           in if q < 0 then (- 1, d)
              else (q, d\<lparr>disk_streams := (disk_streams d)(h \<mapsto> (name, nat q))\<rparr>)))"

definition disk_read :: "int \<Rightarrow> nat \<Rightarrow> disk \<Rightarrow> int \<times> errno \<times> u8 list \<times> disk" where
  "disk_read h n d =
     (if disk_signals d \<noteq> 0 then (- 1, EINTR, [], d\<lparr>disk_signals := disk_signals d - 1\<rparr>)
      else case disk_streams d h of None \<Rightarrow> (- 1, EBADF, [], d)
      | Some (name, p) \<Rightarrow>
          (let bs = take (min n 5) (drop p (disk_contents h d))
           in (int (length bs), EOTHER, bs,
               d\<lparr>disk_streams := (disk_streams d)(h \<mapsto> (name, p + length bs))\<rparr>)))"

definition disk_stdio :: "disk stdio_calls" where
  "disk_stdio = \<lparr>s_stat = (\<lambda>name d. case disk_stat name d of (r, e, s) \<Rightarrow> (r, e, s, d)),
     s_create = (\<lambda>name d. if disk_files d name = None
        then (int (disk_next d), disk_stream name (d\<lparr>disk_files := (disk_files d)(name \<mapsto> ([], 0))\<rparr>))
        else (- 1, d)),
     s_close = disk_close, s_fdopen = (\<lambda>fd mode d. (Some (nat fd), d)), s_fopen = disk_fopen,
     s_ftello = (\<lambda>h d. (if disk_open (int h) d then int (length (disk_contents (int h) d)) else - 1, d)),
     s_fwrite = (\<lambda>bs h. disk_write bs (int h)), s_fflush = (\<lambda>h d. (0, d)),
     s_fclose = (\<lambda>h. disk_close (int h)), s_utime = disk_utime\<rparr>"

definition disk_file_calls :: "disk file_calls" where
  "disk_file_calls = \<lparr>f_open = (\<lambda>name d. case disk_files d name of None \<Rightarrow> (- 1, d)
        | Some _ \<Rightarrow> (int (disk_next d), disk_stream name d)),
     f_close = disk_close,
     f_fstat = (\<lambda>h d. if disk_open h d
        then (0, \<lparr>st_size = int (length (disk_contents h d)), st_mtime = 0\<rparr>, d)
        else (- 1, \<lparr>st_size = 0, st_mtime = 0\<rparr>, d)),
     f_lseek = disk_seek, f_read = disk_read\<rparr>"

section \<open>What the calls do\<close>

lemma disk_open_iff: "disk_open h d \<longleftrightarrow> (\<exists>name p bs t. disk_streams d h = Some (name, p) \<and> disk_files d name = Some (bs, t))"
  by (auto simp: disk_open_def split: option.splits)

lemma disk_tells:
  "disk_open (int h) d \<Longrightarrow> s_ftello disk_stdio h d = (int (length (disk_contents (int h) d)), d)"
  by (simp add: disk_stdio_def)

lemma disk_writes:
  assumes "disk_open (int h) d" "s_fwrite disk_stdio bs h d = (n, d')"
  shows "disk_open (int h) d' \<and> n = min (length bs) (disk_room d) \<and> disk_room d' = disk_room d - length bs \<and>
    disk_contents (int h) d' = disk_contents (int h) d @ take (disk_room d) bs"
  using assms by (auto simp: disk_stdio_def disk_write_def disk_open_def disk_contents_def split: option.splits)

lemma disk_seeks:
  "disk_open h d \<Longrightarrow> \<exists>d'. f_lseek disk_file_calls h 0 SEEK_CUR d = (int (disk_offset h d), d') \<and> disk_open h d' \<and>
     disk_contents h d' = disk_contents h d \<and> disk_offset h d' = disk_offset h d"
  by (auto simp: disk_file_calls_def disk_seek_def disk_open_def disk_contents_def disk_offset_def split: option.splits)

lemma disk_reads:
  assumes "disk_open h d" "f_read disk_file_calls h n d = (r, e, bs, d')"
  shows "disk_open h d' \<and> disk_contents h d' = disk_contents h d \<and>
    (if 0 \<le> r then bs = take (min n 5) (drop (disk_offset h d) (disk_contents h d)) \<and> r = int (length bs) \<and>
       disk_offset h d' = disk_offset h d + length bs
     else e = EINTR \<and> disk_signals d' < disk_signals d \<and> disk_offset h d' = disk_offset h d)"
  using assms
  by (auto simp: disk_file_calls_def disk_read_def disk_open_def disk_contents_def disk_offset_def Let_def
      split: option.splits if_splits)

end
