(* ===== verification/Zmtx_Send.thy ===== *)
theory Zmtx_Send
  imports Zmtx
begin

text \<open>
  Sending one file: \<open>send_from\<close>, \<open>seek_sender\<close> and \<open>send_file\<close> of \<^verbatim>\<open>zmtx.c\<close>. In a sum, \<open>Inl\<close> is the
  value the C function returns with, \<open>Inr\<close> what its loop goes on with.
\<close>

section \<open>The file's data\<close>

text \<open>The three checks on the position of the file, which \<open>send_from\<close> makes twice.\<close>

definition checked_position :: "'f file_calls \<Rightarrow> int \<Rightarrow> ('c, 'f) sender \<Rightarrow> (int + u32) \<times> ('c, 'f) sender" where
  "checked_position fs file_fd st =
     (let (position, f) = file_position fs file_fd (files st); st = st\<lparr>files := f\<rparr>
      in case position of None \<Rightarrow> (Inl (uint ZFERR), report_sender st)
         | Some position \<Rightarrow>
             if position < 0 then (Inl (uint ZFERR), report_sender st)
             else if int UINT32_MAX < position then (Inl (uint ZFERR), report_sender st)
             else (Inr (word_of_int position), st))"

partial_function (option) window_loop ::
  "u32 \<Rightarrow> u32 \<Rightarrow> ('c, 'f) sender \<Rightarrow> ((int + u32) \<times> ('c, 'f) sender) option" where
  "window_loop wire_position acknowledged_position st =
     (if window_size st \<le> wire_position - acknowledged_position then
        do { (type, st) \<leftarrow> on_protocol (rx_header 10000) st;
             if type = uint ZACK then
               (case accept_acknowledgement (rxd_header (protocol st)) wire_position acknowledged_position of
                  None \<Rightarrow> Some (Inl (uint ZNAK), st)
                | Some acknowledged_position \<Rightarrow> window_loop wire_position acknowledged_position st)
             else Some (Inl type, st) }
      else Some (Inr acknowledged_position, st))"

text \<open>How many octets to read: the subpacket, what the window leaves, what the receiver's buffer leaves.\<close>

definition read_size :: "bool \<Rightarrow> u32 \<Rightarrow> u32 \<Rightarrow> nat \<Rightarrow> ('c, 'f) sender \<Rightarrow> nat" where
  "read_size window_enabled wire_position acknowledged_position segment_sent st =
     (let n = subpacket_size st;
          n = (if window_enabled then
                 (if unat (window_size st - (wire_position - acknowledged_position)) < n
                  then unat (window_size st - (wire_position - acknowledged_position)) else n)
               else n)
      in if receiver_buffer_size st \<noteq> 0 then
           (if unat (receiver_buffer_size st) - segment_sent < n
            then unat (receiver_buffer_size st) - segment_sent else n)
         else n)"

text \<open>The variables of \<open>send_from\<close> that live from one round to the next, and those that are fixed.\<close>

record send_vars =
  frame_open :: bool
  acknowledged_position :: u32
  last_ack_request :: u32
  segment_sent :: nat
  synchronize_recovery :: bool

record send_plan =
  window_enabled :: bool
  wait_each_block :: bool
  acknowledgement_interval :: u32

definition frame_end_for :: "send_plan \<Rightarrow> send_vars \<Rightarrow> u16 \<Rightarrow> nat \<Rightarrow> bool \<Rightarrow> u32 \<Rightarrow> u8" where
  "frame_end_for plan v buffer_size n end_of_file position =
     (if n = 0 \<or> (\<not> synchronize_recovery v \<and> \<not> wait_each_block plan \<and> end_of_file) then ZCRCE
      else if synchronize_recovery v \<or> wait_each_block plan \<or>
              (buffer_size \<noteq> 0 \<and> segment_sent v + n = unat buffer_size) then ZCRCW
      else if window_enabled plan \<and> acknowledgement_interval plan \<le> position - last_ack_request v then ZCRCQ
      else ZCRCG)"

text \<open>After ZCRCW: ZACKs for another position are passed over.\<close>

partial_function (option) block_ack_loop ::
  "u32 \<Rightarrow> ('c, 'f) sender \<Rightarrow> (int \<times> ('c, 'f) sender) option" where
  "block_ack_loop position st =
     do { (type, st) \<leftarrow> on_protocol (rx_header 10000) st;
          if type \<noteq> uint ZACK then Some (type, st)
          else if zmodem_header_position (rxd_header (protocol st)) = position then Some (type, st)
          else block_ack_loop position st }"

text \<open>What has arrived from the other side meanwhile.\<close>

partial_function (option) reply_loop ::
  "u32 \<Rightarrow> u32 \<Rightarrow> ('c, 'f) sender \<Rightarrow> ((int + u32) \<times> ('c, 'f) sender) option" where
  "reply_loop position acknowledged st =
     (let (ready, st) = with_protocol rx_poll st
      in if ready < 0 then Some (Inl ready, st)
         else if ready = 0 then Some (Inr acknowledged, st)
         else do {
           (c, st) \<leftarrow> on_protocol (rx_raw 1000) st;
           if c < 0 then Some (Inl c, st)
           else if c AND 0x7f = uint ZPAD then
             do { (type, st) \<leftarrow> on_protocol (rx_header 1000) st;
                  if type = uint ZACK then
                    (case accept_acknowledgement (rxd_header (protocol st)) position acknowledged of
                       None \<Rightarrow> Some (Inl (uint ZNAK), st)
                     | Some acknowledged \<Rightarrow> reply_loop position acknowledged st)
                  else if type \<noteq> ZMODEM_TIMEOUT then Some (Inl type, st)
                  else reply_loop position acknowledged st }
           else reply_loop position acknowledged st })"

definition send_failed :: "('c, 'f) sender \<Rightarrow> (int + 'a) \<times> ('c, 'f) sender" where
  "send_failed st = (Inl (uint ZFERR), report_sender st)"

text \<open>The ZDATA header, once per frame.\<close>

definition open_frame :: "u32 \<Rightarrow> bool \<Rightarrow> ('c, 'f) sender \<Rightarrow> int \<times> ('c, 'f) sender" where
  "open_frame position is_open st =
     (if is_open then (0, st)
      else with_protocol (tx_header (zmodem_set_header_position [ZDATA, 0, 0, 0, 0] position)) st)"

text \<open>After the data of a block: what the frame end \<open>e\<close> asks for. The new size of the file is \<open>position\<close>.\<close>

definition after_block ::
  "u8 \<Rightarrow> u32 \<Rightarrow> nat \<Rightarrow> bool \<Rightarrow> send_vars \<Rightarrow> ('c, 'f) sender \<Rightarrow> ((int + send_vars) \<times> ('c, 'f) sender) option" where
  "after_block e position n stop_after_ack v st =
     (if e = ZCRCE then Some (Inl (uint ZACK), st\<lparr>current_file_size := uint position\<rparr>)
      else if e = ZCRCW then
        do { (type, st) \<leftarrow> block_ack_loop position st;
             if type \<noteq> uint ZACK then Some (Inl type, st)
             else let st = increase_subpacket_size st
                  in if stop_after_ack then Some (Inl (uint ZACK), st\<lparr>current_file_size := uint position\<rparr>)
                     else Some (Inr \<lparr>frame_open = False, acknowledged_position = position,
                                     last_ack_request = position, segment_sent = 0,
                                     synchronize_recovery = False\<rparr>, st) }
      else do {
        let v = v\<lparr>segment_sent := segment_sent v + n,
                  last_ack_request := (if e = ZCRCQ then position else last_ack_request v)\<rparr>;
        (r, st) \<leftarrow> reply_loop position (acknowledged_position v) st;
        Some (case r of Inl c \<Rightarrow> (Inl c, st)
              | Inr acknowledged \<Rightarrow> (Inr (v\<lparr>acknowledged_position := acknowledged\<rparr>), increase_subpacket_size st)) })"

text \<open>
  One block: read it, choose its frame end, send it. The file position cannot pass \<open>UINT32_MAX\<close>: C
  checks that the sum does not wrap.
\<close>

definition send_block ::
  "'f file_calls \<Rightarrow> int \<Rightarrow> send_plan \<Rightarrow> send_vars \<Rightarrow> u32 \<Rightarrow> ('c, 'f) sender \<Rightarrow>
   ((int + send_vars) \<times> ('c, 'f) sender) option" where
  "send_block fs file_fd plan v wire st = do {
     (b, f) \<leftarrow> read_file_block fs file_fd
                (read_size (window_enabled plan) wire (acknowledged_position v) (segment_sent v) st) (files st);
     let st = st\<lparr>files := f\<rparr>;
     case b of
       None \<Rightarrow> Some (send_failed (snd (with_protocol (tx_pos_header ZFERR wire) st)))
     | Some (block, end_of_file) \<Rightarrow> do {
         let st = st\<lparr>tx_data_subpacket := overlay block (tx_data_subpacket st)\<rparr>;
         let n = length block;
         if UINT32_MAX < n then Some (send_failed (snd (with_protocol (tx_pos_header ZFERR wire) st)))
         else if wire + word_of_nat n < wire
         then Some (send_failed (snd (with_protocol (tx_pos_header ZFERR wire) st)))
         else do {
           let position = wire + word_of_nat n;
           let stop_after_ack = ((wait_each_block plan \<or> synchronize_recovery v) \<and> end_of_file);
           let e = frame_end_for plan v (receiver_buffer_size st) n end_of_file position;
           (r, st) \<leftarrow> on_protocol (tx_data e (take n (tx_data_subpacket st))) st;
           if r \<noteq> 0 then Some (send_failed st)
           else after_block e position n stop_after_ack v st } } }"

text \<open>One round of the loop.\<close>

definition send_round ::
  "'f file_calls \<Rightarrow> int \<Rightarrow> send_plan \<Rightarrow> send_vars \<Rightarrow> ('c, 'f) sender \<Rightarrow>
   ((int + send_vars) \<times> ('c, 'f) sender) option" where
  "send_round fs file_fd plan v st =
     (let (p, st) = checked_position fs file_fd st
      in case p of Inl c \<Rightarrow> Some (Inl c, st) | Inr wire \<Rightarrow> do {
        (w, st) \<leftarrow> (if window_enabled plan then window_loop wire (acknowledged_position v) st
                     else Some (Inr (acknowledged_position v), st));
        case w of Inl c \<Rightarrow> Some (Inl c, st)
        | Inr acknowledged \<Rightarrow>
            (let (r, st) = open_frame wire (frame_open v) st
             in if r \<noteq> 0 then Some (send_failed st)
                else send_block fs file_fd plan
                       (v\<lparr>acknowledged_position := acknowledged, frame_open := True\<rparr>) wire st) })"

partial_function (option) send_loop ::
  "'f file_calls \<Rightarrow> int \<Rightarrow> send_plan \<Rightarrow> send_vars \<Rightarrow> ('c, 'f) sender \<Rightarrow> (int \<times> ('c, 'f) sender) option" where
  "send_loop fs file_fd plan v st =
     do { (r, st) \<leftarrow> send_round fs file_fd plan v st;
          case r of Inl c \<Rightarrow> Some (c, st) | Inr v \<Rightarrow> send_loop fs file_fd plan v st }"

definition send_plan_for :: "('c, 'f) sender \<Rightarrow> send_plan" where
  "send_plan_for st =
     \<lparr>window_enabled = window_size st \<noteq> 0 \<and> can_full_duplex (protocol st),
      wait_each_block = opt_s st \<or> \<not> can_overlap_io (protocol st) \<or>
        (window_size st \<noteq> 0 \<and> \<not> can_full_duplex (protocol st)),
      acknowledgement_interval = window_size st div 4\<rparr>"

definition send_from :: "'f file_calls \<Rightarrow> int \<Rightarrow> bool \<Rightarrow> ('c, 'f) sender \<Rightarrow> (int \<times> ('c, 'f) sender) option" where
  "send_from fs file_fd sync st =
     (let plan = send_plan_for st; (p, st) = checked_position fs file_fd st
      in case p of Inl c \<Rightarrow> Some (c, st)
         | Inr position \<Rightarrow> send_loop fs file_fd plan
             \<lparr>frame_open = False, acknowledged_position = position, last_ack_request = position,
              segment_sent = 0, synchronize_recovery = sync\<rparr> st)"

text \<open>The position as an \<^verbatim>\<open>off_t\<close>, of 64 bits.\<close>

definition off_t_of :: "u32 \<Rightarrow> int" where
  "off_t_of position = sint (ucast position :: 64 word)"

lemma off_t_of_position [simp]: "off_t_of position = uint position"
proof -
  have "uint position < 2 ^ 32" by (rule order_less_le_trans [OF unsigned_less]) simp
  then have "take_bit 64 (uint position) = uint position" "uint position < 2 ^ 63"
    by (simp_all add: take_bit_int_eq_self)
  moreover from this have "signed_take_bit 63 (uint position) = uint position"
    by (intro signed_take_bit_int_eq_self) (simp_all add: order_trans [OF _ uint_nonnegative])
  ultimately show ?thesis by (simp add: off_t_of_def sint_uint unsigned_ucast_eq)
qed

definition seek_sender :: "'f file_calls \<Rightarrow> int \<Rightarrow> u32 \<Rightarrow> 'f \<Rightarrow> bool \<times> 'f" where
  "seek_sender fs file_fd position f =
     (let offset = off_t_of position
      in if offset < 0 then (False, f)
         else if offset \<noteq> uint position then (False, f)
         else let (r, s, f) = f_fstat fs file_fd f
              in if r \<noteq> 0 then (False, f)
                 else if st_size s < 0 then (False, f)
                 else if st_size s < uint position then (False, f)
                 else let (r, f) = f_lseek fs file_fd offset SEEK_SET f in (r = offset, f))"

section \<open>The ZFILE frame\<close>

definition offer_pack7 :: "('c, 'f) sender \<Rightarrow> bool" where
  "offer_pack7 st =
     (let offer = escape_8th_bit (protocol st)
      in if \<not> peer_can_variable_headers (protocol st) then False else offer)"

definition offer_mobyturbo :: "('c, 'f) sender \<Rightarrow> bool" where
  "offer_mobyturbo st =
     (let offer = opt_m st;
          offer = (if opt_M st then False else offer);
          offer = (if escape_8th_bit (protocol st) then False else offer)
      in if \<not> peer_can_variable_headers (protocol st) then False else offer)"

definition zfile_frame :: "('c, 'f) sender \<Rightarrow> u8 list" where
  "zfile_frame st =
     (let z = protocol st;
          h = [ZFILE, 0, 0, 0, 0][ZF0 := ZF0_ZCBIN];
          h = (if management_protect z then h[ZF1 := ZF1_ZMPROT] else h);
          h = (if management_clobber z then h[ZF1 := ZF1_ZMCLOB] else h);
          h = (if management_newer z then h[ZF1 := ZF1_ZMNEW] else h);
          h = h[ZF2 := ZF2_ZTNOR];
          h = h[ZF3 := 0];
          h = (if offer_pack7 st then h[ZF3 := h ! ZF3 OR ZF3_ZCANVHDR] else h);
          h = (if offer_mobyturbo st then h[ZF3 := h ! ZF3 OR ZF3_ZCANVHDR] else h);
          h = (if offer_mobyturbo st then h[ZF3 := h ! ZF3 OR ZF3_ZMOBY] else h)
      in h)"

text \<open>The part of a path after its last slash, and the octets of the ZFILE data: the name and a NUL, the
  numbers and a NUL. \<open>None\<close> is a name, or numbers, too long for the subpacket.\<close>

definition base_name :: "string \<Rightarrow> string" where
  "base_name name = rev (takeWhile (\<lambda>c. c \<noteq> CHR ''/'') (rev name))"

definition file_numbers :: "u32 \<Rightarrow> nat \<Rightarrow> int \<Rightarrow> u8 list" where
  "file_numbers bytes mdate remaining =
     print_base 10 (unat bytes) @ [0x20] @ print_base 8 mdate @ octets_of '' 0 0 '' @ print_int remaining @
     octets_of '' 0''"

definition file_info :: "string \<Rightarrow> u32 \<Rightarrow> nat \<Rightarrow> int \<Rightarrow> u8 list option" where
  "file_info name bytes mdate remaining =
     (let n = octets_of name; numbers = file_numbers bytes mdate remaining
      in if ZMAXSPLEN \<le> length n then None
         else if ZMAXSPLEN - (length n + 1) \<le> length numbers then None
         else Some (n @ [0] @ numbers @ [0]))"

section \<open>One file\<close>

text \<open>Closing the file at a \<^verbatim>\<open>return\<close>; the result of \<^verbatim>\<open>close\<close> is ignored.\<close>

definition close_with :: "'f file_calls \<Rightarrow> int \<Rightarrow> send_result \<Rightarrow> ('c, 'f) sender \<Rightarrow> send_result \<times> ('c, 'f) sender" where
  "close_with fs file_fd result st =
     (let (r, f) = f_close fs file_fd (files st) in (result, st\<lparr>files := f\<rparr>))"

definition fail_with :: "'f file_calls \<Rightarrow> int \<Rightarrow> ('c, 'f) sender \<Rightarrow> send_result \<times> ('c, 'f) sender" where
  "fail_with fs file_fd st = close_with fs file_fd SEND_FAILED (report_sender st)"

text \<open>The answer to a ZFILE: ZACKs are passed over, and so is one ZRINIT.\<close>

partial_function (option) offer_answer_loop ::
  "bool \<Rightarrow> ('c, 'f) sender \<Rightarrow> (int \<times> ('c, 'f) sender) option" where
  "offer_answer_loop stale_zrinit st =
     do { (type, st) \<leftarrow> on_protocol (rx_header 10000) st;
          if type = uint ZACK then offer_answer_loop stale_zrinit st
          else if type = uint ZRINIT \<and> \<not> stale_zrinit then offer_answer_loop True (parse_zrinit st)
          else Some (type, st) }"

text \<open>Sending the offer: the probe, the header, the data. The first failure ends it.\<close>

definition send_offer :: "bool \<Rightarrow> u8 list \<Rightarrow> u8 list \<Rightarrow> ('c, 'f) sender \<Rightarrow> (int \<times> ('c, 'f) sender) option" where
  "send_offer probe header info st =
     (let (r, st) = (if probe then with_protocol tx_mobyturbo_probe st else (0, st))
      in if r \<noteq> 0 then Some (r, st)
         else let (r, st) = with_protocol (tx_header header) st
              in if r \<noteq> 0 then Some (r, st) else on_protocol (tx_data ZCRCW info) st)"

text \<open>The attempts left are counted down; the result is the result of \<open>send_file\<close>, or ZRPOS.\<close>

fun offer_loop ::
  "nat \<Rightarrow> 'f file_calls \<Rightarrow> int \<Rightarrow> bool \<Rightarrow> u8 list \<Rightarrow> u8 list \<Rightarrow> ('c, 'f) sender \<Rightarrow>
   (send_result option \<times> ('c, 'f) sender) option" where
  "offer_loop 0 fs file_fd probe header info st = Some (map_prod Some id (fail_with fs file_fd st))"
| "offer_loop (Suc attempts) fs file_fd probe header info st =
     do { (r, st) \<leftarrow> send_offer probe header info st;
          if r \<noteq> 0 then Some (map_prod Some id (fail_with fs file_fd st))
          else do {
            (type, st) \<leftarrow> offer_answer_loop False st;
            if type = uint ZSKIP then Some (map_prod Some id (close_with fs file_fd SEND_SKIPPED st))
            else if type = uint ZRPOS then Some (None, select_zrpos_encoding st)
            else offer_loop attempts fs file_fd probe header info st } }"

text \<open>The end of the file. \<open>Inr\<close> is a ZRPOS: its position, the furthest positions, the attempts.\<close>

type_synonym recovery = "u32 \<times> u32 \<times> u32 \<times> u32"

fun finish_loop ::
  "nat \<Rightarrow> 'f file_calls \<Rightarrow> int \<Rightarrow> u8 list \<Rightarrow> u32 \<Rightarrow> u32 \<Rightarrow> u32 \<Rightarrow> ('c, 'f) sender \<Rightarrow>
   ((send_result + recovery) \<times> ('c, 'f) sender) option" where
  "finish_loop 0 fs file_fd zeof attempted furthest attempts st = Some (map_prod Inl id (fail_with fs file_fd st))"
| "finish_loop (Suc k) fs file_fd zeof attempted furthest attempts st =
     (let (r, st) = with_protocol (tx_hex_header zeof) st
      in if r \<noteq> 0 then Some (map_prod Inl id (fail_with fs file_fd st))
         else do {
           (type, st) \<leftarrow> on_protocol (rx_header 10000) st;
           if type = uint ZRINIT then Some (map_prod Inl id (close_with fs file_fd SEND_SUCCEEDED (parse_zrinit st)))
           else if type = uint ZRPOS then
             (let requested = zmodem_header_position (rxd_header (protocol st));
                  (progress, furthest, attempts) = account_recovery requested furthest attempts
              in Some (Inr (requested, if progress then requested else attempted, furthest, attempts), st))
           else if type = uint ZSKIP then Some (map_prod Inl id (close_with fs file_fd SEND_SKIPPED st))
           else if type \<noteq> uint ZACK \<and> type \<noteq> ZMODEM_TIMEOUT
           then Some (map_prod Inl id (close_with fs file_fd SEND_FAILED st))
           else finish_loop k fs file_fd zeof attempted furthest attempts st })"

text \<open>
  One pass of the recovery loop, from the position \<open>pos\<close>: the result of \<open>send_file\<close>, or where to
  go on. A ZNAK and a timeout are handled alike, in two branches with the same text.
\<close>

definition recover_locally ::
  "'f file_calls \<Rightarrow> int \<Rightarrow> recovery \<Rightarrow> ('c, 'f) sender \<Rightarrow> (send_result + recovery) \<times> ('c, 'f) sender" where
  "recover_locally fs file_fd rec st =
     (let (pos, attempted, furthest, attempts) = rec; (observed, st) = recovery_position fs file_fd st
      in case observed of None \<Rightarrow> map_prod Inl id (close_with fs file_fd SEND_FAILED st)
         | Some observed \<Rightarrow>
             let (progress, attempted, attempts) = account_recovery observed attempted attempts
             in (Inr (pos, attempted, furthest, attempts), reduce_subpacket_size st))"

definition transfer_round ::
  "'f file_calls \<Rightarrow> int \<Rightarrow> recovery \<Rightarrow> bool \<Rightarrow> ('c, 'f) sender \<Rightarrow>
   ((send_result + recovery) \<times> ('c, 'f) sender) option" where
  "transfer_round fs file_fd rec sync st =
     (let (pos, attempted, furthest, attempts) = rec;
          (ok, f) = seek_sender fs file_fd pos (files st); st = st\<lparr>files := f\<rparr>
      in if \<not> ok then
           Some (map_prod Inl id (fail_with fs file_fd (snd (with_protocol (tx_pos_header ZFERR pos) st))))
         else do {
           (type, st) \<leftarrow> send_from fs file_fd sync st;
           if type = uint ZSKIP then Some (map_prod Inl id (close_with fs file_fd SEND_SKIPPED st))
           else if type = uint ZRPOS then
             (let requested = zmodem_header_position (rxd_header (protocol st));
                  (progress, furthest, attempts) = account_recovery requested furthest attempts
              in Some (Inr (requested, if progress then requested else attempted, furthest, attempts),
                       reduce_subpacket_size st))
           else if type = uint ZNAK then Some (recover_locally fs file_fd rec st)
           else if type = ZMODEM_TIMEOUT then Some (recover_locally fs file_fd rec st)
           else if type \<noteq> uint ZACK then
             Some (map_prod Inl id (close_with fs file_fd SEND_FAILED
               (if \<not> send_error_reported st then report_sender st else st)))
           else finish_loop MAX_RETRIES fs file_fd
                  (zmodem_set_header_position [ZEOF, 0, 0, 0, 0] (word_of_int (current_file_size st)))
                  attempted furthest attempts st })"

text \<open>Every pass but the first retransmits: \<open>sync\<close> is set whenever the loop goes round.\<close>

partial_function (option) transfer_loop ::
  "'f file_calls \<Rightarrow> int \<Rightarrow> recovery \<Rightarrow> bool \<Rightarrow> ('c, 'f) sender \<Rightarrow> (send_result \<times> ('c, 'f) sender) option" where
  "transfer_loop fs file_fd rec sync st =
     (if snd (snd (snd rec)) < 10 then
        do { (r, st) \<leftarrow> transfer_round fs file_fd rec sync st;
             case r of Inl result \<Rightarrow> Some (result, st) | Inr rec \<Rightarrow> transfer_loop fs file_fd rec True st }
      else Some (fail_with fs file_fd st))"

definition wire_mdate :: "stat \<Rightarrow> nat" where
  "wire_mdate s = (if st_mtime s < 0 then 0 else nat (st_mtime s))"

definition send_file :: "'f file_calls \<Rightarrow> string \<Rightarrow> ('c, 'f) sender \<Rightarrow> (send_result \<times> ('c, 'f) sender) option" where
  "send_file fs name st =
     (let st = st\<lparr>send_error_reported := False\<rparr>;
          (file_fd, f) = f_open fs name (files st); st = st\<lparr>files := f\<rparr>
      in if file_fd < 0 then Some (SEND_FAILED, report_sender st)
         else let (r, s, f) = f_fstat fs file_fd (files st); st = st\<lparr>files := f\<rparr>
              in if r \<noteq> 0 then Some (fail_with fs file_fd st)
                 else if st_size s < 0 then Some (fail_with fs file_fd st)
                 else if int UINT32_MAX < st_size s then Some (fail_with fs file_fd st)
                 else let st = st\<lparr>current_file_size := st_size s\<rparr>;
                          header = zfile_frame st
                      in case file_info (base_name name) (word_of_int (st_size s)) (wire_mdate s) (n_files_remaining st) of
                           None \<Rightarrow> Some (fail_with fs file_fd st)
                         | Some info \<Rightarrow> do {
                             let st = st\<lparr>tx_data_subpacket := overlay info (tx_data_subpacket st)\<rparr>;
                             let st = st\<lparr>protocol := (protocol st)\<lparr>use_mobyturbo := False, use_pack7 := False\<rparr>\<rparr>;
                             (r, st) \<leftarrow> offer_loop MAX_RETRIES fs file_fd (offer_mobyturbo st) header info st;
                             case r of Some result \<Rightarrow> Some (result, st)
                             | None \<Rightarrow>
                                 let pos = zmodem_header_position (rxd_header (protocol st))
                                 in transfer_loop fs file_fd (pos, pos, pos, 0) False st })"

end
