(* ===== verification/Zmtx_Main.thy ===== *)
theory Zmtx_Main
  imports Zmtx_Send
begin

text \<open>
  The sender program: \<open>cleanup\<close>, \<open>usage\<close> and \<open>main\<close> of \<^verbatim>\<open>zmtx.c\<close> on the POSIX adapter, whose state
  is the context of the protocol's callbacks. \<^verbatim>\<open>exit\<close> and a \<^verbatim>\<open>return\<close> from \<^verbatim>\<open>main\<close> give the
  status of the process.
\<close>

type_synonym ('k, 'f) zmtx = "('k posix, 'f) sender"

definition plat :: "('k, 'f) zmtx \<Rightarrow> plat_io" where
  "plat st = fst (io_context (io (protocol st)))"

definition on_posix :: "('k posix \<Rightarrow> int \<times> 'k posix) \<Rightarrow> ('k, 'f) zmtx \<Rightarrow> int \<times> ('k, 'f) zmtx" where
  "on_posix g st =
     (let (r, c) = g (io_context (io (protocol st))) in (r, st\<lparr>protocol := set_context c (protocol st)\<rparr>))"

definition cleanup :: "'k kernel \<Rightarrow> int \<Rightarrow> ('k, 'f) zmtx \<Rightarrow> (int \<times> ('k, 'f) zmtx) option" where
  "cleanup ops status st =
     do { (r, c) \<leftarrow> zmodem_plat_io_close ops (io_context (io (protocol st)));
          let st = st\<lparr>protocol := set_context c (protocol st)\<rparr>;
          Some (if r \<noteq> 0 \<and> status = 0 then EXIT_CLEANUP_FAILED else status, st) }"

definition usage :: "'k kernel \<Rightarrow> ('k, 'f) zmtx \<Rightarrow> (int \<times> ('k, 'f) zmtx) option" where
  "usage ops st = cleanup ops 1 st"

section \<open>Options\<close>

text \<open>One letter. The result is \<open>None\<close> for a bad option, else the new index in the argument.\<close>

definition sender_option :: "string \<Rightarrow> nat \<Rightarrow> ('k, 'f) zmtx \<Rightarrow> (nat \<times> ('k, 'f) zmtx) option" where
  "sender_option argument i st =
     (let raw = argument ! i; letter = toupper raw; z = protocol st
      in if raw = CHR ''m'' then Some (i, st\<lparr>opt_m := True\<rparr>)
         else if raw = CHR ''M'' then Some (i, st\<lparr>opt_M := True\<rparr>)
         else if letter = CHR ''4'' then Some (i, st\<lparr>max_subpacket_size := 4096\<rparr>)
         else if letter = CHR ''8'' then Some (i, st\<lparr>max_subpacket_size := ZMAXSPLEN\<rparr>)
         else if letter = CHR ''D'' \<or> letter = CHR ''V'' then Some (i, st)
         else if letter = CHR ''S'' then Some (i, st\<lparr>opt_s := True\<rparr>)
         else if letter = CHR ''W'' then
           Some (length argument - 1, st\<lparr>window_argument := Some (drop (i + 1) argument)\<rparr>)
         else if letter = CHR ''N'' then Some (i, st\<lparr>protocol := z\<lparr>management_newer := True\<rparr>\<rparr>)
         else if letter = CHR ''O'' then Some (i, st\<lparr>protocol := z\<lparr>management_clobber := True\<rparr>\<rparr>)
         else if letter = CHR ''P'' then Some (i, st\<lparr>protocol := z\<lparr>management_protect := True\<rparr>\<rparr>)
         else None)"

definition with_plat :: "plat_io \<Rightarrow> ('k, 'f) zmtx \<Rightarrow> ('k, 'f) zmtx" where
  "with_plat p st = snd (on_posix (\<lambda>(_, k). (0, (p, k))) st)"

function parse_argument :: "string \<Rightarrow> nat \<Rightarrow> ('k, 'f) zmtx \<Rightarrow> bool \<times> ('k, 'f) zmtx" where
  "parse_argument argument i st =
     (if length argument \<le> i then (True, st)
      else case zmodem_plat_parse_option (plat st) argument i of
          (ZMODEM_PLAT_OPTION_INVALID, p, j) \<Rightarrow> (False, with_plat p st)
        | (ZMODEM_PLAT_OPTION_ACCEPTED, p, j) \<Rightarrow> parse_argument argument (j + 1) (with_plat p st)
        | (ZMODEM_PLAT_OPTION_NOT_HANDLED, p, j) \<Rightarrow>
            (case sender_option argument j (with_plat p st) of
               None \<Rightarrow> (False, with_plat p st)
             | Some (j, st) \<Rightarrow> parse_argument argument (j + 1) st))"
  by pat_completeness auto
termination
  by (relation "measure (\<lambda>(argument, i, st). length argument - i)")
     (auto simp: zmodem_plat_parse_option_def sender_option_def Let_def split: if_splits)

declare parse_argument.simps [simp del]

text \<open>The arguments that start with a dash; the operands are returned.\<close>

fun parse_arguments :: "string list \<Rightarrow> ('k, 'f) zmtx \<Rightarrow> bool \<times> string list \<times> ('k, 'f) zmtx" where
  "parse_arguments [] st = (True, [], st)"
| "parse_arguments (a # args) st =
     (if a \<noteq> [] \<and> hd a = CHR ''-'' then
        (let (ok, st) = parse_argument a 1 st
         in if ok then parse_arguments args st else (False, [], st))
      else (True, a # args, st))"

text \<open>The checks between the options and the line; \<open>False\<close> is a usage error. A failed
  \<open>parse_window_size\<close> leaves the window size alone.\<close>

definition check_options :: "string list \<Rightarrow> ('c, 'f) sender \<Rightarrow> bool \<times> ('c, 'f) sender" where
  "check_options operands st =
     (let window = parse_window_size (window_argument st);
          st = (case window of None \<Rightarrow> st | Some w \<Rightarrow> st\<lparr>window_size := w\<rparr>);
          z = protocol st
      in if window_argument st \<noteq> None \<and> (window = None \<or> unat (window_size st) < 4 * max_subpacket_size st)
         then (False, st)
         else if opt_s st \<and> window_size st \<noteq> 0 then (False, st)
         else if of_bool (management_newer z) + of_bool (management_clobber z) + of_bool (management_protect z) > (1 :: nat) \<or>
              operands = [] then (False, st)
         else (True, st))"

section \<open>Contact, files, and the end of the session\<close>

definition send_contact :: "('c, 'f) sender \<Rightarrow> int \<times> ('c, 'f) sender" where
  "send_contact st =
     (let (r, st) = with_protocol (tx_raw (of_char (CHR ''z''))) st
      in if r \<noteq> 0 then (r, st)
         else let (r, st) = with_protocol (tx_raw (of_char (CHR ''m''))) st
              in if r \<noteq> 0 then (r, st)
                 else let (r, st) = with_protocol (tx_raw (uint CR)) st
                      in if r \<noteq> 0 then (r, st)
                         else with_protocol (tx_hex_header [ZRQINIT, 0, 0, 0, 0]) st)"

text \<open>At most ten invitations; \<open>False\<close> is no contact, or an output error.\<close>

fun contact_loop :: "nat \<Rightarrow> ('c, 'f) sender \<Rightarrow> (bool \<times> ('c, 'f) sender) option" where
  "contact_loop 0 st = Some (False, st)"
| "contact_loop (Suc k) st =
     (let (r, st) = send_contact st
      in if r \<noteq> 0 then Some (False, st)
         else do { (type, st) \<leftarrow> on_protocol (rx_header 7000) st;
                   if type = uint ZRINIT then Some (True, st) else contact_loop k st })"

text \<open>The files in turn, up to the first that fails; \<open>True\<close> is a failure.\<close>

fun send_files :: "'f file_calls \<Rightarrow> string list \<Rightarrow> ('c, 'f) sender \<Rightarrow> (bool \<times> ('c, 'f) sender) option" where
  "send_files fs [] st = Some (False, st)"
| "send_files fs (name # names) st =
     do { (result, st) \<leftarrow> send_file fs name st;
          if result = SEND_FAILED
          then Some (True, if \<not> send_error_reported st then report_sender st else st)
          else send_files fs names (st\<lparr>n_files_remaining := n_files_remaining st - 1\<rparr>) }"

text \<open>ZFIN, at most ten times: whether output failed, and the last type received.\<close>

fun fin_loop :: "nat \<Rightarrow> bool \<Rightarrow> int \<Rightarrow> ('c, 'f) sender \<Rightarrow> (bool \<times> int \<times> ('c, 'f) sender) option" where
  "fin_loop 0 transfer_failed type st = Some (transfer_failed, type, st)"
| "fin_loop (Suc k) transfer_failed type st =
     (let (r, st) = with_protocol (tx_hex_header [ZFIN, 0, 0, 0, 0]) st
      in if r \<noteq> 0 then Some (True, type, if transfer_failed then st else report_sender st)
         else do { (type, st) \<leftarrow> on_protocol (rx_header 10000) st;
                   if type = uint ZFIN then Some (transfer_failed, type, st)
                   else fin_loop k transfer_failed type st })"

definition over_and_out :: "('c, 'f) sender \<Rightarrow> int \<times> ('c, 'f) sender" where
  "over_and_out st =
     (let (r, st) = with_protocol (tx_raw (of_char (CHR ''O''))) st
      in if r = 0 then
           (let (r, st) = with_protocol (tx_raw (of_char (CHR ''O''))) st
            in if r = 0 then with_protocol tx_flush st else (r, st))
         else (r, st))"

definition close_session :: "bool \<Rightarrow> ('c, 'f) sender \<Rightarrow> (bool \<times> ('c, 'f) sender) option" where
  "close_session transfer_failed st =
     do { (transfer_failed, type, st) \<leftarrow> fin_loop MAX_RETRIES transfer_failed ZMODEM_TIMEOUT st;
          Some (if type = uint ZFIN then
                  (let (r, st) = over_and_out st
                   in if r \<noteq> 0 then (True, if transfer_failed then st else report_sender st)
                      else (transfer_failed, st))
                else (True, if transfer_failed then st else report_sender st)) }"

section \<open>The program\<close>

definition send_session :: "'k kernel \<Rightarrow> 'f file_calls \<Rightarrow> string list \<Rightarrow> ('k, 'f) zmtx \<Rightarrow> (int \<times> ('k, 'f) zmtx) option" where
  "send_session ops fs operands st =
     (let (r, st) = with_protocol rx_purge st
      in if r \<noteq> ZMODEM_OK then cleanup ops 3 st
         else do {
           (contact, st) \<leftarrow> contact_loop 10 st;
           if \<not> contact then cleanup ops 3 st
           else do {
             let st = (parse_zrinit st)\<lparr>n_files_remaining := int (length operands)\<rparr>;
             (transfer_failed, st) \<leftarrow> send_files fs operands st;
             (transfer_failed, st) \<leftarrow> close_session transfer_failed st;
             cleanup ops (if transfer_failed then EXIT_TRANSFER_FAILED else 0) st } })"

text \<open>The static variables as C initialises them, over an initialised protocol state.\<close>

definition zmtx_statics :: "'c zmodem \<Rightarrow> 'f \<Rightarrow> ('c, 'f) sender" where
  "zmtx_statics z f =
     \<lparr>protocol = z, files = f, opt_s = False, opt_m = False, opt_M = False, window_argument = None,
      subpacket_size = ZBLOCKLEN, max_subpacket_size = ZBLOCKLEN, receiver_buffer_size = 0, window_size = 0,
      n_files_remaining = 0, tx_data_subpacket = replicate ZMAXSPLEN 0, current_file_size = 0,
      send_error_reported = False\<rparr>"

definition io_pointers :: "'c zmodem_io \<Rightarrow> 'c zmodem_io_pointers" where
  "io_pointers i = \<lparr>p_context = io_context i, p_read = Some (io_read i), p_write = Some (io_write i),
     p_flush = Some (io_flush i), p_poll = Some (io_poll i), p_purge = Some (io_purge i)\<rparr>"

definition zmtx_main ::
  "'k kernel \<Rightarrow> 'f file_calls \<Rightarrow> string list \<Rightarrow> plat_io \<Rightarrow> 'k \<Rightarrow> 'k posix zmodem \<Rightarrow> 'f \<Rightarrow>
   (int \<times> ('k, 'f) zmtx) option" where
  "zmtx_main ops fs args p k z f =
     (let i = zmodem_plat_io_bind ops (zmodem_plat_io_init p 0 1, k)
      in case zmodem_init (Some z) (Some (io_pointers i)) of
           (r, None) \<Rightarrow> None
         | (r, Some z) \<Rightarrow>
             (let st = zmtx_statics z f
              in if r \<noteq> ZMODEM_OK then Some (2, st)
                 else let (ok, operands, st) = parse_arguments args st
                      in if \<not> ok then usage ops st
                         else let (ok, st) = check_options operands st
                              in if \<not> ok then usage ops st
                                 else let (r, st) = on_posix (zmodem_plat_post_parse ops) st
                                      in if r \<noteq> 0 then cleanup ops r st
                                         else send_session ops fs operands
                                           (st\<lparr>protocol := (protocol st)\<lparr>escape_iac := False\<rparr>\<rparr>)))"

end
