(* ===== verification/Zmtx_Correct.thy ===== *)
theory Zmtx_Correct
  imports Zmtx_Main Tx_Wire
begin

text \<open>
  Properties of the sender's accounting: the size of a subpacket, the window, the receiver's buffer,
  the retry budget, and the argument of \<^verbatim>\<open>-w\<close>.
\<close>

declare split_paired_Ex [simp del] split_paired_All [simp del]

section \<open>What the protocol operations leave alone\<close>

definition same_session :: "('c, 'f) sender \<Rightarrow> ('c, 'f) sender \<Rightarrow> bool" where
  "same_session st st' \<longleftrightarrow>
     opt_s st' = opt_s st \<and> opt_m st' = opt_m st \<and> opt_M st' = opt_M st \<and>
     subpacket_size st' = subpacket_size st \<and> max_subpacket_size st' = max_subpacket_size st \<and>
     receiver_buffer_size st' = receiver_buffer_size st \<and> window_size st' = window_size st \<and>
     n_files_remaining st' = n_files_remaining st \<and> tx_data_subpacket st' = tx_data_subpacket st \<and>
     current_file_size st' = current_file_size st"

lemma same_session_refl [simp]: "same_session st st"
  by (simp add: same_session_def)

lemma same_session_trans: "same_session st st' \<Longrightarrow> same_session st' st'' \<Longrightarrow> same_session st st''"
  by (simp add: same_session_def)

lemma same_session_updates [simp]:
  "same_session st (st\<lparr>protocol := z\<rparr>)" "same_session st (st\<lparr>files := f\<rparr>)" "same_session st (report_sender st)"
  by (simp_all add: same_session_def report_sender_def)

lemma on_protocol_same: "on_protocol g st = Some (r, st') \<Longrightarrow> same_session st st'"
  by (auto simp: on_protocol_def split: Option.bind_splits)

lemma with_protocol_same: "with_protocol g st = (r, st') \<Longrightarrow> same_session st st'"
  by (auto simp: with_protocol_def split: prod.splits)

section \<open>The size of a subpacket\<close>

text \<open>Both sizes are powers of two; a subpacket has 128 octets at least, and fits the array.\<close>

definition good_sizes :: "nat \<Rightarrow> nat \<Rightarrow> bool" where
  "good_sizes m n \<longleftrightarrow> m \<in> {1024, 2048, 4096, 8192} \<and> n \<in> {128, 256, 512, 1024, 2048, 4096, 8192} \<and> n \<le> m"

definition sizes_ok :: "('c, 'f) sender \<Rightarrow> bool" where
  "sizes_ok st \<longleftrightarrow> good_sizes (max_subpacket_size st) (subpacket_size st)"

lemma good_sizes_increase: "good_sizes m n \<Longrightarrow> good_sizes m (if n < m then (if m < n * 2 then m else n * 2) else n)"
  by (auto simp: good_sizes_def)

lemma good_sizes_reduce:
  "good_sizes m n \<Longrightarrow> good_sizes (if n = m \<and> ZBLOCKLEN < m then m div 2 else m) (if 128 < n then n div 2 else n)"
  by (auto simp: good_sizes_def)

lemma increase_sizes:
  "max_subpacket_size (increase_subpacket_size st) = max_subpacket_size st"
  "subpacket_size (increase_subpacket_size st) =
     (if subpacket_size st < max_subpacket_size st
      then (if max_subpacket_size st < subpacket_size st * 2 then max_subpacket_size st else subpacket_size st * 2)
      else subpacket_size st)"
  by (simp_all add: increase_subpacket_size_def Let_def)

lemma reduce_sizes:
  "max_subpacket_size (reduce_subpacket_size st) =
     (if subpacket_size st = max_subpacket_size st \<and> ZBLOCKLEN < max_subpacket_size st
      then max_subpacket_size st div 2 else max_subpacket_size st)"
  "subpacket_size (reduce_subpacket_size st) = (if 128 < subpacket_size st then subpacket_size st div 2 else subpacket_size st)"
  by (simp_all add: reduce_subpacket_size_def Let_def)

lemma sizes_ok_increase: "sizes_ok st \<Longrightarrow> sizes_ok (increase_subpacket_size st)"
  unfolding sizes_ok_def increase_sizes by (rule good_sizes_increase)

lemma sizes_ok_reduce: "sizes_ok st \<Longrightarrow> sizes_ok (reduce_subpacket_size st)"
  unfolding sizes_ok_def reduce_sizes by (rule good_sizes_reduce)

section \<open>Waiting for acknowledgements\<close>

lemma accept_between:
  "accept_acknowledgement h sent ack = Some ack' \<Longrightarrow> ack \<le> sent \<Longrightarrow> ack \<le> ack' \<and> ack' \<le> sent"
  by (auto simp: accept_acknowledgement_def Let_def split: if_splits)

lemma window_loop_result:
  assumes "window_loop wire ack st = Some y"
  shows "ack \<le> wire \<Longrightarrow> (\<forall>ack'. fst y = Inr ack' \<longrightarrow> ack \<le> ack' \<and> ack' \<le> wire \<and> wire - ack' < window_size (snd y))"
  using assms
proof (induction rule: window_loop.raw_induct [rotated, consumes 1, case_names step])
  case (step loop wire ack st y)
  show ?case
  proof (cases "window_size st \<le> wire - ack")
    case False
    then show ?thesis using step(2,3) by auto
  next
    case True
    then obtain type st1 where h: "on_protocol (rx_header 10000) st = Some (type, st1)"
      using step(2) by (auto split: Option.bind_splits)
    show ?thesis
    proof (cases "type = uint ZACK")
      case False
      then show ?thesis using step(2) True h by auto
    next
      case z: True
      show ?thesis
      proof (cases "accept_acknowledgement (rxd_header (protocol st1)) wire ack")
        case None
        then show ?thesis using step(2) True h z by auto
      next
        case (Some ack1)
        note a = accept_between [OF Some step(3)]
        have "loop wire ack1 st1 = Some y" using step(2) True h z Some by auto
        from step(1) [OF this] a show ?thesis by auto
      qed
    qed
  qed
qed

lemma window_loop_same:
  assumes "window_loop wire ack st = Some y"
  shows "same_session st (snd y)"
  using assms
proof (induction rule: window_loop.raw_induct [rotated, consumes 1, case_names step])
  case (step loop wire ack st y)
  show ?case
  proof (cases "window_size st \<le> wire - ack")
    case False
    then show ?thesis using step(2) by auto
  next
    case True
    then obtain type st1 where h: "on_protocol (rx_header 10000) st = Some (type, st1)"
      using step(2) by (auto split: Option.bind_splits)
    note s = on_protocol_same [OF h]
    show ?thesis
      using step(2) True h s same_session_trans [OF s step(1)] by (auto split: if_splits option.splits)
  qed
qed

section \<open>The invariant of the loop\<close>

lemma reply_loop_same:
  assumes "reply_loop position ack st = Some y"
  shows "same_session st (snd y)"
  using assms
proof (induction rule: reply_loop.raw_induct [rotated, consumes 1, case_names step])
  case (step loop position ack st y)
  obtain ready st1 where p: "with_protocol rx_poll st = (ready, st1)" by fastforce
  note s1 = with_protocol_same [OF p]
  show ?case
  proof (cases "0 < ready")
    case False
    then show ?thesis using step(2) s1 by (auto simp: p split: if_splits)
  next
    case True
    then obtain c st2 where r: "on_protocol (rx_raw 1000) st1 = Some (c, st2)"
      using step(2) by (auto simp: p split: Option.bind_splits)
    note s2 = same_session_trans [OF s1 on_protocol_same [OF r]]
    show ?thesis
    proof (cases "c < 0 \<or> c AND 0x7f \<noteq> uint ZPAD")
      case c: True
      then show ?thesis
        using step(2) True r s2 same_session_trans [OF s2 step(1)] by (auto simp: p split: if_splits)
    next
      case c: False
      then obtain type st3 where h: "on_protocol (rx_header 1000) st2 = Some (type, st3)"
        using step(2) True r by (auto simp: p split: Option.bind_splits)
      note s3 = same_session_trans [OF s2 on_protocol_same [OF h]]
      show ?thesis
        using step(2) True r c h s3 same_session_trans [OF s3 step(1)]
        by (auto simp: p split: if_splits option.splits)
    qed
  qed
qed

lemma block_ack_loop_same:
  assumes "block_ack_loop position st = Some y"
  shows "same_session st (snd y)"
  using assms
proof (induction rule: block_ack_loop.raw_induct [rotated, consumes 1, case_names step])
  case (step loop position st y)
  then obtain type st1 where h: "on_protocol (rx_header 10000) st = Some (type, st1)"
    by (auto split: Option.bind_splits)
  note s = on_protocol_same [OF h]
  show ?case using step(2) h s same_session_trans [OF s step(1)] by (auto split: if_splits)
qed

definition reads_fit :: "'f file_calls \<Rightarrow> bool" where
  "reads_fit fs \<longleftrightarrow> (\<forall>fd n f r e bs f'. f_read fs fd n f = (r, e, bs, f') \<longrightarrow> r \<le> int n)"

lemma read_retry_fits:
  assumes "read_retry fs fd n f = Some y" "reads_fit fs"
  shows "fst y \<le> int n"
  using assms
proof (induction rule: read_retry.raw_induct [rotated, consumes 1, case_names step])
  case (step loop fs fd n f y)
  obtain r e bs f' where r: "f_read fs fd n f = (r, e, bs, f')" by (metis prod_cases4)
  then have "r \<le> int n" using step(3) unfolding reads_fit_def by blast
  then show ?case using step(1,2,3) r by (auto split: if_splits)
qed

lemma read_block_fits:
  assumes "read_block_loop fs fd n block f = Some y" "reads_fit fs" "length block \<le> n"
  shows "fst y = Some (b, e) \<Longrightarrow> length b \<le> n"
  using assms
proof (induction rule: read_block_loop.raw_induct [rotated, consumes 1, case_names step])
  case (step loop fs fd n block f y)
  show ?case
  proof (cases "length block < n")
    case False
    then show ?thesis using step(2,3,5) by auto
  next
    case True
    then obtain r bs f1 where r: "read_retry fs fd (n - length block) f = Some (r, bs, f1)"
      using step(2) by (auto split: Option.bind_splits)
    have "length (block @ take (nat r) bs) \<le> n"
      using read_retry_fits [OF r step(4)] True by auto
    then show ?thesis using step True r by (auto split: if_splits)
  qed
qed

text \<open>The sizes are good, the array has its length, and what is sent since the last ZCRCW fits the
  receiver's buffer, when it has one.\<close>

definition sender_ok :: "('c, 'f) sender \<Rightarrow> bool" where
  "sender_ok st \<longleftrightarrow> sizes_ok st \<and> length (tx_data_subpacket st) = ZMAXSPLEN"

definition fits_receiver :: "nat \<Rightarrow> ('c, 'f) sender \<Rightarrow> bool" where
  "fits_receiver n st \<longleftrightarrow> receiver_buffer_size st \<noteq> 0 \<longrightarrow> n \<le> unat (receiver_buffer_size st)"

lemma same_session_ok:
  "same_session st st' \<Longrightarrow> sender_ok st' = sender_ok st"
  "same_session st st' \<Longrightarrow> fits_receiver n st' = fits_receiver n st"
  by (simp_all add: same_session_def sender_ok_def sizes_ok_def fits_receiver_def)

lemma increase_ok [simp]:
  "sender_ok st \<Longrightarrow> sender_ok (increase_subpacket_size st)"
  "fits_receiver n (increase_subpacket_size st) = fits_receiver n st"
  using sizes_ok_increase [of st] by (auto simp: sender_ok_def fits_receiver_def increase_subpacket_size_def Let_def)

lemma read_size_bounds:
  "sender_ok st \<Longrightarrow> read_size w wire ack segment st \<le> ZMAXSPLEN"
  "fits_receiver segment st \<Longrightarrow> n \<le> read_size w wire ack segment st \<Longrightarrow> fits_receiver (segment + n) st"
  by (auto simp: read_size_def Let_def sender_ok_def sizes_ok_def good_sizes_def fits_receiver_def split: if_splits)

definition round_ok :: "(int + send_vars) \<times> ('c, 'f) sender \<Rightarrow> bool" where
  "round_ok y \<longleftrightarrow> sender_ok (snd y) \<and> (\<forall>v. fst y = Inr v \<longrightarrow> fits_receiver (segment_sent v) (snd y))"

lemma after_block_ok:
  assumes "after_block e position n stop v st = Some y" "sender_ok st" "fits_receiver (segment_sent v + n) st"
  shows "round_ok y"
proof (cases "e = ZCRCE \<or> e = ZCRCW")
  case True
  show ?thesis
  proof (cases "e = ZCRCE")
    case True
    then show ?thesis
      using assms by (auto simp: after_block_def round_ok_def sender_ok_def sizes_ok_def)
  next
    case e: False
    then obtain type st1 where b: "block_ack_loop position st = Some (type, st1)"
      using assms(1) True by (auto simp: after_block_def split: Option.bind_splits)
    have s: "sender_ok st1" using block_ack_loop_same [OF b] assms(2) by (simp add: same_session_ok)
    then have "sender_ok (increase_subpacket_size st1)" by simp
    then have "sender_ok ((increase_subpacket_size st1)\<lparr>current_file_size := p\<rparr>)" for p
      by (simp add: sender_ok_def sizes_ok_def)
    then show ?thesis
      using assms(1) True e b s increase_ok(1) [OF s]
      by (auto simp: after_block_def round_ok_def fits_receiver_def Let_def split: if_splits)
  qed
next
  case False
  then obtain r st1 where b: "reply_loop position (acknowledged_position v) st = Some (r, st1)"
    using assms(1) by (auto simp: after_block_def Let_def split: Option.bind_splits)
  have s: "sender_ok st1" "fits_receiver (segment_sent v + n) st1"
    using reply_loop_same [OF b] assms(2,3) by (simp_all add: same_session_ok)
  then show ?thesis
    using assms(1) False b by (auto simp: after_block_def round_ok_def Let_def split: sum.splits)
qed

lemma send_failed_ok: "sender_ok st \<Longrightarrow> round_ok (send_failed st)"
  by (simp add: send_failed_def round_ok_def report_sender_def sender_ok_def sizes_ok_def)

lemma with_protocol_ok: "sender_ok (snd (with_protocol g st)) = sender_ok st"
  using with_protocol_same [of g st] by (cases "with_protocol g st") (simp add: same_session_ok)

lemma overlay_fits [simp]: "length (overlay xs ys) = length ys"
  by (simp add: overlay_def)

lemma send_block_ok:
  assumes "send_block fs fd plan v wire st = Some y" "reads_fit fs" "sender_ok st" "fits_receiver (segment_sent v) st"
  shows "round_ok y"
proof -
  let ?n = "read_size (window_enabled plan) wire (acknowledged_position v) (segment_sent v) st"
  obtain b f where b: "read_file_block fs fd ?n (files st) = Some (b, f)"
    using assms(1) by (auto simp: send_block_def split: Option.bind_splits)
  have f: "sender_ok (st\<lparr>files := f\<rparr>)" using assms(3) by (simp add: sender_ok_def sizes_ok_def)
  show ?thesis
  proof (cases b)
    case None
    then show ?thesis using assms(1) b f by (auto simp: send_block_def with_protocol_ok intro!: send_failed_ok)
  next
    case (Some p)
    then obtain block eof where p: "b = Some (block, eof)" by (cases p) auto
    let ?st = "st\<lparr>files := f, tx_data_subpacket := overlay block (tx_data_subpacket st)\<rparr>"
    have ok: "sender_ok ?st" using assms(3) by (simp add: sender_ok_def sizes_ok_def)
    have "length block \<le> ?n"
      using read_block_fits [OF b [unfolded read_file_block_def] assms(2), of block eof] p by simp
    then have fit: "fits_receiver (segment_sent v + length block) ?st"
      using read_size_bounds(2) [OF assms(4)] by (simp add: fits_receiver_def)
    show ?thesis
    proof (cases "UINT32_MAX < length block \<or> wire + word_of_nat (length block) < wire")
      case True
      then have "y = send_failed (snd (with_protocol (tx_pos_header ZFERR wire) ?st))"
        using assms(1) b p by (auto simp: send_block_def Let_def split: if_splits)
      then show ?thesis using ok by (simp add: with_protocol_ok send_failed_ok)
    next
      case False
      let ?position = "wire + word_of_nat (length block)"
      let ?e = "frame_end_for plan v (receiver_buffer_size st) (length block) eof ?position"
      have eq: "send_block fs fd plan v wire st =
        do { (r, st) \<leftarrow> on_protocol (tx_data ?e (take (length block) (tx_data_subpacket ?st))) ?st;
             if r \<noteq> 0 then Some (send_failed st)
             else after_block ?e ?position (length block) ((wait_each_block plan \<or> synchronize_recovery v) \<and> eof) v st }"
        using b p False by (simp add: send_block_def Let_def)
      obtain r st1 where t: "on_protocol (tx_data ?e (take (length block) (tx_data_subpacket ?st))) ?st = Some (r, st1)"
        using assms(1) unfolding eq by (auto split: Option.bind_splits)
      have s: "sender_ok st1" "fits_receiver (segment_sent v + length block) st1"
        using on_protocol_same [OF t] ok fit by (simp_all add: same_session_ok)
      show ?thesis
        using assms(1) after_block_ok [OF _ s] send_failed_ok [OF s(1)]
        unfolding eq t by (auto split: if_splits)
    qed
  qed
qed

lemma send_round_ok:
  assumes "send_round fs fd plan v st = Some y" "reads_fit fs" "sender_ok st" "fits_receiver (segment_sent v) st"
  shows "round_ok y"
proof -
  obtain p st1 where p: "checked_position fs fd st = (p, st1)" by fastforce
  have s1: "same_session st st1"
    using p by (auto simp: checked_position_def Let_def report_sender_def same_session_def split: prod.splits option.splits if_splits)
  note ok1 = assms(3,4) [folded same_session_ok [OF s1]]
  show ?thesis
  proof (cases p)
    case (Inl c)
    then show ?thesis using assms(1) ok1 by (auto simp: send_round_def p round_ok_def)
  next
    case (Inr wire)
    let ?w = "if window_enabled plan then window_loop wire (acknowledged_position v) st1 else Some (Inr (acknowledged_position v), st1)"
    obtain w st2 where w: "?w = Some (w, st2)"
      using assms(1) by (auto simp: send_round_def p Inr split: Option.bind_splits)
    have s2: "same_session st1 st2"
      using w window_loop_same by (auto split: if_splits)
    note ok2 = ok1 [folded same_session_ok [OF s2]]
    show ?thesis
    proof (cases w)
      case (Inl c)
      then show ?thesis using assms(1) ok2 w by (auto simp: send_round_def p Inr round_ok_def)
    next
      case (Inr ack)
      obtain r st3 where o: "open_frame wire (frame_open v) st2 = (r, st3)" by fastforce
      have s3: "same_session st2 st3"
        using o with_protocol_same by (auto simp: open_frame_def split: if_splits)
      note ok3 = ok2 [folded same_session_ok [OF s3]]
      have "y = send_failed st3 \<or> send_block fs fd plan (v\<lparr>acknowledged_position := ack, frame_open := True\<rparr>) wire st3 = Some y"
        using assms(1) w o by (auto simp: send_round_def p \<open>p = Inr wire\<close> Inr split: if_splits)
      then show ?thesis
        using send_block_ok [OF _ assms(2) ok3(1), of fd plan _ wire y] ok3 send_failed_ok by fastforce
    qed
  qed
qed

text \<open>Files whose \<^verbatim>\<open>read\<close> does something else when asked for more than \<open>limit\<close> octets. An operation that
  cannot tell the difference never asks for more.\<close>

definition bounded_reads ::
  "nat \<Rightarrow> (int \<Rightarrow> nat \<Rightarrow> 'f \<Rightarrow> int \<times> errno \<times> u8 list \<times> 'f) \<Rightarrow> 'f file_calls \<Rightarrow> 'f file_calls" where
  "bounded_reads limit other fs = fs\<lparr>f_read := \<lambda>fd n f. if n \<le> limit then f_read fs fd n f else other fd n f\<rparr>"

definition reads_agree :: "nat \<Rightarrow> 'f file_calls \<Rightarrow> 'f file_calls \<Rightarrow> bool" where
  "reads_agree limit fs fs' \<longleftrightarrow> (\<forall>fd n f. n \<le> limit \<longrightarrow> f_read fs fd n f = f_read fs' fd n f)"

lemma reads_agree_bounded:
  "reads_agree limit fs (bounded_reads limit other fs)" "reads_agree limit (bounded_reads limit other fs) fs"
  by (simp_all add: reads_agree_def bounded_reads_def)

lemma read_retry_agree:
  assumes "read_retry fs fd n f = Some y" "reads_agree limit fs fs'" "n \<le> limit"
  shows "read_retry fs' fd n f = Some y"
  using assms
proof (induction rule: read_retry.raw_induct [rotated, consumes 1, case_names step])
  case (step loop fs fd n f y)
  obtain r e bs f' where r: "f_read fs fd n f = (r, e, bs, f')" by (metis prod_cases4)
  then have "f_read fs' fd n f = (r, e, bs, f')" using step(3,4) by (simp add: reads_agree_def)
  then show ?case using step(1,2,3,4) r by (subst read_retry.simps) (auto split: if_splits)
qed

lemma read_block_agree:
  assumes "read_block_loop fs fd n block f = Some y" "reads_agree limit fs fs'" "n \<le> limit"
  shows "read_block_loop fs' fd n block f = Some y"
  using assms
proof (induction rule: read_block_loop.raw_induct [rotated, consumes 1, case_names step])
  case (step loop fs fd n block f y)
  show ?case
  proof (cases "length block < n")
    case False
    then show ?thesis using step(2) by (subst read_block_loop.simps) auto
  next
    case True
    then obtain r bs f1 where r: "read_retry fs fd (n - length block) f = Some (r, bs, f1)"
      using step(2) by (auto split: Option.bind_splits)
    have "read_retry fs' fd (n - length block) f = Some (r, bs, f1)"
      using read_retry_agree [OF r step(3)] step(4) by simp
    then show ?thesis using step True r by (subst read_block_loop.simps) (auto split: if_splits)
  qed
qed

lemma read_file_block_bounded:
  assumes "n \<le> limit"
  shows "read_file_block (bounded_reads limit other fs) fd n f = read_file_block fs fd n f"
  using read_block_agree [OF _ reads_agree_bounded(1) assms] read_block_agree [OF _ reads_agree_bounded(2) assms]
  unfolding read_file_block_def by (metis not_None_eq)

lemma read_size_subpacket: "read_size w wire ack segment st \<le> subpacket_size st"
  by (auto simp: read_size_def Let_def)

lemma send_round_bounded:
  "send_round (bounded_reads (subpacket_size st) other fs) fd plan v st = send_round fs fd plan v st"
proof -
  let ?fs = "bounded_reads (subpacket_size st) other fs"
  have p: "checked_position ?fs fd st = checked_position fs fd st"
    by (simp add: checked_position_def file_position_def bounded_reads_def)
  obtain p1 st1 where p1: "checked_position fs fd st = (p1, st1)" by fastforce
  have s1: "subpacket_size st1 = subpacket_size st"
    using p1 by (auto simp: checked_position_def Let_def report_sender_def split: prod.splits option.splits if_splits)
  have block: "send_block ?fs fd plan u wire st3 = send_block fs fd plan u wire st3"
    if "subpacket_size st3 = subpacket_size st" for u wire st3
  proof -
    let ?n = "read_size (window_enabled plan) wire (acknowledged_position u) (segment_sent u) st3"
    have "read_file_block ?fs fd ?n (files st3) = read_file_block fs fd ?n (files st3)"
      by (rule read_file_block_bounded) (use read_size_subpacket [of _ _ _ _ st3] that in simp)
    then show ?thesis by (simp add: send_block_def)
  qed
  have rest: "(let (r, st) = open_frame wire (frame_open v) st2
      in if r \<noteq> 0 then Some (send_failed st) else send_block ?fs fd plan u wire st) =
    (let (r, st) = open_frame wire (frame_open v) st2
      in if r \<noteq> 0 then Some (send_failed st) else send_block fs fd plan u wire st)"
    if "subpacket_size st2 = subpacket_size st" for u wire st2
  proof -
    obtain r st3 where o: "open_frame wire (frame_open v) st2 = (r, st3)" by fastforce
    then have "same_session st2 st3" using with_protocol_same by (auto simp: open_frame_def split: if_splits)
    then show ?thesis using block [of st3] that o by (simp add: same_session_def)
  qed
  show ?thesis
  proof (cases p1)
    case (Inl c)
    then show ?thesis by (simp add: send_round_def p p1)
  next
    case (Inr wire)
    show ?thesis
    proof (cases "if window_enabled plan then window_loop wire (acknowledged_position v) st1
                  else Some (Inr (acknowledged_position v), st1)")
      case None
      then show ?thesis by (simp add: send_round_def p p1 Inr)
    next
      case (Some y)
      obtain w st2 where y: "y = (w, st2)" by fastforce
      then have "same_session st1 st2"
        using Some window_loop_same by (auto split: if_splits)
      then have "subpacket_size st2 = subpacket_size st" using s1 by (simp add: same_session_def)
      from rest [OF this] show ?thesis unfolding send_round_def p p1 Inr Some y
        by (simp only: Some y prod.case Let_def sum.case Option.bind.bind_lunit split: sum.split)
    qed
  qed
qed

section \<open>The retry budget\<close>

text \<open>What is left before the sender gives up: progress of the receiver counts most, then progress of
  what was attempted, then the attempts.\<close>

definition budget :: "(recovery \<times> recovery) set" where
  "budget = inv_image (less_than <*lex*> less_than <*lex*> less_than)
     (\<lambda>(pos, attempted, furthest, attempts). (2 ^ 32 - unat furthest, 2 ^ 32 - unat attempted, 10 - unat attempts))"

lemma wf_budget: "wf budget"
  by (simp add: budget_def wf_inv_image wf_lex_prod)

lemma word_gap: "x < y \<Longrightarrow> 2 ^ 32 - unat y < 2 ^ 32 - unat (x :: u32)"
proof -
  assume "x < y"
  then have "unat x < unat y" by (simp add: word_less_nat_alt)
  moreover have "unat y < 2 ^ 32" by (rule order_less_le_trans [OF unsigned_less]) simp
  ultimately show ?thesis by linarith
qed

lemma attempts_gap: "a < 10 \<Longrightarrow> 10 - unat (a + 1) < 10 - unat (a :: u32)"
proof -
  assume a: "a < 10"
  then have "unat a < 10" by (simp add: word_less_nat_alt)
  moreover have "unat (a + 1) = unat a + 1" using a by (subst unat_plus_simple [THEN iffD1]) (auto simp: word_le_nat_alt word_less_nat_alt unat_word_ariths)
  ultimately show ?thesis by simp
qed

text \<open>Every way to go round spends some of it.\<close>

lemma receiver_recovery_spends:
  assumes "account_recovery requested furthest attempts = (progress, furthest', attempts')" "attempts < 10"
  shows "((requested', if progress then requested else attempted, furthest', attempts'), (pos, attempted, furthest, attempts)) \<in> budget"
  using assms word_gap [of furthest requested] attempts_gap [of attempts]
  by (auto simp: account_recovery_def budget_def split: if_splits)

lemma local_recovery_spends:
  assumes "account_recovery observed attempted attempts = (progress, attempted', attempts')" "attempts < 10"
  shows "((pos', attempted', furthest, attempts'), (pos, attempted, furthest, attempts)) \<in> budget"
  using assms word_gap [of attempted observed] attempts_gap [of attempts]
  by (auto simp: account_recovery_def budget_def split: if_splits)

lemma map_prod_Inl [simp]: "map_prod Inl id x = (Inr y, z) \<longleftrightarrow> False"
  by (cases x) simp

lemma finish_loop_spends:
  "finish_loop k fs fd zeof attempted furthest attempts st = Some (Inr rec', st') \<Longrightarrow> attempts < 10 \<Longrightarrow>
   (rec', (pos, attempted, furthest, attempts)) \<in> budget"
proof (induction k fs fd zeof attempted furthest attempts st rule: finish_loop.induct)
  case (1 fs fd zeof attempted furthest attempts st)
  then show ?case by simp
next
  case (2 k fs fd zeof attempted furthest attempts st)
  obtain r st1 where t: "with_protocol (tx_hex_header zeof) st = (r, st1)" by fastforce
  have r: "r = 0" using "2.prems"(1) by (auto simp: t split: if_splits)
  then obtain type st2 where h: "on_protocol (rx_header 10000) st1 = Some (type, st2)"
    using "2.prems"(1) by (auto simp: t split: Option.bind_splits)
  show ?case
  proof (cases "type = uint ZRPOS")
    case True
    obtain progress furthest' attempts' where
      a: "account_recovery (zmodem_header_position (rxd_header (protocol st2))) furthest attempts = (progress, furthest', attempts')"
      by (metis prod_cases3)
    show ?thesis
      using "2.prems" receiver_recovery_spends [OF a "2.prems"(2)] True
      by (auto simp: t r h a Let_def)
  next
    case False
    then have "finish_loop k fs fd zeof attempted furthest attempts st2 = Some (Inr rec', st')"
      using "2.prems"(1) by (auto simp: t r h split: if_splits)
    then show ?thesis using "2.IH" [OF t [symmetric]] r h False "2.prems" by (auto simp: t split: if_splits)
  qed
qed

lemma recover_locally_spends:
  assumes "recover_locally fs fd (pos, attempted, furthest, attempts) st = (Inr rec', st')" "attempts < 10"
  shows "(rec', (pos, attempted, furthest, attempts)) \<in> budget"
proof -
  obtain o1 st1 where o: "recovery_position fs fd st = (o1, st1)" by fastforce
  then obtain observed where o1: "o1 = Some observed"
    using assms(1) by (cases o1) (auto simp: recover_locally_def)
  obtain p a n where c: "account_recovery observed attempted attempts = (p, a, n)" by (metis prod_cases3)
  show ?thesis using assms(1) local_recovery_spends [OF c assms(2)] by (auto simp: recover_locally_def o o1 c)
qed

lemma transfer_round_spends:
  assumes "transfer_round fs fd rec sync st = Some (Inr rec', st')" "snd (snd (snd rec)) < 10"
  shows "(rec', rec) \<in> budget"
proof -
  obtain pos attempted furthest attempts where rec: "rec = (pos, attempted, furthest, attempts)" by (metis prod_cases4)
  have a: "attempts < 10" using assms(2) by (simp add: rec)
  obtain ok f where s: "seek_sender fs fd pos (files st) = (ok, f)" by fastforce
  have ok: ok using assms(1) by (cases ok) (simp_all add: transfer_round_def rec s Let_def)
  let ?st = "st\<lparr>files := f\<rparr>"
  obtain type st1 where d: "send_from fs fd sync ?st = Some (type, st1)"
    using assms(1) ok by (cases "send_from fs fd sync ?st") (auto simp: transfer_round_def rec s Let_def)
  obtain p fu n where c: "account_recovery (zmodem_header_position (rxd_header (protocol st1))) furthest attempts = (p, fu, n)"
    by (metis prod_cases3)
  have ok': "ok = True" using ok by simp
  note round = assms(1) [unfolded transfer_round_def rec prod.case s Let_def ok' not_True_eq_False if_False d
    Option.bind.bind_lunit c]
  show ?thesis
  proof (cases "type = uint ZRPOS")
    case True
    then show ?thesis using round receiver_recovery_spends [OF c a] by (auto simp: rec)
  next
    case rpos: False
    show ?thesis
    proof (cases "type = uint ZACK")
      case True
      then have "finish_loop MAX_RETRIES fs fd (zmodem_set_header_position [ZEOF, 0, 0, 0, 0]
          (word_of_int (current_file_size st1))) attempted furthest attempts st1 = Some (Inr rec', st')"
        using round by simp
      from finish_loop_spends [OF this a] show ?thesis unfolding rec .
    next
      case False
      then have "recover_locally fs fd rec st1 = (Inr rec', st')"
        using round rpos by (auto simp: rec split: if_splits)
      then show ?thesis using recover_locally_spends a by (simp add: rec)
    qed
  qed
qed

lemma transfer_loop_ends:
  assumes "\<And>rec sync st. ok st \<Longrightarrow> \<exists>r st'. transfer_round fs fd rec sync st = Some (r, st') \<and> (\<forall>rec'. r = Inr rec' \<longrightarrow> ok st')"
  shows "ok st \<Longrightarrow> \<exists>result st'. transfer_loop fs fd rec sync st = Some (result, st')"
  using wf_budget
proof (induction rec arbitrary: sync st rule: wf_induct_rule)
  case (less rec)
  obtain r st1 where r: "transfer_round fs fd rec sync st = Some (r, st1)" "\<forall>rec'. r = Inr rec' \<longrightarrow> ok st1"
    using assms [OF less.prems] by blast
  show ?case
  proof (cases "snd (snd (snd rec)) < 10")
    case False
    then show ?thesis by (subst transfer_loop.simps) (cases "fail_with fs fd st", simp)
  next
    case True
    show ?thesis
    proof (cases r)
      case (Inl result)
      then show ?thesis using True r by (subst transfer_loop.simps) simp
    next
      case (Inr rec')
      have "(rec', rec) \<in> budget" using transfer_round_spends [OF r(1) [unfolded Inr] True] .
      from less.IH [OF this] r(2) Inr obtain result st' where
        "transfer_loop fs fd rec' True st1 = Some (result, st')" by blast
      then show ?thesis using True r(1) Inr by (subst transfer_loop.simps) simp
    qed
  qed
qed

section \<open>The argument of the window option\<close>

definition multiplier :: "string \<Rightarrow> nat" where
  "multiplier suffix = (if suffix = [] then 1 else if suffix \<in> {''K'', ''k''} then 1024 else 1024 * 1024)"

text \<open>The texts \<^verbatim>\<open>strtoumax\<close> finds a number in, in base ten, and what it makes of a sign.\<close>

definition number_text :: "u8 list \<Rightarrow> u8 list \<Rightarrow> u8 list \<Rightarrow> u8 list \<Rightarrow> u8 list \<Rightarrow> bool" where
  "number_text text blanks sign digits rest \<longleftrightarrow> text = blanks @ sign @ digits @ rest \<and>
     list_all is_space blanks \<and> sign \<in> {[], [0x2b], [0x2d]} \<and> digits \<noteq> [] \<and> list_all (is_digit 10) digits \<and>
     (rest = [] \<or> \<not> is_digit 10 (hd rest))"

definition signed_value :: "u8 list \<Rightarrow> nat \<Rightarrow> nat" where
  "signed_value sign v = (if sign = [0x2d] \<and> v \<noteq> 0 then 2 ^ 64 - v else v)"

lemma digit_or_space: "is_digit 10 c \<Longrightarrow> \<not> is_space c \<and> c \<noteq> 0x2b \<and> c \<noteq> 0x2d"
  by (auto simp: is_digit_def is_space_def word_le_nat_alt)

lemma strtoumax_number:
  assumes "number_text text blanks sign digits rest"
  shows "strtoumax text 10 =
    (if UINTMAX_MAX < digits_value 10 digits then (UINTMAX_MAX, True, rest)
     else (signed_value sign (digits_value 10 digits), False, rest))"
proof -
  obtain d ds where d: "digits = d # ds" "is_digit 10 d" using assms by (cases digits) (auto simp: number_text_def)
  let ?s = "sign @ digits @ rest"
  have "\<not> is_space (hd ?s)" "?s \<noteq> []"
    using assms digit_or_space [OF d(2)] by (auto simp: number_text_def d(1) is_space_def)
  moreover have "text = blanks @ ?s" "\<forall>c\<in>set blanks. is_space c"
    using assms by (simp_all add: number_text_def list_all_iff)
  ultimately have s: "dropWhile is_space text = ?s" by (cases ?s) (simp_all add: dropWhile_append2)
  have t: "takeWhile (is_digit 10) (digits @ rest) = digits" "dropWhile (is_digit 10) (digits @ rest) = rest"
    using assms by (cases rest; auto simp: number_text_def list_all_iff takeWhile_append2 dropWhile_append2)+
  consider "sign = []" | "sign = [0x2b]" | "sign = [0x2d]" using assms by (auto simp: number_text_def)
  then show ?thesis
    using s t digit_or_space [OF d(2)] d(1) unfolding strtoumax_def
    by cases (auto simp: Let_def signed_value_def)
qed

lemma strtoumax_text:
  assumes "strtoumax text 10 = (n, e, rest)" "rest \<noteq> text"
  shows "\<exists>blanks sign digits. number_text text blanks sign digits rest"
proof -
  define s where "s = dropWhile is_space text"
  define sign where "sign = (if s \<noteq> [] \<and> (hd s = 0x2d \<or> hd s = 0x2b) then [hd s] else [])"
  define u where "u = (if s \<noteq> [] \<and> (hd s = 0x2d \<or> hd s = 0x2b) then tl s else s)"
  have u: "s = sign @ u" by (simp add: sign_def u_def)
  have "takeWhile (is_digit 10) u \<noteq> []" "rest = dropWhile (is_digit 10) u"
    using assms unfolding strtoumax_def Let_def s_def [symmetric] u_def [symmetric] by (auto split: if_splits)
  moreover have "text = takeWhile is_space text @ sign @ takeWhile (is_digit 10) u @ dropWhile (is_digit 10) u"
    by (simp only: takeWhile_dropWhile_id u [symmetric]) (simp add: s_def)
  moreover have "sign \<in> {[], [0x2b], [0x2d]}" by (auto simp: sign_def)
  moreover have "list_all is_space (takeWhile is_space text)" "list_all (is_digit 10) (takeWhile (is_digit 10) u)"
    using set_takeWhileD by (fastforce simp: list_all_iff)+
  moreover have "dropWhile (is_digit 10) u = [] \<or> \<not> is_digit 10 (hd (dropWhile (is_digit 10) u))"
    using hd_dropWhile by blast
  ultimately show ?thesis unfolding number_text_def by metis
qed

text \<open>The number after its suffix, when it is a window.\<close>

definition window_value :: "nat \<Rightarrow> u8 list \<Rightarrow> u32 option" where
  "window_value n suffix =
     (if suffix \<in> {[], [0x4b], [0x6b], [0x4d], [0x6d]} then
        let m = multiplier (string_of suffix)
        in if n = 0 \<or> UINT32_MAX < n * m then None else Some (word_of_nat (n * m))
      else None)"

lemma of_char_toupper:
  "(of_char (toupper x) :: nat) = (if 97 \<le> (of_char x :: nat) \<and> (of_char x :: nat) \<le> 122 then of_char x - 32 else of_char x)"
proof -
  have "(of_char x :: nat) < 256" by simp
  then have "((of_char x :: nat) - 32) mod 256 = of_char x - 32" by (intro mod_less) linarith
  then show ?thesis by (simp add: toupper_def Let_def)
qed

lemma suffix_letter:
  "toupper (char_of (unat c)) = CHR ''K'' \<longleftrightarrow> c = 0x4b \<or> c = (0x6b :: u8)"
  "toupper (char_of (unat c)) = CHR ''M'' \<longleftrightarrow> c = 0x4d \<or> c = (0x6d :: u8)"
proof -
  have "unat c < 2 ^ 8" by (rule order_less_le_trans [OF unsigned_less]) simp
  then have o: "of_char (char_of (unat c)) = unat c" by simp
  have K: "x = CHR ''K'' \<longleftrightarrow> of_char x = (75 :: nat)" and M: "x = CHR ''M'' \<longleftrightarrow> of_char x = (77 :: nat)" for x
    using of_char_eq_iff [where ?'a = nat, of x "CHR ''K''"] of_char_eq_iff [where ?'a = nat, of x "CHR ''M''"] by simp_all
  show "toupper (char_of (unat c)) = CHR ''K'' \<longleftrightarrow> c = 0x4b \<or> c = (0x6b :: u8)"
    "toupper (char_of (unat c)) = CHR ''M'' \<longleftrightarrow> c = 0x4d \<or> c = (0x6d :: u8)"
    unfolding K M of_char_toupper o by (auto simp: word_unat_eq_iff)
qed

lemma string_letters:
  "string_of [] = []" "string_of [0x4b] = ''K''" "string_of [0x6b] = ''k''" "string_of [0x4d] = ''M''" "string_of [0x6d] = ''m''"
  by code_simp+

lemma multiplier_octets:
  "multiplier (string_of []) = 1" "multiplier (string_of [0x4b]) = 1024" "multiplier (string_of [0x6b]) = 1024"
  "multiplier (string_of [0x4d]) = 1024 * 1024" "multiplier (string_of [0x6d]) = 1024 * 1024"
  unfolding string_letters by (simp_all add: multiplier_def)

definition suffix_multiplier :: "u8 list \<Rightarrow> nat option" where
  "suffix_multiplier suffix =
     (if suffix \<in> {[], [0x4b], [0x6b], [0x4d], [0x6d]} then Some (multiplier (string_of suffix)) else None)"

lemma suffix_code:
  "(if suffix = [] then Some 1
    else if tl suffix \<noteq> [] then None
    else if toupper (hd (string_of suffix)) = CHR ''K'' then Some 1024
    else if toupper (hd (string_of suffix)) = CHR ''M'' then Some (1024 * 1024)
    else None) = suffix_multiplier suffix"
proof (cases suffix)
  case Nil
  then show ?thesis by (simp add: suffix_multiplier_def multiplier_octets)
next
  case (Cons c cs)
  then have h: "hd (string_of suffix) = char_of (unat c)" by (simp add: string_of_def)
  show ?thesis
  proof (cases "cs = []")
    case False
    then show ?thesis by (simp add: suffix_multiplier_def Cons)
  next
    case True
    then show ?thesis unfolding h suffix_letter unfolding suffix_multiplier_def
      by (auto simp: Cons multiplier_octets)
  qed
qed

lemma parse_window_parsed:
  assumes "t \<noteq> []" "hd t \<noteq> CHR ''-''" "strtoumax (octets_of t) 10 = (n, False, suffix)" "suffix \<noteq> octets_of t"
  shows "parse_window_size (Some t) = window_value n suffix"
proof -
  have pos: "suffix_multiplier suffix = Some m \<Longrightarrow> 0 < m" for m
    by (auto simp: suffix_multiplier_def multiplier_def split: if_splits)
  have big: "UINT32_MAX div m < n \<longleftrightarrow> UINT32_MAX < n * m" if "suffix_multiplier suffix = Some m" for m
    using pos [OF that] by (metis div_less_iff_less_mult)
  have "parse_window_size (Some t) = (case suffix_multiplier suffix of None \<Rightarrow> None | Some m \<Rightarrow>
      if n = 0 then None else if UINT32_MAX div m < n then None else Some (word_of_nat (n * m)))"
    unfolding parse_window_size_def suffix_code using assms by (simp only: option.case prod.case Let_def if_False suffix_code)
  then show ?thesis
    using big by (auto simp: window_value_def suffix_multiplier_def Let_def split: if_splits option.splits)
qed

lemma first_octet:
  assumes "octets_of t = c # cs"
  shows "t \<noteq> []" "hd t = CHR ''-'' \<longleftrightarrow> c = 0x2d"
proof -
  obtain a as where t: "t = a # as" using assms by (cases t) (simp_all add: octets_of_def)
  then have c: "c = of_char a" using assms by (simp add: octets_of_def)
  have "string_of [of_char a] = ''-'' \<longleftrightarrow> a = CHR ''-''" "string_of [0x2d] = ''-''"
    by (simp add: string_of_def) code_simp
  then have "a = CHR ''-'' \<longleftrightarrow> c = 0x2d" unfolding c by (metis octets_of_string list.inject)
  then show "t \<noteq> []" "hd t = CHR ''-'' \<longleftrightarrow> c = 0x2d" using t by simp_all
qed

lemma parse_window:
  "parse_window_size (Some t) = Some w \<longleftrightarrow>
   (\<exists>blanks sign digits suffix. number_text (octets_of t) blanks sign digits suffix \<and>
      (sign = [0x2d] \<longrightarrow> blanks \<noteq> []) \<and> digits_value 10 digits \<le> UINTMAX_MAX \<and>
      window_value (signed_value sign (digits_value 10 digits)) suffix = Some w)"
  (is "_ \<longleftrightarrow> ?text")
proof
  assume ?text
  then obtain blanks sign digits suffix where n: "number_text (octets_of t) blanks sign digits suffix"
    "sign = [0x2d] \<longrightarrow> blanks \<noteq> []" "digits_value 10 digits \<le> UINTMAX_MAX"
    "window_value (signed_value sign (digits_value 10 digits)) suffix = Some w" by blast
  have o: "octets_of t = blanks @ sign @ digits @ suffix" "digits \<noteq> []" using n(1) by (simp_all add: number_text_def)
  then have "octets_of t \<noteq> []" by simp
  then obtain c cs where c: "octets_of t = c # cs" by (cases "octets_of t") simp_all
  have "c \<noteq> 0x2d"
    using n(1,2) c by (cases blanks; cases digits) (auto simp: number_text_def is_space_def dest: digit_or_space)
  moreover have "suffix \<noteq> octets_of t" using o by (metis append.assoc append_self_conv2 append_is_Nil_conv)
  ultimately show "parse_window_size (Some t) = Some w"
    using parse_window_parsed [of t] first_octet [OF c] strtoumax_number [OF n(1)] n(3,4) by simp
next
  assume p: "parse_window_size (Some t) = Some w"
  then have t: "t \<noteq> []" "hd t \<noteq> CHR ''-''" by (auto simp: parse_window_size_def split: if_splits)
  obtain n e suffix where s: "strtoumax (octets_of t) 10 = (n, e, suffix)" by (metis prod_cases3)
  have e: "\<not> e" "suffix \<noteq> octets_of t" using p t s by (auto simp: parse_window_size_def split: if_splits)
  obtain blanks sign digits where n: "number_text (octets_of t) blanks sign digits suffix"
    using strtoumax_text [OF s e(2)] by blast
  have v: "digits_value 10 digits \<le> UINTMAX_MAX" "n = signed_value sign (digits_value 10 digits)"
    using strtoumax_number [OF n] s e(1) by (auto split: if_splits)
  have "blanks \<noteq> []" if "sign = [0x2d]"
  proof
    assume "blanks = []"
    then have "octets_of t = 0x2d # digits @ suffix" using n that by (simp add: number_text_def)
    then show False using first_octet(2) t(2) by blast
  qed
  moreover have "window_value n suffix = Some w" using parse_window_parsed [OF t] s e p by simp
  ultimately show ?text using n v by blast
qed

lemma window_value_suffix:
  "window_value n suffix = Some w \<longleftrightarrow> (\<exists>letters. suffix = octets_of letters \<and> letters \<in> {[], ''K'', ''k'', ''M'', ''m''} \<and>
     n * multiplier letters \<noteq> 0 \<and> n * multiplier letters \<le> UINT32_MAX \<and> w = word_of_nat (n * multiplier letters))"
proof -
  have e: "suffix = y \<longleftrightarrow> string_of suffix = string_of y" for y by (metis octets_of_string)
  have s: "suffix \<in> {[], [0x4b], [0x6b], [0x4d], [0x6d]} \<longleftrightarrow> string_of suffix \<in> {[], ''K'', ''k'', ''M'', ''m''}"
    using e [of "[]"] e [of "[0x4b]"] e [of "[0x6b]"] e [of "[0x4d]"] e [of "[0x6d]"]
    by (simp only: string_letters insert_iff empty_iff)
  have l: "suffix = octets_of letters \<longleftrightarrow> letters = string_of suffix" for letters by auto
  have "0 < multiplier letters" for letters by (simp add: multiplier_def)
  then have z: "n * multiplier letters \<noteq> 0 \<longleftrightarrow> n \<noteq> 0" for letters by simp
  show ?thesis unfolding window_value_def s l z Let_def by (simp del: insert_iff) (meson not_le)
qed

lemma number_suffix:
  "letters \<in> {[], ''K'', ''k'', ''M'', ''m''} \<Longrightarrow> octets_of letters = [] \<or> \<not> is_digit 10 (hd (octets_of letters))"
  by (auto simp: octets_of_def is_digit_def)

lemma parse_window_texts:
  "parse_window_size (Some t) = Some w \<longleftrightarrow>
    (\<exists>blanks sign digits suffix. octets_of t = blanks @ sign @ digits @ octets_of suffix \<and>
       list_all is_space blanks \<and> sign \<in> {[], [0x2b], [0x2d]} \<and> (sign = [0x2d] \<longrightarrow> blanks \<noteq> []) \<and>
       digits \<noteq> [] \<and> list_all (is_digit 10) digits \<and> digits_value 10 digits \<le> UINTMAX_MAX \<and>
       suffix \<in> {[], ''K'', ''k'', ''M'', ''m''} \<and>
       (let n = signed_value sign (digits_value 10 digits) * multiplier suffix
        in n \<noteq> 0 \<and> n \<le> UINT32_MAX \<and> w = word_of_nat n))"
  (is "_ \<longleftrightarrow> ?texts")
proof
  assume "parse_window_size (Some t) = Some w"
  then obtain blanks sign digits suffix where n: "number_text (octets_of t) blanks sign digits suffix"
    "sign = [0x2d] \<longrightarrow> blanks \<noteq> []" "digits_value 10 digits \<le> UINTMAX_MAX"
    "window_value (signed_value sign (digits_value 10 digits)) suffix = Some w"
    unfolding parse_window by blast
  then show ?texts unfolding window_value_suffix number_text_def Let_def by blast
next
  assume ?texts
  then obtain blanks sign digits letters where n: "octets_of t = blanks @ sign @ digits @ octets_of letters"
    "list_all is_space blanks" "sign \<in> {[], [0x2b], [0x2d]}" "sign = [0x2d] \<longrightarrow> blanks \<noteq> []"
    "digits \<noteq> []" "list_all (is_digit 10) digits" "digits_value 10 digits \<le> UINTMAX_MAX"
    and w: "letters \<in> {[], ''K'', ''k'', ''M'', ''m''}"
      "signed_value sign (digits_value 10 digits) * multiplier letters \<noteq> 0"
      "signed_value sign (digits_value 10 digits) * multiplier letters \<le> UINT32_MAX"
      "w = word_of_nat (signed_value sign (digits_value 10 digits) * multiplier letters)"
    unfolding Let_def by blast
  have "number_text (octets_of t) blanks sign digits (octets_of letters)"
    using n number_suffix [OF w(1)] by (simp add: number_text_def)
  moreover have "window_value (signed_value sign (digits_value 10 digits)) (octets_of letters) = Some w"
    using w unfolding window_value_suffix by blast
  ultimately show "parse_window_size (Some t) = Some w" using n(4,7) unfolding parse_window by blast
qed

section \<open>A file in memory\<close>

text \<open>Files to run the sender on: the descriptor 3 is a list of octets and an offset.\<close>

definition memory_files :: "(u8 list \<times> nat) file_calls" where
  "memory_files = \<lparr>f_open = (\<lambda>name f. (3, f)), f_close = (\<lambda>fd f. (0, f)),
     f_fstat = (\<lambda>fd f. (if fd = 3 then 0 else - 1, \<lparr>st_size = int (length (fst f)), st_mtime = 0\<rparr>, f)),
     f_lseek = (\<lambda>fd offset whence f.
       if fd \<noteq> 3 then (- 1, f)
       else if whence = SEEK_CUR then (int (snd f), f) else (offset, (fst f, nat offset))),
     f_read = (\<lambda>fd n f. let bs = take n (drop (snd f) (fst f))
       in (int (length bs), EOTHER, bs, (fst f, snd f + length bs)))\<rparr>"

definition idle_sender :: "u8 list \<Rightarrow> (unit, u8 list \<times> nat) sender" where
  "idle_sender bs = (zmtx_statics (zmodem_cleared idle_io) (bs, 0))\<lparr>window_size := 4096\<rparr>"

lemma memory_reads_fit: "reads_fit memory_files"
  by (simp add: reads_fit_def memory_files_def Let_def)

section \<open>Properties\<close>



text \<open>C39: The window option accepts these texts and no others: blanks, a sign, decimal digits whose number
  fits 64 bits, and nothing, K or M in either case; that is so many octets, KiB or MiB, which must not
  be 0 and must fit 32 bits (the multiplication never wraps). A minus sign must have a blank before it,
  and then negates modulo \<open>2 ^ 64\<close>. Any other text after the digits is refused, and so is a missing text.\<close>

theorem window_option_value:
  "parse_window_size None = None \<and>
   (parse_window_size (Some t) = Some w \<longleftrightarrow>
    (\<exists>blanks sign digits suffix. octets_of t = blanks @ sign @ digits @ octets_of suffix \<and>
       list_all is_space blanks \<and> sign \<in> {[], [0x2b], [0x2d]} \<and> (sign = [0x2d] \<longrightarrow> blanks \<noteq> []) \<and>
       digits \<noteq> [] \<and> list_all (is_digit 10) digits \<and> digits_value 10 digits \<le> UINTMAX_MAX \<and>
       suffix \<in> {[], ''K'', ''k'', ''M'', ''m''} \<and>
       (let n = signed_value sign (digits_value 10 digits) * multiplier suffix
        in n \<noteq> 0 \<and> n \<le> UINT32_MAX \<and> w = word_of_nat n)))"
  using parse_window_texts by (simp add: parse_window_size_def)

theorem window_option_value_witness:
  "parse_window_size (Some ''32k'') = Some 32768 \<and>
   parse_window_size (Some '' -18446744073709518848'') = Some 32768"
proof
  have o: "octets_of ''32k'' = [] @ [] @ [0x33, 0x32] @ octets_of ''k''" by code_simp
  have "list_all is_space [] \<and> ([] :: u8 list) \<in> {[], [0x2b], [0x2d]} \<and> ([] = [0x2d :: u8] \<longrightarrow> ([] :: u8 list) \<noteq> []) \<and>
       [0x33, 0x32 :: u8] \<noteq> [] \<and> list_all (is_digit 10) [0x33, 0x32] \<and> digits_value 10 [0x33, 0x32] \<le> UINTMAX_MAX \<and>
       ''k'' \<in> {[], ''K'', ''k'', ''M'', ''m''} \<and>
       (let n = signed_value [] (digits_value 10 [0x33, 0x32]) * multiplier ''k''
        in n \<noteq> 0 \<and> n \<le> UINT32_MAX \<and> (32768 :: u32) = word_of_nat n)"
    by (simp add: is_digit_def digits_value_def signed_value_def multiplier_def)
  with o show "parse_window_size (Some ''32k'') = Some 32768"
    by (intro iffD2 [OF conjunct2 [OF window_option_value]] exI conjI) (elim conjE; assumption)+
  let ?d = "[0x31, 0x38, 0x34, 0x34, 0x36, 0x37, 0x34, 0x34, 0x30, 0x37, 0x33, 0x37, 0x30, 0x39, 0x35, 0x31, 0x38, 0x38,
    0x34, 0x38] :: u8 list"
  have o: "octets_of '' -18446744073709518848'' = [0x20] @ [0x2d] @ ?d @ octets_of []" by code_simp
  have "list_all is_space [0x20] \<and> [0x2d] \<in> {[], [0x2b], [0x2d :: u8]} \<and> ([0x2d] = [0x2d :: u8] \<longrightarrow> [0x20 :: u8] \<noteq> []) \<and>
       ?d \<noteq> [] \<and> list_all (is_digit 10) ?d \<and> digits_value 10 ?d \<le> UINTMAX_MAX \<and>
       [] \<in> {[], ''K'', ''k'', ''M'', ''m''} \<and>
       (let n = signed_value [0x2d] (digits_value 10 ?d) * multiplier []
        in n \<noteq> 0 \<and> n \<le> UINT32_MAX \<and> (32768 :: u32) = word_of_nat n)"
    by (simp add: is_digit_def is_space_def digits_value_def signed_value_def multiplier_def)
  with o show "parse_window_size (Some '' -18446744073709518848'') = Some 32768"
    by (intro iffD2 [OF conjunct2 [OF window_option_value]] exI conjI) (elim conjE; assumption)+
qed

end
