(* ===== verification/Stream.thy ===== *)
theory Stream
  imports Quiet Disk Zmtx_Correct
begin

text \<open>
  The sender streams: \<open>send_from\<close> on a file that can be read, when nothing limits it (no window, no
  buffer at the receiver, no \<^verbatim>\<open>-s\<close>) and nothing comes back. \<open>file_reader\<close> is the interface to the
  file, \<open>frame_wire\<close> the octets of the subpackets of a frame.
\<close>

declare split_paired_Ex [simp del] split_paired_All [simp del]

section \<open>A file that can be read\<close>

locale file_reader =
  fixes fs :: "'f file_calls" and fd :: int and readable :: "'f \<Rightarrow> bool"
    and whole :: "'f \<Rightarrow> u8 list" and offset :: "'f \<Rightarrow> nat" and interrupts :: "'f \<Rightarrow> nat"
  assumes position: "readable f \<Longrightarrow> \<exists>f'. f_lseek fs fd 0 SEEK_CUR f = (int (offset f), f') \<and> readable f' \<and>
      whole f' = whole f \<and> offset f' = offset f"
    and reads: "readable f \<Longrightarrow> 0 < n \<Longrightarrow> f_read fs fd n f = (r, e, bs, f') \<Longrightarrow>
      readable f' \<and> whole f' = whole f \<and> offset f' = offset f + nat r \<and>
      (if 0 < r then r = int (length bs) \<and> length bs \<le> n \<and> drop (offset f) (whole f) = bs @ drop (offset f') (whole f)
       else if r = 0 then drop (offset f) (whole f) = []
       else e = EINTR \<and> interrupts f' < interrupts f)"
begin

definition rest :: "'f \<Rightarrow> u8 list" where
  "rest f = drop (offset f) (whole f)"

lemma read_retry_returns:
  "readable f \<Longrightarrow> 0 < n \<Longrightarrow> \<exists>r bs f'. read_retry fs fd n f = Some (r, bs, f') \<and> 0 \<le> r \<and>
     length (take (nat r) bs) = nat r \<and> nat r \<le> n \<and>
     readable f' \<and> whole f' = whole f \<and> offset f' = offset f + nat r \<and> rest f = take (nat r) bs @ rest f' \<and>
     (r = 0 \<longrightarrow> rest f = [])"
proof (induction "interrupts f" arbitrary: f rule: less_induct)
  case less
  obtain r e bs f1 where c: "f_read fs fd n f = (r, e, bs, f1)" by (metis prod_cases4)
  note s = reads [OF less.prems c]
  show ?case
  proof (cases "0 \<le> r")
    case True
    then have "read_retry fs fd n f = Some (r, bs, f1)" using c by (subst read_retry.simps) simp
    then show ?thesis using s True by (cases "r = 0") (auto simp: rest_def)
  next
    case False
    then have e: "e = EINTR" "interrupts f1 < interrupts f" and f1: "readable f1" "whole f1 = whole f" "offset f1 = offset f"
      using s by simp_all
    have "read_retry fs fd n f = read_retry fs fd n f1" using False e c by (subst read_retry.simps) simp
    moreover have "rest f1 = rest f" using f1 by (simp add: rest_def)
    ultimately show ?thesis using less.hyps [OF e(2) f1(1) less.prems(2)] f1 by simp
  qed
qed

lemma read_block_loop_returns:
  "readable f \<Longrightarrow> length block \<le> n \<Longrightarrow>
   \<exists>f'. read_block_loop fs fd n block f =
       Some (Some (block @ take (n - length block) (rest f), length block + length (rest f) < n), f') \<and>
     readable f' \<and> whole f' = whole f \<and> offset f' = offset f + min (n - length block) (length (rest f))"
proof (induction "n - length block" arbitrary: block f rule: less_induct)
  case less
  show ?case
  proof (cases "length block = n")
    case True
    then show ?thesis using less.prems by (subst read_block_loop.simps) auto
  next
    case False
    then have n: "0 < n - length block" using less.prems(2) by simp
    obtain r bs f1 where r: "read_retry fs fd (n - length block) f = Some (r, bs, f1)" "0 \<le> r"
      "length (take (nat r) bs) = nat r" "nat r \<le> n - length block" "readable f1" "whole f1 = whole f"
      "offset f1 = offset f + nat r" "rest f = take (nat r) bs @ rest f1" "r = 0 \<longrightarrow> rest f = []"
      using read_retry_returns [OF less.prems(1) n] by blast
    show ?thesis
    proof (cases "r = 0")
      case True
      then have "read_block_loop fs fd n block f = Some (Some (block, True), f1)"
        using r(1) n by (subst read_block_loop.simps) simp
      then show ?thesis using r True n by simp
    next
      case False
      let ?block = "block @ take (nat r) bs"
      have l: "length ?block = length block + nat r" using r(3) by simp
      have lr: "length (rest f) = nat r + length (rest f1)" using r(3,8) by (metis length_append)
      have b: "read_block_loop fs fd n block f = read_block_loop fs fd n ?block f1"
        using r(1,2) n False by (subst read_block_loop.simps) simp
      have t: "take (n - length block) (rest f) = take (nat r) bs @ take (n - length ?block) (rest f1)"
        using r(4) l unfolding r(8) by (simp only: take_append r(3)) simp
      have "0 < nat r" using r(2) False by simp
      then have m: "n - length ?block < n - length block" "length ?block \<le> n" using r(4) l n by auto
      obtain f2 where f2: "read_block_loop fs fd n ?block f1 =
          Some (Some (?block @ take (n - length ?block) (rest f1), length ?block + length (rest f1) < n), f2)"
        "readable f2" "whole f2 = whole f1" "offset f2 = offset f1 + min (n - length ?block) (length (rest f1))"
        using less.hyps [OF m(1) r(5) m(2)] by blast
      have "offset f2 = offset f + min (n - length block) (length (rest f))"
        using f2(4) r(4,7) unfolding l lr by linarith
      then show ?thesis using f2(1-3) r(6) l lr unfolding b t by (simp add: add.assoc)
    qed
  qed
qed

lemma read_file_block_returns:
  "readable f \<Longrightarrow> \<exists>f'. read_file_block fs fd n f = Some (Some (take n (rest f), length (rest f) < n), f') \<and>
     readable f' \<and> whole f' = whole f \<and> offset f' = offset f + min n (length (rest f))"
  using read_block_loop_returns [of f "[]" n] by (simp add: read_file_block_def)

lemma rest_after:
  "whole f' = whole f \<Longrightarrow> offset f' = offset f + min n (length (rest f)) \<Longrightarrow> rest f' = drop n (rest f)"
  by (simp add: rest_def min_def add.commute split: if_splits)

end

interpretation disk_reader: file_reader disk_file_calls h "disk_open h" "disk_contents h" "disk_offset h" disk_signals
  for h :: int
proof
  fix d d' :: disk and r :: int and e bs and n :: nat
  assume d: "disk_open h d"
  show "\<exists>f'. f_lseek disk_file_calls h 0 SEEK_CUR d = (int (disk_offset h d), f') \<and> disk_open h f' \<and>
      disk_contents h f' = disk_contents h d \<and> disk_offset h f' = disk_offset h d"
    by (rule disk_seeks [OF d])
  assume n: "0 < n" and r: "f_read disk_file_calls h n d = (r, e, bs, d')"
  show "disk_open h d' \<and> disk_contents h d' = disk_contents h d \<and> disk_offset h d' = disk_offset h d + nat r \<and>
    (if 0 < r then r = int (length bs) \<and> length bs \<le> n \<and>
        drop (disk_offset h d) (disk_contents h d) = bs @ drop (disk_offset h d') (disk_contents h d)
     else if r = 0 then drop (disk_offset h d) (disk_contents h d) = []
     else e = EINTR \<and> disk_signals d' < disk_signals d)"
    using disk_reads [OF d r] n append_take_drop_id [of "min n 5" "drop (disk_offset h d) (disk_contents h d)"]
    by (auto simp: min_def add.commute simp del: append_take_drop_id split: if_splits)
qed

section \<open>The subpackets of a frame\<close>

text \<open>The octets that carry the blocks \<open>ps\<close> as one frame, sent with the settings of \<open>s\<close>: ZCRCG after
  each block but the last, ZCRCE after the last.\<close>

inductive frame_wire :: "'c zmodem \<Rightarrow> u8 list list \<Rightarrow> u8 list \<Rightarrow> bool" for s :: "'c zmodem" where
  last_block: "tx_moved s s' \<Longrightarrow> length p \<le> ZMAXSPLEN \<Longrightarrow>
    frame_wire s [p] (data_wire s' (last_sent s') ZCRCE p)"
| next_block: "tx_moved s s' \<Longrightarrow> length p \<le> ZMAXSPLEN \<Longrightarrow> frame_wire s ps octets \<Longrightarrow>
    frame_wire s (p # ps) (data_wire s' (last_sent s') ZCRCG p @ octets)"

text \<open>Nothing limits the sender: no window, no buffer at the receiver, no \<^verbatim>\<open>-s\<close>, overlapped I/O.\<close>

definition unlimited :: "('c, 'f) sender \<Rightarrow> bool" where
  "unlimited st \<longleftrightarrow> window_size st = 0 \<and> receiver_buffer_size st = 0 \<and> \<not> opt_s st \<and> can_overlap_io (protocol st)"

lemma unlimited_plan: "unlimited st \<Longrightarrow> \<not> window_enabled (send_plan_for st) \<and> \<not> wait_each_block (send_plan_for st)"
  by (simp add: unlimited_def send_plan_for_def)

locale streamer = quiet_sink wr fl open_for sent pl + file_reader fs fd readable whole offset interrupts
  for wr :: "'c \<Rightarrow> u8 list \<Rightarrow> int \<times> 'c" and fl :: "'c \<Rightarrow> int \<times> 'c" and open_for :: "'c \<Rightarrow> bool"
    and sent :: "'c \<Rightarrow> u8 list" and pl :: "'c \<Rightarrow> int \<times> 'c"
    and fs :: "'f file_calls" and fd :: int and readable :: "'f \<Rightarrow> bool"
    and whole :: "'f \<Rightarrow> u8 list" and offset :: "'f \<Rightarrow> nat" and interrupts :: "'f \<Rightarrow> nat"
begin

definition flows :: "'f \<Rightarrow> 'c zmodem \<Rightarrow> u8 list \<Rightarrow> ('c, 'f) sender \<Rightarrow> bool" where
  "flows f0 s w st \<longleftrightarrow> tx_moved s (protocol st) \<and> may_send wr fl open_for sent (protocol st) w \<and>
     io_poll (io (protocol st)) = pl \<and> input_count (protocol st) = 0 \<and> sender_ok st \<and> unlimited st \<and>
     readable (files st) \<and> whole (files st) = whole f0 \<and> offset (files st) \<le> length (whole f0)"

lemma flows_moved:
  assumes "flows f0 s w st" "may_send wr fl open_for sent z w'" "tx_moved (protocol st) z"
  shows "flows f0 s w' (st\<lparr>protocol := z\<rparr>)"
  using assms tx_moved_trans [of s "protocol st" z]
  by (simp add: flows_def unlimited_def tx_moved_quiet [OF assms(3)] sender_ok_def sizes_ok_def)

lemma flows_files:
  "flows f0 s w st \<Longrightarrow> readable f \<Longrightarrow> whole f = whole f0 \<Longrightarrow> offset f \<le> length (whole f0) \<Longrightarrow>
   flows f0 s w (st\<lparr>files := f\<rparr>)"
  by (simp add: flows_def unlimited_def sender_ok_def sizes_ok_def)

lemma flows_increase: "flows f0 s w st \<Longrightarrow> flows f0 s w (increase_subpacket_size st)"
  using sizes_ok_increase [of st]
  by (auto simp: flows_def sender_ok_def unlimited_def increase_subpacket_size_def Let_def)

lemma flows_overlay:
  "flows f0 s w st \<Longrightarrow> flows f0 s w (st\<lparr>tx_data_subpacket := overlay bs (tx_data_subpacket st)\<rparr>)"
  by (simp add: flows_def unlimited_def sender_ok_def sizes_ok_def)

lemma flows_read_size:
  assumes "flows f0 s w st"
  shows "read_size False wire ack segment st = subpacket_size st \<and> 0 < subpacket_size st \<and> subpacket_size st \<le> ZMAXSPLEN"
  using assms by (auto simp: flows_def unlimited_def read_size_def sender_ok_def sizes_ok_def good_sizes_def)

lemma checked_position_flows:
  assumes "flows f0 s w st" "length (whole f0) \<le> UINT32_MAX"
  shows "\<exists>f. checked_position fs fd st = (Inr (word_of_nat (offset (files st))), st\<lparr>files := f\<rparr>) \<and>
    flows f0 s w (st\<lparr>files := f\<rparr>) \<and> offset f = offset (files st)"
proof -
  have r: "readable (files st)" "whole (files st) = whole f0" "offset (files st) \<le> length (whole f0)"
    using assms(1) by (simp_all add: flows_def)
  obtain f where f: "f_lseek fs fd 0 SEEK_CUR (files st) = (int (offset (files st)), f)" "readable f"
    "whole f = whole f0" "offset f = offset (files st)" using position [OF r(1)] r(2) by auto
  have "\<not> int UINT32_MAX < int (offset (files st))" using r(3) assms(2) by simp
  then have "checked_position fs fd st = (Inr (word_of_nat (offset (files st))), st\<lparr>files := f\<rparr>)"
    using f(1) by (simp add: checked_position_def file_position_def)
  then show ?thesis using f(2-4) r(3) flows_files [OF assms(1)] by auto
qed

lemma reply_loop_quiet:
  assumes "flows f0 s w st"
  shows "\<exists>z. reply_loop position ack st = Some (Inr ack, st\<lparr>protocol := z\<rparr>) \<and> flows f0 s w (st\<lparr>protocol := z\<rparr>)"
proof -
  obtain z where z: "rx_poll (protocol st) = (0, z)" "may_send wr fl open_for sent z w" "tx_moved (protocol st) z"
    using quiet_poll [of "protocol st" w] assms by (auto simp: flows_def)
  have "reply_loop position ack st = Some (Inr ack, st\<lparr>protocol := z\<rparr>)"
    by (subst reply_loop.simps) (simp add: with_protocol_def z(1))
  then show ?thesis using flows_moved [OF assms z(2,3)] by blast
qed

section \<open>Blocks\<close>

definition continues :: "send_vars \<Rightarrow> bool" where
  "continues v \<longleftrightarrow> frame_open v \<and> \<not> synchronize_recovery v"

lemma streamed_block:
  assumes "flows f0 s w st" "length (whole f0) \<le> UINT32_MAX" "continues v"
    "\<not> window_enabled plan" "\<not> wait_each_block plan"
  shows "\<exists>s' st'. tx_moved s s' \<and>
    (if length (rest (files st)) < subpacket_size st
     then send_block fs fd plan v (word_of_nat (offset (files st))) st = Some (Inl (uint ZACK), st') \<and>
       flows f0 s (w @ data_wire s' (last_sent s') ZCRCE (rest (files st))) st' \<and>
       current_file_size st' = int (length (whole f0))
     else (\<exists>v'. send_block fs fd plan v (word_of_nat (offset (files st))) st = Some (Inr v', st') \<and> continues v' \<and>
       flows f0 s (w @ data_wire s' (last_sent s') ZCRCG (take (subpacket_size st) (rest (files st)))) st' \<and>
       rest (files st') = drop (subpacket_size st) (rest (files st))))"
proof -
  let ?wire = "word_of_nat (offset (files st)) :: u32" and ?p = "take (subpacket_size st) (rest (files st))"
  let ?eof = "length (rest (files st)) < subpacket_size st" and ?n = "length (take (subpacket_size st) (rest (files st)))"
  have r: "readable (files st)" "whole (files st) = whole f0" "offset (files st) \<le> length (whole f0)"
    and ok: "length (tx_data_subpacket st) = ZMAXSPLEN" "unlimited st"
    using assms(1) by (simp_all add: flows_def sender_ok_def)
  note size = flows_read_size [OF assms(1), of ?wire "acknowledged_position v" "segment_sent v"]
  obtain f where f: "read_file_block fs fd (subpacket_size st) (files st) = Some (Some (?p, ?eof), f)" "readable f"
    "whole f = whole (files st)" "offset f = offset (files st) + min (subpacket_size st) (length (rest (files st)))"
    using read_file_block_returns [OF r(1), of "subpacket_size st"] by blast
  have lr: "length (rest (files st)) = length (whole f0) - offset (files st)" by (simp add: rest_def r(2))
  have off: "offset f = offset (files st) + ?n" "offset f \<le> length (whole f0)" using f(4) lr r(3) by simp_all
  have n: "?n \<le> ZMAXSPLEN" "offset (files st) + ?n \<le> UINT32_MAX"
    using size off assms(2) by (simp_all add: min.coboundedI1 min.coboundedI2)
  let ?st = "st\<lparr>files := f, tx_data_subpacket := overlay ?p (tx_data_subpacket st)\<rparr>"
  have flow: "flows f0 s w ?st"
    using flows_overlay [OF flows_files [OF assms(1) f(2)], of ?p] f(3) r(2) off(2) by simp
  have u: "unat (?wire + word_of_nat ?n) = offset (files st) + ?n"
    using n by (simp flip: of_nat_add add: unat_of_nat take_bit_nat_eq_self del: length_take)
  have uw: "unat ?wire = offset (files st)" using r(3) assms(2) by (simp add: unat_of_nat take_bit_nat_eq_self)
  then have nowrap: "\<not> ?wire + word_of_nat ?n < ?wire" unfolding word_less_nat_alt u by simp
  have take: "take ?n (overlay ?p (tx_data_subpacket st)) = ?p" using overlay_take [of ?p] n(1) ok(1) by simp
  let ?e = "if ?eof then ZCRCE else ZCRCG"
  have e: "frame_end_for plan v (receiver_buffer_size ?st) ?n ?eof (?wire + word_of_nat ?n) = ?e"
    using assms(3-5) ok(2) size by (auto simp: frame_end_for_def continues_def unlimited_def)
  obtain s' where s': "tx_data ?e ?p (protocol ?st) = Some (0, s')"
    "may_send wr fl open_for sent s' (w @ data_wire (protocol ?st) (last_sent (protocol ?st)) ?e ?p)"
    "tx_moved (protocol ?st) s'" using data_sent [of "protocol ?st" w ?p ?e] flow n(1) by (auto simp: flows_def)
  let ?st1 = "?st\<lparr>protocol := s'\<rparr>"
  have flow1: "flows f0 s (w @ data_wire (protocol st) (last_sent (protocol st)) ?e ?p) ?st1"
    using flows_moved [OF flow s'(2,3)] by simp
  have m: "tx_moved s (protocol st)" using assms(1) by (simp add: flows_def)
  have block: "send_block fs fd plan v ?wire st =
      after_block ?e (?wire + word_of_nat ?n) ?n ((wait_each_block plan \<or> synchronize_recovery v) \<and> ?eof) v ?st1"
    using f(1) n(1) size nowrap take e s'(1) assms(4) unfolding send_block_def
    by (simp add: on_protocol_def Let_def del: length_take)
  show ?thesis
  proof (cases ?eof)
    case True
    let ?st2 = "?st1\<lparr>current_file_size := uint (?wire + word_of_nat ?n)\<rparr>"
    have "int (unat (?wire + word_of_nat ?n)) = int (length (whole f0))" using u True lr r(3) by simp
    then have "current_file_size ?st2 = int (length (whole f0))" by simp
    moreover have "flows f0 s (w @ data_wire (protocol st) (last_sent (protocol st)) ZCRCE (rest (files st))) ?st2"
      using flow1 True by (simp add: flows_def sender_ok_def unlimited_def sizes_ok_def)
    ultimately show ?thesis using block True m
      by (intro exI [of _ "protocol st"] exI [of _ ?st2]) (simp add: after_block_def)
  next
    case False
    obtain z where z: "reply_loop (?wire + word_of_nat ?n) (acknowledged_position v) ?st1 =
        Some (Inr (acknowledged_position v), ?st1\<lparr>protocol := z\<rparr>)"
      "flows f0 s (w @ data_wire (protocol st) (last_sent (protocol st)) ZCRCG ?p) (?st1\<lparr>protocol := z\<rparr>)"
      using reply_loop_quiet [OF flow1] False by fastforce
    let ?st2 = "increase_subpacket_size (?st1\<lparr>protocol := z\<rparr>)"
    let ?v = "v\<lparr>segment_sent := segment_sent v + ?n\<rparr>"
    have b: "send_block fs fd plan v ?wire st = Some (Inr (?v\<lparr>acknowledged_position := acknowledged_position v\<rparr>), ?st2)"
      using block False z(1) by (simp add: after_block_def)
    have fl: "files ?st2 = f" by (simp add: increase_subpacket_size_def Let_def)
    have "rest f = drop (subpacket_size st) (rest (files st))" using rest_after [OF f(3,4)] by simp
    then show ?thesis
      using b False m fl flows_increase [OF z(2)] assms(3)
      by (intro exI [of _ "protocol st"] exI [of _ ?st2]) (auto simp: continues_def)
  qed
qed

section \<open>The whole frame\<close>

lemma rest_same: "whole f' = whole f \<Longrightarrow> offset f' = offset f \<Longrightarrow> rest f' = rest f"
  by (simp add: rest_def)

lemma streamed_round:
  assumes "flows f0 s w st" "length (whole f0) \<le> UINT32_MAX" "continues v" "\<not> window_enabled plan"
  shows "\<exists>f. send_round fs fd plan v st = send_block fs fd plan v (word_of_nat (offset f)) (st\<lparr>files := f\<rparr>) \<and>
    flows f0 s w (st\<lparr>files := f\<rparr>) \<and> rest f = rest (files st)"
proof -
  obtain f where f: "checked_position fs fd st = (Inr (word_of_nat (offset (files st))), st\<lparr>files := f\<rparr>)"
    "flows f0 s w (st\<lparr>files := f\<rparr>)" "offset f = offset (files st)"
    using checked_position_flows [OF assms(1,2)] by blast
  have v: "v\<lparr>frame_open := True\<rparr> = v" using assms(3) by (cases v) (simp add: continues_def)
  have "send_round fs fd plan v st = send_block fs fd plan v (word_of_nat (offset f)) (st\<lparr>files := f\<rparr>)"
    using f(1,3) assms(3,4) by (simp add: send_round_def open_frame_def continues_def) (simp only: v)
  moreover have "rest f = rest (files st)" using f(2,3) assms(1) by (simp add: flows_def rest_def)
  ultimately show ?thesis using f(2) by blast
qed

lemma blocks_go_on:
  assumes "flows f0 s w st" "length (whole f0) \<le> UINT32_MAX" "continues v"
    "\<not> window_enabled plan" "\<not> wait_each_block plan"
    and loop: "\<And>v' st' w'. length (rest (files st')) < length (rest (files st)) \<Longrightarrow> flows f0 s w' st' \<Longrightarrow> continues v' \<Longrightarrow>
      \<exists>ps octets st''. send_loop fs fd plan v' st' = Some (uint ZACK, st'') \<and> frame_wire s ps octets \<and>
        concat ps = rest (files st') \<and> flows f0 s (w' @ octets) st'' \<and> current_file_size st'' = int (length (whole f0))"
  shows "\<exists>ps octets st''. Option.bind (send_block fs fd plan v (word_of_nat (offset (files st))) st)
        (\<lambda>(r, st). case r of Inl c \<Rightarrow> Some (c, st) | Inr v \<Rightarrow> send_loop fs fd plan v st) = Some (uint ZACK, st'') \<and>
      frame_wire s ps octets \<and> concat ps = rest (files st) \<and> flows f0 s (w @ octets) st'' \<and>
      current_file_size st'' = int (length (whole f0))"
proof -
  note size = flows_read_size [OF assms(1)]
  obtain s' st' where s': "tx_moved s s'" and b:
    "if length (rest (files st)) < subpacket_size st
     then send_block fs fd plan v (word_of_nat (offset (files st))) st = Some (Inl (uint ZACK), st') \<and>
       flows f0 s (w @ data_wire s' (last_sent s') ZCRCE (rest (files st))) st' \<and>
       current_file_size st' = int (length (whole f0))
     else (\<exists>v'. send_block fs fd plan v (word_of_nat (offset (files st))) st = Some (Inr v', st') \<and> continues v' \<and>
       flows f0 s (w @ data_wire s' (last_sent s') ZCRCG (take (subpacket_size st) (rest (files st)))) st' \<and>
       rest (files st') = drop (subpacket_size st) (rest (files st)))"
    using streamed_block [OF assms(1-5)] by blast
  show ?thesis
  proof (cases "length (rest (files st)) < subpacket_size st")
    case True
    then have "length (rest (files st)) \<le> ZMAXSPLEN" using size [of 0 0 0] by linarith
    from last_block [OF s' this] b True show ?thesis
      by (intro exI [of _ "[rest (files st)]"] exI [of _ "data_wire s' (last_sent s') ZCRCE (rest (files st))"] exI [of _ st']) simp
  next
    case False
    let ?p = "take (subpacket_size st) (rest (files st))"
    obtain v' where v': "send_block fs fd plan v (word_of_nat (offset (files st))) st = Some (Inr v', st')"
      "continues v'" "flows f0 s (w @ data_wire s' (last_sent s') ZCRCG ?p) st'"
      "rest (files st') = drop (subpacket_size st) (rest (files st))" using b False by auto
    have "length (rest (files st')) < length (rest (files st))" using v'(4) False size [of 0 0 0] unfolding v'(4) length_drop by linarith
    then obtain ps octets st'' where l: "send_loop fs fd plan v' st' = Some (uint ZACK, st'')" "frame_wire s ps octets"
      "concat ps = rest (files st')" "flows f0 s ((w @ data_wire s' (last_sent s') ZCRCG ?p) @ octets) st''"
      "current_file_size st'' = int (length (whole f0))" using loop [OF _ v'(3,2)] by blast
    have "length ?p \<le> ZMAXSPLEN" using size by (simp add: min.coboundedI2)
    from next_block [OF s' this l(2)] v'(1,4) l(1,3-5) show ?thesis
      by (intro exI [of _ "?p # ps"] exI [of _ "data_wire s' (last_sent s') ZCRCG ?p @ octets"] exI [of _ st'']) simp
  qed
qed

lemma streamed_loop:
  assumes "length (whole f0) \<le> UINT32_MAX" "\<not> window_enabled plan" "\<not> wait_each_block plan"
  shows "flows f0 s w st \<Longrightarrow> continues v \<Longrightarrow>
    \<exists>ps octets st'. send_loop fs fd plan v st = Some (uint ZACK, st') \<and> frame_wire s ps octets \<and>
      concat ps = rest (files st) \<and> flows f0 s (w @ octets) st' \<and> current_file_size st' = int (length (whole f0))"
proof (induction "length (rest (files st))" arbitrary: v w st rule: less_induct)
  case less
  obtain f where f: "send_round fs fd plan v st = send_block fs fd plan v (word_of_nat (offset f)) (st\<lparr>files := f\<rparr>)"
    "flows f0 s w (st\<lparr>files := f\<rparr>)" "rest f = rest (files st)"
    using streamed_round [OF less.prems(1) assms(1) less.prems(2) assms(2)] by blast
  have "\<exists>ps octets st''. Option.bind (send_block fs fd plan v (word_of_nat (offset (files (st\<lparr>files := f\<rparr>)))) (st\<lparr>files := f\<rparr>))
        (\<lambda>(r, st). case r of Inl c \<Rightarrow> Some (c, st) | Inr v \<Rightarrow> send_loop fs fd plan v st) = Some (uint ZACK, st'') \<and>
      frame_wire s ps octets \<and> concat ps = rest (files (st\<lparr>files := f\<rparr>)) \<and> flows f0 s (w @ octets) st'' \<and>
      current_file_size st'' = int (length (whole f0))"
    by (rule blocks_go_on [OF f(2) assms(1) less.prems(2) assms(2,3)]) (rule less.hyps, simp_all add: f(3))
  then show ?case by (subst send_loop.simps) (simp add: f(1,3))
qed

lemma streamed_from:
  assumes "flows f0 s w st" "length (whole f0) \<le> UINT32_MAX"
  shows "\<exists>s' ps octets st'. send_from fs fd False st = Some (uint ZACK, st') \<and> tx_moved s s' \<and> frame_wire s ps octets \<and>
      concat ps = rest (files st) \<and> current_file_size st' = int (length (whole f0)) \<and>
      flows f0 s (w @ header_wire s' (zmodem_set_header_position [ZDATA, 0, 0, 0, 0]
        (word_of_nat (offset (files st)))) @ octets) st'"
proof -
  have "unlimited st" using assms(1) by (simp add: flows_def)
  note plan = unlimited_plan [OF this]
  obtain f where f: "checked_position fs fd st = (Inr (word_of_nat (offset (files st))), st\<lparr>files := f\<rparr>)"
    "flows f0 s w (st\<lparr>files := f\<rparr>)" "offset f = offset (files st)" using checked_position_flows [OF assms] by blast
  obtain g where g: "checked_position fs fd (st\<lparr>files := f\<rparr>) = (Inr (word_of_nat (offset (files st))), st\<lparr>files := g\<rparr>)"
    "flows f0 s w (st\<lparr>files := g\<rparr>)" "offset g = offset (files st)"
    using checked_position_flows [OF f(2) assms(2)] f(3) by auto
  let ?h = "zmodem_set_header_position [ZDATA, 0, 0, 0, 0] (word_of_nat (offset (files st)))"
  obtain z where z: "tx_header_length ?h (length ?h) (protocol st) = (0, z)"
    "may_send wr fl open_for sent z (w @ header_wire (protocol st) ?h)" "tx_moved (protocol st) z"
    using header_sent [of "protocol st" w ?h] assms(1) by (auto simp: flows_def)
  let ?st = "st\<lparr>files := g, protocol := z\<rparr>" and ?pos = "word_of_nat (offset (files st)) :: u32"
  let ?v = "\<lparr>frame_open = True, acknowledged_position = ?pos, last_ack_request = ?pos, segment_sent = 0,
    synchronize_recovery = False\<rparr>"
  have flow: "flows f0 s (w @ header_wire (protocol st) ?h) ?st" using flows_moved [OF g(2)] z(2,3) by simp
  have r: "rest g = rest (files st)" using g(2,3) assms(1) by (simp add: flows_def rest_def)
  have "\<exists>ps octets st'. Option.bind (send_block fs fd (send_plan_for st) ?v (word_of_nat (offset (files ?st))) ?st)
        (\<lambda>(r, st'). case r of Inl c \<Rightarrow> Some (c, st') | Inr v \<Rightarrow> send_loop fs fd (send_plan_for st) v st') = Some (uint ZACK, st') \<and>
      frame_wire s ps octets \<and> concat ps = rest (files ?st) \<and>
      flows f0 s ((w @ header_wire (protocol st) ?h) @ octets) st' \<and> current_file_size st' = int (length (whole f0))"
    by (rule blocks_go_on [OF flow assms(2)])
       (use plan streamed_loop [OF assms(2)] in \<open>simp_all add: continues_def\<close>)
  then obtain ps octets st' where l: "Option.bind (send_block fs fd (send_plan_for st) ?v (word_of_nat (offset (files ?st))) ?st)
        (\<lambda>(r, st'). case r of Inl c \<Rightarrow> Some (c, st') | Inr v \<Rightarrow> send_loop fs fd (send_plan_for st) v st') = Some (uint ZACK, st')"
    "frame_wire s ps octets" "concat ps = rest (files ?st)"
    "flows f0 s ((w @ header_wire (protocol st) ?h) @ octets) st'" "current_file_size st' = int (length (whole f0))"
    by blast
  have "send_from fs fd False st = Some (uint ZACK, st')"
    using f(1) g(1,3) l(1) plan z(1) unfolding send_from_def
    by (simp add: Let_def, subst send_loop.simps)
       (simp add: send_round_def open_frame_def with_protocol_def tx_header_def numeral_5)
  moreover have "tx_moved s (protocol st)" using assms(1) by (simp add: flows_def)
  ultimately show ?thesis using l(2-5) r by auto
qed

end

end
