(* ===== verification/Zmrx_File.thy ===== *)
theory Zmrx_File
  imports Zmrx
begin

text \<open>
  Receiving one file: \<open>receive_sender_init\<close>, \<open>parse_mdate\<close> and \<open>receive_file\<close> of \<^verbatim>\<open>zmrx.c\<close>. A
  \<^verbatim>\<open>time_t\<close> is a signed integer of 64 bits.
\<close>

definition receive_sender_init :: "('c, 'f) receiver \<Rightarrow> (int \<times> ('c, 'f) receiver) option" where
  "receive_sender_init st =
     (let z = protocol_r st; flags = rxd_header z ! ZF0;
          z = z\<lparr>escape_all_control_characters := flags AND ZF0_TESCCTL \<noteq> 0,
                escape_8th_bit := flags AND ZF0_TESC8 \<noteq> 0\<rparr>
      in do { (result, z, buffer, length, frame_end) \<leftarrow> rx_data (attention_sequence st) ZATTNLEN z;
              let st = st\<lparr>protocol_r := z, attention_sequence := buffer\<rparr>;
              Some (if terminal_receive_result result then (result, st)
                    else if result \<noteq> ZMODEM_END_OF_FRAME \<or> frame_end \<noteq> ZCRCW \<or> length = 0 \<or>
                            find_nul (take length buffer) \<noteq> Some (length - 1)
                    then (let (r, st) = with_protocol_r tx_znak st
                          in (if r = 0 then uint ZNAK else ZMODEM_IO_ERROR, st))
                    else (let (r, st) = with_protocol_r (tx_pos_header ZACK 0) st
                          in (if r = 0 then uint ZACK else ZMODEM_IO_ERROR, st))) })"

definition parse_mdate :: "u8 list \<Rightarrow> int option" where
  "parse_mdate text =
     (let text = dropWhile (\<lambda>c. c = 0x20) text
      in if text \<noteq> [] \<and> hd text = 0x2d then None
         else let (wire_value, erange, end) = strtoumax text 8
              in if end = text then None
                 else if erange then None
                 else if wire_value = 0 then None
                 else if end \<noteq> [] \<and> hd end \<noteq> 0x20 then None
                 else if 2 ^ 63 \<le> wire_value then None
                 else Some (int wire_value))"

section \<open>What the ZFILE frame asks for\<close>

text \<open>Whether a file is protected, overwritten, or overwritten if newer.\<close>

definition management :: "('c, 'f) receiver \<Rightarrow> bool \<times> bool \<times> bool" where
  "management st =
     (let z = protocol_r st; management = rxd_header z ! ZF1 AND ZF1_ZMMASK
      in if management_protect z then (True, False, False)
         else if management = ZF1_ZMPROT then (True, False, False)
         else if management_clobber z then (False, True, False)
         else if management = ZF1_ZMCLOB then (False, True, False)
         else if management_newer z then (False, False, True)
         else if management = ZF1_ZMNEW then (False, False, True)
         else (False, False, False))"

definition select_mobyturbo :: "('c, 'f) receiver \<Rightarrow> bool" where
  "select_mobyturbo st =
     (let z = protocol_r st; m = opt_m_r st;
          m = (if opt_M_r st then False else m);
          m = (if opt_escape_8th_bit st then False else m);
          m = (if \<not> peer_can_variable_headers z then False else m);
          m = (if rxd_header z ! ZF3 AND ZF3_ZMOBY = 0 then False else m)
      in if \<not> mobyturbo_probe_passed z then False else m)"

text \<open>The name in the ZFILE data and where the numbers start. \<open>Inl True\<close> is bad data, \<open>Inl False\<close> a
  name that does not fit.\<close>

definition file_name :: "u8 list \<Rightarrow> bool + string \<times> u8 list" where
  "file_name info =
     (if length info < 2 then Inl True
      else if info ! (length info - 1) \<noteq> 0 then Inl True
      else case find_nul (take (length info - 1) info) of
          None \<Rightarrow> Inl True
        | Some n \<Rightarrow>
            if n = 0 then Inl True
            else if FILENAME_CAPACITY \<le> n then Inl False
            else Inr (string_of (take n info), cstring_at (n + 1) info))"

definition junk_path :: "string \<Rightarrow> string" where
  "junk_path name = rev (takeWhile (\<lambda>c. c \<noteq> CHR ''/'') (rev name))"

text \<open>The size and the date of the file, where the text has them.\<close>

definition parse_numbers :: "u8 list \<Rightarrow> nat option \<times> int option" where
  "parse_numbers metadata =
     (let size_field = dropWhile (\<lambda>c. c = 0x20) metadata;
          (parsed_size, erange, end) = strtoumax size_field 10;
          date_field = (if size_field \<noteq> [] then end else size_field);
          valid_size = (hd size_field \<noteq> 0x2d);
          valid_size = (if date_field = size_field then False else valid_size);
          valid_size = (if erange then False else valid_size);
          valid_size = (if date_field \<noteq> [] \<and> hd date_field \<noteq> 0x20 then False else valid_size)
      in (if size_field \<noteq> [] \<and> valid_size then Some parsed_size else None,
          if date_field \<noteq> [] \<and> hd date_field = 0x20 then parse_mdate (tl date_field) else None))"

text \<open>The mode to open the file with, \<open>None\<close> to skip it. \<open>existing\<close> is what \<^verbatim>\<open>stat\<close> found.\<close>

definition open_mode :: "stat option \<Rightarrow> int option \<Rightarrow> nat option \<Rightarrow> bool \<times> bool \<times> bool \<Rightarrow> string option" where
  "open_mode existing date bytes manage =
     (case existing of None \<Rightarrow> Some ''wb''
      | Some s \<Rightarrow>
          let (protect, clobber, newer) = manage;
              recover = (date \<noteq> None);
              recover = (if recover then (if the date \<noteq> st_mtime s then False else recover) else recover);
              recover = (if recover then (if st_size s < 0 then False else recover) else recover);
              recover = (if recover then (if int UINT32_MAX < st_size s then False else recover) else recover);
              recover = (if recover then
                  (if bytes \<noteq> None then (if int (the bytes) < st_size s then False else recover) else recover)
                  else recover)
          in if recover then Some ''ab''
             else if protect then None
             else if \<not> clobber \<and> newer \<and> (date = None \<or> the date \<le> st_mtime s) then None
             else Some ''wb'')"

section \<open>One file\<close>

definition open_received ::
  "'f stdio_calls \<Rightarrow> string \<Rightarrow> string \<Rightarrow> bool \<Rightarrow> ('c, 'f) receiver \<Rightarrow> nat option \<times> ('c, 'f) receiver" where
  "open_received fs name mode create_exclusively st =
     (if create_exclusively then
        (let (fd, st) = with_files (s_create fs name) st
         in if 0 \<le> fd then
              (let (file, st) = with_files (s_fdopen fs fd mode) st
               in case file of None \<Rightarrow> let (r, st) = with_files (s_close fs fd) st in (None, st)
                  | Some h \<Rightarrow> (Some h, st))
            else (None, st))
      else with_files (s_fopen fs name mode) st)"

definition skip_file :: "('c, 'f) receiver \<Rightarrow> receive_result \<times> ('c, 'f) receiver" where
  "skip_file st = (RECEIVE_SKIPPED, snd (with_protocol_r (tx_pos_header ZSKIP 0) st))"

definition retry_file :: "('c, 'f) receiver \<Rightarrow> receive_result \<times> ('c, 'f) receiver" where
  "retry_file st = (RECEIVE_RETRY, snd (with_protocol_r tx_znak st))"

text \<open>Giving up: ZFERR, the file closed, reported. Some failures report before \<^verbatim>\<open>fclose\<close>, which nothing shows.\<close>

definition abandon_file ::
  "'f stdio_calls \<Rightarrow> u32 option \<Rightarrow> nat \<Rightarrow> ('c, 'f) receiver \<Rightarrow> receive_result \<times> ('c, 'f) receiver" where
  "abandon_file fs position file st =
     (let st = (case position of None \<Rightarrow> st | Some p \<Rightarrow> snd (with_protocol_r (tx_pos_header ZFERR p) st));
          (r, st) = with_files (s_fclose fs file) st
      in (RECEIVE_FAILED, report_receiver (st\<lparr>fp := None\<rparr>)))"

text \<open>From an open file to the result: the data, the flush, the close, the time of the file.\<close>

definition finish_file ::
  "'f stdio_calls \<Rightarrow> nat \<Rightarrow> int \<Rightarrow> ('c, 'f) receiver \<Rightarrow> receive_result \<times> ('c, 'f) receiver" where
  "finish_file fs file type st =
     (if type \<noteq> uint ZEOF then abandon_file fs (if type \<noteq> uint ZFERR then Some 0 else None) file st
      else let (position, st) = with_files (file_position_r fs (Some file)) st
           in case position of None \<Rightarrow> abandon_file fs (Some 0) file st
              | Some position \<Rightarrow>
                  (let (r, st) = with_files (s_fflush fs file) st
                   in if r \<noteq> 0 then abandon_file fs (Some position) file st
                      else let (r, st) = with_files (s_fclose fs file) st; st = st\<lparr>fp := None\<rparr>
                           in if r \<noteq> 0 then (RECEIVE_FAILED,
                                report_receiver (snd (with_protocol_r (tx_pos_header ZFERR position) st)))
                              else if mdate_known st
                              then (RECEIVE_SUCCEEDED, snd (with_files (s_utime fs (name_r st) (mdate st)) st))
                              else (RECEIVE_SUCCEEDED, st)))"

text \<open>The decision on a file whose name and numbers are known, and its transfer.\<close>

definition transfer_file ::
  "'f stdio_calls \<Rightarrow> bool \<times> bool \<times> bool \<Rightarrow> ('c, 'f) receiver \<Rightarrow> (receive_result \<times> ('c, 'f) receiver) option" where
  "transfer_file fs manage st =
     (let name = name_r st; (r, e, s, f) = s_stat fs name (files_r st); st = st\<lparr>files_r := f\<rparr>
      in if r \<noteq> 0 \<and> e \<noteq> ENOENT then
           Some (RECEIVE_FAILED, report_receiver (snd (with_protocol_r (tx_pos_header ZFERR 0) st)))
         else let existing = (if r = 0 then Some s else None)
              in case open_mode existing (if mdate_known st then Some (mdate st) else None)
                    (if current_file_size_known st then Some (current_file_size_r st) else None) manage of
                   None \<Rightarrow> Some (skip_file st)
                 | Some mode \<Rightarrow>
                     (let (file, st) = open_received fs name mode (existing = None \<and> fst manage) st;
                          st = st\<lparr>fp := file\<rparr>
                      in case file of
                           None \<Rightarrow> Some (RECEIVE_FAILED,
                                     report_receiver (snd (with_protocol_r (tx_pos_header ZFERR 0) st)))
                         | Some h \<Rightarrow> do { (type, st) \<leftarrow> receive_file_data fs h st;
                                         Some (finish_file fs h type st) }))"

definition receive_file :: "'f stdio_calls \<Rightarrow> ('c, 'f) receiver \<Rightarrow> (receive_result \<times> ('c, 'f) receiver) option" where
  "receive_file fs st =
     (let z = protocol_r st;
          st = st\<lparr>receive_error_reported := False, extended_zrpos_sent := False,
                  protocol_r := z\<lparr>peer_can_variable_headers := rxd_header z ! ZF3 AND ZF3_ZCANVHDR \<noteq> 0\<rparr>\<rparr>;
          st = st\<lparr>current_mobyturbo := select_mobyturbo st, mdate_known := False, current_file_size_r := 0,
                  current_file_size_known := False\<rparr>;
          manage = management st
      in do { (type, l, frame_end, st) \<leftarrow> receive_subpacket st;
              if terminal_receive_result type then Some (RECEIVE_FAILED, report_receiver st)
              else if type \<noteq> ZMODEM_END_OF_FRAME then
                Some (if type \<noteq> ZMODEM_TIMEOUT then retry_file st else (RECEIVE_RETRY, st))
              else if frame_end \<noteq> ZCRCW then Some (retry_file st)
              else case file_name (take l (rx_data_subpacket st)) of
                  Inl bad \<Rightarrow> Some (if bad then retry_file st else skip_file st)
                | Inr (path, metadata) \<Rightarrow> do {
                    let name = (if junk_pathnames st then junk_path path else path);
                    let st = st\<lparr>filename := path, name_r := name\<rparr>;
                    if name = [] then Some (skip_file st)
                    else do {
                      let (size, date) = parse_numbers metadata;
                      let st = (case size of None \<Rightarrow> st
                        | Some n \<Rightarrow> st\<lparr>current_file_size_r := n, current_file_size_known := True\<rparr>);
                      let st = (case date of None \<Rightarrow> st | Some d \<Rightarrow> st\<lparr>mdate := d, mdate_known := True\<rparr>);
                      transfer_file fs manage st } } })"

end
