(* ===== verification/Zmrx_Main.thy ===== *)
theory Zmrx_Main
  imports Zmrx_File
begin

text \<open>
  The receiver program: \<open>cleanup\<close>, \<open>usage\<close> and \<open>main\<close> of \<^verbatim>\<open>zmrx.c\<close> on the POSIX adapter, whose state
  is the context of the protocol's callbacks.
\<close>

type_synonym ('k, 'f) zmrx = "('k posix, 'f) receiver"

definition plat_r :: "('k, 'f) zmrx \<Rightarrow> plat_io" where
  "plat_r st = fst (io_context (io (protocol_r st)))"

definition on_posix_r :: "('k posix \<Rightarrow> int \<times> 'k posix) \<Rightarrow> ('k, 'f) zmrx \<Rightarrow> int \<times> ('k, 'f) zmrx" where
  "on_posix_r g st =
     (let (r, c) = g (io_context (io (protocol_r st))) in (r, st\<lparr>protocol_r := set_context c (protocol_r st)\<rparr>))"

text \<open>A file that is still open is flushed and closed, and gets its time, so that recovery can find it.\<close>

definition close_unfinished :: "'f stdio_calls \<Rightarrow> ('c, 'f) receiver \<Rightarrow> ('c, 'f) receiver" where
  "close_unfinished fs st =
     (case fp st of None \<Rightarrow> st
      | Some h \<Rightarrow>
          let (r, st) = with_files (s_fflush fs h) st; (r, st) = with_files (s_fclose fs h) st
          in if mdate_known st then snd (with_files (s_utime fs (name_r st) (mdate st)) st) else st)"

definition cleanup_r :: "'k kernel \<Rightarrow> 'f stdio_calls \<Rightarrow> int \<Rightarrow> ('k, 'f) zmrx \<Rightarrow> (int \<times> ('k, 'f) zmrx) option" where
  "cleanup_r ops fs status st =
     (let st = close_unfinished fs st
      in do { (r, c) \<leftarrow> zmodem_plat_io_close ops (io_context (io (protocol_r st)));
              let st = st\<lparr>protocol_r := set_context c (protocol_r st)\<rparr>;
              Some (if r \<noteq> 0 \<and> status = 0 then 5 else status, st) })"

definition usage_r :: "'k kernel \<Rightarrow> 'f stdio_calls \<Rightarrow> ('k, 'f) zmrx \<Rightarrow> (int \<times> ('k, 'f) zmrx) option" where
  "usage_r ops fs st = cleanup_r ops fs 1 st"

section \<open>Options\<close>

definition receiver_option :: "char \<Rightarrow> ('k, 'f) zmrx \<Rightarrow> ('k, 'f) zmrx option" where
  "receiver_option raw st =
     (let letter = toupper raw; z = protocol_r st
      in if raw = CHR ''m'' then Some (st\<lparr>opt_m_r := True\<rparr>)
         else if raw = CHR ''M'' then Some (st\<lparr>opt_M_r := True\<rparr>)
         else if raw = CHR ''7'' then Some (st\<lparr>opt_pack7 := True, opt_escape_8th_bit := True\<rparr>)
         else if letter = CHR ''B'' then Some (st\<lparr>opt_escape_8th_bit := True\<rparr>)
         else if letter = CHR ''D'' \<or> letter = CHR ''V'' \<or> letter = CHR ''Q'' then Some st
         else if letter = CHR ''S'' then Some (st\<lparr>opt_s_r := True\<rparr>)
         else if letter = CHR ''E'' then Some (st\<lparr>opt_escape_control := True\<rparr>)
         else if letter = CHR ''N'' then Some (st\<lparr>protocol_r := z\<lparr>management_newer := True\<rparr>\<rparr>)
         else if letter = CHR ''O'' then Some (st\<lparr>protocol_r := z\<lparr>management_clobber := True\<rparr>\<rparr>)
         else if letter = CHR ''P'' then Some (st\<lparr>protocol_r := z\<lparr>management_protect := True\<rparr>\<rparr>)
         else if letter = CHR ''J'' then Some (st\<lparr>junk_pathnames := True\<rparr>)
         else None)"

definition with_plat_r :: "plat_io \<Rightarrow> ('k, 'f) zmrx \<Rightarrow> ('k, 'f) zmrx" where
  "with_plat_r p st = snd (on_posix_r (\<lambda>(_, k). (0, (p, k))) st)"

function parse_argument_r :: "string \<Rightarrow> nat \<Rightarrow> ('k, 'f) zmrx \<Rightarrow> bool \<times> ('k, 'f) zmrx" where
  "parse_argument_r argument i st =
     (if length argument \<le> i then (True, st)
      else case zmodem_plat_parse_option (plat_r st) argument i of
          (ZMODEM_PLAT_OPTION_INVALID, p, j) \<Rightarrow> (False, with_plat_r p st)
        | (ZMODEM_PLAT_OPTION_ACCEPTED, p, j) \<Rightarrow> parse_argument_r argument (j + 1) (with_plat_r p st)
        | (ZMODEM_PLAT_OPTION_NOT_HANDLED, p, j) \<Rightarrow>
            (case receiver_option (argument ! j) (with_plat_r p st) of
               None \<Rightarrow> (False, with_plat_r p st)
             | Some st \<Rightarrow> parse_argument_r argument (j + 1) st))"
  by pat_completeness auto
termination
  by (relation "measure (\<lambda>(argument, i, st). length argument - i)")
     (auto simp: zmodem_plat_parse_option_def split: if_splits)

declare parse_argument_r.simps [simp del]

fun parse_arguments_r :: "string list \<Rightarrow> ('k, 'f) zmrx \<Rightarrow> bool \<times> string list \<times> ('k, 'f) zmrx" where
  "parse_arguments_r [] st = (True, [], st)"
| "parse_arguments_r (a # args) st =
     (if a \<noteq> [] \<and> hd a = CHR ''-'' then
        (let (ok, st) = parse_argument_r a 1 st
         in if ok then parse_arguments_r args st else (False, [], st))
      else (True, a # args, st))"

definition bad_options :: "string list \<Rightarrow> ('c, 'f) receiver \<Rightarrow> bool" where
  "bad_options operands st \<longleftrightarrow>
     (let z = protocol_r st
      in of_bool (management_newer z) + of_bool (management_clobber z) + of_bool (management_protect z) > (1 :: nat)) \<or>
     operands \<noteq> []"

section \<open>Contact and files\<close>

text \<open>At most ten invitations: \<open>None\<close> in the result is an output error or no contact, else the type
  received.\<close>

fun invite_loop :: "nat \<Rightarrow> ('c, 'f) receiver \<Rightarrow> (int option \<times> ('c, 'f) receiver) option" where
  "invite_loop 0 st = Some (None, st)"
| "invite_loop (Suc k) st =
     (let (r, st) = tx_zrinit st
      in if r \<noteq> 0 then Some (None, st)
         else do { (type, st) \<leftarrow> on_protocol_r (rx_header 7000) st;
                   if type = ZMODEM_TIMEOUT \<or> type = uint ZRQINIT then invite_loop k st
                   else Some (Some type, st) })"

text \<open>What a header asks for: \<open>None\<close> is a failed session, else whether to invite.\<close>

definition serve_header ::
  "'f stdio_calls \<Rightarrow> int \<Rightarrow> ('c, 'f) receiver \<Rightarrow> (bool option \<times> ('c, 'f) receiver) option" where
  "serve_header fs type st =
     (if type < 0 then Some (None, report_receiver st)
      else if type = uint ZSINIT then
        do { (result, st) \<leftarrow> receive_sender_init st;
             Some (if result < 0 then (None, report_receiver st) else (Some False, st)) }
      else if type = uint ZFILE then
        do { (result, st) \<leftarrow> receive_file fs st;
             Some (if result = RECEIVE_FAILED
                   then (None, if \<not> receive_error_reported st then report_receiver st else st)
                   else (Some (result = RECEIVE_SUCCEEDED), st)) }
      else if type = uint ZRQINIT \<or> type = uint ZEOF then Some (Some True, st)
      else let (r, st) = with_protocol_r (tx_pos_header ZCOMPL 0) st
           in Some (if r \<noteq> 0 then (None, report_receiver st) else (Some False, st)))"

text \<open>The next header: whether the session failed, and the type.\<close>

fun next_header_loop ::
  "nat \<Rightarrow> bool \<Rightarrow> ('c, 'f) receiver \<Rightarrow> (bool \<times> int \<times> ('c, 'f) receiver) option" where
  "next_header_loop 0 invite st = Some (True, ZMODEM_TIMEOUT, report_receiver st)"
| "next_header_loop (Suc k) invite st =
     (let (r, st) = (if invite then tx_zrinit st else (0, st))
      in if r \<noteq> 0 then Some (True, ZMODEM_TIMEOUT, report_receiver st)
         else do { (type, st) \<leftarrow> on_protocol_r (rx_header 7000) st;
                   if type \<noteq> ZMODEM_TIMEOUT then Some (False, type, st) else next_header_loop k True st })"

text \<open>
  When an invitation cannot be sent, the C loop leaves the type of the last header, a timeout,
  and so fails as well.
\<close>

partial_function (option) files_loop ::
  "'f stdio_calls \<Rightarrow> int \<Rightarrow> ('c, 'f) receiver \<Rightarrow> (bool \<times> ('c, 'f) receiver) option" where
  "files_loop fs type st =
     (if type = uint ZFIN then Some (False, st)
      else do { (invite, st) \<leftarrow> serve_header fs type st;
                case invite of None \<Rightarrow> Some (True, st)
                | Some invite \<Rightarrow> do {
                    (failed, type, st) \<leftarrow> next_header_loop MAX_RETRIES_r invite st;
                    if failed then Some (True, st) else files_loop fs type st } })"

section \<open>The end of the session\<close>

partial_function (option) await_letter ::
  "('c, 'f) receiver \<Rightarrow> (int \<times> ('c, 'f) receiver) option" where
  "await_letter st =
     do { (c, st) \<leftarrow> on_protocol_r (rx_raw 1000) st;
          let c = (if 0 \<le> c \<and> opt_escape_8th_bit st then c AND 0x7f else c);
          if 0 \<le> c \<and> c \<noteq> of_char (CHR ''O'') then await_letter st else Some (c, st) }"

definition close_session_r :: "bool \<Rightarrow> ('c, 'f) receiver \<Rightarrow> (bool \<times> ('c, 'f) receiver) option" where
  "close_session_r transfer_failed st =
     (let (r, st) = with_protocol_r (tx_hex_header [ZFIN, 0, 0, 0, 0]) st;
          st = (if r \<noteq> 0 \<and> \<not> transfer_failed then report_receiver st else st);
          transfer_failed = (transfer_failed \<or> r \<noteq> 0)
      in do { (c, st) \<leftarrow> await_letter st;
              (c, st) \<leftarrow> (if c = of_char (CHR ''O'') then await_letter st else Some (c, st));
              Some (if c \<noteq> of_char (CHR ''O'') then (True, if transfer_failed then st else report_receiver st)
                    else (transfer_failed, st)) })"

section \<open>The program\<close>

definition receive_session :: "'k kernel \<Rightarrow> 'f stdio_calls \<Rightarrow> ('k, 'f) zmrx \<Rightarrow> (int \<times> ('k, 'f) zmrx) option" where
  "receive_session ops fs st =
     (let (r, st) = with_protocol_r rx_purge st
      in if r \<noteq> ZMODEM_OK then cleanup_r ops fs 3 st
         else do {
           (type, st) \<leftarrow> invite_loop 10 st;
           case type of None \<Rightarrow> cleanup_r ops fs 3 st
           | Some type \<Rightarrow>
               if type < 0 then cleanup_r ops fs 3 (report_receiver st)
               else do {
                 (transfer_failed, st) \<leftarrow> files_loop fs type st;
                 (transfer_failed, st) \<leftarrow> close_session_r transfer_failed st;
                 cleanup_r ops fs (if transfer_failed then 4 else 0) st } })"

definition zmrx_statics :: "'c zmodem \<Rightarrow> 'f \<Rightarrow> ('c, 'f) receiver" where
  "zmrx_statics z f =
     \<lparr>protocol_r = z, files_r = f, fp = None, mdate = 0, mdate_known = False, filename = [], name_r = [],
      opt_s_r = False, opt_m_r = False, opt_M_r = False, opt_escape_control = False, opt_escape_8th_bit = False,
      opt_pack7 = False, junk_pathnames = False, rx_data_subpacket = replicate ZMAXSPLEN 0,
      attention_sequence = replicate ZATTNLEN 0, current_file_size_r = 0, current_file_size_known = False,
      receive_error_reported = False, current_mobyturbo = False, extended_zrpos_sent = False\<rparr>"

definition zmrx_main ::
  "'k kernel \<Rightarrow> 'f stdio_calls \<Rightarrow> string list \<Rightarrow> plat_io \<Rightarrow> 'k \<Rightarrow> 'k posix zmodem \<Rightarrow> 'f \<Rightarrow>
   (int \<times> ('k, 'f) zmrx) option" where
  "zmrx_main ops fs args p k z f =
     (let i = zmodem_plat_io_bind ops (zmodem_plat_io_init p 0 1, k)
      in case zmodem_init (Some z) (Some \<lparr>p_context = io_context i, p_read = Some (io_read i),
             p_write = Some (io_write i), p_flush = Some (io_flush i), p_poll = Some (io_poll i),
             p_purge = Some (io_purge i)\<rparr>) of
           (r, None) \<Rightarrow> None
         | (r, Some z) \<Rightarrow>
             (let st = zmrx_statics z f
              in if r \<noteq> ZMODEM_OK then Some (2, st)
                 else let (ok, operands, st) = parse_arguments_r args st
                      in if \<not> ok then usage_r ops fs st
                         else if bad_options operands st then usage_r ops fs st
                         else let (r, st) = on_posix_r (zmodem_plat_post_parse ops) st
                              in if r \<noteq> 0 then cleanup_r ops fs r st
                                 else receive_session ops fs
                                   (st\<lparr>protocol_r := (protocol_r st)\<lparr>escape_iac := False\<rparr>\<rparr>)))"

end
