(* ===== verification/Zmrx_Correct.thy ===== *)
theory Zmrx_Correct
  imports Zmrx_Main Exchange Disk
begin

text \<open>
  Properties of the receiver: what may happen to a file that exists, and what is in the file when
  its end is reported. \<open>file_store\<close> is the interface to the files: a stream that grows at its end.
\<close>

declare split_paired_Ex [simp del] split_paired_All [simp del]

section \<open>What leaves the files alone\<close>

lemma with_protocol_files: "with_protocol_r g st = (r, st') \<Longrightarrow> files_r st' = files_r st \<and> fp st' = fp st"
  by (auto simp: with_protocol_r_def split: prod.splits)

lemma snd_with_protocol_files [simp]: "files_r (snd (with_protocol_r g st)) = files_r st"
  by (simp add: with_protocol_r_def split: prod.splits)

lemma on_protocol_files: "on_protocol_r g st = Some (r, st') \<Longrightarrow> files_r st' = files_r st"
  by (auto simp: on_protocol_r_def split: Option.bind_splits)

lemma report_files [simp]: "files_r (report_receiver st) = files_r st"
  by (simp add: report_receiver_def)

lemma zrpos_files: "tx_zrpos pos st = (r, st') \<Longrightarrow> files_r st' = files_r st"
  by (auto simp: tx_zrpos_def Let_def dest: with_protocol_files split: if_splits prod.splits)

lemma subpacket_files: "receive_subpacket st = Some (type, n, e, st') \<Longrightarrow> files_r st' = files_r st"
  by (auto simp: receive_subpacket_def split: Option.bind_splits)

lemma subpacket_result:
  assumes "receive_subpacket st = Some (type, n, e, st')"
  shows "type = ZMODEM_FRAME_OK \<or> type = ZMODEM_END_OF_FRAME \<or> type < 0"
proof -
  obtain z buffer where "rx_data (rx_data_subpacket st) ZMAXSPLEN (protocol_r st) = Some (type, z, buffer, n, e)"
    using assms by (auto simp: receive_subpacket_def split: Option.bind_splits)
  then show ?thesis
    by (auto simp: rx_data_def Let_def split: Option.bind_splits if_splits)
qed

lemma refuse_files [simp]: "fst (refuse_data pos st) = Inl (uint ZFERR)" "files_r (snd (refuse_data pos st)) = files_r st"
  by (simp_all add: refuse_data_def)

lemma eof_not_ferr: "uint ZEOF \<noteq> uint ZFERR"
  by simp

lemma reject_files:
  "reject_data type pos errors st = (r, st') \<Longrightarrow>
   files_r st' = files_r st \<and> (\<forall>p. r = Inr p \<longrightarrow> fst p = pos) \<and> (\<forall>c. r = Inl c \<longrightarrow> c = type \<or> c = ZMODEM_IO_ERROR)"
  by (auto simp: reject_data_def Let_def dest!: with_protocol_files zrpos_files split: if_splits prod.splits)

section \<open>The stream\<close>

locale file_store =
  fixes fs :: "'f stdio_calls" and h :: nat and good :: "'f \<Rightarrow> bool" and contents :: "'f \<Rightarrow> u8 list"
  assumes tells: "good f \<Longrightarrow> s_ftello fs h f = (r, f') \<Longrightarrow>
      good f' \<and> contents f' = contents f \<and> (r < 0 \<or> r = int (length (contents f)))"
    and writes: "good f \<Longrightarrow> s_fwrite fs bs h f = (n, f') \<Longrightarrow>
      good f' \<and> n \<le> length bs \<and> contents f' = contents f @ take n bs"
begin

text \<open>The receiver's position is the length of the file.\<close>

definition stored_at :: "u32 \<Rightarrow> ('c, 'f) receiver \<Rightarrow> bool" where
  "stored_at pos st \<longleftrightarrow> good (files_r st) \<and> length (contents (files_r st)) = unat pos"

definition extends :: "'f \<Rightarrow> 'f \<Rightarrow> bool" where
  "extends f f' \<longleftrightarrow> (\<exists>data. contents f' = contents f @ data)"

lemma extends_refl [simp]: "extends f f"
  by (simp add: extends_def)

lemma extends_trans: "extends f f' \<Longrightarrow> extends f' f'' \<Longrightarrow> extends f f''"
  by (auto simp: extends_def)

lemma position_returns:
  assumes "file_position_r fs (Some h) f = (p, f')" "good f"
  shows "good f' \<and> contents f' = contents f \<and>
    (\<forall>pos. p = Some pos \<longrightarrow> length (contents f) = unat pos)"
proof -
  obtain r f1 where t: "s_ftello fs h f = (r, f1)" by fastforce
  note s = tells [OF assms(2) t]
  have "unat (word_of_int r :: u32) = nat r" if "0 \<le> r" "\<not> int UINT32_MAX < r"
  proof -
    have "uint (word_of_int r :: u32) = r" using that by (simp add: uint_word_of_int take_bit_int_eq_self)
    then show ?thesis by (simp flip: nat_uint_eq)
  qed
  then show ?thesis using assms(1) s by (auto simp: file_position_r_def t split: if_splits)
qed

lemma store_data_extends:
  assumes "store_data fs h pos n e st = (r, st')" "stored_at pos st"
  shows "good (files_r st') \<and> extends (files_r st) (files_r st') \<and> r \<noteq> Inl (uint ZEOF) \<and>
    (\<forall>pos'. r = Inr pos' \<longrightarrow> stored_at pos' st' \<and>
       contents (files_r st') = contents (files_r st) @ take n (rx_data_subpacket st))"
proof -
  have g: "good (files_r st)" "length (contents (files_r st)) = unat pos" using assms(2) by (simp_all add: stored_at_def)
  have refused: ?thesis if "(r, st') = refuse_data pos st1" "good (files_r st1)" "extends (files_r st) (files_r st1)" for st1
    using that refuse_files [of pos st1] by (metis extends_def fst_conv snd_conv sum.distinct(1) sum.inject(1) eof_not_ferr)
  show ?thesis
  proof (cases "UINT32_MAX < n \<or> pos + word_of_nat n < pos")
    case True
    then have "store_data fs h pos n e st = refuse_data pos st"
      by (cases "UINT32_MAX < n") (simp_all add: store_data_def)
    then show ?thesis using assms(1) g by (intro refused [of st]) simp_all
  next
    case fits: False
    let ?bs = "take n (rx_data_subpacket st)"
    obtain w f1 where w: "s_fwrite fs ?bs h (files_r st) = (w, f1)" by fastforce
    have f1: "good f1" "w \<le> length ?bs" "contents f1 = contents (files_r st) @ take w ?bs"
      using writes [OF g(1) w] by simp_all
    let ?st1 = "st\<lparr>files_r := f1\<rparr>"
    show ?thesis
    proof (cases "w = n")
      case False
      then show ?thesis
        using assms(1) fits w f1 by (intro refused [of ?st1]) (simp_all add: store_data_def with_files_def extends_def)
    next
      case True
      have c1: "contents f1 = contents (files_r st) @ ?bs" using f1(2,3) True by simp
      obtain p f2 where p: "file_position_r fs (Some h) f1 = (p, f2)" by fastforce
      note f2 = position_returns [OF p f1(1)]
      let ?st2 = "st\<lparr>files_r := f2\<rparr>"
      have x: "extends (files_r st) f2" using f2 c1 by (auto simp: extends_def)
      show ?thesis
      proof (cases "p = Some (pos + word_of_nat n)")
        case False
        then show ?thesis
          using assms(1) fits w True p f2 x
          by (intro refused [of ?st2]) (auto simp: store_data_def with_files_def split: option.splits)
      next
        case pos: True
        have at: "stored_at (pos + word_of_nat n) st'" "contents (files_r st') = contents (files_r st) @ ?bs"
          if "files_r st' = f2"
          using f2 pos c1 that by (simp_all add: stored_at_def)
        obtain q st3 where a: "with_protocol_r (tx_pos_header ZACK (pos + word_of_nat n)) ?st2 = (q, st3)" by fastforce
        have s3: "files_r st3 = f2" using with_protocol_files [OF a] by simp
        have "(r, st') = (if e = ZCRCQ \<or> e = ZCRCW then
            (if q \<noteq> 0 then (Inl (uint ZFERR), report_receiver st3) else (Inr (pos + word_of_nat n), st3))
            else (Inr (pos + word_of_nat n), ?st2))"
          using assms(1) fits w True p pos a by (auto simp: store_data_def with_files_def split: if_splits)
        then show ?thesis using at s3 f2 x by (auto split: if_splits)
      qed
    qed
  qed
qed

text \<open>The rounds of \<open>receive_file_data\<close>; ZEOF is reported at the end of the file only.\<close>

definition ended_well :: "'f \<Rightarrow> int \<times> ('c, 'f) receiver \<Rightarrow> bool" where
  "ended_well f0 y \<longleftrightarrow> good (files_r (snd y)) \<and> extends f0 (files_r (snd y)) \<and>
     (fst y = uint ZEOF \<longrightarrow> stored_at (zmodem_header_position (rxd_header (protocol_r (snd y)))) (snd y))"

definition round_well :: "'f \<Rightarrow> (int + u32 \<times> nat) \<times> ('c, 'f) receiver \<Rightarrow> bool" where
  "round_well f0 y \<longleftrightarrow> (case fst y of Inl c \<Rightarrow> ended_well f0 (c, snd y)
     | Inr p \<Rightarrow> stored_at (fst p) (snd y) \<and> extends f0 (files_r (snd y)))"

lemma ended_other: "good (files_r st) \<Longrightarrow> extends f0 (files_r st) \<Longrightarrow> c \<noteq> uint ZEOF \<Longrightarrow> round_well f0 (Inl c, st)"
  by (simp add: round_well_def ended_well_def)

lemma round_goes_on: "stored_at pos st \<Longrightarrow> extends f0 (files_r st) \<Longrightarrow> round_well f0 (Inr (pos, k), st)"
  by (simp add: round_well_def)

lemma stored_good: "stored_at pos st \<Longrightarrow> good (files_r st)"
  by (simp add: stored_at_def)

lemma stored_files: "files_r st' = files_r st \<Longrightarrow> stored_at pos st' = stored_at pos st"
  by (simp add: stored_at_def)

lemma reject_well:
  assumes "reject_data type pos errors st = (r, st')" "stored_at pos st" "extends f0 (files_r st)" "type < 0"
  shows "round_well f0 (r, st')"
proof -
  note f = reject_files [OF assms(1)]
  show ?thesis
  proof (cases r)
    case (Inl c)
    then show ?thesis using f assms(2-4) by (auto simp: stored_at_def intro!: ended_other)
  next
    case (Inr p)
    then show ?thesis using f assms(2,3) stored_files [of st' st pos] by (cases p) (auto intro!: round_goes_on)
  qed
qed

lemma frame_loop_well:
  assumes "frame_loop fs' h' pos errors st = Some y" "fs' = fs" "h' = h"
  shows "stored_at pos st \<Longrightarrow> extends f0 (files_r st) \<Longrightarrow> round_well f0 y"
  using assms
proof (induction rule: frame_loop.raw_induct [rotated, consumes 1, case_names step])
  case (step loop fs' h' pos errors st y)
  obtain type n e st1 where r: "receive_subpacket st = Some (type, n, e, st1)"
    using step(2) by (cases "receive_subpacket st") auto
  have f: "files_r st1 = files_r st" using subpacket_files [OF r] .
  note at = step(3) [folded stored_files [OF f]] and ext = step(4) [folded f]
  show ?case
  proof (cases "type = ZMODEM_FRAME_OK \<or> type = ZMODEM_END_OF_FRAME")
    case True
    then have t: "\<not> terminal_receive_result type" by (auto simp: terminal_receive_result_def)
    obtain q st2 where s: "store_data fs h pos n e st1 = (q, st2)" by fastforce
    note w = store_data_extends [OF s at]
    have x: "extends f0 (files_r st2)" using w extends_trans [OF ext] by blast
    show ?thesis
    proof (cases q)
      case (Inl c)
      then have "y = (Inl c, st2)" using step(2,5,6) r True t s by auto
      then show ?thesis using w x Inl by (auto intro!: ended_other)
    next
      case (Inr pos')
      then have a: "stored_at pos' st2" using w by simp
      show ?thesis
      proof (cases "type = ZMODEM_FRAME_OK")
        case True
        then have "loop fs h pos' 0 st2 = Some y" using step(2,5,6) r t s Inr by auto
        then show ?thesis using step(1) [OF _ a x refl refl] step(5,6) by simp
      next
        case False
        then have "y = (Inr (pos', 0), st2)" using step(2,5,6) r True t s Inr by auto
        then show ?thesis using a x by (simp add: round_goes_on)
      qed
    qed
  next
    case bad: False
    show ?thesis
    proof (cases "terminal_receive_result type")
      case True
      then have "y = (Inl type, st1)" using step(2) r by simp
      then show ?thesis using True stored_good [OF at] ext
        by (auto simp: terminal_receive_result_def intro!: ended_other)
    next
      case False
      then have y: "y = reject_data type pos errors st1" using step(2) r bad by simp
      have "type < 0" using subpacket_result [OF r] bad by auto
      then show ?thesis using reject_well [of type pos errors st1 _ _ f0] at ext
        by (cases "reject_data type pos errors st1") (simp add: y)
    qed
  qed
qed

lemma zrpos_well:
  assumes "tx_zrpos pos st = (r, st')" "stored_at pos st" "extends f0 (files_r st)" "c \<noteq> uint ZEOF"
  shows "round_well f0 (if r \<noteq> 0 then (Inl c, report_receiver st') else (Inr (pos, k), st'))"
  using zrpos_files [OF assms(1)] assms(2-4) stored_files [of st' st pos] stored_good [OF assms(2)]
  by (auto intro!: ended_other round_goes_on)

lemma data_round_well:
  assumes "data_round fs h pos errors st = Some y" "stored_at pos st" "extends f0 (files_r st)"
  shows "round_well f0 y"
proof -
  obtain type st1 where t: "on_protocol_r (rx_header 10000) st = Some (type, st1)"
    using assms(1) by (cases "on_protocol_r (rx_header 10000) st") (auto simp: data_round_def)
  have f: "files_r st1 = files_r st" using on_protocol_files [OF t] .
  note at = assms(2) [folded stored_files [OF f]] and ext = assms(3) [folded f]
  note round = assms(1) [unfolded data_round_def t Option.bind.bind_lunit prod.case]
  obtain q st2 where z: "tx_zrpos pos st1 = (q, st2)" by fastforce
  consider "type = ZMODEM_TIMEOUT" | "type = uint ZEOF" | "type = uint ZFILE" | "type = uint ZDATA"
    | "type \<notin> {ZMODEM_TIMEOUT, uint ZEOF, uint ZFILE, uint ZDATA}" by blast
  then show ?thesis
  proof cases
    case 1
    then show ?thesis
      using round z at ext zrpos_well [OF z at ext, of ZMODEM_TIMEOUT "errors + 1"] stored_good [OF at]
      by (cases "MAX_RETRIES_r \<le> errors + 1") (auto intro!: ended_other)
  next
    case 2
    then show ?thesis
      using round at ext stored_good [OF at]
      by (cases "zmodem_header_position (rxd_header (protocol_r st1)) = pos")
         (auto simp: round_well_def ended_well_def)
  next
    case 3
    obtain c n e st3 where s: "receive_subpacket st1 = Some (c, n, e, st3)"
      using round 3 by (cases "receive_subpacket st1") auto
    have f3: "files_r st3 = files_r st1" using subpacket_files [OF s] .
    note at3 = at [folded stored_files [OF f3]] and ext3 = ext [folded f3]
    obtain q st4 where z: "tx_zrpos pos st3 = (q, st4)" by fastforce
    show ?thesis
      using round 3 s z zrpos_well [OF z at3 ext3, of "uint ZFERR" errors] at3 ext3 stored_good [OF at3]
      by (cases "terminal_receive_result c") (auto simp: terminal_receive_result_def intro!: ended_other)
  next
    case 4
    obtain p st3 where p: "with_protocol_r rx_purge st1 = (p, st3)" by fastforce
    have f3: "files_r st3 = files_r st1" using with_protocol_files [OF p] by simp
    note at3 = at [folded stored_files [OF f3]] and ext3 = ext [folded f3]
    obtain q st4 where z: "tx_zrpos pos st3 = (q, st4)" by fastforce
    show ?thesis
    proof (cases "zmodem_header_position (rxd_header (protocol_r st1)) = pos")
      case True
      then have "frame_loop fs h pos errors st1 = Some y" using round 4 by simp
      then show ?thesis using frame_loop_well [OF _ refl refl at ext] by simp
    next
      case False
      then show ?thesis
        using round 4 p z zrpos_well [OF z at3 ext3, of ZMODEM_INVALID_DATA "errors + 1"] at3 ext3 stored_good [OF at3]
        by (cases "p = ZMODEM_OK"; cases "MAX_RETRIES_r \<le> errors + 1") (auto intro!: ended_other)
    qed
  next
    case 5
    then show ?thesis using round at ext stored_good [OF at] by (auto intro!: ended_other)
  qed
qed

lemma data_loop_well:
  assumes "data_loop fs' h' pos errors st = Some y" "fs' = fs" "h' = h"
  shows "stored_at pos st \<Longrightarrow> extends f0 (files_r st) \<Longrightarrow> ended_well f0 y"
  using assms
proof (induction rule: data_loop.raw_induct [rotated, consumes 1, case_names step])
  case (step loop fs' h' pos errors st y)
  obtain r st1 where r: "data_round fs h pos errors st = Some (r, st1)"
    using step(2,5,6) by (cases "data_round fs h pos errors st") auto
  note w = data_round_well [OF r step(3,4)]
  show ?case
  proof (cases r)
    case (Inl c)
    then show ?thesis using step(2,5,6) r w by (auto simp: round_well_def)
  next
    case (Inr p)
    then have "loop fs h (fst p) (snd p) st1 = Some y" using step(2,5,6) r by (cases p) auto
    then show ?thesis using step(1) [OF _ _ _ refl refl] w Inr step(5,6) by (simp add: round_well_def)
  qed
qed

lemma receive_file_data_well:
  assumes "receive_file_data fs h st = Some y" "good (files_r st)"
  shows "ended_well (files_r st) y"
proof -
  obtain p f1 where p: "file_position_r fs (Some h) (files_r st) = (p, f1)" by fastforce
  note f1 = position_returns [OF p assms(2)]
  let ?st1 = "st\<lparr>files_r := f1\<rparr>"
  have x: "extends (files_r st) f1" using f1 by (simp add: extends_def)
  show ?thesis
  proof (cases p)
    case None
    then show ?thesis
      using assms(1) p f1 x by (auto simp: receive_file_data_def with_files_def ended_well_def)
  next
    case (Some pos)
    obtain q st2 where z: "tx_zrpos pos ?st1 = (q, st2)" by fastforce
    have f2: "files_r st2 = f1" using zrpos_files [OF z] by simp
    have at: "stored_at pos st2" using f1 Some f2 by (simp add: stored_at_def)
    show ?thesis
    proof (cases "q = 0")
      case True
      then have "data_loop fs h pos 0 st2 = Some y"
        using assms(1) p Some z by (simp add: receive_file_data_def with_files_def)
      then show ?thesis using data_loop_well [OF _ refl refl at] x f2 by simp
    next
      case False
      then show ?thesis
        using assms(1) p Some z f1 x f2 by (auto simp: receive_file_data_def with_files_def ended_well_def)
    qed
  qed
qed

end

section \<open>A device with room\<close>

locale file_writer = file_store fs h good contents
  for fs :: "'f stdio_calls" and h :: nat and good :: "'f \<Rightarrow> bool" and contents :: "'f \<Rightarrow> u8 list" +
  fixes room :: "'f \<Rightarrow> nat"
  assumes tells_length: "good f \<Longrightarrow> s_ftello fs h f = (r, f') \<Longrightarrow> 0 \<le> r \<and> room f' = room f"
    and writes_whole: "good f \<Longrightarrow> length bs \<le> room f \<Longrightarrow> s_fwrite fs bs h f = (n, f') \<Longrightarrow>
      n = length bs \<and> room f' = room f - length bs"
begin

lemma position_known:
  assumes "good f" "length (contents f) = unat (pos :: u32)"
  shows "\<exists>f'. file_position_r fs (Some h) f = (Some pos, f') \<and> good f' \<and> contents f' = contents f \<and> room f' = room f"
proof -
  obtain r f' where t: "s_ftello fs h f = (r, f')" by fastforce
  have r: "r = uint pos" using tells [OF assms(1) t] tells_length [OF assms(1) t] assms(2) by simp
  have "\<not> int UINT32_MAX < uint pos" using unsigned_less [where 'a = int, of pos] by simp
  then have "file_position_r fs (Some h) f = (Some pos, f')" by (simp only: file_position_r_def t r option.case prod.case Let_def) simp
  then show ?thesis using tells [OF assms(1) t] tells_length [OF assms(1) t] by simp
qed

text \<open>A subpacket that asks for no acknowledgement is stored.\<close>

lemma store_data_stores:
  assumes "good (files_r st)" "length (contents (files_r st)) = unat pos" "n \<le> length (rx_data_subpacket st)"
    "unat pos + n \<le> UINT32_MAX" "n \<le> room (files_r st)" "e \<noteq> ZCRCQ" "e \<noteq> ZCRCW"
  shows "\<exists>f. store_data fs h pos n e st = (Inr (pos + word_of_nat n), st\<lparr>files_r := f\<rparr>) \<and> good f \<and>
    contents f = contents (files_r st) @ take n (rx_data_subpacket st) \<and> room f = room (files_r st) - n"
proof -
  let ?bs = "take n (rx_data_subpacket st)"
  obtain w f1 where w: "s_fwrite fs ?bs h (files_r st) = (w, f1)" by fastforce
  have l: "length ?bs = n" using assms(3) by simp
  have f1: "w = n" "room f1 = room (files_r st) - n" "good f1" "contents f1 = contents (files_r st) @ ?bs"
    using writes_whole [OF assms(1) _ w] writes [OF assms(1) w] assms(5) l by simp_all
  have n: "unat (word_of_nat n :: u32) = n" using assms(4) by (simp add: unat_of_nat take_bit_nat_eq_self)
  then have u: "unat (pos + word_of_nat n) = unat pos + n" using assms(4) by (simp add: unat_plus_if')
  then have p: "\<not> pos + word_of_nat n < pos" by (simp add: word_less_nat_alt)
  have "length (contents f1) = unat (pos + word_of_nat n)" using f1(4) l u assms(2) by simp
  then obtain f2 where f2: "file_position_r fs (Some h) f1 = (Some (pos + word_of_nat n), f2)" "good f2"
    "contents f2 = contents f1" "room f2 = room f1" using position_known [OF f1(3)] by blast
  have "store_data fs h pos n e st = (Inr (pos + word_of_nat n), st\<lparr>files_r := f2\<rparr>)"
    using w f1(1) f2(1) p assms(4,6,7) by (simp add: store_data_def with_files_def)
  then show ?thesis using f2(2-4) f1(2,4) by auto
qed

end

interpretation disk: file_writer disk_stdio h "disk_open (int h)" "disk_contents (int h)" disk_room
  for h :: nat
proof
  fix d d' :: disk and r :: int and bs :: "u8 list" and n :: nat
  assume d: "disk_open (int h) d"
  show "s_ftello disk_stdio h d = (r, d') \<Longrightarrow> disk_open (int h) d' \<and>
      disk_contents (int h) d' = disk_contents (int h) d \<and> (r < 0 \<or> r = int (length (disk_contents (int h) d)))"
    using d by (auto simp: disk_tells)
  show "s_ftello disk_stdio h d = (r, d') \<Longrightarrow> 0 \<le> r \<and> disk_room d' = disk_room d"
    using d by (auto simp: disk_tells)
  show "s_fwrite disk_stdio bs h d = (n, d') \<Longrightarrow> disk_open (int h) d' \<and> n \<le> length bs \<and>
      disk_contents (int h) d' = disk_contents (int h) d @ take n bs"
    using disk_writes [OF d, of bs n d'] by (simp add: min_def)
  show "length bs \<le> disk_room d \<Longrightarrow> s_fwrite disk_stdio bs h d = (n, d') \<Longrightarrow>
      n = length bs \<and> disk_room d' = disk_room d - length bs"
    using disk_writes [OF d, of bs n d'] by simp
qed

end
