(* ===== verification/File_Transfer.thy ===== *)
theory File_Transfer
  imports Stream Zmrx_Correct
begin

text \<open>
  A file from end to end: what \<open>send_from\<close> of the sender puts on the line, \<open>receive_file_data\<close> of the
  receiver stores, and ends with ZEOF. \<open>taker\<close> joins the contracts of the receiver's line and file.
\<close>

declare split_paired_Ex [simp del] split_paired_All [simp del]

lemma header_position_first: "5 \<le> length h \<Longrightarrow> zmodem_header_position (h @ rest) = zmodem_header_position h"
  by (simp add: zmodem_header_position_def nth_append)

lemma agreed_sender: "tx_moved s s' \<Longrightarrow> agreed s' z = agreed s z"
  and in_frame_sender: "tx_moved s s' \<Longrightarrow> in_frame s' z = in_frame s z"
  by (simp_all add: in_frame_def agreed_def encoded_format_def uses_crc32_def tx_moved_fields cfg_simps)

lemma agreed_receiver: "tx_moved z z' \<Longrightarrow> agreed s z' = agreed s z"
  unfolding tx_moved_def set_context_def by (auto simp: agreed_def)

section \<open>The receiver\<close>

locale taker = octet_line rd live pending wr fl sent + file_writer fs h good contents room
  for rd :: "'c \<Rightarrow> nat \<Rightarrow> int \<Rightarrow> int \<times> u8 list \<times> nat \<times> 'c" and live :: "'c \<Rightarrow> bool" and pending :: "'c \<Rightarrow> u8 list"
    and wr :: "'c \<Rightarrow> u8 list \<Rightarrow> int \<times> 'c" and fl :: "'c \<Rightarrow> int \<times> 'c" and sent :: "'c \<Rightarrow> u8 list"
    and fs :: "'f stdio_calls" and h :: nat and good :: "'f \<Rightarrow> bool" and contents :: "'f \<Rightarrow> u8 list"
    and room :: "'f \<Rightarrow> nat"
begin

text \<open>The receiver reads \<open>bs\<close>; \<open>n\<close> octets are stored and there is room for \<open>k\<close> more.\<close>

definition taking :: "u8 list \<Rightarrow> nat \<Rightarrow> nat \<Rightarrow> ('c, 'f) receiver \<Rightarrow> bool" where
  "taking bs n k st \<longleftrightarrow> will_read rd live pending (protocol_r st) bs \<and> good (files_r st) \<and>
     length (contents (files_r st)) = n \<and> k \<le> room (files_r st) \<and> length (rx_data_subpacket st) = ZMAXSPLEN"

lemma subpacket_received:
  assumes "taking (data_wire s previous type p @ bs) n k st" "in_frame s (protocol_r st)"
    "is_frame_end type" "type \<noteq> ZCRCW" "length p \<le> ZMAXSPLEN"
  shows "\<exists>st1. receive_subpacket st = Some (frame_result type, length p, type, st1) \<and>
    take (length p) (rx_data_subpacket st1) = p \<and> taking bs n k st1 \<and> in_frame s (protocol_r st1) \<and>
    files_r st1 = files_r st"
proof -
  have l: "length p \<le> rx_limit ZMAXSPLEN" using assms(5) by (simp add: rx_limit_def)
  have r: "will_read rd live pending (protocol_r st) (data_wire s previous type p @ bs)"
    and c: "ZMAXSPLEN \<le> length (rx_data_subpacket st)" using assms(1) by (simp_all add: taking_def)
  from data_received [OF r assms(2,3) c] assms(4) l obtain z' where z':
    "rx_data (rx_data_subpacket st) ZMAXSPLEN (protocol_r st) =
      Some (frame_result type, z', p @ drop (length p) (rx_data_subpacket st), length p, type)"
    "will_read rd live pending z' bs" "rx_moved (protocol_r st) z'"
    by (auto simp: filled_def min_absorb2)
  let ?st1 = "st\<lparr>protocol_r := z', rx_data_subpacket := p @ drop (length p) (rx_data_subpacket st)\<rparr>"
  have "receive_subpacket st = Some (frame_result type, length p, type, ?st1)"
    by (simp add: receive_subpacket_def z'(1))
  then show ?thesis using z'(2) in_frame_moved [OF assms(2) z'(3)] assms(1,5)
    by (intro exI [of _ ?st1]) (simp add: taking_def)
qed

lemma stored_next:
  assumes "taking bs (unat pos) k st" "take m (rx_data_subpacket st) = p" "length p = m" "unat pos + m \<le> UINT32_MAX"
    "m \<le> k" "e \<noteq> ZCRCQ" "e \<noteq> ZCRCW"
  shows "\<exists>st1. store_data fs h pos m e st = (Inr (pos + word_of_nat m), st1) \<and>
    taking bs (unat (pos + word_of_nat m)) (k - m) st1 \<and> contents (files_r st1) = contents (files_r st) @ p \<and>
    protocol_r st1 = protocol_r st"
proof -
  have "m \<le> length (rx_data_subpacket st)" using assms(2,3) by (metis length_take min.cobounded1)
  then obtain f where f: "store_data fs h pos m e st = (Inr (pos + word_of_nat m), st\<lparr>files_r := f\<rparr>)" "good f"
    "contents f = contents (files_r st) @ p" "room f = room (files_r st) - m"
    using store_data_stores [of st pos m e] assms by (auto simp: taking_def)
  have "unat (word_of_nat m :: u32) = m" using assms(4) by (simp add: unat_of_nat take_bit_nat_eq_self)
  then have "unat (pos + word_of_nat m) = unat pos + m" using assms(4) by (simp add: unat_plus_if')
  then show ?thesis using f assms(1,3,5) by (intro exI [of _ "st\<lparr>files_r := f\<rparr>"]) (simp add: taking_def diff_le_mono)
qed

lemma frame_received:
  assumes "frame_wire s ps octets"
  shows "taking (octets @ bs) (unat pos) (length (concat ps)) st \<Longrightarrow> in_frame s (protocol_r st) \<Longrightarrow>
    unat pos + length (concat ps) \<le> UINT32_MAX \<Longrightarrow>
    \<exists>st'. frame_loop fs h pos errors st = Some (Inr (pos + word_of_nat (length (concat ps)), 0), st') \<and>
      taking bs (unat (pos + word_of_nat (length (concat ps)))) 0 st' \<and> in_frame s (protocol_r st') \<and>
      contents (files_r st') = contents (files_r st) @ concat ps"
  using assms
proof (induction arbitrary: pos errors st rule: frame_wire.induct)
  case (last_block s' p)
  have f: "in_frame s' (protocol_r st)" using last_block by (simp add: in_frame_sender)
  obtain st1 where r: "receive_subpacket st = Some (ZMODEM_END_OF_FRAME, length p, ZCRCE, st1)"
    "take (length p) (rx_data_subpacket st1) = p" "taking bs (unat pos) (length p) st1" "in_frame s' (protocol_r st1)"
    "files_r st1 = files_r st"
    using subpacket_received [OF _ f, of "last_sent s'" ZCRCE p bs "unat pos" "length p"] last_block
    by (auto simp: is_frame_end_def frame_result_def)
  obtain st2 where s: "store_data fs h pos (length p) ZCRCE st1 = (Inr (pos + word_of_nat (length p)), st2)"
    "taking bs (unat (pos + word_of_nat (length p))) 0 st2" "contents (files_r st2) = contents (files_r st1) @ p"
    "protocol_r st2 = protocol_r st1"
    using stored_next [OF r(3,2) refl, of ZCRCE] last_block by auto
  show ?case
    using r s last_block(1) by (subst frame_loop.simps) (simp add: terminal_receive_result_def in_frame_sender)
next
  case (next_block s' p ps octets)
  let ?n = "length p" and ?m = "length (concat ps)" and ?pos = "pos + word_of_nat (length p)"
  have f: "in_frame s' (protocol_r st)" using next_block by (simp add: in_frame_sender)
  obtain st1 where r: "receive_subpacket st = Some (ZMODEM_FRAME_OK, ?n, ZCRCG, st1)"
    "take ?n (rx_data_subpacket st1) = p" "taking (octets @ bs) (unat pos) (?n + ?m) st1" "in_frame s' (protocol_r st1)"
    "files_r st1 = files_r st"
    using subpacket_received [OF _ f, of "last_sent s'" ZCRCG p "octets @ bs" "unat pos" "?n + ?m"] next_block
    by (auto simp: is_frame_end_def frame_result_def)
  obtain st2 where s: "store_data fs h pos ?n ZCRCG st1 = (Inr ?pos, st2)"
    "taking (octets @ bs) (unat ?pos) ?m st2" "contents (files_r st2) = contents (files_r st1) @ p"
    "protocol_r st2 = protocol_r st1"
    using stored_next [OF r(3,2) refl, of ZCRCG] next_block by auto
  have n: "unat (word_of_nat ?n :: u32) = ?n" using next_block by (simp add: unat_of_nat take_bit_nat_eq_self)
  have "unat ?pos + ?m \<le> UINT32_MAX" using next_block n by (simp add: unat_plus_if')
  then obtain st' where l: "frame_loop fs h ?pos 0 st2 = Some (Inr (?pos + word_of_nat ?m, 0), st')"
    "taking bs (unat (?pos + word_of_nat ?m)) 0 st'" "in_frame s (protocol_r st')"
    "contents (files_r st') = contents (files_r st2) @ concat ps"
    using next_block.IH [OF s(2)] r(4) s(4) in_frame_sender [OF next_block(1)] by auto
  show ?case
    using r s l by (subst frame_loop.simps) (simp add: terminal_receive_result_def add.assoc)
qed

section \<open>Headers\<close>

lemma header_taken:
  assumes "taking (header_wire s hdr @ bs) n k st" "agreed s (protocol_r st)" "length hdr = HDRLEN"
  shows "\<exists>st1. on_protocol_r (rx_header t) st = Some (uint (hdr ! FTYPE), st1) \<and>
    taking (header_trailer s hdr @ bs) n k st1 \<and> in_frame s (protocol_r st1) \<and> files_r st1 = files_r st \<and>
    zmodem_header_position (rxd_header (protocol_r st1)) = zmodem_header_position hdr"
proof -
  have "will_read rd live pending (protocol_r st) (header_wire s hdr @ bs)" using assms(1) by (simp add: taking_def)
  from header_received [OF this assms(2), of t False] assms(3) obtain z where z:
    "rx_header_raw t False (protocol_r st) = Some (uint (hd hdr), z)" "take HDRLEN (rxd_header z) = hdr"
    "in_frame s z" "will_read rd live pending z (header_trailer s hdr @ bs)" by auto
  have "hdr \<noteq> []" using assms(3) by auto
  then have "hd hdr = hdr ! FTYPE" by (simp add: hd_conv_nth)
  moreover have "rxd_header z = hdr @ drop HDRLEN (rxd_header z)"
    using z(2) append_take_drop_id [of HDRLEN "rxd_header z"] by simp
  then have "zmodem_header_position (rxd_header z) = zmodem_header_position hdr"
    using assms(3) by (metis header_position_first order_refl)
  ultimately show ?thesis using z assms(1)
    by (intro exI [of _ "st\<lparr>protocol_r := z\<rparr>"]) (simp add: on_protocol_r_def rx_header_def taking_def)
qed

lemma frame_taken:
  assumes "frame_wire s ps octets" "tx_moved s s'" "escape_8th_bit s \<or> can_fcs_32 s"
    "agreed s (protocol_r st)" "unat pos + length (concat ps) \<le> UINT32_MAX"
    "taking (header_wire s' (zmodem_set_header_position [ZDATA, 0, 0, 0, 0] pos) @ octets @ bs)
       (unat pos) (length (concat ps)) st"
  shows "\<exists>st'. data_round fs h pos errors st = Some (Inr (pos + word_of_nat (length (concat ps)), 0), st') \<and>
      taking bs (unat (pos + word_of_nat (length (concat ps)))) 0 st' \<and> in_frame s (protocol_r st') \<and>
      contents (files_r st') = contents (files_r st) @ concat ps"
proof -
  let ?h = "zmodem_set_header_position [ZDATA, 0, 0, 0, 0] pos"
  have a: "agreed s' (protocol_r st)" "length ?h = HDRLEN" using assms(2,4) by (simp_all add: agreed_sender)
  have tr: "header_trailer s' ?h = []" using assms(2,3) by (auto simp: header_trailer_def cfg_simps)
  have zd: "?h ! FTYPE = ZDATA" by (simp add: zmodem_set_header_position_def)
  obtain st1 where st1: "on_protocol_r (rx_header 10000) st = Some (uint ZDATA, st1)"
    "taking (octets @ bs) (unat pos) (length (concat ps)) st1" "in_frame s (protocol_r st1)" "files_r st1 = files_r st"
    "zmodem_header_position (rxd_header (protocol_r st1)) = pos"
    using header_taken [OF assms(6) a, of 10000] in_frame_sender [OF assms(2)]
    unfolding tr zd by (auto simp: header_position_set)
  have "data_round fs h pos errors st = frame_loop fs h pos errors st1"
    using st1(1,5) by (simp add: data_round_def)
  then show ?thesis using frame_received [OF assms(1) st1(2,3) assms(5)] st1(4) by simp
qed

lemma eof_taken:
  assumes "in_frame s (protocol_r st)"
    "taking (hex_header_wire (zmodem_set_header_position [ZEOF, 0, 0, 0, 0] pos) @ bs) (unat pos) k st"
  shows "\<exists>st'. data_round fs h pos errors st = Some (Inl (uint ZEOF), st') \<and> taking (XON # bs) (unat pos) k st' \<and>
      files_r st' = files_r st"
proof -
  let ?s = "s\<lparr>escape_8th_bit := False, use_mobyturbo := False, can_fcs_32 := False\<rparr>" and ?h = "zmodem_set_header_position [ZEOF, 0, 0, 0, 0] pos"
  have a: "agreed ?s (protocol_r st)" "length ?h = HDRLEN" using assms(1) by (auto simp: in_frame_def agreed_def)
  have zd: "?h ! FTYPE = ZEOF" "hd ?h = ZEOF" by (simp_all add: zmodem_set_header_position_def)
  have w: "header_wire ?s ?h = hex_header_wire ?h" "header_trailer ?s ?h = [XON]"
    by (simp_all add: header_wire_def header_trailer_def zd(2))
  obtain st1 where "on_protocol_r (rx_header 10000) st = Some (uint ZEOF, st1)"
    "taking (XON # bs) (unat pos) k st1" "files_r st1 = files_r st"
    "zmodem_header_position (rxd_header (protocol_r st1)) = pos"
    using header_taken [OF assms(2) [folded w(1)] a, of 10000] unfolding w(2) zd(1)
    by (auto simp: header_position_set)
  then show ?thesis by (intro exI [of _ st1]) (simp add: data_round_def)
qed

lemma file_taken:
  assumes "frame_wire s ps octets" "tx_moved s s'" "escape_8th_bit s \<or> can_fcs_32 s"
    "agreed s (protocol_r st)" "unat pos + length (concat ps) \<le> UINT32_MAX"
    "taking (header_wire s' (zmodem_set_header_position [ZDATA, 0, 0, 0, 0] pos) @ octets @
       hex_header_wire (zmodem_set_header_position [ZEOF, 0, 0, 0, 0] (pos + word_of_nat (length (concat ps)))) @ bs)
       (unat pos) (length (concat ps)) st"
  shows "\<exists>st'. data_loop fs h pos errors st = Some (uint ZEOF, st') \<and>
      taking (XON # bs) (unat (pos + word_of_nat (length (concat ps)))) 0 st' \<and>
      contents (files_r st') = contents (files_r st) @ concat ps"
proof -
  let ?fin = "pos + word_of_nat (length (concat ps))"
  obtain st1 where 1: "data_round fs h pos errors st = Some (Inr (?fin, 0), st1)"
    "taking (hex_header_wire (zmodem_set_header_position [ZEOF, 0, 0, 0, 0] ?fin) @ bs) (unat ?fin) 0 st1"
    "in_frame s (protocol_r st1)" "contents (files_r st1) = contents (files_r st) @ concat ps"
    using frame_taken [OF assms] by blast
  obtain st2 where 2: "data_round fs h ?fin 0 st1 = Some (Inl (uint ZEOF), st2)" "taking (XON # bs) (unat ?fin) 0 st2"
    "files_r st2 = files_r st1" using eof_taken [OF 1(3,2)] by blast
  have "data_loop fs h ?fin 0 st1 = Some (uint ZEOF, st2)" by (subst data_loop.simps) (simp add: 2(1))
  then have "data_loop fs h pos errors st = Some (uint ZEOF, st2)" by (subst data_loop.simps) (simp add: 1(1))
  then show ?thesis using 2(2,3) 1(4) by auto
qed

lemma zrpos_sent:
  assumes "may_send wr fl live sent (protocol_r st) w" "taking bs n k st"
  shows "\<exists>st' v. tx_zrpos pos st = (0, st') \<and> may_send wr fl live sent (protocol_r st') (w @ v) \<and>
    taking bs n k st' \<and> files_r st' = files_r st \<and> tx_moved (protocol_r st) (protocol_r st')"
proof -
  define p :: "u8 list" where
    "p = (let p = zmodem_set_header_position [ZRPOS, 0, 0, 0, 0, 0, 0, 0] pos; f = zrpos_flags st
          in if f = 0 then p else p[ZMODEM90_ZRPOS_FLAGS := f])"
  define m where "m = (if zrpos_flags st = 0 then HDRLEN else ZMODEM90_ZRPOS_HEADER_LEN)"
  have l: "HDRLEN \<le> m" "m \<le> ZMAXHLEN + 1" "m \<le> length p" by (simp_all add: p_def m_def Let_def)
  have "will_read rd live pending (protocol_r st) bs" using assms(2) by (simp add: taking_def)
  from header_sent_reading [OF assms(1) this l] obtain z where z: "tx_header_length p m (protocol_r st) = (0, z)"
    "may_send wr fl live sent z (w @ header_wire (protocol_r st) (take m p))" "will_read rd live pending z bs"
    "tx_moved (protocol_r st) z" by blast
  let ?st = "st\<lparr>protocol_r := z, extended_zrpos_sent := (zrpos_flags st \<noteq> 0 \<or> extended_zrpos_sent st)\<rparr>"
  have "tx_zrpos pos st = (0, ?st)"
    using z(1) by (auto simp: tx_zrpos_def p_def m_def with_protocol_r_def tx_header_def Let_def)
  moreover have "taking bs n k ?st" using assms(2) z(3) by (simp add: taking_def)
  ultimately show ?thesis using z(2,4)
    by (intro exI [of _ ?st] exI [of _ "header_wire (protocol_r st) (take m p)"]) simp
qed

text \<open>From the request to the end of the file.\<close>

lemma data_taken:
  assumes "frame_wire s ps octets" "tx_moved s s'" "escape_8th_bit s \<or> can_fcs_32 s"
    "agreed s (protocol_r st)" "may_send wr fl live sent (protocol_r st) v" "unat pos + length (concat ps) \<le> UINT32_MAX"
    "taking (header_wire s' (zmodem_set_header_position [ZDATA, 0, 0, 0, 0] pos) @ octets @
       hex_header_wire (zmodem_set_header_position [ZEOF, 0, 0, 0, 0] (pos + word_of_nat (length (concat ps)))) @ bs)
       (unat pos) (length (concat ps)) st"
  shows "\<exists>st'. receive_file_data fs h st = Some (uint ZEOF, st') \<and>
      taking (XON # bs) (unat (pos + word_of_nat (length (concat ps)))) 0 st' \<and>
      contents (files_r st') = contents (files_r st) @ concat ps"
proof -
  let ?bs = "header_wire s' (zmodem_set_header_position [ZDATA, 0, 0, 0, 0] pos) @ octets @
    hex_header_wire (zmodem_set_header_position [ZEOF, 0, 0, 0, 0] (pos + word_of_nat (length (concat ps)))) @ bs"
  have g: "good (files_r st)" "length (contents (files_r st)) = unat pos" using assms(7) by (simp_all add: taking_def)
  obtain f where f: "file_position_r fs (Some h) (files_r st) = (Some pos, f)" "good f" "contents f = contents (files_r st)"
    "room f = room (files_r st)" using position_known [OF g] by blast
  have t: "taking ?bs (unat pos) (length (concat ps)) (st\<lparr>files_r := f\<rparr>)" using assms(7) f(2-4) by (simp add: taking_def)
  obtain st1 where st1: "tx_zrpos pos (st\<lparr>files_r := f\<rparr>) = (0, st1)" "taking ?bs (unat pos) (length (concat ps)) st1"
    "files_r st1 = f" "tx_moved (protocol_r st) (protocol_r st1)" using zrpos_sent [OF _ t] assms(5) by fastforce
  have "agreed s (protocol_r st1)" using assms(4) by (simp add: agreed_receiver [OF st1(4)])
  from file_taken [OF assms(1-3) this assms(6) st1(2), of 0] show ?thesis
    using f(1,3) st1(1,3) by (auto simp: receive_file_data_def with_files_def)
qed

end

section \<open>The POSIX adapter and the file system\<close>

interpretation pipe_streamer: streamer "write_callback pipe_kernel" "flush_callback pipe_kernel" quiet_pipe.silent
    pipe.taken "poll_callback pipe_kernel" disk_file_calls h "disk_open h" "disk_contents h" "disk_offset h" disk_signals
  for h :: int
  by (intro streamer.intro pipe_quiet_sink disk_reader.file_reader_axioms)

interpretation pipe_taker: taker "read_callback pipe_kernel" pipe.live pipe.pending "write_callback pipe_kernel"
    "flush_callback pipe_kernel" pipe.taken disk_stdio h "disk_open (int h)" "disk_contents (int h)" disk_room
  for h :: nat
  by (intro taker.intro pipe.octet_line_axioms disk.file_writer_axioms)

text \<open>A device with a file of the name ''f'', open as 3, at an offset.\<close>

definition one_file :: "u8 list \<Rightarrow> nat \<Rightarrow> disk" where
  "one_file bs p = \<lparr>disk_files = [''f'' \<mapsto> (bs, 0)], disk_streams = [3 \<mapsto> (''f'', p)], disk_next = 4,
     disk_room = 100, disk_signals = 2\<rparr>"

lemma one_file_simps [simp]:
  "disk_open 3 (one_file bs p)" "disk_contents 3 (one_file bs p) = bs" "disk_offset 3 (one_file bs p) = p"
  "disk_room (one_file bs p) = 100"
  by (simp_all add: one_file_def disk_open_def disk_contents_def disk_offset_def)

definition pipe_sender :: "disk \<Rightarrow> (pipe posix, disk) sender" where
  "pipe_sender d = zmtx_statics ((pipe_end [] 3)\<lparr>can_fcs_32 := True, can_overlap_io := True\<rparr>) d"

definition pipe_receiver :: "u8 list \<Rightarrow> disk \<Rightarrow> (pipe posix, disk) receiver" where
  "pipe_receiver bs d = zmrx_statics (pipe_end bs 2) d"

lemma pipe_sender_files [simp]: "files (pipe_sender d) = d"
  by (simp add: pipe_sender_def zmtx_statics_def)

lemma pipe_sender_sends:
  "may_send (write_callback pipe_kernel) (flush_callback pipe_kernel) quiet_pipe.silent pipe.taken
     (protocol (pipe_sender d)) []"
  using pipe_end_silent [of 3] by (simp add: pipe_sender_def zmtx_statics_def may_send_def classes_ok_def)

lemma pipe_receiver_lives:
  "may_send (write_callback pipe_kernel) (flush_callback pipe_kernel) pipe.live pipe.taken
     (protocol_r (pipe_receiver bs d)) []"
  "will_read (read_callback pipe_kernel) pipe.live pipe.pending (protocol_r (pipe_receiver bs d)) bs"
  "files_r (pipe_receiver bs d) = d" "length (rx_data_subpacket (pipe_receiver bs d)) = ZMAXSPLEN"
  using pipe_end_sends pipe_end_reads by (simp_all add: pipe_receiver_def zmrx_statics_def)

lemma pipe_agreed: "agreed (protocol (pipe_sender d)) (protocol_r (pipe_receiver bs d'))"
  using pipe_end_agrees(2) [of 3 bs 2]
  by (simp add: pipe_sender_def pipe_receiver_def zmtx_statics_def zmrx_statics_def agreed_def)

section \<open>Properties\<close>

text \<open>A sender that nothing limits, with binary headers: 16-bit, 32-bit, MobyTurbo or seven-bit ones.\<close>

definition streaming_sender :: "('c \<Rightarrow> int \<times> 'c) \<Rightarrow> ('c, 'f) sender \<Rightarrow> bool" where
  "streaming_sender pl st \<longleftrightarrow> sender_ok st \<and> unlimited st \<and>
     (escape_8th_bit (protocol st) \<or> can_fcs_32 (protocol st)) \<and> io_poll (io (protocol st)) = pl \<and> input_count (protocol st) = 0"

text \<open>C1: A file arrives. A sender that nothing limits sends, from the offset of its file to the end, one
  frame in the data format its settings select (plain, MobyTurbo, Pack-7, run-length), returns ZACK, and announces the end with ZEOF. A receiver whose settings agree and whose
  file ends at that offset, on a device with room, requests the data at that position, stores
  exactly the octets of the sender's file from there on, and returns ZEOF, whatever pieces the
  transport delivers, whatever the blocks read from the file, and however many signals interrupt
  the calls; it has taken nothing of what comes after but the XON that ends the ZEOF header.\<close>

theorem file_arrives:
  assumes "quiet_sink wr fl open_for sent pl" and "file_reader sfs fd readable whole offset interrupts"
    and "octet_line rd live pending wr' fl' sent'" and "file_writer rfs h good contents room"
    and "may_send wr fl open_for sent (protocol st) w" and "streaming_sender pl st"
    and "readable (files st)" and "offset (files st) \<le> length (whole (files st))"
    and "length (whole (files st)) \<le> UINT32_MAX"
  shows "\<exists>st' z octets. send_from sfs fd False st = Some (uint ZACK, st') \<and>
    tx_hex_header (zmodem_set_header_position [ZEOF, 0, 0, 0, 0] (word_of_int (current_file_size st'))) (protocol st') = (0, z) \<and>
    may_send wr fl open_for sent z (w @ octets) \<and>
    (\<forall>r bs v. agreed (protocol st) (protocol_r r) \<longrightarrow> may_send wr' fl' live sent' (protocol_r r) v \<longrightarrow>
      will_read rd live pending (protocol_r r) (octets @ bs) \<longrightarrow>
      good (files_r r) \<longrightarrow> length (contents (files_r r)) = offset (files st) \<longrightarrow>
      length (whole (files st)) - offset (files st) \<le> room (files_r r) \<longrightarrow> length (rx_data_subpacket r) = ZMAXSPLEN \<longrightarrow>
      (\<exists>r'. receive_file_data rfs h r = Some (uint ZEOF, r') \<and> good (files_r r') \<and>
        contents (files_r r') = contents (files_r r) @ drop (offset (files st)) (whole (files st)) \<and>
        will_read rd live pending (protocol_r r') (XON # bs)))"
proof -
  note str = streamer.intro [OF assms(1,2)] and tk = taker.intro [OF assms(3,4)]
  let ?s = "protocol st" and ?n = "offset (files st)" and ?whole = "whole (files st)"
  let ?pos = "word_of_nat ?n :: u32" and ?rest = "drop ?n ?whole"
  have s: "escape_8th_bit ?s \<or> can_fcs_32 ?s" using assms(6) by (simp add: streaming_sender_def)
  have flow: "streamer.flows wr fl open_for sent pl readable whole offset (files st) ?s w st"
    using assms(5-8) by (simp add: streamer.flows_def [OF str] streaming_sender_def)
  obtain s' ps octets st' where send: "send_from sfs fd False st = Some (uint ZACK, st')" "tx_moved ?s s'"
    "frame_wire ?s ps octets" "concat ps = ?rest" "current_file_size st' = int (length ?whole)"
    and flow': "streamer.flows wr fl open_for sent pl readable whole offset (files st) ?s
      (w @ header_wire s' (zmodem_set_header_position [ZDATA, 0, 0, 0, 0] ?pos) @ octets) st'"
    using streamer.streamed_from [OF str flow assms(9)] by (auto simp: file_reader.rest_def [OF assms(2)])
  let ?w = "header_wire s' (zmodem_set_header_position [ZDATA, 0, 0, 0, 0] ?pos) @ octets"
  let ?eof = "zmodem_set_header_position [ZEOF, 0, 0, 0, 0] (word_of_nat (length ?whole))"
  have "may_send wr fl open_for sent (protocol st') (w @ ?w)" using flow' by (simp add: streamer.flows_def [OF str])
  from octet_sink.hex_header_sent [OF quiet_sink.axioms(1) [OF assms(1)] this, of ?eof]
  obtain z where z: "tx_hex_header ?eof (protocol st') = (0, z)"
    "may_send wr fl open_for sent z (w @ ?w @ hex_header_wire ?eof)" by auto
  have n: "unat ?pos = ?n" "?pos + word_of_nat (length (concat ps)) = word_of_nat (length ?whole)"
    "unat ?pos + length (concat ps) \<le> UINT32_MAX"
    using assms(8,9) by (simp_all add: send(4) unat_of_nat take_bit_nat_eq_self flip: of_nat_add)
  have "\<exists>r'. receive_file_data rfs h r = Some (uint ZEOF, r') \<and> good (files_r r') \<and>
        contents (files_r r') = contents (files_r r) @ ?rest \<and> will_read rd live pending (protocol_r r') (XON # bs)"
    if "agreed ?s (protocol_r r)" "may_send wr' fl' live sent' (protocol_r r) v"
      "will_read rd live pending (protocol_r r) ((?w @ hex_header_wire ?eof) @ bs)" "good (files_r r)"
      "length (contents (files_r r)) = ?n" "length ?whole - ?n \<le> room (files_r r)"
      "length (rx_data_subpacket r) = ZMAXSPLEN" for r bs v
    using taker.data_taken [OF tk send(3,2) s that(1,2) n(3), of bs] that(3-7) n(1,2) send(4)
    by (auto simp: taker.taking_def [OF tk])
  then show ?thesis using send(1,5) z by fastforce
qed

theorem file_arrives_witness:
  "\<exists>st' z octets r'. send_from disk_file_calls 3 False (pipe_sender (one_file [1, 2, 0x18] 1)) = Some (uint ZACK, st') \<and>
     tx_hex_header (zmodem_set_header_position [ZEOF, 0, 0, 0, 0] (word_of_int (current_file_size st'))) (protocol st') = (0, z) \<and>
     pipe.taken (io_context (io z)) = octets \<and>
     receive_file_data disk_stdio 3 (pipe_receiver octets (one_file [9] 0)) = Some (uint ZEOF, r') \<and>
     disk_contents 3 (files_r r') = [9, 2, 0x18]"
proof -
  let ?st = "pipe_sender (one_file [1, 2, 0x18] 1)"
  have st: "streaming_sender (poll_callback pipe_kernel) ?st"
    using pipe_end_poll by (simp_all add: streaming_sender_def pipe_sender_def zmtx_statics_def sender_ok_def
        sizes_ok_def good_sizes_def unlimited_def)
  have f: "disk_open 3 (files ?st)" "disk_offset 3 (files ?st) \<le> length (disk_contents 3 (files ?st))"
    "length (disk_contents 3 (files ?st)) \<le> UINT32_MAX" by simp_all
  note store = disk.file_writer_axioms [of 3]
  obtain st' z octets where 1: "send_from disk_file_calls 3 False ?st = Some (uint ZACK, st')"
    "tx_hex_header (zmodem_set_header_position [ZEOF, 0, 0, 0, 0] (word_of_int (current_file_size st'))) (protocol st') = (0, z)"
    "may_send (write_callback pipe_kernel) (flush_callback pipe_kernel) quiet_pipe.silent pipe.taken z ([] @ octets)"
    and 2: "\<forall>r bs v. agreed (protocol ?st) (protocol_r r) \<longrightarrow>
      may_send (write_callback pipe_kernel) (flush_callback pipe_kernel) pipe.live pipe.taken (protocol_r r) v \<longrightarrow>
      will_read (read_callback pipe_kernel) pipe.live pipe.pending (protocol_r r) (octets @ bs) \<longrightarrow>
      disk_open (int 3) (files_r r) \<longrightarrow> length (disk_contents (int 3) (files_r r)) = disk_offset 3 (files ?st) \<longrightarrow>
      length (disk_contents 3 (files ?st)) - disk_offset 3 (files ?st) \<le> disk_room (files_r r) \<longrightarrow>
      length (rx_data_subpacket r) = ZMAXSPLEN \<longrightarrow>
      (\<exists>r'. receive_file_data disk_stdio 3 r = Some (uint ZEOF, r') \<and> disk_open (int 3) (files_r r') \<and>
        disk_contents (int 3) (files_r r') =
          disk_contents (int 3) (files_r r) @ drop (disk_offset 3 (files ?st)) (disk_contents 3 (files ?st)) \<and>
        will_read (read_callback pipe_kernel) pipe.live pipe.pending (protocol_r r') (XON # bs))"
    using file_arrives [OF pipe_quiet_sink disk_reader.file_reader_axioms [of 3] pipe.octet_line_axioms store
        pipe_sender_sends st f] by blast
  have "\<exists>r'. receive_file_data disk_stdio 3 (pipe_receiver octets (one_file [9] 0)) = Some (uint ZEOF, r') \<and>
      disk_contents 3 (files_r r') = [9, 2, 0x18]"
    using spec [OF spec [OF spec [OF 2, of "pipe_receiver octets (one_file [9] 0)"], of "[]"], of "[]"]
      pipe_agreed pipe_receiver_lives [of octets "one_file [9] 0"] by auto
  then show ?thesis using 1 by (auto simp: may_send_def)
qed

text \<open>C18: A round of \<open>send_from\<close> keeps its bounds: the sizes of a subpacket stay powers of two between 128
  and the maximum; what is sent since the last ZCRCW never exceeds the receiver's buffer; and no
  \<^verbatim>\<open>read\<close> asks for more than a subpacket, which the array it fills holds (whatever \<^verbatim>\<open>read\<close> would do with a
  larger request, the round does the same).\<close>

theorem send_round_keeps_bounds:
  assumes "reads_fit fs" and "sender_ok st" and "fits_receiver (segment_sent v) st"
  shows "(\<forall>r st'. send_round fs fd plan v st = Some (r, st') \<longrightarrow>
      sender_ok st' \<and> (\<forall>v'. r = Inr v' \<longrightarrow> fits_receiver (segment_sent v') st')) \<and>
    subpacket_size st \<le> length (tx_data_subpacket st) \<and>
    (\<forall>other. send_round (bounded_reads (subpacket_size st) other fs) fd plan v st = send_round fs fd plan v st)"
proof (intro conjI allI impI)
  fix r st' assume "send_round fs fd plan v st = Some (r, st')"
  from send_round_ok [OF this assms]
  show "sender_ok st'" "\<And>v'. r = Inr v' \<Longrightarrow> fits_receiver (segment_sent v') st'" by (simp_all add: round_ok_def)
next
  show "subpacket_size st \<le> length (tx_data_subpacket st)"
    using assms(2) by (auto simp: sender_ok_def sizes_ok_def good_sizes_def)
  show "send_round (bounded_reads (subpacket_size st) other fs) fd plan v st = send_round fs fd plan v st" for other
    by (rule send_round_bounded)
qed

lemma disk_reads_fit: "reads_fit disk_file_calls"
  unfolding reads_fit_def
proof (intro allI impI)
  fix h n d r e bs d' assume r: "f_read disk_file_calls h n d = (r, e, bs, d')"
  show "r \<le> int n"
  proof (cases "disk_open h d")
    case True
    show ?thesis using disk_reads [OF True r] by (auto split: if_splits)
  next
    case False
    then show ?thesis using r by (auto simp: disk_file_calls_def disk_read_def disk_open_def split: if_splits option.splits)
  qed
qed

theorem send_round_keeps_bounds_witness:
  "\<exists>st'. send_round (bounded_reads 1024 (\<lambda>fd n f. (int n, EOTHER, replicate n 7, f)) disk_file_calls) 3
      (send_plan_for (pipe_sender (one_file [1, 2, 0x18] 1)))
      \<lparr>frame_open = True, acknowledged_position = 1, last_ack_request = 1, segment_sent = 0, synchronize_recovery = False\<rparr>
      (pipe_sender (one_file [1, 2, 0x18] 1)) = Some (Inl (uint ZACK), st') \<and> current_file_size st' = 3 \<and> sender_ok st'"
proof -
  let ?st = "pipe_sender (one_file [1, 2, 0x18] 1)" and ?plan = "send_plan_for (pipe_sender (one_file [1, 2, 0x18] 1))"
  let ?v = "\<lparr>frame_open = True, acknowledged_position = 1, last_ack_request = 1, segment_sent = 0, synchronize_recovery = False\<rparr>"
  have ok: "sender_ok ?st" "unlimited ?st" "subpacket_size ?st = 1024" "fits_receiver (segment_sent ?v) ?st"
    by (simp_all add: pipe_sender_def zmtx_statics_def sender_ok_def sizes_ok_def good_sizes_def unlimited_def fits_receiver_def)
  have flow: "pipe_streamer.flows 3 (files ?st) (protocol ?st) [] ?st"
    using pipe_sender_sends pipe_end_poll ok(1,2)
    by (simp add: pipe_streamer.flows_def) (simp add: pipe_sender_def zmtx_statics_def)
  have v: "pipe_streamer.continues ?v" "\<not> window_enabled ?plan" "\<not> wait_each_block ?plan"
    using unlimited_plan [OF ok(2)] by (simp_all add: pipe_streamer.continues_def)
  have l: "length (disk_contents 3 (files ?st)) \<le> UINT32_MAX" by simp
  obtain f where f: "send_round disk_file_calls 3 ?plan ?v ?st =
      send_block disk_file_calls 3 ?plan ?v (word_of_nat (disk_offset 3 f)) (?st\<lparr>files := f\<rparr>)"
    "pipe_streamer.flows 3 (files ?st) (protocol ?st) [] (?st\<lparr>files := f\<rparr>)"
    "disk_reader.rest 3 f = disk_reader.rest 3 (files ?st)"
    using pipe_streamer.streamed_round [OF flow l v(1,2)] by blast
  have "disk_reader.rest 3 f = [2, 0x18]" unfolding f(3) by (simp add: disk_reader.rest_def)
  then have "length (disk_reader.rest 3 (files (?st\<lparr>files := f\<rparr>))) < subpacket_size (?st\<lparr>files := f\<rparr>)"
    using ok(3) by simp
  then obtain st' where st': "send_round disk_file_calls 3 ?plan ?v ?st = Some (Inl (uint ZACK), st')"
    "current_file_size st' = 3"
    using pipe_streamer.streamed_block [OF f(2) l v] f(1) by auto
  show ?thesis using send_round_keeps_bounds [OF disk_reads_fit ok(1,4), of 3 ?plan] st' unfolding ok(3) by auto
qed

text \<open>C2: ZEOF means that the file is complete. However the line behaves, and whatever arrives, the
  receiver only appends to its file, and it reports ZEOF only when the position in the ZEOF header
  is the length of the file.\<close>

theorem eof_means_complete:
  assumes "file_store fs h good contents" and "good (files_r r)"
    and "receive_file_data fs h r = Some (type, r')"
  shows "good (files_r r') \<and> (\<exists>data. contents (files_r r') = contents (files_r r) @ data) \<and>
    (type = uint ZEOF \<longrightarrow>
      length (contents (files_r r')) = unat (zmodem_header_position (rxd_header (protocol_r r'))))"
  using file_store.receive_file_data_well [OF assms(1,3,2)]
  by (simp add: file_store.ended_well_def [OF assms(1)] file_store.extends_def [OF assms(1)] file_store.stored_at_def [OF assms(1)])

theorem eof_means_complete_witness:
  "\<exists>octets r'. receive_file_data disk_stdio 3 (pipe_receiver octets (one_file [9] 0)) = Some (uint ZEOF, r') \<and>
     zmodem_header_position (rxd_header (protocol_r r')) = 3"
proof -
  let ?s = "protocol (pipe_sender (one_file [] 0))"
  have s: "escape_8th_bit ?s \<or> can_fcs_32 ?s" by (simp add: pipe_sender_def zmtx_statics_def)
  let ?octets = "header_wire ?s (zmodem_set_header_position [ZDATA, 0, 0, 0, 0] 1) @ data_wire ?s (last_sent ?s) ZCRCE [7, 8] @
    hex_header_wire (zmodem_set_header_position [ZEOF, 0, 0, 0, 0] (1 + word_of_nat (length (concat [[7, 8 :: u8]])))) @ []"
  let ?r = "pipe_receiver ?octets (one_file [9] 0)"
  have "pipe_taker.taking 3 ?octets (unat (1 :: u32)) (length (concat [[7, 8 :: u8]])) ?r"
    using pipe_receiver_lives [of ?octets "one_file [9] 0"] unfolding pipe_taker.taking_def by simp
  from pipe_taker.data_taken [OF frame_wire.last_block [OF tx_moved_refl] tx_moved_refl s pipe_agreed pipe_receiver_lives(1) _ this]
  obtain r' where r': "receive_file_data disk_stdio 3 ?r = Some (uint ZEOF, r')"
    "disk_contents 3 (files_r r') = [9] @ [7, 8]" by (auto simp: pipe_receiver_lives)
  have "disk_open (int 3) (files_r ?r)" by (simp add: pipe_receiver_lives)
  from eof_means_complete [OF disk.file_store_axioms this r'(1)] r'(2)
  have "unat (zmodem_header_position (rxd_header (protocol_r r'))) = unat (3 :: u32)" by simp
  then have "zmodem_header_position (rxd_header (protocol_r r')) = 3" by (rule unsigned_word_eqI)
  then show ?thesis using r'(1) by blast
qed

end
