(* ===== verification/Sender_Ends.thy ===== *)
theory Sender_Ends
  imports File_Transfer
begin

text \<open>
  The sender ends: on a line that carries finitely many octets, whatever they are, and with a file that
  can be read, every pass of the recovery loop of \<open>send_file\<close> returns, so that the loop does.
  \<open>polled_line\<close> adds the poll to \<open>octet_line\<close>, \<open>seekable_file\<close> the two other calls to \<open>file_reader\<close>.
\<close>

declare split_paired_Ex [simp del] split_paired_All [simp del]

section \<open>The line\<close>

locale polled_line = octet_line rd live pending wr fl sent
  for rd :: "'c \<Rightarrow> nat \<Rightarrow> int \<Rightarrow> int \<times> u8 list \<times> nat \<times> 'c" and live :: "'c \<Rightarrow> bool" and pending :: "'c \<Rightarrow> u8 list"
    and wr :: "'c \<Rightarrow> u8 list \<Rightarrow> int \<times> 'c" and fl :: "'c \<Rightarrow> int \<times> 'c" and sent :: "'c \<Rightarrow> u8 list" +
  fixes pl :: "'c \<Rightarrow> int \<times> 'c"
  assumes poll_keeps: "live c \<Longrightarrow> live (snd (pl c)) \<and> pending (snd (pl c)) = pending c"
begin

text \<open>The session is on the line, which has at most \<open>n\<close> octets left for it.\<close>

definition wired :: "nat \<Rightarrow> 'c zmodem \<Rightarrow> bool" where
  "wired n z \<longleftrightarrow> linked n z \<and> io_poll (io z) = pl \<and> classes_ok z \<and>
     length (tx_data_wire z) = ZMODEM_TX_DATA_WIRE_CAPACITY"

lemma wired_sane: "wired n z \<Longrightarrow> sane n z z"
  by (simp add: wired_def linked_def)

lemma wired_le: "wired n z \<Longrightarrow> n \<le> n' \<Longrightarrow> wired n' z"
  unfolding wired_def linked_def using sane_le by blast

lemma wired_read: "wired n0 z \<Longrightarrow> sane n z z' \<Longrightarrow> wired n z'"
  using linked_moved [of n z z'] by (auto simp: wired_def linked_def sane_def same_io_def classes_ok_def)

text \<open>Reading: whatever is not an error takes an octet at least.\<close>

definition advances :: "nat \<Rightarrow> int \<Rightarrow> 'c zmodem \<Rightarrow> bool" where
  "advances n c z \<longleftrightarrow> (if c < 0 then wired n z else \<exists>n'<n. wired n' z)"

lemma advances_wired: "advances n c z \<Longrightarrow> wired n z"
  unfolding advances_def using wired_le less_imp_le by (metis (full_types))

lemma rx_raw_wired:
  assumes "wired n z"
  shows "\<exists>c z'. rx_raw t z = Some (c, z') \<and> advances n c z'"
  using raw_settles [OF wired_sane [OF assms], of t] wired_read [OF assms]
  unfolding settles_def advances_def by metis

lemma rx_header_wired:
  assumes "wired n z"
  shows "\<exists>c z'. rx_header t z = Some (c, z') \<and> advances n c z'"
proof -
  obtain c z' where h: "rx_header t z = Some (c, z')"
    "if c = ZMODEM_INVALID_HEADER \<or> 0 \<le> c then \<exists>n'<n. sane n' z z' else sane n z z' \<and> line_error c"
    using header_raw_hunt [OF wired_sane [OF assms], of t False] unfolding hunt_def rx_header_def by blast
  have "advances n c z'"
    using h(2) wired_read [OF assms] sane_le [of _ z z' n] less_imp_le unfolding advances_def by (auto split: if_splits)
  then show ?thesis using h(1) by blast
qed

lemma rx_poll_wired: "wired n z \<Longrightarrow> wired n (snd (rx_poll z))"
proof -
  assume w: "wired n z"
  then have "live (io_context (io z))" by (auto simp: wired_def linked_def sane_def on_line_def)
  then have "linked n (set_context (snd (pl (io_context (io z)))) z)"
    using poll_keeps [of "io_context (io z)"] w by (intro linked_context) (simp_all add: wired_def)
  then show ?thesis
    using w by (auto simp: rx_poll_def wired_def set_context_def classes_ok_def split: prod.splits)
qed

text \<open>Sending.\<close>

lemma wired_may_send:
  "wired n z \<Longrightarrow> may_send wr fl (\<lambda>c. live c \<and> pending c = pending (io_context (io z))) sent z (sent (io_context (io z)))"
  by (auto simp: wired_def linked_def sane_def on_line_def may_send_def)

lemma sent_wired:
  assumes "wired n z" "may_send wr fl (\<lambda>c. live c \<and> pending c = pending (io_context (io z))) sent z' w" "tx_moved z z'"
  shows "wired n z'"
proof -
  obtain bs k where b: "at z bs k z (load_rx_cursor z)" "length bs \<le> n"
    using assms(1) unfolding wired_def linked_def sane_def by blast
  have m: "io_read (io z') = io_read (io z)" "input_buffer z' = input_buffer z" "input_index z' = input_index z"
    "input_count z' = input_count z" "cancel_count z' = cancel_count z" "rxd_header z' = rxd_header z"
    "io_poll (io z') = io_poll (io z)"
    using assms(3) unfolding tx_moved_def set_context_def by auto
  have "at z' bs k z' (load_rx_cursor z')"
    using b(1) assms(2) m by (auto simp: on_line_def upcoming_def load_rx_cursor_def may_send_def)
  moreover have "length (rxd_header z') = ZMAXHLEN + 1"
    using assms(1) m by (simp add: wired_def linked_def sane_def)
  ultimately show ?thesis
    using assms(1,2) m b(2) by (auto simp: wired_def linked_def sane_def same_io_def may_send_def)
qed

lemma tx_header_wired: "wired n z \<Longrightarrow> HDRLEN \<le> length h \<Longrightarrow> wired n (snd (tx_header h z))"
  using octet_sink.header_sent_count [OF sink_keeping wired_may_send, of n z HDRLEN h] sent_wired
  unfolding tx_header_def by fastforce

lemma tx_hex_header_wired: "wired n z \<Longrightarrow> length h = HDRLEN \<Longrightarrow> wired n (snd (tx_hex_header h z))"
  using octet_sink.hex_header_sent [OF sink_keeping wired_may_send, of n z h] sent_wired by fastforce

lemma tx_pos_header_wired: "wired n z \<Longrightarrow> wired n (snd (tx_pos_header type p z))"
  unfolding tx_pos_header_def Let_def by (rule tx_hex_header_wired) simp_all

lemma tx_data_wired:
  assumes "wired n z" "length p \<le> ZMAXSPLEN"
  shows "\<exists>r z'. tx_data e p z = Some (r, z') \<and> wired n z'"
  using octet_sink.data_sent [OF sink_keeping wired_may_send [OF assms(1)] assms(2), of e] sent_wired [OF assms(1)]
  by fastforce

end

sublocale posix_pipe \<subseteq> polled: polled_line "read_callback ops" live pending "write_callback ops"
    "flush_callback ops" taken "poll_callback ops"
proof
  fix c :: "'a posix"
  show "live c \<Longrightarrow> live (snd (poll_callback ops c)) \<and> pending (snd (poll_callback ops c)) = pending c"
    using posix_poll_returns [of c] by (auto simp: poll_callback_def)
qed

section \<open>The file\<close>

locale seekable_file = file_reader fs fd readable whole offset interrupts
  for fs :: "'f file_calls" and fd :: int and readable :: "'f \<Rightarrow> bool"
    and whole :: "'f \<Rightarrow> u8 list" and offset :: "'f \<Rightarrow> nat" and interrupts :: "'f \<Rightarrow> nat" +
  assumes status: "readable f \<Longrightarrow> f_fstat fs fd f = (r, s, f') \<Longrightarrow> readable f'"
    and seeks: "readable f \<Longrightarrow> 0 \<le> p \<Longrightarrow> f_lseek fs fd p SEEK_SET f = (r, f') \<Longrightarrow> readable f'"
    and fits: "reads_fit fs"
begin

lemma seek_readable:
  assumes "readable f"
  shows "readable (snd (seek_sender fs fd position f))"
proof -
  obtain r s f1 where f1: "f_fstat fs fd f = (r, s, f1)" by (metis prod_cases3)
  obtain q f2 where f2: "f_lseek fs fd (uint position) SEEK_SET f1 = (q, f2)" by fastforce
  have "readable f1" "readable f2" using status [OF assms f1] seeks [OF _ _ f2] by simp_all
  then show ?thesis using f1 f2 assms by (simp add: seek_sender_def Let_def)
qed

lemma position_readable:
  assumes "readable f"
  shows "\<exists>p f'. file_position fs fd f = (p, f') \<and> readable f' \<and> rest f' = rest f"
  using position [OF assms] by (auto simp: file_position_def rest_def)

end

interpretation disk_seeker: seekable_file disk_file_calls h "disk_open h" "disk_contents h" "disk_offset h" disk_signals
  for h :: int
proof
  fix d d' :: disk and r p :: int and s
  show "disk_open h d \<Longrightarrow> f_fstat disk_file_calls h d = (r, s, d') \<Longrightarrow> disk_open h d'"
    by (auto simp: disk_file_calls_def)
  show "disk_open h d \<Longrightarrow> 0 \<le> p \<Longrightarrow> f_lseek disk_file_calls h p SEEK_SET d = (r, d') \<Longrightarrow> disk_open h d'"
    by (auto simp: disk_file_calls_def disk_seek_def disk_open_def split: option.splits)
  show "reads_fit disk_file_calls" by (rule disk_reads_fit)
qed

section \<open>The sender\<close>

locale session_end = polled_line rd live pending wr fl sent pl + seekable_file fs fd readable whole offset interrupts
  for rd :: "'c \<Rightarrow> nat \<Rightarrow> int \<Rightarrow> int \<times> u8 list \<times> nat \<times> 'c" and live :: "'c \<Rightarrow> bool" and pending :: "'c \<Rightarrow> u8 list"
    and wr :: "'c \<Rightarrow> u8 list \<Rightarrow> int \<times> 'c" and fl :: "'c \<Rightarrow> int \<times> 'c" and sent :: "'c \<Rightarrow> u8 list"
    and pl :: "'c \<Rightarrow> int \<times> 'c" and fs :: "'f file_calls" and fd :: int and readable :: "'f \<Rightarrow> bool"
    and whole :: "'f \<Rightarrow> u8 list" and offset :: "'f \<Rightarrow> nat" and interrupts :: "'f \<Rightarrow> nat"
begin

text \<open>A step that keeps the file, on a line with at most \<open>n\<close> octets to come.\<close>

definition talks :: "nat \<Rightarrow> ('c, 'f) sender \<Rightarrow> ('c, 'f) sender \<Rightarrow> bool" where
  "talks n st0 st \<longleftrightarrow> wired n (protocol st) \<and> files st = files st0"

lemma talks_le: "talks n st0 st \<Longrightarrow> n \<le> n' \<Longrightarrow> talks n' st0 st"
  unfolding talks_def using wired_le by blast

lemma header_talks:
  assumes "talks n st0 st"
  obtains (failed) c st' where "on_protocol (rx_header t) st = Some (c, st')" "c < 0" "talks n st0 st'"
  | (heard) c st' n' where "on_protocol (rx_header t) st = Some (c, st')" "0 \<le> c" "n' < n" "talks n' st0 st'"
proof -
  obtain c z where z: "rx_header t (protocol st) = Some (c, z)" "advances n c z"
    using rx_header_wired [of n "protocol st" t] assms by (auto simp: talks_def)
  then show thesis
    using that assms by (cases "c < 0") (auto simp: on_protocol_def talks_def advances_def not_less)
qed

lemma raw_talks:
  assumes "talks n st0 st"
  obtains (failed) c st' where "on_protocol (rx_raw t) st = Some (c, st')" "c < 0" "talks n st0 st'"
  | (heard) c st' n' where "on_protocol (rx_raw t) st = Some (c, st')" "0 \<le> c" "n' < n" "talks n' st0 st'"
proof -
  obtain c z where z: "rx_raw t (protocol st) = Some (c, z)" "advances n c z"
    using rx_raw_wired [of n "protocol st" t] assms by (auto simp: talks_def)
  then show thesis
    using that assms by (cases "c < 0") (auto simp: on_protocol_def talks_def advances_def not_less)
qed

lemma block_ack_talks:
  "talks n st0 st \<Longrightarrow> \<exists>c st'. block_ack_loop position st = Some (c, st') \<and> talks n st0 st'"
proof (induction n arbitrary: st rule: less_induct)
  case (less n)
  from less.prems show ?case
  proof (cases rule: header_talks [of n st0 st 10000])
    case (failed c st')
    then show ?thesis by (subst block_ack_loop.simps) auto
  next
    case (heard c st' n')
    then obtain d st'' where "block_ack_loop position st' = Some (d, st'')" "talks n' st0 st''" using less.IH by blast
    then show ?thesis
      using heard talks_le [OF _ less_imp_le [OF heard(3)]] by (subst block_ack_loop.simps) auto
  qed
qed

lemma window_talks:
  "talks n st0 st \<Longrightarrow> \<exists>r st'. window_loop wire ack st = Some (r, st') \<and> talks n st0 st'"
proof (induction n arbitrary: ack st rule: less_induct)
  case (less n)
  show ?case
  proof (cases "window_size st \<le> wire - ack")
    case False
    then show ?thesis using less.prems by (subst window_loop.simps) auto
  next
    case True
    from less.prems show ?thesis
    proof (cases rule: header_talks [of n st0 st 10000])
      case (failed c st')
      then show ?thesis using True by (subst window_loop.simps) auto
    next
      case (heard c st' n')
      note up = talks_le [OF _ less_imp_le [OF heard(3)]]
      have "\<exists>r st''. window_loop wire ack' st' = Some (r, st'') \<and> talks n st0 st''" for ack'
        using less.IH [OF heard(3,4), of ack'] up by blast
      then show ?thesis using heard(1) True up [OF heard(4)] by (subst window_loop.simps) (auto split: option.splits)
    qed
  qed
qed

lemma reply_talks:
  "talks n st0 st \<Longrightarrow> \<exists>r st'. reply_loop position ack st = Some (r, st') \<and> talks n st0 st'"
proof (induction n arbitrary: ack st rule: less_induct)
  case (less n)
  obtain ready st1 where p: "with_protocol rx_poll st = (ready, st1)" by fastforce
  have t1: "talks n st0 st1"
    using p rx_poll_wired [of n "protocol st"] less.prems by (auto simp: with_protocol_def talks_def split: prod.splits)
  show ?case
  proof (cases "ready \<le> 0")
    case True
    then show ?thesis using p t1 by (subst reply_loop.simps) auto
  next
    case ready: False
    from t1 show ?thesis
    proof (cases rule: raw_talks [of n st0 st1 1000])
      case (failed c st2)
      then show ?thesis using p ready by (subst reply_loop.simps) auto
    next
      case (heard c st2 n2)
      have again: "\<exists>r st'. reply_loop position ack' st3 = Some (r, st') \<and> talks n st0 st'" if "talks n2 st0 st3" for ack' st3
        using less.IH [OF heard(3) that, of ack'] talks_le [OF _ less_imp_le [OF heard(3)]] by blast
      have "\<exists>type st3. on_protocol (rx_header 1000) st2 = Some (type, st3) \<and> talks n2 st0 st3"
        using header_talks [OF heard(4), of 1000] talks_le less_imp_le by metis
      then obtain type st3 where h: "on_protocol (rx_header 1000) st2 = Some (type, st3)" "talks n2 st0 st3" by blast
      note up = talks_le [OF _ less_imp_le [OF heard(3)]]
      show ?thesis
        using p ready heard(1,2) h(1) up [OF h(2)] again [OF h(2)] again [OF heard(4)]
        by (subst reply_loop.simps) (auto split: option.splits)
    qed
  qed
qed

lemma after_block_talks:
  assumes "talks n st0 st"
  shows "\<exists>r st'. after_block e position k stop v st = Some (r, st') \<and> talks n st0 st' \<and> (e = ZCRCE \<longrightarrow> (\<exists>c. r = Inl c))"
proof -
  have inc: "talks n st0 (increase_subpacket_size st')" if "talks n st0 st'" for st'
    using that by (simp add: talks_def increase_subpacket_size_def Let_def)
  have size: "talks n st0 (st'\<lparr>current_file_size := p\<rparr>)" if "talks n st0 st'" for st' p
    using that by (simp add: talks_def)
  consider "e = ZCRCE" | "e = ZCRCW" | "e \<noteq> ZCRCE" "e \<noteq> ZCRCW" by blast
  then show ?thesis
  proof cases
    case 1
    then show ?thesis using size [OF assms] by (simp add: after_block_def)
  next
    case 2
    obtain c st1 where b: "block_ack_loop position st = Some (c, st1)" "talks n st0 st1"
      using block_ack_talks [OF assms] by blast
    then show ?thesis using 2 inc [OF b(2)] size [OF inc [OF b(2)]] by (simp add: after_block_def Let_def)
  next
    case 3
    obtain r st1 where b: "reply_loop position (acknowledged_position v) st = Some (r, st1)" "talks n st0 st1"
      using reply_talks [OF assms] by blast
    then show ?thesis using 3 inc [OF b(2)] by (cases r) (simp_all add: after_block_def Let_def)
  qed
qed

text \<open>Between two steps: the line, the file, the sizes.\<close>

definition working :: "('c, 'f) sender \<Rightarrow> bool" where
  "working st \<longleftrightarrow> (\<exists>n. wired n (protocol st)) \<and> readable (files st)"

lemma talks_working: "talks n st0 st \<Longrightarrow> readable (files st0) \<Longrightarrow> working st"
  unfolding talks_def working_def by auto

lemma send_failed_works: "working st \<Longrightarrow> working (snd (send_failed st))"
  by (simp add: working_def send_failed_def report_sender_def)

lemma protocol_works:
  "working st \<Longrightarrow> (\<And>n. wired n (protocol st) \<Longrightarrow> wired n (snd (g (protocol st)))) \<Longrightarrow> working (snd (with_protocol g st))"
  unfolding working_def by (cases "g (protocol st)") (auto simp: with_protocol_def)

lemma failed_working:
  "working st \<Longrightarrow> working (snd (send_failed (snd (with_protocol (tx_pos_header ZFERR p) st))))"
  by (intro send_failed_works protocol_works tx_pos_header_wired)

lemma block_works:
  assumes "working st" "sender_ok st"
  shows "\<exists>r st'. send_block fs fd plan v wire st = Some (r, st') \<and> working st' \<and>
    (\<forall>v'. r = Inr v' \<longrightarrow> length (rest (files st')) < length (rest (files st)))"
proof -
  let ?n = "read_size (window_enabled plan) wire (acknowledged_position v) (segment_sent v) st"
  obtain f1 where f1: "read_file_block fs fd ?n (files st) = Some (Some (take ?n (rest (files st)), length (rest (files st)) < ?n), f1)"
    "readable f1" "rest f1 = drop ?n (rest (files st))"
    using read_file_block_returns [of "files st" ?n] rest_after assms(1) unfolding working_def by metis
  have "length (take ?n (rest (files st))) \<le> ?n" "take ?n (rest (files st)) \<noteq> [] \<longrightarrow> length (rest f1) < length (rest (files st))"
    using f1(3) by auto
  then obtain block eof f where f: "read_file_block fs fd ?n (files st) = Some (Some (block, eof), f)" "readable f"
    "length block \<le> ?n" "block \<noteq> [] \<longrightarrow> length (rest f) < length (rest (files st))"
    using f1(1,2) that by blast
  let ?st = "st\<lparr>files := f, tx_data_subpacket := overlay block (tx_data_subpacket st)\<rparr>"
  obtain n where n: "wired n (protocol ?st)" using assms(1) by (auto simp: working_def)
  have w: "working ?st" using n f(2) by (auto simp: working_def)
  show ?thesis
  proof (cases "UINT32_MAX < length block \<or> wire + word_of_nat (length block) < wire")
    case True
    then have "send_block fs fd plan v wire st = Some (send_failed (snd (with_protocol (tx_pos_header ZFERR wire) ?st)))"
      using f(1) by (auto simp: send_block_def Let_def)
    then show ?thesis using failed_working [OF w, of wire] by (simp add: send_failed_def)
  next
    case False
    let ?position = "wire + word_of_nat (length block)"
    let ?e = "frame_end_for plan v (receiver_buffer_size st) (length block) eof ?position"
    let ?p = "take (length block) (tx_data_subpacket ?st)"
    have "length ?p \<le> ZMAXSPLEN" using order_trans [OF f(3) read_size_bounds(1) [OF assms(2)]] by simp
    then obtain r z where z: "tx_data ?e ?p (protocol ?st) = Some (r, z)" "wired n z" using tx_data_wired [OF n] by blast
    let ?st1 = "?st\<lparr>protocol := z\<rparr>"
    have eq: "send_block fs fd plan v wire st = (if r \<noteq> 0 then Some (send_failed ?st1)
        else after_block ?e ?position (length block) ((wait_each_block plan \<or> synchronize_recovery v) \<and> eof) v ?st1)"
      using f(1) False z(1) by (simp add: send_block_def on_protocol_def Let_def)
    have t: "talks n ?st1 ?st1" "readable (files ?st1)" using z(2) f(2) by (simp_all add: talks_def)
    show ?thesis
    proof (cases "r = 0")
      case r: False
      have "working ?st1" using talks_working [OF t] .
      then show ?thesis using eq r send_failed_works [of ?st1] by (simp add: send_failed_def)
    next
      case True
      obtain q st2 where a: "after_block ?e ?position (length block) ((wait_each_block plan \<or> synchronize_recovery v) \<and> eof) v ?st1 =
          Some (q, st2)" "talks n ?st1 st2" "?e = ZCRCE \<longrightarrow> (\<exists>c. q = Inl c)" using after_block_talks [OF t(1)] by blast
      have "length (rest (files st2)) < length (rest (files st))" if "q = Inr v'" for v'
      proof -
        have "?e \<noteq> ZCRCE" using a(3) that by auto
        then have "block \<noteq> []" by (auto simp: frame_end_for_def)
        then show ?thesis using a(2) f(4) by (auto simp: talks_def)
      qed
      then show ?thesis using eq True a(1) talks_working [OF a(2) t(2)] by auto
    qed
  qed
qed

lemma checked_works:
  assumes "working st" "sender_ok st"
  shows "\<exists>p st'. checked_position fs fd st = (p, st') \<and> working st' \<and> sender_ok st' \<and> rest (files st') = rest (files st) \<and>
    (\<forall>k. fits_receiver k st' = fits_receiver k st)"
proof -
  obtain p f where f: "file_position fs fd (files st) = (p, f)" "readable f" "rest f = rest (files st)"
    using position_readable [of "files st"] assms(1) by (auto simp: working_def)
  then show ?thesis
    using assms by (auto simp: checked_position_def working_def sender_ok_def sizes_ok_def fits_receiver_def report_sender_def
        Let_def split: option.split)
qed

lemma round_works:
  assumes "working st" "sender_ok st" "fits_receiver (segment_sent v) st"
  shows "\<exists>r st'. send_round fs fd plan v st = Some (r, st') \<and> working st' \<and> sender_ok st' \<and>
    (\<forall>v'. r = Inr v' \<longrightarrow> fits_receiver (segment_sent v') st' \<and> length (rest (files st')) < length (rest (files st)))"
proof -
  have "\<exists>r st'. send_round fs fd plan v st = Some (r, st') \<and> working st' \<and>
    (\<forall>v'. r = Inr v' \<longrightarrow> length (rest (files st')) < length (rest (files st)))"
  proof -
    obtain p st1 where p: "checked_position fs fd st = (p, st1)" "working st1" "sender_ok st1" "rest (files st1) = rest (files st)"
      using checked_works [OF assms(1,2)] by blast
    obtain n where n: "talks n st1 st1" and r1: "readable (files st1)" using p(2) by (auto simp: working_def talks_def)
    show ?thesis
    proof (cases p)
      case (Inl c)
      then show ?thesis using p by (simp add: send_round_def)
    next
      case (Inr wire)
      let ?window = "if window_enabled plan then window_loop wire (acknowledged_position v) st1
        else Some (Inr (acknowledged_position v), st1)"
      obtain w st2 where w: "?window = Some (w, st2)" "talks n st1 st2" using window_talks [OF n, of wire "acknowledged_position v"] n by (cases "window_enabled plan") auto
      have s2: "sender_ok st2" using w(1) p(3) window_loop_same same_session_ok(1) by (fastforce split: if_splits)
      show ?thesis
      proof (cases w)
        case Inl
        then show ?thesis using p(1) Inr w(1) talks_working [OF w(2) r1] by (auto simp: send_round_def)
      next
        case ack: (Inr ack)
        obtain r st3 where o: "open_frame wire (frame_open v) st2 = (r, st3)" by fastforce
        have t3: "talks n st1 st3"
          using o w(2) tx_header_wired [of n "protocol st2" "zmodem_set_header_position [ZDATA, 0, 0, 0, 0] wire"]
          by (auto simp: open_frame_def talks_def with_protocol_def split: if_splits prod.splits)
        have s3: "sender_ok st3"
          using o s2 with_protocol_ok [of "tx_header (zmodem_set_header_position [ZDATA, 0, 0, 0, 0] wire)" st2]
          by (auto simp: open_frame_def split: if_splits)
        have w3: "working st3" "rest (files st3) = rest (files st)" using talks_working [OF t3 r1] t3 p(4) by (simp_all add: talks_def)
        have eq: "send_round fs fd plan v st = (if r \<noteq> 0 then Some (send_failed st3)
            else send_block fs fd plan (v\<lparr>acknowledged_position := ack, frame_open := True\<rparr>) wire st3)"
          unfolding send_round_def using p(1) Inr w(1) ack o by (simp only: prod.case sum.case Let_def bind.bind_lunit)
        show ?thesis
        proof (cases "r = 0")
          case True
          then show ?thesis using eq block_works [OF w3(1) s3] w3(2) by simp
        next
          case False
          then show ?thesis using eq send_failed_works [OF w3(1)] by (simp add: send_failed_def)
        qed
      qed
    qed
  qed
  then obtain r st' where r: "send_round fs fd plan v st = Some (r, st')" "working st'"
    "\<forall>v'. r = Inr v' \<longrightarrow> length (rest (files st')) < length (rest (files st))" by blast
  have "round_ok (r, st')" by (rule send_round_ok [OF r(1) fits assms(2,3)])
  then show ?thesis using r by (auto simp: round_ok_def)
qed

lemma loop_works:
  "working st \<Longrightarrow> sender_ok st \<Longrightarrow> fits_receiver (segment_sent v) st \<Longrightarrow>
   \<exists>c st'. send_loop fs fd plan v st = Some (c, st') \<and> working st' \<and> sender_ok st'"
proof (induction "length (rest (files st))" arbitrary: v st rule: less_induct)
  case less
  obtain r st1 where r: "send_round fs fd plan v st = Some (r, st1)" "working st1" "sender_ok st1"
    "\<forall>v'. r = Inr v' \<longrightarrow> fits_receiver (segment_sent v') st1 \<and> length (rest (files st1)) < length (rest (files st))"
    using round_works [OF less.prems] by blast
  show ?case
  proof (cases r)
    case (Inl c)
    then show ?thesis using r by (subst send_loop.simps) simp
  next
    case (Inr v')
    then have "\<exists>c st'. send_loop fs fd plan v' st1 = Some (c, st') \<and> working st' \<and> sender_ok st'"
      using less.hyps [of st1 v'] r by blast
    then show ?thesis using r(1) Inr by (subst send_loop.simps) simp
  qed
qed

lemma from_works:
  assumes "working st" "sender_ok st"
  shows "\<exists>c st'. send_from fs fd sync st = Some (c, st') \<and> working st' \<and> sender_ok st'"
proof -
  obtain p st1 where p: "checked_position fs fd st = (p, st1)" "working st1" "sender_ok st1" using checked_works [OF assms] by blast
  show ?thesis
  proof (cases p)
    case (Inl c)
    then show ?thesis using p by (simp add: send_from_def Let_def)
  next
    case (Inr position)
    have "fits_receiver 0 st1" by (simp add: fits_receiver_def)
    then show ?thesis using loop_works [OF p(2,3)] p(1) Inr by (simp add: send_from_def Let_def)
  qed
qed

text \<open>The recovery loop.\<close>

definition able :: "('c, 'f) sender \<Rightarrow> bool" where
  "able st \<longleftrightarrow> working st \<and> sender_ok st"

lemma reduce_able: "able st \<Longrightarrow> able (reduce_subpacket_size st)"
  using sizes_ok_reduce [of st] by (auto simp: able_def working_def sender_ok_def reduce_subpacket_size_def Let_def)

lemma header_able:
  assumes "able st"
  shows "\<exists>c st'. on_protocol (rx_header t) st = Some (c, st') \<and> able st'"
proof -
  obtain n where n: "talks n st st" "readable (files st)" using assms by (auto simp: able_def working_def talks_def)
  obtain c st' where h: "on_protocol (rx_header t) st = Some (c, st')" "\<exists>n. talks n st st'"
    using header_talks [OF n(1), of t] by metis
  have "sender_ok st'" using on_protocol_same [OF h(1)] assms by (simp add: same_session_ok able_def)
  then show ?thesis using h talks_working n(2) by (auto simp: able_def)
qed

lemma finish_able:
  "able st \<Longrightarrow> length zeof = HDRLEN \<Longrightarrow>
   \<exists>r st'. finish_loop k fs fd zeof attempted furthest attempts st = Some (r, st') \<and> (\<forall>rec'. r = Inr rec' \<longrightarrow> able st')"
proof (induction k arbitrary: st)
  case 0
  then show ?case by (cases "fail_with fs fd st") simp
next
  case (Suc k)
  obtain r st1 where s: "with_protocol (tx_hex_header zeof) st = (r, st1)" by fastforce
  have a1: "able st1"
    using protocol_works [of st "tx_hex_header zeof"] tx_hex_header_wired [OF _ Suc.prems(2)] with_protocol_ok [of "tx_hex_header zeof" st]
      Suc.prems(1) by (simp add: able_def s)
  obtain c st2 where h: "on_protocol (rx_header 10000) st1 = Some (c, st2)" "able st2" using header_able [OF a1] by blast
  obtain r' st' where again: "finish_loop k fs fd zeof attempted furthest attempts st2 = Some (r', st')"
    "\<forall>rec'. r' = Inr rec' \<longrightarrow> able st'" using Suc.IH [OF h(2) Suc.prems(2)] by blast
  obtain progress furthest' attempts' where acc:
    "account_recovery (zmodem_header_position (rxd_header (protocol st2))) furthest attempts = (progress, furthest', attempts')"
    by (metis prod_cases3)
  show ?case
  proof (cases "r = 0")
    case False
    then show ?thesis using s by (cases "fail_with fs fd st1") simp
  next
    case True
    then show ?thesis using s h again acc
      by (cases "close_with fs fd SEND_SUCCEEDED (parse_zrinit st2)"; cases "close_with fs fd SEND_SKIPPED st2";
          cases "close_with fs fd SEND_FAILED st2") (simp add: Let_def)
  qed
qed

lemma recover_able:
  assumes "able st"
  shows "\<exists>r st'. recover_locally fs fd rec st = (r, st') \<and> (\<forall>rec'. r = Inr rec' \<longrightarrow> able st')"
proof -
  obtain pos attempted furthest attempts where rec: "rec = (pos, attempted, furthest, attempts)" by (metis prod_cases4)
  obtain result f where f: "f_lseek fs fd 0 SEEK_CUR (files st) = (result, f)" "readable f"
    using position [of "files st"] assms by (auto simp: able_def working_def)
  have "able (st\<lparr>files := f\<rparr>)" using assms f(2) by (auto simp: able_def working_def sender_ok_def sizes_ok_def)
  then have "able (snd (recovery_position fs fd st))"
    using f(1) assms by (auto simp: recovery_position_def file_position_def Let_def report_sender_def able_def working_def
        sender_ok_def sizes_ok_def split: option.split)
  then show ?thesis using reduce_able
    by (cases "recovery_position fs fd st"; cases "close_with fs fd SEND_FAILED (snd (recovery_position fs fd st))")
       (auto simp: recover_locally_def rec Let_def split: option.split prod.split)
qed

lemma transfer_able:
  assumes "able st"
  shows "\<exists>r st'. transfer_round fs fd rec sync st = Some (r, st') \<and> (\<forall>rec'. r = Inr rec' \<longrightarrow> able st')"
proof -
  obtain pos attempted furthest attempts where rec: "rec = (pos, attempted, furthest, attempts)" by (metis prod_cases4)
  obtain ok f where f: "seek_sender fs fd pos (files st) = (ok, f)" by fastforce
  then have "readable f" using seek_readable [of "files st" pos] assms by (simp add: able_def working_def)
  then have a: "able (st\<lparr>files := f\<rparr>)" using assms by (auto simp: able_def working_def sender_ok_def sizes_ok_def)
  obtain type st1 where s: "send_from fs fd sync (st\<lparr>files := f\<rparr>) = Some (type, st1)" "able st1"
    using from_works [of "st\<lparr>files := f\<rparr>" sync] a unfolding able_def by blast
  show ?thesis
  proof (cases ok)
    case False
    let ?fail = "fail_with fs fd (snd (with_protocol (tx_pos_header ZFERR pos) (st\<lparr>files := f\<rparr>)))"
    show ?thesis using f False by (cases ?fail) (simp add: transfer_round_def rec)
  next
    case True
    obtain progress furthest' attempts' where acc:
      "account_recovery (zmodem_header_position (rxd_header (protocol st1))) furthest attempts = (progress, furthest', attempts')"
      by (metis prod_cases3)
    let ?zeof = "zmodem_set_header_position [ZEOF, 0, 0, 0, 0] (word_of_int (current_file_size st1))"
    obtain r st2 where fin: "finish_loop MAX_RETRIES fs fd ?zeof attempted furthest attempts st1 = Some (r, st2)"
      "\<forall>rec'. r = Inr rec' \<longrightarrow> able st2" using finish_able [OF s(2), of ?zeof] by fastforce
    obtain q st3 where lo: "recover_locally fs fd rec st1 = (q, st3)" "\<forall>rec'. q = Inr rec' \<longrightarrow> able st3"
      using recover_able [OF s(2)] by blast
    note eq = transfer_round_def rec prod.case f Let_def s(1) bind.bind_lunit
    consider "type = uint ZSKIP" | "type = uint ZRPOS" | "type = uint ZNAK \<or> type = ZMODEM_TIMEOUT"
      | "type \<noteq> uint ZACK" "type \<noteq> uint ZSKIP" "type \<noteq> uint ZRPOS" "type \<noteq> uint ZNAK" "type \<noteq> ZMODEM_TIMEOUT"
      | "type = uint ZACK" by blast
    then show ?thesis
    proof cases
      case 1
      then show ?thesis using True by (cases "close_with fs fd SEND_SKIPPED st1") (simp add: eq)
    next
      case 2
      then show ?thesis using True acc reduce_able [OF s(2)] by (simp add: eq)
    next
      case 3
      then show ?thesis using True lo by (auto simp: eq)
    next
      case 4
      then show ?thesis using True
        by (cases "close_with fs fd SEND_FAILED (if \<not> send_error_reported st1 then report_sender st1 else st1)") (simp add: eq)
    next
      case 5
      then show ?thesis using True fin by (simp add: eq)
    qed
  qed
qed

lemma able_starts:
  assumes "may_send wr fl live sent (protocol st) w" "will_read rd live pending (protocol st) bs"
    "io_poll (io (protocol st)) = pl" "sender_ok st" "readable (files st)"
  shows "able st"
  using assms will_read_sane [OF assms(2)] by (auto simp: able_def working_def wired_def linked_def may_send_def)

lemma loop_able: "able st \<Longrightarrow> \<exists>result st'. transfer_loop fs fd rec sync st = Some (result, st')"
  by (rule transfer_loop_ends [of able]) (rule transfer_able)

end

interpretation pipe_session: session_end "read_callback pipe_kernel" pipe.live pipe.pending "write_callback pipe_kernel"
    "flush_callback pipe_kernel" pipe.taken "poll_callback pipe_kernel" disk_file_calls h "disk_open h" "disk_contents h"
    "disk_offset h" disk_signals
  for h :: int
  by (intro session_end.intro pipe.polled.polled_line_axioms disk_seeker.seekable_file_axioms)

section \<open>Properties\<close>

text \<open>C16: The sender gives up. Whatever positions the receiver asks for, and wherever the file stands
  after a timeout or a ZNAK, the recovery loop of \<open>send_file\<close> ends, provided that each of its
  passes does: only progress renews the ten attempts, and progress is bounded. On a transport that keeps the
  contract of the protocol, and with a file that can be read and repositioned, each pass does, and so the
  loop ends whatever octets arrive.\<close>

theorem recovery_ends:
  "((\<forall>rec sync st. ok st \<longrightarrow>
      (\<exists>r st'. transfer_round fs fd rec sync st = Some (r, st') \<and> (\<forall>rec'. r = Inr rec' \<longrightarrow> ok st'))) \<longrightarrow>
    ok st \<longrightarrow> (\<exists>result st'. transfer_loop fs fd rec sync st = Some (result, st'))) \<and>
   (polled_line rd live pending wr fl sent pl \<longrightarrow> seekable_file fs fd readable whole offset interrupts \<longrightarrow>
    may_send wr fl live sent (protocol st) w \<longrightarrow> will_read rd live pending (protocol st) bs \<longrightarrow>
    io_poll (io (protocol st)) = pl \<longrightarrow> sender_ok st \<longrightarrow> readable (files st) \<longrightarrow>
    (\<exists>result st'. transfer_loop fs fd rec sync st = Some (result, st')))"
proof (intro conjI impI)
  assume "\<forall>rec sync st. ok st \<longrightarrow>
      (\<exists>r st'. transfer_round fs fd rec sync st = Some (r, st') \<and> (\<forall>rec'. r = Inr rec' \<longrightarrow> ok st'))" "ok st"
  then show "\<exists>result st'. transfer_loop fs fd rec sync st = Some (result, st')" using transfer_loop_ends [of ok] by blast
next
  assume "polled_line rd live pending wr fl sent pl" "seekable_file fs fd readable whole offset interrupts"
  note session = session_end.intro [OF this]
  assume "may_send wr fl live sent (protocol st) w" "will_read rd live pending (protocol st) bs"
    "io_poll (io (protocol st)) = pl" "sender_ok st" "readable (files st)"
  from session_end.loop_able [OF session session_end.able_starts [OF session this]]
  show "\<exists>result st'. transfer_loop fs fd rec sync st = Some (result, st')" .
qed

theorem recovery_ends_witness:
  "(\<exists>result st'. transfer_loop memory_files (- 1) (5, 5, 5, 0) False (idle_sender [1, 2]) = Some (result, st')) \<and>
   (\<forall>arriving. \<exists>result st'. transfer_loop disk_file_calls 3 (0, 0, 0, 0) False
      (zmtx_statics (pipe_end arriving 3) (one_file [1, 2, 0x18] 0)) = Some (result, st'))"
proof (intro conjI allI)
  have "seek_sender memory_files (- 1) pos f = (False, f)" for pos and f :: "u8 list \<times> nat"
    by (simp add: seek_sender_def memory_files_def)
  then have "\<exists>r st'. transfer_round memory_files (- 1) rec sync st = Some (r, st') \<and> (\<forall>rec'. r = Inr rec' \<longrightarrow> True)"
    for rec sync and st :: "(unit, u8 list \<times> nat) sender"
    by (cases rec; cases "fail_with memory_files (- 1) (snd (with_protocol (tx_pos_header ZFERR (fst rec)) (st\<lparr>files := files st\<rparr>)))")
       (simp add: transfer_round_def)
  then show "\<exists>result st'. transfer_loop memory_files (- 1) (5, 5, 5, 0) False (idle_sender [1, 2]) = Some (result, st')"
    using conjunct1 [OF recovery_ends, of "\<lambda>_. True"] by blast
next
  fix arriving :: "u8 list"
  let ?st = "zmtx_statics (pipe_end arriving 3) (one_file [1, 2, 0x18] 0)"
  have "may_send (write_callback pipe_kernel) (flush_callback pipe_kernel) pipe.live pipe.taken (protocol ?st) []"
    "will_read (read_callback pipe_kernel) pipe.live pipe.pending (protocol ?st) arriving"
    "io_poll (io (protocol ?st)) = poll_callback pipe_kernel" "sender_ok ?st" "disk_open 3 (files ?st)"
    using pipe_end_sends pipe_end_reads pipe_end_poll
    by (simp_all add: zmtx_statics_def sender_ok_def sizes_ok_def good_sizes_def)
  from conjunct2 [OF recovery_ends, rule_format, OF pipe.polled.polled_line_axioms disk_seeker.seekable_file_axioms this]
  show "\<exists>result st'. transfer_loop disk_file_calls 3 (0, 0, 0, 0) False ?st = Some (result, st')" .
qed

end
