(* ===== verification/Negotiate.thy ===== *)
theory Negotiate
  imports Zmtx_Correct Zmrx_Main Exchange
begin

text \<open>
  What one program says, the other understands: the capabilities in ZRINIT, the request in an
  extended ZRPOS, the name and the numbers in ZFILE. The two programs share no code for these, so
  each property relates a definition of \<open>Zmtx\<close> to one of \<open>Zmrx\<close>.
\<close>

lemma header_position_5: "5 \<le> length h \<Longrightarrow> zmodem_header_position (h @ rest) = zmodem_header_position h"
  "5 \<le> i \<Longrightarrow> zmodem_header_position (h[i := c]) = zmodem_header_position h"
  by (simp_all add: zmodem_header_position_def nth_append)

section \<open>Capabilities\<close>

lemma zrinit_sent: "\<exists>z. tx_zrinit st = with_protocol_r (tx_hex_header (zrinit_header st)) (st\<lparr>protocol_r := z\<rparr>)"
  unfolding tx_zrinit_def Let_def by (rule exI, rule refl)

lemma zrinit_parsed:
  "length (zrinit_header st) = HDRLEN \<and> zrinit_header st ! FTYPE = ZRINIT \<and>
   (let s = parse_zrinit (s0\<lparr>protocol := (protocol s0)\<lparr>rxd_header := zrinit_header st @ rest\<rparr>\<rparr>)
    in can_full_duplex (protocol s) \<and> can_break (protocol s) \<and> can_rle (protocol s) \<and> can_fcs_32 (protocol s) \<and>
       can_overlap_io (protocol s) = (\<not> opt_s_r st) \<and>
       escape_all_control_characters (protocol s) = opt_escape_control st \<and>
       escape_8th_bit (protocol s) = opt_escape_8th_bit st \<and>
       peer_can_variable_headers (protocol s) = (opt_pack7 st \<or> opt_m_r st \<and> \<not> opt_M_r st) \<and>
       unat (receiver_buffer_size s) = (if opt_s_r st then ZMAXSPLEN else 0))"
  by (cases "opt_pack7 st"; cases "opt_m_r st"; cases "opt_M_r st"; cases "opt_s_r st";
      cases "opt_escape_control st"; cases "opt_escape_8th_bit st")
     (simp_all add: zrinit_header_def parse_zrinit_def Let_def)

text \<open>C21: The sender reads the receiver's capabilities as the receiver means them. The header that
  \<open>tx_zrinit\<close> sends, when it has arrived, makes \<open>parse_zrinit\<close> set full duplex, break, run-length and
  CRC-32; overlapped I/O exactly when streaming was not refused; the two escaping requests as
  the receiver's options ask; variable-length headers when Pack-7 or MobyTurbo is wanted; and a
  buffer of \<open>ZMAXSPLEN\<close> octets exactly when streaming was refused.\<close>

theorem zrinit_is_understood:
  "(\<exists>z. tx_zrinit st = with_protocol_r (tx_hex_header (zrinit_header st)) (st\<lparr>protocol_r := z\<rparr>)) \<and>
   (let s = parse_zrinit (s0\<lparr>protocol := (protocol s0)\<lparr>rxd_header := zrinit_header st @ rest\<rparr>\<rparr>)
    in can_full_duplex (protocol s) \<and> can_break (protocol s) \<and> can_rle (protocol s) \<and> can_fcs_32 (protocol s) \<and>
       can_overlap_io (protocol s) = (\<not> opt_s_r st) \<and>
       escape_all_control_characters (protocol s) = opt_escape_control st \<and>
       escape_8th_bit (protocol s) = opt_escape_8th_bit st \<and>
       peer_can_variable_headers (protocol s) = (opt_pack7 st \<or> opt_m_r st \<and> \<not> opt_M_r st) \<and>
       unat (receiver_buffer_size s) = (if opt_s_r st then ZMAXSPLEN else 0))"
  using zrinit_sent zrinit_parsed by blast

section \<open>The request for data\<close>

text \<open>The header \<open>tx_zrpos\<close> sends: eight octets of which the last has the requests, or five when there are none.\<close>

definition zrpos_header :: "u32 \<Rightarrow> ('c, 'f) receiver \<Rightarrow> u8 list" where
  "zrpos_header position st =
     take (if zrpos_flags st = 0 then HDRLEN else ZMODEM90_ZRPOS_HEADER_LEN)
       ((zmodem_set_header_position [ZRPOS, 0, 0, 0, 0, 0, 0, 0] position)[ZMODEM90_ZRPOS_FLAGS := zrpos_flags st])"

lemma zrpos_header_facts:
  "length (zrpos_header position st) = (if zrpos_flags st = 0 then HDRLEN else ZMODEM90_ZRPOS_HEADER_LEN)"
  "hd (zrpos_header position st) = ZRPOS"
  "zrpos_flags st \<noteq> 0 \<Longrightarrow> zrpos_header position st ! ZMODEM90_ZRPOS_FLAGS = zrpos_flags st"
  by (simp_all add: zrpos_header_def zmodem_set_header_position_def)

lemma zrpos_header_position: "zmodem_header_position (zrpos_header position st @ rest) = position"
proof -
  let ?h = "zmodem_set_header_position [ZRPOS, 0, 0, 0, 0, 0, 0, 0] position"
  have "zmodem_header_position (zrpos_header position st @ rest) = zmodem_header_position ?h"
    by (simp add: zrpos_header_def zmodem_set_header_position_def zmodem_header_position_def)
  then show ?thesis by (simp add: header_position_set)
qed

lemma zrpos_sends:
  assumes "octet_sink wr fl open_for sent" "may_send wr fl open_for sent (protocol_r st) w"
  shows "\<exists>st'. tx_zrpos position st = (0, st') \<and>
    may_send wr fl open_for sent (protocol_r st') (w @ header_wire (protocol_r st) (zrpos_header position st))"
proof -
  let ?p = "zmodem_set_header_position [ZRPOS, 0, 0, 0, 0, 0, 0, 0] position"
  let ?q = "?p[ZMODEM90_ZRPOS_FLAGS := zrpos_flags st]" and ?m = "if zrpos_flags st = 0 then HDRLEN else ZMODEM90_ZRPOS_HEADER_LEN"
  have l: "HDRLEN \<le> ?m" "?m \<le> ZMAXHLEN + 1" "?m \<le> length ?q" by simp_all
  obtain z where z: "tx_header_length ?q ?m (protocol_r st) = (0, z)"
    "may_send wr fl open_for sent z (w @ header_wire (protocol_r st) (zrpos_header position st))"
    using octet_sink.header_sent_count [OF assms l] unfolding zrpos_header_def by blast
  show ?thesis
  proof (cases "zrpos_flags st = 0")
    case True
    then have "?q = ?p" by (simp add: zmodem_set_header_position_def)
    then show ?thesis using z True by (simp add: tx_zrpos_def with_protocol_r_def tx_header_def)
  next
    case False
    then show ?thesis using z by (simp add: tx_zrpos_def with_protocol_r_def Let_def)
  qed
qed

text \<open>What the sender makes of it.\<close>

lemma zrpos_selects:
  assumes "rxd_header (protocol s) = zrpos_header position st @ rest"
    "rxd_header_len (protocol s) = length (zrpos_header position st)"
  shows "use_mobyturbo (protocol (select_zrpos_encoding s)) =
      (\<not> extended_zrpos_sent st \<and> current_mobyturbo st \<and> opt_m s \<and> \<not> opt_M s \<and>
       \<not> escape_8th_bit (protocol s) \<and> peer_can_variable_headers (protocol s))"
    "use_pack7 (protocol (select_zrpos_encoding s)) =
      (\<not> extended_zrpos_sent st \<and> opt_pack7 st \<and> peer_can_variable_headers (protocol_r st) \<and>
       escape_8th_bit (protocol s) \<and> peer_can_variable_headers (protocol s))"
proof -
  let ?moby = "\<not> extended_zrpos_sent st \<and> current_mobyturbo st"
    and ?pack7 = "\<not> extended_zrpos_sent st \<and> opt_pack7 st \<and> peer_can_variable_headers (protocol_r st)"
  have f: "zrpos_flags st AND ZMODEM90_REQUEST_MOBYTURBO \<noteq> 0 \<longleftrightarrow> ?moby"
    "zrpos_flags st AND ZMODEM90_REQUEST_PACK7 \<noteq> 0 \<longleftrightarrow> ?pack7"
    by (cases ?moby; cases ?pack7; auto simp: zrpos_flags_def Let_def)+
  define flags where "flags = (if rxd_header_len (protocol s) > ZMODEM90_ZRPOS_FLAGS
    then rxd_header (protocol s) ! ZMODEM90_ZRPOS_FLAGS else 0)"
  have flags: "flags = zrpos_flags st"
    using zrpos_header_facts(1,3) [where position = position and st = st] by (auto simp: flags_def assms nth_append)
  show "use_mobyturbo (protocol (select_zrpos_encoding s)) =
      (\<not> extended_zrpos_sent st \<and> current_mobyturbo st \<and> opt_m s \<and> \<not> opt_M s \<and>
       \<not> escape_8th_bit (protocol s) \<and> peer_can_variable_headers (protocol s))"
    "use_pack7 (protocol (select_zrpos_encoding s)) =
      (\<not> extended_zrpos_sent st \<and> opt_pack7 st \<and> peer_can_variable_headers (protocol_r st) \<and>
       escape_8th_bit (protocol s) \<and> peer_can_variable_headers (protocol s))"
    by (auto simp: select_zrpos_encoding_def Let_def f flags simp flip: flags_def)
qed

text \<open>C20: The request for data is understood. \<open>tx_zrpos\<close> sends a header; a sender whose settings agree,
  reading its octets, gets ZRPOS with the position asked for, and then enters MobyTurbo or Pack-7
  exactly when this is the first request, the receiver wants it, and the sender's own options, the
  variable-length headers and eight-bit escaping allow it; the two exclude each other.\<close>

theorem zrpos_is_understood:
  assumes "octet_sink wr fl open_for sent" and "octet_source rd live pending"
    and "may_send wr fl open_for sent (protocol_r st) w"
  shows "\<exists>st' octets. tx_zrpos position st = (0, st') \<and> may_send wr fl open_for sent (protocol_r st') (w @ octets) \<and>
    (\<forall>s bs. agreed (protocol_r st) (protocol s) \<longrightarrow> will_read rd live pending (protocol s) (octets @ bs) \<longrightarrow>
      (\<exists>s'. on_protocol (rx_header t) s = Some (uint ZRPOS, s') \<and>
        zmodem_header_position (rxd_header (protocol s')) = position \<and>
        use_mobyturbo (protocol (select_zrpos_encoding s')) =
          (\<not> extended_zrpos_sent st \<and> current_mobyturbo st \<and> opt_m s \<and> \<not> opt_M s \<and>
           \<not> escape_8th_bit (protocol s) \<and> peer_can_variable_headers (protocol s)) \<and>
        use_pack7 (protocol (select_zrpos_encoding s')) =
          (\<not> extended_zrpos_sent st \<and> opt_pack7 st \<and> peer_can_variable_headers (protocol_r st) \<and>
           escape_8th_bit (protocol s) \<and> peer_can_variable_headers (protocol s))))"
proof -
  let ?h = "zrpos_header position st"
  have l: "HDRLEN \<le> length ?h" "length ?h \<le> ZMAXHLEN + 1" by (simp_all add: zrpos_header_facts(1))
  have "\<exists>s'. on_protocol (rx_header t) s = Some (uint ZRPOS, s') \<and>
        zmodem_header_position (rxd_header (protocol s')) = position \<and>
        use_mobyturbo (protocol (select_zrpos_encoding s')) =
          (\<not> extended_zrpos_sent st \<and> current_mobyturbo st \<and> opt_m s \<and> \<not> opt_M s \<and>
           \<not> escape_8th_bit (protocol s) \<and> peer_can_variable_headers (protocol s)) \<and>
        use_pack7 (protocol (select_zrpos_encoding s')) =
          (\<not> extended_zrpos_sent st \<and> opt_pack7 st \<and> peer_can_variable_headers (protocol_r st) \<and>
           escape_8th_bit (protocol s) \<and> peer_can_variable_headers (protocol s))"
    if s: "agreed (protocol_r st) (protocol s)" "will_read rd live pending (protocol s) (header_wire (protocol_r st) ?h @ bs)"
    for s bs
  proof -
    obtain z where z: "rx_header_raw t False (protocol s) = Some (uint (hd ?h), z)" "rxd_header_len z = length ?h"
      "take (length ?h) (rxd_header z) = ?h" "escape_8th_bit z = escape_8th_bit (protocol s)"
      "peer_can_variable_headers z = peer_can_variable_headers (protocol s)"
      using octet_source.header_received_keeping [OF assms(2) s(2,1) l, of t False] by blast
    let ?s = "s\<lparr>protocol := z\<rparr>"
    have h: "rxd_header (protocol ?s) = ?h @ drop (length ?h) (rxd_header z)"
      using append_take_drop_id [of "length ?h" "rxd_header z"] z(3) by simp
    have "on_protocol (rx_header t) s = Some (uint ZRPOS, ?s)"
      using z(1) by (simp add: on_protocol_def rx_header_def zrpos_header_facts(2))
    moreover have "zmodem_header_position (rxd_header (protocol ?s)) = position" unfolding h by (rule zrpos_header_position)
    ultimately show ?thesis using zrpos_selects [OF h] z(2,4,5) by auto
  qed
  then show ?thesis using zrpos_sends [OF assms(1,3), of position] by blast
qed

theorem zrpos_is_understood_witness:
  "\<exists>st' octets s'. tx_zrpos 70000 ((zmrx_statics (pipe_end [] 3) ())\<lparr>current_mobyturbo := True\<rparr>) = (0, st') \<and>
     pipe.taken (io_context (io (protocol_r st'))) = octets \<and>
     on_protocol (rx_header 1000) ((zmtx_statics ((pipe_end octets 2)\<lparr>peer_can_variable_headers := True\<rparr>) ())\<lparr>opt_m := True\<rparr>) =
       Some (uint ZRPOS, s') \<and>
     zmodem_header_position (rxd_header (protocol s')) = 70000 \<and> use_mobyturbo (protocol (select_zrpos_encoding s'))"
proof -
  let ?r = "(zmrx_statics (pipe_end [] 3) ())\<lparr>current_mobyturbo := True\<rparr>"
  let ?s = "\<lambda>octets. (zmtx_statics ((pipe_end octets 2)\<lparr>peer_can_variable_headers := True\<rparr>) ())\<lparr>opt_m := True\<rparr>"
  have r: "may_send (write_callback pipe_kernel) (flush_callback pipe_kernel) pipe.live pipe.taken (protocol_r ?r) []"
    using pipe_end_sends by (simp add: zmrx_statics_def)
  obtain st' octets where 1: "tx_zrpos 70000 ?r = (0, st')"
    "may_send (write_callback pipe_kernel) (flush_callback pipe_kernel) pipe.live pipe.taken (protocol_r st') ([] @ octets)"
    and 2: "\<forall>(s :: (pipe posix, unit) sender) bs. agreed (protocol_r ?r) (protocol s) \<longrightarrow>
      will_read (read_callback pipe_kernel) pipe.live pipe.pending (protocol s) (octets @ bs) \<longrightarrow>
      (\<exists>s'. on_protocol (rx_header 1000) s = Some (uint ZRPOS, s') \<and>
        zmodem_header_position (rxd_header (protocol s')) = 70000 \<and>
        use_mobyturbo (protocol (select_zrpos_encoding s')) =
          (\<not> extended_zrpos_sent ?r \<and> current_mobyturbo ?r \<and> opt_m s \<and> \<not> opt_M s \<and>
           \<not> escape_8th_bit (protocol s) \<and> peer_can_variable_headers (protocol s)))"
    using zrpos_is_understood [OF pipe_sink pipe_source r, of 70000 1000] by blast
  have s: "agreed (protocol_r ?r) (protocol (?s octets))"
    "will_read (read_callback pipe_kernel) pipe.live pipe.pending (protocol (?s octets)) (octets @ [])"
    using pipe_end_agrees(2) [of 3 octets 2] pipe_end_reads [of octets 2]
    by (simp_all add: zmrx_statics_def zmtx_statics_def agreed_def will_read_def)
  have "\<exists>s'. on_protocol (rx_header 1000) (?s octets) = Some (uint ZRPOS, s') \<and>
      zmodem_header_position (rxd_header (protocol s')) = 70000 \<and> use_mobyturbo (protocol (select_zrpos_encoding s'))"
    using spec [OF spec [OF 2, of "?s octets"], of "[]"] s by (auto simp: zmrx_statics_def zmtx_statics_def)
  then show ?thesis using 1 by (auto simp: may_send_def)
qed

section \<open>The ZFILE data\<close>

lemma find_nul_append: "0 \<notin> set n \<Longrightarrow> find_nul (n @ 0 # r) = Some (length n)"
  unfolding find_nul_def by (subst takeWhile_append2) auto

lemma digits_no_nul: "2 \<le> base \<Longrightarrow> base \<le> 10 \<Longrightarrow> 0 \<notin> set (print_base base n) \<and> 0x20 \<notin> set (print_base base n) \<and> 0x2d \<notin> set (print_base base n)"
  using print_base_digits [of base n] by (auto simp: is_digit_def)

lemma print_base_not_Nil [simp]: "print_base b n \<noteq> []"
  by (subst print_base.simps) simp

lemma hd_print_base: "2 \<le> base \<Longrightarrow> base \<le> 10 \<Longrightarrow> is_digit base (hd (print_base base n))"
  using print_base_digits [of base n] hd_in_set by blast

lemma digit_facts: "base \<le> 10 \<Longrightarrow> is_digit base c \<Longrightarrow> c \<noteq> 0 \<and> c \<noteq> 0x20 \<and> c \<noteq> 0x2d"
  by (auto simp: is_digit_def)

lemma numbers_no_nul: "0 \<notin> set (file_numbers bytes d r)"
  using digits_no_nul by (auto simp: file_numbers_def print_int_def octets_of_def)

lemma parse_mdate_print:
  assumes "d < 2 ^ 63"
  shows "parse_mdate (print_base 8 d @ 0x20 # rest) = (if d = 0 then None else Some (int d))"
proof -
  let ?t = "print_base 8 d @ 0x20 # rest"
  have h: "hd ?t \<noteq> 0x20" "hd ?t \<noteq> 0x2d" "?t \<noteq> []"
    using digit_facts [OF _ hd_print_base [of 8 d]] by simp_all
  then have "dropWhile (\<lambda>c. c = 0x20) ?t = ?t" by (cases ?t) auto
  moreover have "strtoumax ?t 8 = (d, False, 0x20 # rest)"
    using assms by (intro strtoumax_print) (simp_all add: is_digit_def)
  ultimately show ?thesis
    using h assms by (simp add: parse_mdate_def Let_def)
qed

lemma parse_numbers_print:
  assumes "d < 2 ^ 63"
  shows "parse_numbers (file_numbers bytes d r) = (Some (unat bytes), if d = 0 then None else Some (int d))"
proof -
  define rest where "rest = [0x30, 0x20, 0x30, 0x20] @ print_int r @ octets_of '' 0''"
  have n: "file_numbers bytes d r = print_base 10 (unat bytes) @ 0x20 # print_base 8 d @ 0x20 # rest"
    by (simp add: file_numbers_def rest_def octets_of_def)
  let ?t = "print_base 10 (unat bytes) @ 0x20 # print_base 8 d @ 0x20 # rest"
  have h: "hd ?t \<noteq> 0x20" "hd ?t \<noteq> 0x2d" "?t \<noteq> []"
    using digit_facts [OF _ hd_print_base [of 10 "unat bytes"]] by simp_all
  then have "dropWhile (\<lambda>c. c = 0x20) ?t = ?t" by (cases ?t) auto
  moreover have "unat bytes < 2 ^ 32" by (rule order_less_le_trans [OF unsigned_less]) simp
  then have "strtoumax ?t 10 = (unat bytes, False, 0x20 # print_base 8 d @ 0x20 # rest)"
    by (intro strtoumax_print) (simp_all add: is_digit_def)
  ultimately show ?thesis
    unfolding n using h parse_mdate_print [OF assms, of rest]
    by (simp add: parse_numbers_def Let_def)
qed

text \<open>C19: The receiver reads the ZFILE data as the sender means them: from the octets \<open>send_file\<close> builds it
  extracts the name, the exact size and the modification time (none, when it is 0), whatever the
  number of files left.\<close>

theorem file_info_roundtrip:
  assumes "file_info name bytes d remaining = Some info" and "name \<noteq> []" and "length name < FILENAME_CAPACITY"
    and "0 \<notin> set (octets_of name)" and "d < 2 ^ 63"
  shows "\<exists>metadata. file_name info = Inr (name, metadata) \<and>
    parse_numbers metadata = (Some (unat bytes), if d = 0 then None else Some (int d))"
proof -
  let ?n = "octets_of name" and ?m = "file_numbers bytes d remaining"
  have info: "info = ?n @ 0 # ?m @ [0]" using assms(1) by (auto simp: file_info_def Let_def split: if_splits)
  have len: "length ?n = length name" "?n \<noteq> []" using assms(2) by (simp_all add: octets_of_def)
  have "take (length info - 1) info = ?n @ 0 # ?m" by (simp add: info)
  then have f: "find_nul (take (length info - 1) info) = Some (length ?n)"
    using find_nul_append [OF assms(4)] by simp
  have "takeWhile (\<lambda>b. b \<noteq> 0) (?m @ [0]) = ?m"
    using numbers_no_nul [of bytes d remaining] by (subst takeWhile_append2) auto
  then have c: "cstring_at (length ?n + 1) info = ?m" by (simp add: cstring_at_def info)
  have "info ! (length info - 1) = 0" by (simp add: info nth_append)
  then have "file_name info = Inr (string_of (take (length ?n) info), ?m)"
    using f c len assms(2,3) by (simp add: file_name_def info)
  then show ?thesis using parse_numbers_print [OF assms(5), of bytes remaining] by (simp add: info)
qed

theorem file_info_roundtrip_witness:
  "\<exists>metadata. file_name (octets_of ''a.c'' @ [0] @ file_numbers 70 83 2 @ [0]) = Inr (''a.c'', metadata) \<and>
    parse_numbers metadata = (Some 70, Some 83)"
proof -
  let ?info = "octets_of ''a.c'' @ [0] @ file_numbers 70 83 2 @ [0]"
  have "length (file_numbers 70 83 2) = 14" by (simp add: file_numbers_def print_int_def print_base.simps octets_of_def)
  then have i: "file_info ''a.c'' 70 83 2 = Some ?info"
    by (simp add: file_info_def Let_def octets_of_def)
  have "0 \<notin> set (octets_of ''a.c'')" by (simp add: octets_of_def)
  then show ?thesis using file_info_roundtrip [OF i] by simp
qed

end
