(* ===== verification/Zmrx_Tree.thy ===== *)
theory Zmrx_Tree
  imports File_Transfer
begin

text \<open>
  The files that exist while one is received. \<open>file_tree\<close> is the interface to the directory: a
  name, its contents, and the streams open on it; \<open>receive_file\<close> may only change the file it opens,
  and a protected file only at its end.
\<close>

declare split_paired_Ex [simp del] split_paired_All [simp del]

locale file_tree =
  fixes fs :: "'f stdio_calls" and well :: "'f \<Rightarrow> bool" and named :: "'f \<Rightarrow> string \<Rightarrow> u8 list option"
    and stream :: "'f \<Rightarrow> nat \<Rightarrow> string option"
  assumes stats: "well f \<Longrightarrow> s_stat fs n f = (r, e, s, f') \<Longrightarrow>
      well f' \<and> named f' = named f \<and> (r \<noteq> 0 \<and> e = ENOENT \<longrightarrow> named f n = None)"
    and creates: "well f \<Longrightarrow> s_create fs n f = (fd, f') \<Longrightarrow> well f' \<and>
      (\<forall>m. named f m \<noteq> None \<longrightarrow> named f' m = named f m) \<and> (0 \<le> fd \<longrightarrow> named f' n = Some [])"
    and fdopens: "well f \<Longrightarrow> s_fdopen fs fd mode f = (opened, f') \<Longrightarrow> well f' \<and> named f' = named f"
    and fdopen_stream: "well f \<Longrightarrow> s_create fs n f = (fd, f') \<Longrightarrow> 0 \<le> fd \<Longrightarrow>
      s_fdopen fs fd mode f' = (Some h, f'') \<Longrightarrow> stream f'' h = Some n"
    and closes: "well f \<Longrightarrow> s_close fs fd f = (r, f') \<Longrightarrow> well f' \<and> named f' = named f"
    and opens: "well f \<Longrightarrow> s_fopen fs n mode f = (opened, f') \<Longrightarrow> well f' \<and>
      (\<forall>m. m \<noteq> n \<longrightarrow> named f' m = named f m) \<and> (mode = ''ab'' \<longrightarrow> named f n \<noteq> None \<longrightarrow> named f' n = named f n) \<and>
      (\<forall>k. opened = Some k \<longrightarrow> stream f' k = Some n \<and> named f' n \<noteq> None)"
    and tells_tree: "well f \<Longrightarrow> stream f h = Some n \<Longrightarrow> named f n = Some old \<Longrightarrow> s_ftello fs h f = (p, f') \<Longrightarrow>
      well f' \<and> named f' = named f \<and> stream f' = stream f \<and> (p < 0 \<or> p = int (length old))"
    and writes_tree: "well f \<Longrightarrow> stream f h = Some n \<Longrightarrow> named f n = Some old \<Longrightarrow> s_fwrite fs bs h f = (k, f') \<Longrightarrow>
      well f' \<and> named f' = (named f)(n \<mapsto> old @ take k bs) \<and> stream f' = stream f \<and> k \<le> length bs"
    and flushes: "well f \<Longrightarrow> s_fflush fs h f = (r, f') \<Longrightarrow> well f' \<and> named f' = named f"
    and fcloses: "well f \<Longrightarrow> s_fclose fs h f = (r, f') \<Longrightarrow> well f' \<and> named f' = named f"
    and utimes: "well f \<Longrightarrow> s_utime fs n t f = (r, f') \<Longrightarrow> well f' \<and> named f' = named f"
begin

text \<open>Nothing that exists is lost: contents only grow at their end.\<close>

definition kept :: "'f \<Rightarrow> 'f \<Rightarrow> bool" where
  "kept f f' \<longleftrightarrow> well f' \<and> (\<forall>n old. named f n = Some old \<longrightarrow> (\<exists>more. named f' n = Some (old @ more)))"

lemma kept_same: "well f' \<Longrightarrow> named f' = named f \<Longrightarrow> kept f f'"
  by (simp add: kept_def)

lemma kept_trans: "kept f f' \<Longrightarrow> kept f' f'' \<Longrightarrow> kept f f''"
  by (fastforce simp: kept_def)

text \<open>An open stream is a \<open>file_store\<close>, with every other file as it was.\<close>

definition only :: "nat \<Rightarrow> string \<Rightarrow> 'f \<Rightarrow> 'f \<Rightarrow> bool" where
  "only h n f0 f \<longleftrightarrow> well f \<and> stream f h = Some n \<and> named f n \<noteq> None \<and> (\<forall>m. m \<noteq> n \<longrightarrow> named f m = named f0 m)"

lemma stream_is_store: "file_store fs h (only h n f0) (\<lambda>f. the (named f n))"
proof
  fix f f' p
  assume f: "only h n f0 f" and t: "s_ftello fs h f = (p, f')"
  then show "only h n f0 f' \<and> the (named f' n) = the (named f n) \<and> (p < 0 \<or> p = int (length (the (named f n))))"
    using tells_tree [OF _ _ _ t, of n] by (auto simp: only_def)
next
  fix f f' bs k
  assume f: "only h n f0 f" and w: "s_fwrite fs bs h f = (k, f')"
  then show "only h n f0 f' \<and> k \<le> length bs \<and> the (named f' n) = the (named f n) @ take k bs"
    using writes_tree [OF _ _ _ w, of n] by (auto simp: only_def)
qed

lemma data_keeps:
  assumes "receive_file_data fs h st = Some (c, st')" "well (files_r st)" "stream (files_r st) h = Some n"
    "named (files_r st) n \<noteq> None"
  shows "kept (files_r st) (files_r st')"
proof -
  have "only h n (files_r st) (files_r st)" using assms(2-4) by (simp add: only_def)
  note w = file_store.receive_file_data_well [OF stream_is_store assms(1) this]
  then have o: "only h n (files_r st) (files_r st')" and
    x: "\<exists>data. the (named (files_r st') n) = the (named (files_r st) n) @ data"
    by (simp_all add: file_store.ended_well_def [OF stream_is_store] file_store.extends_def [OF stream_is_store])
  have "\<exists>more. named (files_r st') m = Some (old @ more)" if "named (files_r st) m = Some old" for m old
    using o x that by (cases "m = n") (auto simp: only_def)
  then show ?thesis using o by (simp add: kept_def only_def)
qed

section \<open>Closing\<close>

lemma abandon_keeps:
  assumes "abandon_file fs p h st = (r, st')" "well (files_r st)"
  shows "kept (files_r st) (files_r st')"
proof -
  obtain x f where x: "s_fclose fs h (files_r st) = (x, f)" by fastforce
  then have "files_r st' = f"
    using assms(1) by (auto simp: abandon_file_def with_files_def split: option.splits prod.splits)
  then show ?thesis using fcloses [OF assms(2) x] by (simp add: kept_same)
qed

lemma finish_keeps:
  assumes "finish_file fs h type st = (r, st')" "well (files_r st)" "stream (files_r st) h = Some n"
    "named (files_r st) n \<noteq> None"
  shows "kept (files_r st) (files_r st')"
proof (cases "type = uint ZEOF")
  case False
  then show ?thesis using assms(1,2) abandon_keeps by (simp add: finish_file_def)
next
  case eof: True
  obtain p f1 where p: "file_position_r fs (Some h) (files_r st) = (p, f1)" by fastforce
  obtain t f1' where t: "s_ftello fs h (files_r st) = (t, f1')" by fastforce
  have "f1 = f1'" using p t by (auto simp: file_position_r_def split: if_splits)
  then have f1: "well f1" "named f1 = named (files_r st)" using tells_tree [OF assms(2,3) _ t] assms(4) by auto
  obtain a f2 where a: "s_fflush fs h f1 = (a, f2)" by fastforce
  note f2 = flushes [OF f1(1) a]
  obtain b f3 where b: "s_fclose fs h f2 = (b, f3)" by fastforce
  note f3 = fcloses [OF conjunct1 [OF f2] b]
  have s: "kept (files_r st) f1" "kept (files_r st) f2" "kept (files_r st) f3" using f1 f2 f3 by (auto intro!: kept_same)
  show ?thesis
  proof (cases p)
    case None
    then show ?thesis
      using assms(1) eof p abandon_keeps [of "Some 0" h "st\<lparr>files_r := f1\<rparr>" r st'] f1 kept_trans [OF s(1)]
      by (simp add: finish_file_def with_files_def)
  next
    case (Some pos)
    show ?thesis
    proof (cases "a = 0")
      case False
      then show ?thesis
        using assms(1) eof p Some a abandon_keeps [of "Some pos" h "st\<lparr>files_r := f2\<rparr>" r st'] f2 kept_trans [OF s(2)]
        by (simp add: finish_file_def with_files_def)
    next
      case True
      obtain c f4 where c: "s_utime fs (name_r st) (mdate st) f3 = (c, f4)" by fastforce
      have "kept (files_r st) f4" using utimes [OF conjunct1 [OF f3] c] f3 f2 f1 by (auto intro!: kept_same)
      then show ?thesis using assms(1) eof p Some a b True c s(3)
        by (auto simp: finish_file_def with_files_def Let_def split: if_splits)
    qed
  qed
qed

section \<open>The decision and the transfer\<close>

lemma opened_keeps:
  assumes "open_received fs n mode excl st = (opened, st')" "well (files_r st)"
    "excl \<or> mode = ''ab'' \<or> named (files_r st) n = None"
  shows "kept (files_r st) (files_r st') \<and>
    (\<forall>h. opened = Some h \<longrightarrow> stream (files_r st') h = Some n \<and> named (files_r st') n \<noteq> None)"
proof (cases excl)
  case False
  obtain h f where o: "s_fopen fs n mode (files_r st) = (h, f)" by fastforce
  have "kept (files_r st) f" unfolding kept_def
  proof (intro conjI allI impI)
    fix m old assume m: "named (files_r st) m = Some old"
    show "\<exists>more. named f m = Some (old @ more)"
      using opens [OF assms(2) o] assms(3) False m by (intro exI [of _ "[]"]) (cases "m = n"; auto)
  qed (use opens [OF assms(2) o] in simp)
  then show ?thesis using assms(1) False opens [OF assms(2) o] o by (auto simp: open_received_def with_files_def)
next
  case True
  obtain fd f where c: "s_create fs n (files_r st) = (fd, f)" by fastforce
  note f = creates [OF assms(2) c]
  have k: "kept (files_r st) f" unfolding kept_def
  proof (intro conjI allI impI)
    fix m old assume "named (files_r st) m = Some old"
    then show "\<exists>more. named f m = Some (old @ more)" using f by (intro exI [of _ "[]"]) simp
  qed (use f in simp)
  show ?thesis
  proof (cases "0 \<le> fd")
    case False
    then show ?thesis using assms(1) True c k by (auto simp: open_received_def with_files_def)
  next
    case fd: True
    obtain h g where g: "s_fdopen fs fd mode f = (h, g)" by fastforce
    note g' = fdopens [OF conjunct1 [OF f] g]
    have kg: "kept (files_r st) g" using k g' kept_same kept_trans by blast
    show ?thesis
    proof (cases h)
      case None
      obtain r e where e: "s_close fs fd g = (r, e)" by fastforce
      have "kept (files_r st) e" using kg closes [OF conjunct1 [OF g'] e] kept_same kept_trans by blast
      then show ?thesis using assms(1) True c fd g None e by (auto simp: open_received_def with_files_def)
    next
      case (Some k)
      then show ?thesis
        using assms(1) True c fd g kg fdopen_stream [OF assms(2) c fd g [unfolded Some]] g' f
        by (auto simp: open_received_def with_files_def)
    qed
  qed
qed

lemma open_mode_protects:
  "open_mode existing date bytes (True, c, n) = Some mode \<Longrightarrow> existing \<noteq> None \<Longrightarrow> mode = ''ab''"
  by (auto simp: open_mode_def Let_def split: option.splits if_splits)

lemma transfer_keeps:
  assumes "transfer_file fs manage st = Some (r, st')" "fst manage" "well (files_r st)"
  shows "kept (files_r st) (files_r st')"
proof -
  obtain a e s f where t: "s_stat fs (name_r st) (files_r st) = (a, e, s, f)" by (metis prod_cases4)
  note f = stats [OF assms(3) t]
  have k: "kept (files_r st) f" using f by (simp add: kept_same)
  let ?st = "st\<lparr>files_r := f\<rparr>"
  let ?existing = "if a = 0 then Some s else None"
  define date where "date = (if mdate_known st then Some (mdate st) else None)"
  define bytes where "bytes = (if current_file_size_known st then Some (current_file_size_r st) else None)"
  have run: "(if a \<noteq> 0 \<and> e \<noteq> ENOENT
      then Some (RECEIVE_FAILED, report_receiver (snd (with_protocol_r (tx_pos_header ZFERR 0) ?st)))
      else case open_mode ?existing date bytes manage of None \<Rightarrow> Some (skip_file ?st)
        | Some mode \<Rightarrow> (let (file, st) = open_received fs (name_r st) mode (?existing = None \<and> fst manage) ?st;
                            st = st\<lparr>fp := file\<rparr>
            in case file of None \<Rightarrow> Some (RECEIVE_FAILED, report_receiver (snd (with_protocol_r (tx_pos_header ZFERR 0) st)))
               | Some h \<Rightarrow> do { (type, st) \<leftarrow> receive_file_data fs h st; Some (finish_file fs h type st) })) = Some (r, st')"
    using assms(1) t by (simp add: transfer_file_def Let_def date_def bytes_def cong: if_cong)
  show ?thesis
  proof (cases "a \<noteq> 0 \<and> e \<noteq> ENOENT")
    case True
    then show ?thesis using run k by auto
  next
    case found: False
    show ?thesis
    proof (cases "open_mode ?existing date bytes manage")
      case None
      then show ?thesis using run found k by (auto simp: skip_file_def)
    next
      case (Some mode)
      let ?excl = "?existing = None \<and> fst manage"
      obtain h st1 where o: "open_received fs (name_r st) mode ?excl ?st = (h, st1)" by fastforce
      have "?excl \<or> mode = ''ab'' \<or> named (files_r ?st) (name_r st) = None"
        using open_mode_protects [of ?existing date bytes "fst (snd manage)" "snd (snd manage)" mode] Some assms(2)
        by (cases manage) auto
      note o' = opened_keeps [OF o _ this]
      have k1: "kept (files_r st) (files_r st1)" using o' f kept_trans [OF k] by simp
      show ?thesis
      proof (cases h)
        case None
        then show ?thesis using run found Some o k1 by auto
      next
        case h: (Some k)
        let ?st1 = "st1\<lparr>fp := Some k\<rparr>"
        obtain c st2 where d: "receive_file_data fs k ?st1 = Some (c, st2)" "finish_file fs k c st2 = (r, st')"
          using run found Some o h by (auto split: Option.bind_splits)
        have w: "well (files_r ?st1)" using k1 by (simp add: kept_def)
        note k2 = data_keeps [OF d(1) w]
        have only: "only k (name_r st) (files_r ?st1) (files_r ?st1)" using w o' f h by (simp add: only_def)
        have "only k (name_r st) (files_r ?st1) (files_r st2)"
          using file_store.receive_file_data_well [OF stream_is_store d(1) only]
          by (simp add: file_store.ended_well_def [OF stream_is_store])
        then have "kept (files_r st2) (files_r st')" using finish_keeps [OF d(2)] by (simp add: only_def)
        then show ?thesis using k2 [of "name_r st"] o' f h k1 by (fastforce intro: kept_trans)
      qed
    qed
  qed
qed

lemma skip_files [simp]: "files_r (snd (skip_file st)) = files_r st" "files_r (snd (retry_file st)) = files_r st"
  by (simp_all add: skip_file_def retry_file_def)

lemma skip_same: "skip_file st = (r, st') \<Longrightarrow> files_r st' = files_r st"
  and retry_same: "retry_file st = (r, st') \<Longrightarrow> files_r st' = files_r st"
  using skip_files [of st] by simp_all

lemma receive_keeps:
  assumes "receive_file fs st = Some (r, st')" "fst (management st)" "well (files_r st)"
  shows "kept (files_r st) (files_r st')"
proof -
  have same: "kept (files_r st) (files_r x)" if "files_r x = files_r st" for x :: "('c, 'f) receiver"
    using assms(3) that by (simp add: kept_same)
  define st0 where "st0 = (let z = protocol_r st;
      s = st\<lparr>receive_error_reported := False, extended_zrpos_sent := False,
             protocol_r := z\<lparr>peer_can_variable_headers := rxd_header z ! ZF3 AND ZF3_ZCANVHDR \<noteq> 0\<rparr>\<rparr>
    in s\<lparr>current_mobyturbo := select_mobyturbo s, mdate_known := False, current_file_size_r := 0,
         current_file_size_known := False\<rparr>)"
  have f0: "files_r st0 = files_r st" "management st0 = management st"
    by (simp_all add: st0_def Let_def management_def)
  obtain type l e s where s: "receive_subpacket st0 = Some (type, l, e, s)"
    using assms(1) by (cases "receive_subpacket st0") (auto simp: receive_file_def Let_def st0_def)
  note run = assms(1) [unfolded receive_file_def Let_def, unfolded f0(2) [unfolded st0_def Let_def] s [unfolded st0_def Let_def] Option.bind.bind_lunit prod.case]
  have fs: "files_r s = files_r st" using subpacket_files [OF s] f0(1) by simp
  have kept: "kept (files_r st) (files_r st')"
    if "transfer_file fs (management st) x = Some (r, st')" "files_r x = files_r s" for x
    using transfer_keeps [OF that(1) assms(2)] that(2) fs assms(3) by simp
  show ?thesis
  proof (cases "file_name (take l (rx_data_subpacket s))")
    case (Inl bad)
    then show ?thesis using run fs by (auto dest!: skip_same retry_same intro!: same split: if_splits)
  next
    case (Inr pm)
    obtain path metadata where pm: "pm = (path, metadata)" by fastforce
    obtain size date where num: "parse_numbers metadata = (size, date)" by fastforce
    show ?thesis
      using run fs Inr unfolding pm
      by (cases size; cases date) (auto simp: num dest!: skip_same retry_same intro: same kept split: if_splits)
  qed
qed

end

section \<open>The file system\<close>

definition disk_named :: "disk \<Rightarrow> string \<Rightarrow> u8 list option" where
  "disk_named d n = map_option fst (disk_files d n)"

definition disk_handle :: "disk \<Rightarrow> nat \<Rightarrow> string option" where
  "disk_handle d h = map_option fst (disk_streams d (int h))"

interpretation disk_tree: file_tree disk_stdio "\<lambda>_. True" disk_named disk_handle
proof
  fix d d' :: disk and n e s r fd mode opened
  show "s_stat disk_stdio n d = (r, e, s, d') \<Longrightarrow>
      True \<and> disk_named d' = disk_named d \<and> (r \<noteq> 0 \<and> e = ENOENT \<longrightarrow> disk_named d n = None)"
    by (auto simp: disk_stdio_def disk_stat_def disk_named_def split: option.splits prod.splits)
  show "s_create disk_stdio n d = (fd, d') \<Longrightarrow>
      True \<and> (\<forall>m. disk_named d m \<noteq> None \<longrightarrow> disk_named d' m = disk_named d m) \<and> (0 \<le> fd \<longrightarrow> disk_named d' n = Some [])"
    by (auto simp: disk_stdio_def disk_named_def disk_stream_def split: if_splits)
  show "s_fdopen disk_stdio fd mode d = (opened, d') \<Longrightarrow> True \<and> disk_named d' = disk_named d"
    by (auto simp: disk_stdio_def)
  show "s_close disk_stdio fd d = (r, d') \<Longrightarrow> True \<and> disk_named d' = disk_named d"
    by (auto simp: disk_stdio_def disk_close_def disk_named_def fun_eq_iff)
  show "s_fopen disk_stdio n mode d = (opened, d') \<Longrightarrow> True \<and> (\<forall>m. m \<noteq> n \<longrightarrow> disk_named d' m = disk_named d m) \<and>
      (mode = ''ab'' \<longrightarrow> disk_named d n \<noteq> None \<longrightarrow> disk_named d' n = disk_named d n) \<and>
      (\<forall>k. opened = Some k \<longrightarrow> disk_handle d' k = Some n \<and> disk_named d' n \<noteq> None)"
    by (auto simp: disk_stdio_def disk_fopen_def disk_named_def disk_stream_def disk_handle_def split: option.splits)
next
  fix d d' d'' :: disk and n fd mode h
  show "s_create disk_stdio n d = (fd, d') \<Longrightarrow> 0 \<le> fd \<Longrightarrow> s_fdopen disk_stdio fd mode d' = (Some h, d'') \<Longrightarrow>
      disk_handle d'' h = Some n"
    by (auto simp: disk_stdio_def disk_stream_def disk_handle_def split: if_splits)
next
  fix d d' :: disk and h n old p k bs
  show "disk_handle d h = Some n \<Longrightarrow> disk_named d n = Some old \<Longrightarrow> s_ftello disk_stdio h d = (p, d') \<Longrightarrow>
      True \<and> disk_named d' = disk_named d \<and> disk_handle d' = disk_handle d \<and> (p < 0 \<or> p = int (length old))"
    by (auto simp: disk_stdio_def disk_handle_def disk_named_def disk_contents_def split: option.splits)
  show "disk_handle d h = Some n \<Longrightarrow> disk_named d n = Some old \<Longrightarrow> s_fwrite disk_stdio bs h d = (k, d') \<Longrightarrow>
      True \<and> disk_named d' = (disk_named d)(n \<mapsto> old @ take k bs) \<and> disk_handle d' = disk_handle d \<and> k \<le> length bs"
    by (auto simp: disk_stdio_def disk_write_def disk_handle_def disk_named_def fun_eq_iff min_def split: option.splits)
next
  fix d d' :: disk and h r n t
  show "s_fflush disk_stdio h d = (r, d') \<Longrightarrow> True \<and> disk_named d' = disk_named d"
    by (simp add: disk_stdio_def)
  show "s_fclose disk_stdio h d = (r, d') \<Longrightarrow> True \<and> disk_named d' = disk_named d"
    by (auto simp: disk_stdio_def disk_close_def disk_named_def fun_eq_iff)
  show "s_utime disk_stdio n t d = (r, d') \<Longrightarrow> True \<and> disk_named d' = disk_named d"
    by (auto simp: disk_stdio_def disk_utime_def disk_named_def fun_eq_iff split: option.splits)
qed

section \<open>Property\<close>

text \<open>C3: Protected files survive. When the user or the sender asks for protection, receiving a file,
  however it ends and whatever arrives, loses no octet of any file that exists: contents only
  grow, at their end.\<close>

theorem protected_files_survive:
  assumes "file_tree fs well named stream" and "well (files_r st)"
    and "management_protect (protocol_r st) \<or> rxd_header (protocol_r st) ! ZF1 AND ZF1_ZMMASK = ZF1_ZMPROT"
    and "receive_file fs st = Some (r, st')" and "named (files_r st) n = Some old"
  shows "\<exists>more. named (files_r st') n = Some (old @ more)"
proof -
  have "fst (management st)" using assms(3) by (auto simp: management_def Let_def)
  from file_tree.receive_keeps [OF assms(1,4) this assms(2)] assms(5) show ?thesis
    by (simp add: file_tree.kept_def [OF assms(1)])
qed

theorem protected_files_survive_witness:
  "\<exists>r st' more. receive_file disk_stdio ((pipe_receiver (subpacket_octets (pipe_end [] 0) 0 ZCRCW [0x66, 0, 0x37, 0]
       (subpacket_crc (pipe_end [] 0) ZCRCW [0x66, 0, 0x37, 0]) @ []) (one_file [9] 0))
       \<lparr>protocol_r := (pipe_end (subpacket_octets (pipe_end [] 0) 0 ZCRCW [0x66, 0, 0x37, 0]
       (subpacket_crc (pipe_end [] 0) ZCRCW [0x66, 0, 0x37, 0]) @ []) 2)\<lparr>management_protect := True\<rparr>\<rparr>) = Some (r, st') \<and>
     r = RECEIVE_SKIPPED \<and> disk_named (files_r st') ''f'' = Some ([9] @ more)"
proof -
  let ?p = "[0x66, 0, 0x37, 0] :: u8 list"
  let ?octets = "subpacket_octets (pipe_end [] 0) 0 ZCRCW ?p (subpacket_crc (pipe_end [] 0) ZCRCW ?p) @ []"
  let ?z = "(pipe_end ?octets 2)\<lparr>management_protect := True\<rparr>"
  let ?st = "(pipe_receiver ?octets (one_file [9] 0))\<lparr>protocol_r := ?z\<rparr>"
  let ?z1 = "?z\<lparr>peer_can_variable_headers := rxd_header ?z ! ZF3 AND ZF3_ZCANVHDR \<noteq> 0\<rparr>"
  have w: "will_read (read_callback pipe_kernel) pipe.live pipe.pending ?z1 ?octets"
    using pipe_end_reads [of ?octets 2] by (simp add: will_read_def)
  have m: "matched (pipe_end [] 0) ?z1" using pipe_end_agrees(1) [of 0 ?octets 2] by (simp add: matched_def)
  from octet_source.plain_data_received [OF pipe_source w m, of ZMAXSPLEN "replicate ZMAXSPLEN 0"]
  obtain z2 where rx: "rx_data (replicate ZMAXSPLEN 0) ZMAXSPLEN ?z1 =
      Some (ZMODEM_END_OF_FRAME, z2, ?p @ drop (length ?p) (replicate ZMAXSPLEN 0), length ?p, ZCRCW)"
    by (auto simp: is_frame_end_def frame_result_def rx_limit_def uses_crc32_def min_def)
  let ?sa = "?st\<lparr>receive_error_reported := False, extended_zrpos_sent := False, protocol_r := ?z1\<rparr>"
  let ?st1 = "?sa\<lparr>current_mobyturbo := select_mobyturbo ?sa, mdate_known := False, current_file_size_r := 0,
    current_file_size_known := False\<rparr>"
  let ?st2 = "?st1\<lparr>protocol_r := z2, rx_data_subpacket := ?p @ drop (length ?p) (replicate ZMAXSPLEN 0)\<rparr>"
  have buf: "rx_data_subpacket ?st1 = replicate ZMAXSPLEN 0" by (simp add: pipe_receiver_def zmrx_statics_def)
  have s: "receive_subpacket ?st1 = Some (ZMODEM_END_OF_FRAME, length ?p, ZCRCW, ?st2)"
    using rx unfolding receive_subpacket_def buf by simp
  have manage: "management ?st1 = (True, False, False)" by (simp add: management_def)
  have name: "file_name ?p = Inr (''f'', [0x37])"
    by (simp add: file_name_def find_nul_def cstring_at_def string_of_def char_of_def bit_0)
  have numbers: "parse_numbers [0x37] = (Some 7, None)"
    by (simp add: parse_numbers_def strtoumax_def is_space_def is_digit_def digits_value_def)
  let ?st3 = "?st2\<lparr>filename := ''f'', name_r := ''f'', current_file_size_r := 7, current_file_size_known := True\<rparr>"
  have "transfer_file disk_stdio (True, False, False) ?st3 = Some (skip_file ?st3)"
    by (simp add: transfer_file_def disk_stdio_def disk_stat_def one_file_def open_mode_def pipe_receiver_def
        zmrx_statics_def Let_def)
  then have run: "receive_file disk_stdio ?st = Some (skip_file ?st3)"
    using s manage name numbers
    by (simp add: receive_file_def terminal_receive_result_def pipe_receiver_def zmrx_statics_def)
  obtain r st' where r: "skip_file ?st3 = (r, st')" by fastforce
  have "disk_named (files_r ?st) ''f'' = Some [9]" by (simp add: pipe_receiver_def zmrx_statics_def disk_named_def one_file_def)
  from protected_files_survive [OF disk_tree.file_tree_axioms _ _ run [unfolded r] this]
  have "\<exists>more. disk_named (files_r st') ''f'' = Some ([9] @ more)" by simp
  moreover have "r = RECEIVE_SKIPPED" using r by (simp add: skip_file_def)
  ultimately show ?thesis using run r by auto
qed

end
