(* ===== verification/Dos.thy ===== *)
theory Dos
  imports Clib Zmdm
begin

text \<open>
  What the DOS transports share (\<^verbatim>\<open>src/dos/zmodem_plat.h\<close>, parts of \<^verbatim>\<open>src/dos/zmodem_plat.c\<close>). The
  machine is a state with a record of functions, a parameter of every operation: ports, software
  interrupts, the timer, the vector table. An \<^verbatim>\<open>unsigned\<close> has 16 bits on this platform.
\<close>

section \<open>The machine\<close>

record regs =
  r_ax :: u16
  r_bx :: u16
  r_cx :: u16
  r_dx :: u16
  r_si :: u16
  r_di :: u16
  r_cflag :: u16

text \<open>
  \<open>d_int86\<close> is \<^verbatim>\<open>int86\<close> and, where the code needs only registers, \<^verbatim>\<open>int86x\<close>; \<open>d_block\<close> is the \<^verbatim>\<open>int86x\<close> of
  \<^verbatim>\<open>fossil_block\<close>, with the octets at ES:DI and the length in CX: AX and the octets after. \<open>d_bios\<close> is
  \<^verbatim>\<open>_bios_serialcom\<close>, and \<open>d_com_init\<close> to \<open>d_com_rate\<close> are the constants of \<^verbatim>\<open>bios.h\<close>. A vector is a number, \<open>None\<close> is NULL. \<open>d_irqs\<close> tells how many interrupts of the UART
  arrive before the next instruction.
\<close>

record 'm dos_ops =
  d_inp :: "u16 \<Rightarrow> 'm \<Rightarrow> u16 \<times> 'm"
  d_outp :: "u16 \<Rightarrow> u16 \<Rightarrow> 'm \<Rightarrow> 'm"
  d_disable :: "'m \<Rightarrow> 'm"
  d_enable :: "'m \<Rightarrow> 'm"
  d_getvect :: "u16 \<Rightarrow> 'm \<Rightarrow> nat option \<times> 'm"
  d_setvect :: "u16 \<Rightarrow> nat option \<Rightarrow> 'm \<Rightarrow> 'm"
  d_handler :: nat
  d_chain :: "nat \<Rightarrow> 'm \<Rightarrow> 'm"
  d_int86 :: "u16 \<Rightarrow> regs \<Rightarrow> 'm \<Rightarrow> regs \<times> 'm"
  d_block :: "u16 \<Rightarrow> u16 \<Rightarrow> u8 list \<Rightarrow> 'm \<Rightarrow> u16 \<times> u8 list \<times> 'm"
  d_bios :: "u16 \<Rightarrow> u16 \<Rightarrow> u16 \<Rightarrow> 'm \<Rightarrow> u16 \<times> 'm"
  d_com_init :: u16
  d_com_send :: u16
  d_com_receive :: u16
  d_com_status :: u16
  d_com_chr8 :: u16
  d_com_stop1 :: u16
  d_com_noparity :: u16
  d_com_rate :: "nat \<Rightarrow> u16"
  d_clock :: "'m \<Rightarrow> u32 \<times> 'm"
  d_clocks_per_sec :: u32
  d_irqs :: "'m \<Rightarrow> nat \<times> 'm"
  d_atexit :: "'m \<Rightarrow> int \<times> 'm"

section \<open>The adapter\<close>

datatype zmodem_dos_backend = ZMODEM_DOS_AUTO | ZMODEM_DOS_FOSSIL | ZMODEM_DOS_UART | ZMODEM_DOS_BIOS

abbreviation (input) ZMODEM_DOS_FLOW_XON :: u16 where "ZMODEM_DOS_FLOW_XON \<equiv> 1"
abbreviation (input) ZMODEM_DOS_FLOW_HARDWARE :: u16 where "ZMODEM_DOS_FLOW_HARDWARE \<equiv> 2"

record dos_io =
  requested_backend :: zmodem_dos_backend
  active_backend :: zmodem_dos_backend
  port :: u16
  base :: u16
  irq :: u16
  rate :: u32
  flow :: u16
  base_selected :: bool
  irq_selected :: bool
  rate_selected :: bool
  flow_selected :: bool
  flow_none_selected :: bool
  initialized :: bool
  requires_nonstreaming :: bool

section \<open>Time\<close>

definition zmodem_dos_clock_gettime :: "'m dos_ops \<Rightarrow> 'm \<Rightarrow> (int \<times> int) \<times> 'm" where
  "zmodem_dos_clock_gettime ops m =
     (let (ticks, m) = d_clock ops m
      in ((uint (ticks div d_clocks_per_sec ops),
           uint (ticks mod d_clocks_per_sec ops) * (1000000000 div uint (d_clocks_per_sec ops))), m))"

definition zmodem_dos_timeout_expired :: "'m dos_ops \<Rightarrow> u32 \<Rightarrow> int \<Rightarrow> 'm \<Rightarrow> bool \<times> 'm" where
  "zmodem_dos_timeout_expired ops start timeout_ms m =
     (if timeout_ms \<le> 0 then (True, m)
      else let (now, m) = d_clock ops m; elapsed = now - start;
               required = (word_of_int timeout_ms * d_clocks_per_sec ops + 999) div 1000
           in (required \<le> elapsed, m))"

definition zmodem_dos_idle :: "'m dos_ops \<Rightarrow> 'm \<Rightarrow> 'm" where
  "zmodem_dos_idle ops m =
     snd (d_int86 ops 0x28 \<lparr>r_ax = 0, r_bx = 0, r_cx = 0, r_dx = 0, r_si = 0, r_di = 0, r_cflag = 0\<rparr> m)"

end
