(* ===== verification/Dos_Uart.thy ===== *)
theory Dos_Uart
  imports Dos
begin

text \<open>
  The interrupt-driven UART (\<^verbatim>\<open>src/dos/uart.c\<close>): the static \<^verbatim>\<open>struct uart_runtime\<close> and the machine are
  the record \<open>uart\<close>. Interrupts are delivered wherever the code leaves them enabled: \<open>preempt\<close> stands
  at those points and runs the handler as often as the machine says. Between \<^verbatim>\<open>_disable\<close> and
  \<^verbatim>\<open>_enable\<close> there is none. Waits are partial: \<open>None\<close> is a wait, or a burst of interrupts, that never
  ends.
\<close>

section \<open>Constants and state\<close>

abbreviation (input) UART_RING_SIZE :: nat where "UART_RING_SIZE \<equiv> 2048"
abbreviation (input) UART_RING_MASK :: u16 where "UART_RING_MASK \<equiv> 2047"
abbreviation (input) UART_RING_HIGH :: u16 where "UART_RING_HIGH \<equiv> 1536"
abbreviation (input) UART_RING_LOW :: u16 where "UART_RING_LOW \<equiv> 512"
abbreviation (input) UART_RBR :: u16 where "UART_RBR \<equiv> 0"
abbreviation (input) UART_THR :: u16 where "UART_THR \<equiv> 0"
abbreviation (input) UART_DLL :: u16 where "UART_DLL \<equiv> 0"
abbreviation (input) UART_IER :: u16 where "UART_IER \<equiv> 1"
abbreviation (input) UART_DLM :: u16 where "UART_DLM \<equiv> 1"
abbreviation (input) UART_IIR :: u16 where "UART_IIR \<equiv> 2"
abbreviation (input) UART_FCR :: u16 where "UART_FCR \<equiv> 2"
abbreviation (input) UART_LCR :: u16 where "UART_LCR \<equiv> 3"
abbreviation (input) UART_MCR :: u16 where "UART_MCR \<equiv> 4"
abbreviation (input) UART_LSR :: u16 where "UART_LSR \<equiv> 5"
abbreviation (input) UART_MSR :: u16 where "UART_MSR \<equiv> 6"
abbreviation (input) UART_IER_RX :: u16 where "UART_IER_RX \<equiv> 0x01"
abbreviation (input) UART_IER_TX :: u16 where "UART_IER_TX \<equiv> 0x02"
abbreviation (input) UART_IER_LINE :: u16 where "UART_IER_LINE \<equiv> 0x04"
abbreviation (input) UART_IER_MODEM :: u16 where "UART_IER_MODEM \<equiv> 0x08"
abbreviation (input) UART_IIR_PENDING :: u16 where "UART_IIR_PENDING \<equiv> 0x01"
abbreviation (input) UART_LCR_DLAB :: u16 where "UART_LCR_DLAB \<equiv> 0x80"
abbreviation (input) UART_LSR_DATA :: u16 where "UART_LSR_DATA \<equiv> 0x01"
abbreviation (input) UART_LSR_ERROR :: u16 where "UART_LSR_ERROR \<equiv> 0x1e"
abbreviation (input) UART_LSR_THRE :: u16 where "UART_LSR_THRE \<equiv> 0x20"
abbreviation (input) UART_LSR_TEMT :: u16 where "UART_LSR_TEMT \<equiv> 0x40"
abbreviation (input) UART_MCR_DTR :: u16 where "UART_MCR_DTR \<equiv> 0x01"
abbreviation (input) UART_MCR_RTS :: u16 where "UART_MCR_RTS \<equiv> 0x02"
abbreviation (input) UART_MCR_OUT2 :: u16 where "UART_MCR_OUT2 \<equiv> 0x08"
abbreviation (input) UART_MSR_CTS :: u16 where "UART_MSR_CTS \<equiv> 0x10"

text \<open>\<open>hw\<close> is the machine.\<close>

record 'm uart =
  ring :: "u8 list"
  head :: u16
  tail :: u16
  error :: bool
  tx_paused :: bool
  pending_flow :: int
  uart_base :: u16
  uart_irq :: u16
  vector :: u16
  ier :: u16
  saved_ier :: u16
  saved_lcr :: u16
  saved_mcr :: u16
  saved_dll :: u16
  saved_dlm :: u16
  saved_master_mask :: u16
  saved_slave_mask :: u16
  saved_fifo :: bool
  high_irq :: bool
  xon_flow :: bool
  hardware_flow :: bool
  installed :: bool
  old_handler :: "nat option"
  hw :: 'm

definition inp :: "'m dos_ops \<Rightarrow> u16 \<Rightarrow> 'm uart \<Rightarrow> u16 \<times> 'm uart" where
  "inp ops address u = (let (v, m) = d_inp ops address (hw u) in (v, u\<lparr>hw := m\<rparr>))"

definition outp :: "'m dos_ops \<Rightarrow> u16 \<Rightarrow> u16 \<Rightarrow> 'm uart \<Rightarrow> 'm uart" where
  "outp ops address v u = u\<lparr>hw := d_outp ops address v (hw u)\<rparr>"

definition on_hw :: "('m \<Rightarrow> 'm) \<Rightarrow> 'm uart \<Rightarrow> 'm uart" where
  "on_hw f u = u\<lparr>hw := f (hw u)\<rparr>"

section \<open>The ring and flow control\<close>

definition ring_count :: "'m uart \<Rightarrow> u16" where
  "ring_count u = (head u - tail u) AND UART_RING_MASK"

definition set_ier :: "'m dos_ops \<Rightarrow> u16 \<Rightarrow> 'm uart \<Rightarrow> 'm uart" where
  "set_ier ops v u = outp ops (uart_base u + UART_IER) v (u\<lparr>ier := v\<rparr>)"

definition schedule_flow :: "'m dos_ops \<Rightarrow> int \<Rightarrow> 'm uart \<Rightarrow> 'm uart" where
  "schedule_flow ops octet u =
     (if \<not> xon_flow u \<or> pending_flow u = octet then u
      else let (lsr, u) = inp ops (uart_base u + UART_LSR) (u\<lparr>pending_flow := octet\<rparr>)
           in if lsr AND UART_LSR_THRE \<noteq> 0
              then (outp ops (uart_base u + UART_THR) (word_of_int octet) u)\<lparr>pending_flow := - 1\<rparr>
              else set_ier ops (ier u OR UART_IER_TX) u)"

definition update_receive_flow :: "'m dos_ops \<Rightarrow> 'm uart \<Rightarrow> 'm uart" where
  "update_receive_flow ops u =
     (let count = ring_count u
      in if UART_RING_HIGH \<le> count then
           (let u = schedule_flow ops (uint XOFF) u
            in if hardware_flow u then
                 (let (mcr, u) = inp ops (uart_base u + UART_MCR) u
                  in outp ops (uart_base u + UART_MCR) (mcr AND NOT UART_MCR_RTS) u)
               else u)
         else if count \<le> UART_RING_LOW then
           (let u = schedule_flow ops (uint XON) u
            in if hardware_flow u then
                 (let (mcr, u) = inp ops (uart_base u + UART_MCR) u
                  in outp ops (uart_base u + UART_MCR) (mcr OR UART_MCR_RTS) u)
               else u)
         else u)"

definition receive_byte :: "u8 \<Rightarrow> 'm uart \<Rightarrow> 'm uart" where
  "receive_byte octet u =
     (if xon_flow u \<and> octet = XOFF then u\<lparr>tx_paused := True\<rparr>
      else if xon_flow u \<and> octet = XON then u\<lparr>tx_paused := False\<rparr>
      else let next = (head u + 1) AND UART_RING_MASK
           in if next = tail u then u\<lparr>error := True\<rparr>
              else u\<lparr>ring := (ring u)[unat (head u) := octet], head := next\<rparr>)"

section \<open>The interrupt handler\<close>

definition send_eoi :: "'m dos_ops \<Rightarrow> 'm uart \<Rightarrow> 'm uart" where
  "send_eoi ops u = outp ops 0x20 0x20 (if high_irq u then outp ops 0xa0 0x20 u else u)"

partial_function (option) receive_loop :: "'m dos_ops \<Rightarrow> 'm uart \<Rightarrow> 'm uart option" where
  "receive_loop ops u =
     (let (lsr, u) = inp ops (uart_base u + UART_LSR) u
      in if lsr AND UART_LSR_DATA = 0 then Some u
         else let (v, u) = inp ops (uart_base u + UART_RBR) u
              in receive_loop ops (receive_byte (ucast v) u))"

text \<open>One source of an interrupt, told by \<open>iir\<close>.\<close>

definition serve_source :: "'m dos_ops \<Rightarrow> u16 \<Rightarrow> 'm uart \<Rightarrow> 'm uart option" where
  "serve_source ops iir u =
     (let source = iir AND 0x0e
      in if source = 0x06 then
           (let (lsr, u) = inp ops (uart_base u + UART_LSR) u
            in Some (if lsr AND UART_LSR_ERROR \<noteq> 0 then u\<lparr>error := True\<rparr> else u))
         else if source = 0x04 \<or> source = 0x0c then
           do { u \<leftarrow> receive_loop ops u; Some (update_receive_flow ops u) }
         else if source = 0x02 then
           (let u = (if 0 \<le> pending_flow u
                     then (outp ops (uart_base u + UART_THR) (word_of_int (pending_flow u)) u)\<lparr>pending_flow := - 1\<rparr>
                     else u)
            in Some (set_ier ops (ier u AND NOT UART_IER_TX) u))
         else if source = 0x00 then Some (snd (inp ops (uart_base u + UART_MSR) u))
         else Some (u\<lparr>error := True\<rparr>))"

partial_function (option) interrupt_loop :: "'m dos_ops \<Rightarrow> bool \<Rightarrow> 'm uart \<Rightarrow> (bool \<times> 'm uart) option" where
  "interrupt_loop ops handled u =
     (let (iir, u) = inp ops (uart_base u + UART_IIR) u
      in if iir AND UART_IIR_PENDING \<noteq> 0 then Some (handled, u)
         else do { u \<leftarrow> serve_source ops iir u; interrupt_loop ops True u })"

definition uart_interrupt :: "'m dos_ops \<Rightarrow> 'm uart \<Rightarrow> 'm uart option" where
  "uart_interrupt ops u =
     do { (handled, u) \<leftarrow> interrupt_loop ops False u;
          let u = (if \<not> handled
                   then (case old_handler u of None \<Rightarrow> u | Some h \<Rightarrow> on_hw (d_chain ops h) u) else u);
          Some (send_eoi ops u) }"

text \<open>The interrupts that arrive at a point where they are enabled.\<close>

fun interrupts :: "'m dos_ops \<Rightarrow> nat \<Rightarrow> 'm uart \<Rightarrow> 'm uart option" where
  "interrupts ops 0 u = Some u"
| "interrupts ops (Suc n) u = do { u \<leftarrow> uart_interrupt ops u; interrupts ops n u }"

definition preempt :: "'m dos_ops \<Rightarrow> 'm uart \<Rightarrow> 'm uart option" where
  "preempt ops u = (let (n, m) = d_irqs ops (hw u) in interrupts ops n (u\<lparr>hw := m\<rparr>))"

section \<open>Setting up and closing\<close>

definition at_class_machine :: "'m dos_ops \<Rightarrow> 'm uart \<Rightarrow> bool \<times> 'm uart" where
  "at_class_machine ops u =
     (let (output, m) = d_int86 ops 0x15
            \<lparr>r_ax = 0xc000, r_bx = 0, r_cx = 0, r_dx = 0, r_si = 0, r_di = 0, r_cflag = 0\<rparr> (hw u)
      in (r_cflag output = 0, u\<lparr>hw := m\<rparr>))"

definition irq_vector :: "u16 \<Rightarrow> u16" where
  "irq_vector line = (if line < 8 then 8 + line else 0x70 + line - 8)"

text \<open>Whether there is a FIFO, and whether it was enabled.\<close>

definition probe_fifo :: "'m dos_ops \<Rightarrow> u16 \<Rightarrow> 'm uart \<Rightarrow> bool \<times> bool \<times> 'm uart" where
  "probe_fifo ops address u =
     (let (initial, u) = inp ops (address + UART_IIR) u; was_enabled = (initial AND 0xc0 = 0xc0);
          u = outp ops (address + UART_FCR) 0x01 u;
          (result, u) = inp ops (address + UART_IIR) u;
          u = outp ops (address + UART_FCR) (if was_enabled then 0x01 else 0x00) u
      in (result AND 0xc0 = 0xc0, was_enabled, u))"

definition valid_divisor :: "u32 \<Rightarrow> u16 option" where
  "valid_divisor r =
     (if r = 0 \<or> 115200 < r \<or> 115200 mod r \<noteq> 0 then None
      else let v = 115200 div r
           in if v = 0 \<or> 0xffff < v then None else Some (ucast v))"

text \<open>The registers, between \<^verbatim>\<open>_disable\<close> and \<^verbatim>\<open>_enable\<close>.\<close>

definition uart_setup :: "'m dos_ops \<Rightarrow> dos_io \<Rightarrow> u16 \<Rightarrow> 'm uart \<Rightarrow> 'm uart" where
  "uart_setup ops pio divisor u =
     (let (v, u) = inp ops (uart_base u + UART_LCR) u; u = u\<lparr>saved_lcr := v\<rparr>;
          lcr = saved_lcr u AND NOT UART_LCR_DLAB;
          u = outp ops (uart_base u + UART_LCR) lcr u;
          (v, u) = inp ops (uart_base u + UART_IER) u; u = u\<lparr>saved_ier := v\<rparr>;
          (v, u) = inp ops (uart_base u + UART_MCR) u; u = u\<lparr>saved_mcr := v\<rparr>;
          u = outp ops (uart_base u + UART_LCR) (lcr OR UART_LCR_DLAB) u;
          (v, u) = inp ops (uart_base u + UART_DLL) u; u = u\<lparr>saved_dll := v\<rparr>;
          (v, u) = inp ops (uart_base u + UART_DLM) u; u = u\<lparr>saved_dlm := v\<rparr>;
          u = (if rate_selected pio
               then outp ops (uart_base u + UART_DLM) (drop_bit 8 divisor)
                      (outp ops (uart_base u + UART_DLL) (divisor AND 0xff) u)
               else u);
          lcr = (if rate_selected pio then 0x03 else lcr);
          u = outp ops (uart_base u + UART_LCR) lcr u;
          u = outp ops (uart_base u + UART_FCR) 0xc7 u;
          u = outp ops (uart_base u + UART_MCR) (saved_mcr u OR UART_MCR_DTR OR UART_MCR_RTS OR UART_MCR_OUT2) u;
          (h, m) = d_getvect ops (vector u) (hw u); u = u\<lparr>old_handler := h, hw := m\<rparr>;
          u = on_hw (d_setvect ops (vector u) (Some (d_handler ops))) u;
          (v, u) = inp ops 0x21 u; u = u\<lparr>saved_master_mask := v\<rparr>;
          (v, u) = inp ops 0xa1 u; u = u\<lparr>saved_slave_mask := v\<rparr>;
          u = (if high_irq u
               then outp ops 0x21 (saved_master_mask u AND NOT (push_bit 2 1))
                      (outp ops 0xa1 (saved_slave_mask u AND NOT (push_bit (unat (uart_irq u - 8)) 1)) u)
               else outp ops 0x21 (saved_master_mask u AND NOT (push_bit (unat (uart_irq u)) 1)) u);
          v = (UART_IER_RX OR UART_IER_LINE OR (if hardware_flow u then UART_IER_MODEM else 0));
          u = set_ier ops v (u\<lparr>ier := v\<rparr>)
      in u\<lparr>installed := True\<rparr>)"

definition zmodem_dos_uart_init :: "'m dos_ops \<Rightarrow> dos_io \<Rightarrow> 'm uart \<Rightarrow> int \<times> 'm uart" where
  "zmodem_dos_uart_init ops pio u =
     (if rate_selected pio \<and> valid_divisor (rate pio) = None then (- 1, u)
      else let divisor = (if rate_selected pio then the (valid_divisor (rate pio)) else 0);
               (fifo, was_enabled, u) = probe_fifo ops (base pio) u; u = u\<lparr>saved_fifo := was_enabled\<rparr>
           in if \<not> fifo then (1, u)
              else let (at, u) = (if irq pio = 2 then at_class_machine ops u else (False, u));
                       line = (if at then 9 else irq pio);
                       u = u\<lparr>uart_base := base pio, uart_irq := line, vector := irq_vector line, high_irq := 8 \<le> line,
                             xon_flow := flow pio AND ZMODEM_DOS_FLOW_XON \<noteq> 0,
                             hardware_flow := flow pio AND ZMODEM_DOS_FLOW_HARDWARE \<noteq> 0,
                             head := 0, tail := 0, error := False, tx_paused := False, pending_flow := - 1\<rparr>
                   in (0, on_hw (d_enable ops) (uart_setup ops pio divisor (on_hw (d_disable ops) u))))"

definition zmodem_dos_uart_close :: "'m dos_ops \<Rightarrow> 'm uart \<Rightarrow> int \<times> 'm uart" where
  "zmodem_dos_uart_close ops u =
     (if \<not> installed u then (0, u)
      else let u = on_hw (d_disable ops) u;
               u = outp ops (uart_base u + UART_IER) 0 u;
               u = on_hw (d_setvect ops (vector u) (old_handler u)) u;
               u = outp ops 0x21 (saved_master_mask u) u;
               u = (if high_irq u then outp ops 0xa1 (saved_slave_mask u) u else u);
               u = outp ops (uart_base u + UART_LCR) ((saved_lcr u AND NOT UART_LCR_DLAB) OR UART_LCR_DLAB) u;
               u = outp ops (uart_base u + UART_DLL) (saved_dll u) u;
               u = outp ops (uart_base u + UART_DLM) (saved_dlm u) u;
               u = outp ops (uart_base u + UART_LCR) (saved_lcr u AND NOT UART_LCR_DLAB) u;
               u = outp ops (uart_base u + UART_MCR) (saved_mcr u) u;
               u = outp ops (uart_base u + UART_FCR) (if saved_fifo u then 0x01 else 0x00) u;
               u = outp ops (uart_base u + UART_IER) (saved_ier u) u
           in (0, on_hw (d_enable ops) (u\<lparr>installed := False\<rparr>)))"

section \<open>Reading\<close>

definition zmodem_dos_uart_poll :: "'m dos_ops \<Rightarrow> 'm uart \<Rightarrow> (int \<times> 'm uart) option" where
  "zmodem_dos_uart_poll ops u =
     do { u \<leftarrow> preempt ops u;
          if error u then Some (ZMODEM_IO_ERROR, u)
          else do { u \<leftarrow> preempt ops u; Some (if head u \<noteq> tail u then 1 else 0, u) } }"

text \<open>Taking at most \<open>n\<close> octets out of the ring.\<close>

fun drain :: "nat \<Rightarrow> 'm uart \<Rightarrow> u8 list \<times> 'm uart" where
  "drain 0 u = ([], u)"
| "drain (Suc n) u =
     (if tail u = head u then ([], u)
      else let (octets, u') = drain n (u\<lparr>tail := (tail u + 1) AND UART_RING_MASK\<rparr>)
           in (ring u ! unat (tail u) # octets, u'))"

partial_function (option) uart_read_loop ::
  "'m dos_ops \<Rightarrow> nat \<Rightarrow> u32 \<Rightarrow> int \<Rightarrow> 'm uart \<Rightarrow> (int \<times> u8 list \<times> 'm uart) option" where
  "uart_read_loop ops capacity start timeout_ms u =
     do { u \<leftarrow> preempt ops u;
          if error u then Some (ZMODEM_IO_ERROR, [], u)
          else do {
            u \<leftarrow> preempt ops u;
            let (octets, u) = drain capacity (on_hw (d_disable ops) u);
            let u = on_hw (d_enable ops) (update_receive_flow ops u);
            if octets \<noteq> [] then Some (ZMODEM_OK, octets, u)
            else do {
              u \<leftarrow> preempt ops u;
              let (expired, m) = zmodem_dos_timeout_expired ops start timeout_ms (hw u);
              let u = u\<lparr>hw := m\<rparr>;
              if expired then Some (ZMODEM_TIMEOUT, [], u)
              else uart_read_loop ops capacity start timeout_ms (on_hw (zmodem_dos_idle ops) u) } } }"

text \<open>The result, the octets stored, the state.\<close>

definition zmodem_dos_uart_read :: "'m dos_ops \<Rightarrow> nat \<Rightarrow> int \<Rightarrow> 'm uart \<Rightarrow> (int \<times> u8 list \<times> 'm uart) option" where
  "zmodem_dos_uart_read ops capacity timeout_ms u =
     (let (start, m) = d_clock ops (hw u); u = u\<lparr>hw := m\<rparr>
      in if capacity = 0 then Some (ZMODEM_IO_ERROR, [], u) else uart_read_loop ops capacity start timeout_ms u)"

section \<open>Writing\<close>

definition transmit_ready :: "'m dos_ops \<Rightarrow> 'm uart \<Rightarrow> (bool \<times> 'm uart) option" where
  "transmit_ready ops u =
     (if tx_paused u then Some (False, u)
      else do {
        u \<leftarrow> preempt ops u;
        let (msr, u) = (if hardware_flow u then inp ops (uart_base u + UART_MSR) u else (UART_MSR_CTS, u));
        if msr AND UART_MSR_CTS = 0 then Some (False, u)
        else do {
          u \<leftarrow> preempt ops u;
          let (lsr, u) = inp ops (uart_base u + UART_LSR) u;
          Some (lsr AND UART_LSR_THRE \<noteq> 0, u) } })"

text \<open>\<open>heed_errors\<close>: the first of the two waits of \<open>zmodem_dos_uart_write\<close> gives up on an error, the second does not.\<close>

partial_function (option) ready_loop :: "'m dos_ops \<Rightarrow> bool \<Rightarrow> 'm uart \<Rightarrow> (int \<times> 'm uart) option" where
  "ready_loop ops heed_errors u =
     do { u \<leftarrow> preempt ops u;
          (ready, u) \<leftarrow> transmit_ready ops u;
          if ready then Some (ZMODEM_OK, u)
          else do {
            u \<leftarrow> preempt ops u;
            if heed_errors \<and> error u then Some (ZMODEM_IO_ERROR, u)
            else ready_loop ops heed_errors (on_hw (zmodem_dos_idle ops) u) } }"

text \<open>A flow-control octet that waits goes first.\<close>

definition send_pending_flow :: "'m dos_ops \<Rightarrow> 'm uart \<Rightarrow> 'm uart option" where
  "send_pending_flow ops u =
     (if 0 \<le> pending_flow u then do {
        let u = (outp ops (uart_base u + UART_THR) (word_of_int (pending_flow u)) u)\<lparr>pending_flow := - 1\<rparr>;
        (r, u) \<leftarrow> ready_loop ops False (on_hw (d_enable ops) u);
        u \<leftarrow> preempt ops u;
        Some (on_hw (d_disable ops) u) }
      else Some u)"

fun zmodem_dos_uart_write :: "'m dos_ops \<Rightarrow> u8 list \<Rightarrow> 'm uart \<Rightarrow> (int \<times> 'm uart) option" where
  "zmodem_dos_uart_write ops [] u = Some (ZMODEM_OK, u)"
| "zmodem_dos_uart_write ops (c # cs) u =
     do { (r, u) \<leftarrow> ready_loop ops True u;
          if r \<noteq> ZMODEM_OK then Some (r, u)
          else do {
            u \<leftarrow> preempt ops u;
            u \<leftarrow> send_pending_flow ops (on_hw (d_disable ops) u);
            zmodem_dos_uart_write ops cs
              (on_hw (d_enable ops) (outp ops (uart_base u + UART_THR) (ucast c) u)) } }"

partial_function (option) zmodem_dos_uart_flush :: "'m dos_ops \<Rightarrow> 'm uart \<Rightarrow> (int \<times> 'm uart) option" where
  "zmodem_dos_uart_flush ops u =
     do { u \<leftarrow> preempt ops u;
          if 0 \<le> pending_flow u then zmodem_dos_uart_flush ops (on_hw (zmodem_dos_idle ops) u)
          else do {
            u \<leftarrow> preempt ops u;
            let (lsr, u) = inp ops (uart_base u + UART_LSR) u;
            if lsr AND UART_LSR_TEMT = 0 then zmodem_dos_uart_flush ops (on_hw (zmodem_dos_idle ops) u)
            else do { u \<leftarrow> preempt ops u; Some (if error u then ZMODEM_IO_ERROR else ZMODEM_OK, u) } } }"

definition zmodem_dos_uart_purge :: "'m dos_ops \<Rightarrow> 'm uart \<Rightarrow> int \<times> 'm uart" where
  "zmodem_dos_uart_purge ops u =
     (let u = (on_hw (d_disable ops) u)\<lparr>head := 0, tail := 0, error := False\<rparr>;
          u = outp ops (uart_base u + UART_FCR) 0xc7 u
      in (ZMODEM_OK, on_hw (d_enable ops) (update_receive_flow ops u)))"

end
