(* ===== verification/Uart_Correct.thy ===== *)
theory Uart_Correct
  imports Dos_Uart "HOL-Library.Sublist"
begin

text \<open>
  The UART driver as a pair of queues. \<open>serial_chip\<close> states what the driver relies on: which octets
  were read out of the receive register and written to the transmit register. The ring then
  refines a queue: what was read and not delivered is in the ring, in order, or an error is
  reported; and the transmit register sees the octets of the callers in order, with nothing but
  flow control between them. Both hold whenever the handler runs.
\<close>

section \<open>The ring as a list\<close>

text \<open>The octets in the ring, oldest first.\<close>

definition contents :: "'m uart \<Rightarrow> u8 list" where
  "contents u = map (\<lambda>i. ring u ! ((unat (tail u) + i) mod UART_RING_SIZE))
     [0..<(unat (head u) + UART_RING_SIZE - unat (tail u)) mod UART_RING_SIZE]"

definition ring_full :: "'m uart \<Rightarrow> bool" where
  "ring_full u \<longleftrightarrow> (head u + 1) AND UART_RING_MASK = tail u"

text \<open>With XON/XOFF the two octets are control, not data, in both directions.\<close>

definition payload :: "bool \<Rightarrow> u8 list \<Rightarrow> u8 list" where
  "payload flow_on bs = (if flow_on then filter (\<lambda>b. b \<noteq> XON \<and> b \<noteq> XOFF) bs else bs)"

lemma payload_append [simp]: "payload x (bs @ cs) = payload x bs @ payload x cs"
  by (simp add: payload_def)

lemma payload_Nil [simp]: "payload x [] = []"
  by (simp add: payload_def)

lemma unat_mask_ring: "unat (x AND UART_RING_MASK) = unat x mod UART_RING_SIZE" for x :: u16
proof -
  have "x AND UART_RING_MASK = take_bit 11 x" by (simp add: take_bit_eq_mask mask_eq_exp_minus_1)
  then show ?thesis by (simp only: unsigned_take_bit_eq) (simp add: take_bit_eq_mod)
qed

lemma unat_next: "h < 2048 \<Longrightarrow> unat ((h + 1) AND UART_RING_MASK) = (unat h + 1) mod UART_RING_SIZE" for h :: u16
proof -
  assume "h < 2048"
  then have "unat h < 2048" by (simp add: word_less_nat_alt)
  then have "unat (h + 1) = unat h + 1" by (simp add: unat_word_ariths)
  then show ?thesis by (simp add: unat_mask_ring)
qed

lemma next_in_ring: "(h + 1) AND UART_RING_MASK < 2048" for h :: u16
  by (simp add: word_less_nat_alt unat_mask_ring)

lemma unat_ring_count:
  assumes "head u < 2048" "tail u < 2048"
  shows "unat (ring_count u) = (unat (head u) + UART_RING_SIZE - unat (tail u)) mod UART_RING_SIZE"
proof -
  have h: "unat (head u) < 2048" "unat (tail u) < 2048" using assms by (auto simp: word_less_nat_alt)
  have "unat (head u - tail u) mod 2048 = (unat (head u) + 2048 - unat (tail u)) mod 2048"
  proof (cases "tail u \<le> head u")
    case True
    then have "unat (head u - tail u) = unat (head u) - unat (tail u)" "unat (tail u) \<le> unat (head u)"
      by (auto simp: unat_sub word_le_nat_alt)
    then show ?thesis using h by (simp add: mod_if)
  next
    case False
    then have l: "unat (head u) < unat (tail u)" by (simp add: word_le_nat_alt)
    then have "unat (head u - tail u) = 65536 + unat (head u) - unat (tail u)"
      using h by (simp add: unat_sub_if')
    also have "\<dots> = 31 * 2048 + (unat (head u) + 2048 - unat (tail u))" using l h by simp
    finally show ?thesis by (metis mod_mult_self3)
  qed
  then show ?thesis by (simp add: ring_count_def unat_mask_ring)
qed

lemma length_contents:
  "head u < 2048 \<Longrightarrow> tail u < 2048 \<Longrightarrow> length (contents u) = unat (ring_count u)"
  by (simp add: contents_def unat_ring_count)

lemma contents_empty: "head u = tail u \<Longrightarrow> contents u = []"
  by (simp add: contents_def)

lemma contents_store:
  assumes "head u < 2048" "tail u < 2048" "length (ring u) = UART_RING_SIZE" "\<not> ring_full u"
  shows "contents (u\<lparr>ring := (ring u)[unat (head u) := b], head := (head u + 1) AND UART_RING_MASK\<rparr>) = contents u @ [b]"
proof -
  define H where "H = unat (head u)"
  define T where "T = unat (tail u)"
  have h: "H < 2048" "T < 2048" using assms(1,2) by (auto simp: word_less_nat_alt H_def T_def)
  have nx: "unat ((head u + 1) AND UART_RING_MASK) = (H + 1) mod 2048" using unat_next [OF assms(1)] by (simp add: H_def)
  have ne: "(H + 1) mod 2048 \<noteq> T"
    using assms(4) nx unfolding ring_full_def T_def by (metis unsigned_word_eqI)
  define n where "n = (H + 2048 - T) mod 2048"
  have n: "((H + 1) mod 2048 + 2048 - T) mod 2048 = n + 1" "(T + n) mod 2048 = H"
    "\<forall>i<n. (T + i) mod 2048 \<noteq> H"
    using h ne unfolding n_def by (auto simp: mod_if split: if_splits)
  have "map (\<lambda>i. (ring u)[H := b] ! ((T + i) mod 2048)) [0..<n] = map (\<lambda>i. ring u ! ((T + i) mod 2048)) [0..<n]"
    using n(3) by (intro map_cong) auto
  moreover have "(ring u)[H := b] ! ((T + n) mod 2048) = b" using n(2) h assms(3) by simp
  ultimately have "map (\<lambda>i. (ring u)[H := b] ! ((T + i) mod 2048)) [0..<n + 1] = map (\<lambda>i. ring u ! ((T + i) mod 2048)) [0..<n] @ [b]"
    by simp
  then show ?thesis using n(1) nx by (simp add: contents_def H_def T_def n_def)
qed

lemma contents_pop:
  assumes "head u < 2048" "tail u < 2048" "tail u \<noteq> head u"
  shows "contents u = ring u ! unat (tail u) # contents (u\<lparr>tail := (tail u + 1) AND UART_RING_MASK\<rparr>)"
proof -
  define H where "H = unat (head u)"
  define T where "T = unat (tail u)"
  have h: "H < 2048" "T < 2048" using assms(1,2) by (auto simp: word_less_nat_alt H_def T_def)
  have ne: "T \<noteq> H" using assms(3) unfolding H_def T_def by (metis unsigned_word_eqI)
  have nx: "unat ((tail u + 1) AND UART_RING_MASK) = (T + 1) mod 2048" using unat_next [OF assms(2)] by (simp add: T_def)
  define n where "n = (H + 2048 - Suc T mod 2048) mod 2048"
  have n: "(H + 2048 - T) mod 2048 = Suc n"
    using h ne unfolding n_def by (auto simp: mod_if split: if_splits)
  have i: "(Suc T mod 2048 + i) mod 2048 = Suc (T + i) mod 2048" for i
    using mod_add_left_eq [of "Suc T" 2048 i] by simp
  have "map (\<lambda>i. ring u ! ((T + i) mod 2048)) [0..<Suc n] = ring u ! (T mod 2048) # map (\<lambda>i. ring u ! ((T + Suc i) mod 2048)) [0..<n]"
    by (simp add: upt_conv_Cons map_Suc_upt [symmetric] del: upt_Suc)
  then show ?thesis using n h(2) nx by (simp add: contents_def H_def [symmetric] T_def [symmetric] n_def [symmetric] i del: upt_Suc)
qed

lemma drain_contents:
  "drain n u = (octets, u') \<Longrightarrow> head u < 2048 \<Longrightarrow> tail u < 2048 \<Longrightarrow>
     \<exists>t. u' = u\<lparr>tail := t\<rparr> \<and> t < 2048 \<and> contents u = octets @ contents u'"
proof (induction n u arbitrary: octets u' rule: drain.induct)
  case (1 u)
  then show ?case by (intro exI [of _ "tail u"]) auto
next
  case (2 n u)
  show ?case
  proof (cases "tail u = head u")
    case True
    then show ?thesis using 2(2-) by (intro exI [of _ "tail u"]) auto
  next
    case False
    let ?u = "u\<lparr>tail := (tail u + 1) AND UART_RING_MASK\<rparr>"
    obtain os where d: "drain n ?u = (os, u')" "octets = ring u ! unat (tail u) # os"
      using 2(2) False by (auto split: prod.splits)
    have "head ?u < 2048" "tail ?u < 2048" using 2(3) next_in_ring by auto
    from 2(1) [OF False d(1) this] obtain t where "u' = ?u\<lparr>tail := t\<rparr>" "t < 2048" "contents ?u = os @ contents u'"
      by blast
    then show ?thesis using contents_pop [OF 2(3,4) False] d(2) by (intro exI [of _ t]) simp
  qed
qed

section \<open>The chip\<close>

text \<open>
  \<open>taken\<close> and \<open>thr\<close> are histories of the machine: the octets read out of the receive register and
  those written to the transmit register, both at the base address while the divisor latch is closed.
\<close>

locale serial_chip =
  fixes ops :: "'m dos_ops" and B :: u16 and taken thr :: "'m \<Rightarrow> u8 list"
  assumes not_pic: "B \<noteq> 0x20" "B \<noteq> 0xa0"
    and read_data: "d_inp ops B m = (v, m') \<Longrightarrow> taken m' = taken m @ [ucast v] \<and> thr m' = thr m"
    and read_other: "a \<noteq> B \<Longrightarrow> d_inp ops a m = (v, m') \<Longrightarrow> taken m' = taken m \<and> thr m' = thr m"
    and write_data: "taken (d_outp ops B v m) = taken m \<and> thr (d_outp ops B v m) = thr m @ [ucast v]"
    and write_other: "a \<noteq> B \<Longrightarrow> taken (d_outp ops a v m) = taken m \<and> thr (d_outp ops a v m) = thr m"
    and other: "taken (d_disable ops m) = taken m \<and> thr (d_disable ops m) = thr m"
      "taken (d_enable ops m) = taken m \<and> thr (d_enable ops m) = thr m"
      "taken (d_chain ops h m) = taken m \<and> thr (d_chain ops h m) = thr m"
      "taken (snd (d_int86 ops n r m)) = taken m \<and> thr (snd (d_int86 ops n r m)) = thr m"
      "taken (snd (d_clock ops m)) = taken m \<and> thr (snd (d_clock ops m)) = thr m"
      "taken (snd (d_irqs ops m)) = taken m \<and> thr (snd (d_irqs ops m)) = thr m"

section \<open>The invariant\<close>

text \<open>The type invariant: indices in the ring, the only octets that wait are XON and XOFF.\<close>

definition uart_ok :: "u16 \<Rightarrow> bool \<Rightarrow> 'm uart \<Rightarrow> bool" where
  "uart_ok B flow_on u \<longleftrightarrow> uart_base u = B \<and> xon_flow u = flow_on \<and> length (ring u) = UART_RING_SIZE \<and>
     head u < 2048 \<and> tail u < 2048 \<and>
     (pending_flow u = - 1 \<or> flow_on \<and> pending_flow u \<in> {uint XON, uint XOFF})"

text \<open>
  \<open>got\<close> was received and \<open>before\<close> delivered. Once an error is set the ring may stop to be what follows;
  in the \<open>strict\<close> form it is still what follows, but full.
\<close>

definition fifo :: "bool \<Rightarrow> u8 list \<Rightarrow> u8 list \<Rightarrow> 'm uart \<Rightarrow> bool" where
  "fifo strict before got u \<longleftrightarrow> got = before @ contents u \<or>
     error u \<and> (if strict then ring_full u \<and> prefix (before @ contents u) got else prefix before got)"

lemma fifo_weaken: "fifo True before got u \<Longrightarrow> fifo False before got u"
  by (auto simp: fifo_def dest: append_prefixD)

lemma fifo_strict: "fifo False before got u \<Longrightarrow> \<not> error u \<Longrightarrow> fifo True before got u"
  by (simp add: fifo_def)

lemma fifo_pop:
  assumes "fifo True before got u" "contents u = octets @ contents u'" "error u' = error u"
  shows "fifo False (before @ octets) got u'"
  using assms append_prefixD [of "before @ octets" "contents u'" got] by (auto simp: fifo_def)

definition driver ::
  "('m \<Rightarrow> u8 list) \<Rightarrow> ('m \<Rightarrow> u8 list) \<Rightarrow> u16 \<Rightarrow> bool \<Rightarrow> bool \<Rightarrow> u8 list \<Rightarrow> u8 list \<Rightarrow> 'm uart \<Rightarrow> bool" where
  "driver taken thr B flow_on strict before written u \<longleftrightarrow> uart_ok B flow_on u \<and>
     fifo strict before (payload flow_on (taken (hw u))) u \<and> payload flow_on (thr (hw u)) = written"

lemma contents_updates [simp]:
  "contents (u\<lparr>hw := m\<rparr>) = contents u" "contents (u\<lparr>ier := v\<rparr>) = contents u"
  "contents (u\<lparr>error := e\<rparr>) = contents u" "contents (u\<lparr>tx_paused := e\<rparr>) = contents u"
  "contents (u\<lparr>pending_flow := p\<rparr>) = contents u"
  "ring_full (u\<lparr>hw := m\<rparr>) = ring_full u" "ring_full (u\<lparr>ier := v\<rparr>) = ring_full u"
  "ring_full (u\<lparr>error := e\<rparr>) = ring_full u" "ring_full (u\<lparr>tx_paused := e\<rparr>) = ring_full u"
  "ring_full (u\<lparr>pending_flow := p\<rparr>) = ring_full u"
  by (simp_all add: contents_def ring_full_def)

context serial_chip
begin

abbreviation "drv \<equiv> driver taken thr B"

lemma drv_hw: "drv x s D W u \<Longrightarrow> taken m = taken (hw u) \<and> thr m = thr (hw u) \<Longrightarrow> drv x s D W (u\<lparr>hw := m\<rparr>)"
  by (auto simp: driver_def uart_ok_def fifo_def)

lemma drv_inp: "drv x s D W u \<Longrightarrow> a \<noteq> B \<Longrightarrow> inp ops a u = (v, u') \<Longrightarrow> drv x s D W u'"
  by (auto simp: inp_def split: prod.splits dest!: read_other intro!: drv_hw)

lemma drv_inp_snd: "drv x s D W u \<Longrightarrow> a \<noteq> B \<Longrightarrow> drv x s D W (snd (inp ops a u))"
  by (metis drv_inp prod.collapse)

lemma drv_outp: "drv x s D W u \<Longrightarrow> a \<noteq> B \<Longrightarrow> drv x s D W (outp ops a v u)"
  by (simp add: outp_def drv_hw write_other)

lemma drv_data: "drv x s D W u \<Longrightarrow> drv x s D (W @ payload x [ucast v]) (outp ops B v u)"
  by (auto simp: driver_def uart_ok_def fifo_def outp_def write_data)

lemma drv_base: "drv x s D W u \<Longrightarrow> uart_base u = B"
  by (simp add: driver_def uart_ok_def)

lemma drv_ier: "drv x s D W u \<Longrightarrow> drv x s D W (u\<lparr>ier := v\<rparr>)"
  by (auto simp: driver_def uart_ok_def fifo_def)

lemma drv_error: "drv x s D W u \<Longrightarrow> drv x s D W (u\<lparr>error := True\<rparr>)"
  by (auto simp: driver_def uart_ok_def fifo_def)

lemma drv_pending: "drv x s D W u \<Longrightarrow> p = - 1 \<or> x \<and> p \<in> {uint XON, uint XOFF} \<Longrightarrow> drv x s D W (u\<lparr>pending_flow := p\<rparr>)"
  by (auto simp: driver_def uart_ok_def fifo_def)

text \<open>A flow-control octet on its way out is no data.\<close>

lemma drv_flow_octet:
  assumes "drv x s D W u" "x" "p \<in> {uint XON, uint XOFF}"
  shows "drv x s D W ((outp ops B (word_of_int p) u)\<lparr>pending_flow := - 1\<rparr>)"
proof -
  have "payload x [ucast (word_of_int p :: u16)] = []" using assms(2,3) by (auto simp: payload_def)
  then show ?thesis using drv_pending [OF drv_data [OF assms(1), of "word_of_int p"]] by simp
qed

lemma offset_ne: "B + 1 \<noteq> B" "B + 2 \<noteq> B" "B + 4 \<noteq> B" "B + 5 \<noteq> B" "B + 6 \<noteq> B"
  by (simp_all add: add_eq_0_iff)

lemma drv_set_ier: "drv x s D W u \<Longrightarrow> drv x s D W (set_ier ops v u)"
  unfolding set_ier_def using offset_ne(1) by (intro drv_outp drv_ier) (simp_all add: drv_base)

lemma drv_schedule_flow:
  assumes "drv x s D W u" "p \<in> {uint XON, uint XOFF}"
  shows "drv x s D W (schedule_flow ops p u)"
proof (cases "\<not> xon_flow u \<or> pending_flow u = p")
  case True
  then show ?thesis using assms by (simp add: schedule_flow_def)
next
  case False
  then have x: x using assms(1) by (auto simp: driver_def uart_ok_def)
  obtain lsr u1 where r: "inp ops (uart_base u + 5) (u\<lparr>pending_flow := p\<rparr>) = (lsr, u1)" by fastforce
  have p: "drv x s D W (u\<lparr>pending_flow := p\<rparr>)" using assms x by (intro drv_pending) auto
  have 1: "drv x s D W u1" using drv_inp [OF p _ r] drv_base [OF assms(1)] offset_ne by simp
  have 2: "uart_base u = B" "uart_base u1 = B" using drv_base assms(1) 1 by auto
  show ?thesis
    using False r 2 drv_flow_octet [OF 1 x assms(2)] drv_set_ier [OF 1] by (simp add: schedule_flow_def)
qed

lemma drv_set_mcr:
  assumes "drv x s D W u"
  shows "drv x s D W (let (mcr, u) = inp ops (uart_base u + UART_MCR) u in outp ops (uart_base u + UART_MCR) (f mcr) u)"
proof -
  obtain v u1 where r: "inp ops (B + 4) u = (v, u1)" by fastforce
  have 1: "drv x s D W u1" using drv_inp [OF assms _ r] offset_ne by simp
  show ?thesis using drv_outp [OF 1, of "B + 4"] r offset_ne drv_base [OF assms] drv_base [OF 1] by simp
qed

lemma drv_update_flow:
  assumes "drv x s D W u" shows "drv x s D W (update_receive_flow ops u)"
proof -
  have "drv x s D W (schedule_flow ops (uint XOFF) u)" "drv x s D W (schedule_flow ops (uint XON) u)"
    using drv_schedule_flow [OF assms] by auto
  with assms drv_set_mcr show ?thesis by (simp add: update_receive_flow_def Let_def)
qed

section \<open>The handler keeps the invariant\<close>

text \<open>An octet read out of the receive register is stored, is flow control, or sets the error.\<close>

lemma drv_receive:
  assumes d: "drv x s D W u" and r: "inp ops B u = (v, u1)"
  shows "drv x s D W (receive_byte (ucast v) u1)"
proof -
  let ?b = "ucast v :: u8" and ?got = "payload x (taken (hw u))"
  obtain m where m: "u1 = u\<lparr>hw := m\<rparr>" "taken m = taken (hw u) @ [?b]" "thr m = thr (hw u)"
    using r by (auto simp: inp_def split: prod.splits dest!: read_data)
  have ok: "uart_ok B x u" and f: "fifo s D ?got u" and w: "payload x (thr (hw u)) = W"
    using d by (auto simp: driver_def)
  have x: "xon_flow u1 = x" using ok m(1) by (simp add: uart_ok_def)
  consider (flow) "x" "?b = XON \<or> ?b = XOFF" | (full) "\<not> (x \<and> (?b = XON \<or> ?b = XOFF))" "ring_full u"
    | (store) "\<not> (x \<and> (?b = XON \<or> ?b = XOFF))" "\<not> ring_full u" by blast
  then show ?thesis
  proof cases
    case flow
    then have "payload x (taken m) = ?got" using m(2) by (auto simp: payload_def)
    then show ?thesis using flow x m ok f w by (auto simp: receive_byte_def driver_def uart_ok_def fifo_def)
  next
    case full
    then have g: "payload x (taken m) = ?got @ [?b]" using m(2) by (auto simp: payload_def)
    have "receive_byte ?b u1 = u1\<lparr>error := True\<rparr>" using full x m(1) by (auto simp: receive_byte_def ring_full_def)
    then show ?thesis using full(2) g m ok f w
      by (cases s) (auto simp: driver_def uart_ok_def fifo_def dest: append_prefixD intro: prefix_prefix)
  next
    case store
    then have g: "payload x (taken m) = ?got @ [?b]" using m(2) by (auto simp: payload_def)
    let ?u = "u\<lparr>ring := (ring u)[unat (head u) := ?b], head := (head u + 1) AND UART_RING_MASK\<rparr>"
    have R: "receive_byte ?b u1 = ?u\<lparr>hw := m\<rparr>" using store x m(1) by (auto simp: receive_byte_def ring_full_def)
    have "contents ?u = contents u @ [?b]"
      using ok store(2) by (intro contents_store) (auto simp: uart_ok_def)
    moreover have "fifo s D ?got u \<longrightarrow> ?got = D @ contents u \<or> \<not> s \<and> error u \<and> prefix D ?got"
      using store(2) by (auto simp: fifo_def)
    ultimately have "fifo s D (?got @ [?b]) ?u" using f by (auto simp: fifo_def intro: prefix_prefix)
    moreover have "uart_ok B x ?u" using ok next_in_ring by (auto simp: uart_ok_def)
    ultimately show ?thesis unfolding R using g m w by (auto simp: driver_def uart_ok_def fifo_def)
  qed
qed

lemma drv_receive_loop:
  assumes "receive_loop ops' u = Some u'" "ops' = ops"
  shows "drv x s D W u \<Longrightarrow> drv x s D W u'"
  using assms
proof (induction rule: receive_loop.raw_induct [rotated, consumes 1, case_names step])
  case (step loop ops' u u')
  note d = \<open>drv x s D W u\<close>
  obtain lsr u1 where r: "inp ops (B + 5) u = (lsr, u1)" by fastforce
  have 1: "drv x s D W u1" using drv_inp [OF d _ r] offset_ne by simp
  obtain v u2 where r2: "inp ops B u1 = (v, u2)" by fastforce
  show ?case
    using step(1) [OF _ drv_receive [OF 1 r2]] step(2,4) r r2 1 drv_base [OF d] drv_base [OF 1]
    by (auto split: if_splits)
qed

lemma drv_serve:
  assumes "serve_source ops iir u = Some u'" "drv x s D W u"
  shows "drv x s D W u'"
proof -
  note b = drv_base [OF assms(2)]
  let ?q = "iir AND 0x0e"
  consider (line) "?q = 6" | (data) "?q = 4 \<or> ?q = 12" | (empty) "?q = 2" | (modem) "?q = 0"
    | (none) "?q \<notin> {6, 4, 12, 2, 0}" by blast
  then show ?thesis
  proof cases
    case line
    obtain lsr u1 where r: "inp ops (B + 5) u = (lsr, u1)" by fastforce
    have 1: "drv x s D W u1" using drv_inp [OF assms(2) _ r] offset_ne by simp
    show ?thesis using line assms(1) b r 1 drv_error [OF 1] by (auto simp: serve_source_def split: if_splits)
  next
    case data
    then obtain u1 where "receive_loop ops u = Some u1" "u' = update_receive_flow ops u1"
      using assms(1) by (auto simp: serve_source_def bind_eq_Some_conv)
    then show ?thesis using drv_update_flow [OF drv_receive_loop] assms(2) by blast
  next
    case empty
    let ?u = "if 0 \<le> pending_flow u then (outp ops B (word_of_int (pending_flow u)) u)\<lparr>pending_flow := - 1\<rparr> else u"
    have "0 \<le> pending_flow u \<Longrightarrow> x \<and> pending_flow u \<in> {uint XON, uint XOFF}"
      using assms(2) by (auto simp: driver_def uart_ok_def)
    then have "drv x s D W ?u" using drv_flow_octet [OF assms(2)] assms(2) by simp
    then show ?thesis using empty assms(1) b drv_set_ier by (auto simp: serve_source_def Let_def)
  next
    case modem
    then show ?thesis using assms b offset_ne drv_inp_snd [OF assms(2), of "B + 6"] by (simp add: serve_source_def)
  next
    case none
    then show ?thesis using assms by (auto simp: serve_source_def drv_error)
  qed
qed

lemma drv_interrupt_loop:
  assumes "interrupt_loop ops' handled u = Some y" "ops' = ops"
  shows "drv x s D W u \<Longrightarrow> drv x s D W (snd y)"
  using assms
proof (induction rule: interrupt_loop.raw_induct [rotated, consumes 1, case_names step])
  case (step loop ops' handled u y)
  note d = \<open>drv x s D W u\<close>
  obtain iir u1 where r: "inp ops (B + 2) u = (iir, u1)" by fastforce
  have 1: "drv x s D W u1" using drv_inp [OF d _ r] offset_ne by simp
  show ?case
  proof (cases "iir AND UART_IIR_PENDING = 0")
    case False
    then show ?thesis using step(2,4) r 1 drv_base [OF d] by auto
  next
    case True
    then obtain u2 where "serve_source ops iir u1 = Some u2" "loop ops True u2 = Some y"
      using step(2,4) r drv_base [OF d] by (auto simp: bind_eq_Some_conv)
    then show ?thesis using step(1) [OF _ drv_serve [OF _ 1] refl] by blast
  qed
qed

lemma drv_on_hw:
  "drv x s D W u \<Longrightarrow> taken (f (hw u)) = taken (hw u) \<and> thr (f (hw u)) = thr (hw u) \<Longrightarrow> drv x s D W (on_hw f u)"
  by (simp add: on_hw_def drv_hw)

lemma drv_enable [simp]: "drv x s D W u \<Longrightarrow> drv x s D W (on_hw (d_enable ops) u)"
  and drv_disable [simp]: "drv x s D W u \<Longrightarrow> drv x s D W (on_hw (d_disable ops) u)"
  and drv_chain [simp]: "drv x s D W u \<Longrightarrow> drv x s D W (on_hw (d_chain ops h) u)"
  and drv_idle [simp]: "drv x s D W u \<Longrightarrow> drv x s D W (on_hw (zmodem_dos_idle ops) u)"
  by (simp_all add: drv_on_hw other zmodem_dos_idle_def)

lemma drv_interrupt: "uart_interrupt ops u = Some u' \<Longrightarrow> drv x s D W u \<Longrightarrow> drv x s D W u'"
  using not_pic
  by (auto simp: uart_interrupt_def send_eoi_def bind_eq_Some_conv Let_def split: option.splits if_splits
      intro!: drv_outp dest!: drv_interrupt_loop)

lemma drv_interrupts: "interrupts ops n u = Some u' \<Longrightarrow> drv x s D W u \<Longrightarrow> drv x s D W u'"
  by (induction n arbitrary: u) (auto simp: bind_eq_Some_conv dest: drv_interrupt)

lemma drv_preempt:
  assumes "preempt ops u = Some u'" "drv x s D W u"
  shows "drv x s D W u'"
proof -
  obtain n m where q: "d_irqs ops (hw u) = (n, m)" by fastforce
  then have "taken m = taken (hw u) \<and> thr m = thr (hw u)" using other(6) by (metis snd_conv)
  from drv_hw [OF assms(2) this] show ?thesis using assms(1) q drv_interrupts by (simp add: preempt_def)
qed

section \<open>The operations keep it\<close>

lemma drv_strict: "drv x False D W u \<Longrightarrow> \<not> error u \<Longrightarrow> drv x True D W u"
  and drv_weaken: "drv x True D W u \<Longrightarrow> drv x False D W u"
  by (auto simp: driver_def intro: fifo_strict fifo_weaken)

lemma drv_drain:
  assumes "drain n u = (octets, u')" "drv x True D W u"
  shows "drv x False (D @ octets) W u'"
proof -
  obtain t where "u' = u\<lparr>tail := t\<rparr>" "t < 2048" "contents u = octets @ contents u'"
    using drain_contents [OF assms(1)] assms(2) by (auto simp: driver_def uart_ok_def)
  then show ?thesis using assms(2) fifo_pop [of D _ u octets u']
    by (auto simp: driver_def uart_ok_def)
qed

lemma drv_expired:
  assumes "zmodem_dos_timeout_expired ops t0 ms (hw u) = (b, m)" "drv x s D W u"
  shows "drv x s D W (u\<lparr>hw := m\<rparr>)"
proof (rule drv_hw [OF assms(2)])
  show "taken m = taken (hw u) \<and> thr m = thr (hw u)"
    using assms(1) other(5) by (auto simp: zmodem_dos_timeout_expired_def Let_def split: prod.splits if_splits)
      (metis snd_conv)+
qed

text \<open>What a read delivers is next in the queue.\<close>

lemma drv_read_loop:
  assumes "uart_read_loop ops' capacity t0 ms u = Some y" "ops' = ops"
  shows "drv x False D W u \<Longrightarrow> drv x False (D @ fst (snd y)) W (snd (snd y))"
  using assms
proof (induction rule: uart_read_loop.raw_induct [rotated, consumes 1, case_names step])
  case (step loop ops' capacity t0 ms u y)
  obtain u1 where p1: "preempt ops u = Some u1" using step(2,4) by (auto simp: bind_eq_Some_conv)
  note 1 = drv_preempt [OF p1 step(3)]
  show ?case
  proof (cases "error u1")
    case True
    then show ?thesis using step(2,4) p1 1 by auto
  next
    case e: False
    obtain u2 where p2: "preempt ops u1 = Some u2" using step(2,4) p1 e by (auto simp: bind_eq_Some_conv)
    note 2 = drv_preempt [OF p2 drv_strict [OF 1 e]]
    obtain octets u3 where d: "drain capacity (on_hw (d_disable ops) u2) = (octets, u3)" by fastforce
    let ?u4 = "on_hw (d_enable ops) (update_receive_flow ops u3)"
    have 4: "drv x False (D @ octets) W ?u4" using drv_drain [OF d drv_disable [OF 2]] drv_update_flow by simp
    show ?thesis
    proof (cases "octets = []")
      case False
      then show ?thesis using step(2,4) p1 e p2 d 4 by auto
    next
      case n: True
      then obtain u5 where p5: "preempt ops ?u4 = Some u5" using step(2,4) p1 e p2 d by (auto simp: bind_eq_Some_conv)
      have 5: "drv x False D W u5" using drv_preempt [OF p5 4] n by simp
      obtain b m where t: "zmodem_dos_timeout_expired ops t0 ms (hw u5) = (b, m)" by fastforce
      have 6: "drv x False D W (u5\<lparr>hw := m\<rparr>)" using drv_expired [OF t 5] .
      show ?thesis
      proof (cases b)
        case True
        then show ?thesis using step(2,4) p1 e p2 d n p5 t 6 by auto
      next
        case False
        then have "loop ops capacity t0 ms (on_hw (zmodem_dos_idle ops) (u5\<lparr>hw := m\<rparr>)) = Some y"
          using step(2,4) p1 e p2 d n p5 t by auto
        then show ?thesis using step(1) [OF _ drv_idle [OF 6] refl] by blast
      qed
    qed
  qed
qed

lemma drv_read:
  assumes "zmodem_dos_uart_read ops capacity ms u = Some (r, octets, u')" "drv x False D W u"
  shows "drv x False (D @ octets) W u'"
proof -
  obtain t0 m where c: "d_clock ops (hw u) = (t0, m)" by fastforce
  have "drv x False D W (u\<lparr>hw := m\<rparr>)" using other(5) [of "hw u"] c by (intro drv_hw [OF assms(2)]) simp
  note 1 = this
  show ?thesis
  proof (cases "capacity = 0")
    case True
    then show ?thesis using assms(1) c 1 by (auto simp: zmodem_dos_uart_read_def Let_def)
  next
    case False
    then show ?thesis using assms(1) c drv_read_loop [OF _ refl 1] by (fastforce simp: zmodem_dos_uart_read_def Let_def)
  qed
qed

end

end
