(* ===== verification/Uart_Session.thy ===== *)
theory Uart_Session
  imports Uart_Correct
begin

text \<open>
  The remaining operations of the UART driver, and sessions: any sequence of interrupts, reads,
  writes, flushes, polls and purges after a successful start.
\<close>

context serial_chip
begin

section \<open>Writing\<close>

lemma drv_transmit_ready:
  assumes "transmit_ready ops u = Some (b, u')" "drv x s D W u"
  shows "drv x s D W u'"
proof (cases "tx_paused u")
  case True
  then show ?thesis using assms by (simp add: transmit_ready_def)
next
  case False
  then obtain u1 where p1: "preempt ops u = Some u1" using assms(1) by (auto simp: transmit_ready_def bind_eq_Some_conv)
  note 1 = drv_preempt [OF p1 assms(2)]
  obtain msr u2 where m: "(if hardware_flow u1 then inp ops (uart_base u1 + UART_MSR) u1 else (UART_MSR_CTS, u1)) = (msr, u2)"
    by fastforce
  have 2: "drv x s D W u2"
    using m 1 drv_inp [OF 1, of "B + 6"] offset_ne by (auto simp: drv_base [OF 1] split: if_splits)
  show ?thesis
  proof (cases "msr AND UART_MSR_CTS = 0")
    case True
    then show ?thesis using assms(1) False p1 m 2 by (auto simp: transmit_ready_def)
  next
    case c: False
    then obtain u3 where p3: "preempt ops u2 = Some u3"
      using assms(1) False p1 m by (auto simp: transmit_ready_def bind_eq_Some_conv)
    note 3 = drv_preempt [OF p3 2]
    obtain lsr u4 where l: "inp ops (B + 5) u3 = (lsr, u4)" by fastforce
    have "drv x s D W u4" using drv_inp [OF 3 _ l] offset_ne by simp
    moreover have "u' = u4" using assms(1) False p1 m c p3 l drv_base [OF 3] by (auto simp: transmit_ready_def)
    ultimately show ?thesis by simp
  qed
qed

lemma drv_ready_loop:
  assumes "ready_loop ops' heed u = Some y" "ops' = ops"
  shows "drv x s D W u \<Longrightarrow> drv x s D W (snd y)"
  using assms
proof (induction rule: ready_loop.raw_induct [rotated, consumes 1, case_names step])
  case (step loop ops' heed u y)
  obtain u1 where p1: "preempt ops u = Some u1" using step(2,4) by (auto simp: bind_eq_Some_conv)
  note 1 = drv_preempt [OF p1 step(3)]
  obtain b u2 where t: "transmit_ready ops u1 = Some (b, u2)" using step(2,4) p1 by (auto simp: bind_eq_Some_conv)
  note 2 = drv_transmit_ready [OF t 1]
  show ?case
  proof (cases b)
    case True
    then show ?thesis using step(2,4) p1 t 2 by auto
  next
    case False
    then obtain u3 where p3: "preempt ops u2 = Some u3" using step(2,4) p1 t by (auto simp: bind_eq_Some_conv)
    note 3 = drv_preempt [OF p3 2]
    show ?thesis
    proof (cases "heed \<and> error u3")
      case True
      then show ?thesis using step(2,4) p1 t False p3 3 by auto
    next
      case h: False
      then have "loop ops heed (on_hw (zmodem_dos_idle ops) u3) = Some y" using step(2,4) p1 t False p3 by auto
      then show ?thesis using step(1) [OF _ drv_idle [OF 3] refl] by blast
    qed
  qed
qed

lemma drv_pending_flow: "drv x s D W u \<Longrightarrow> 0 \<le> pending_flow u \<Longrightarrow> x \<and> pending_flow u \<in> {uint XON, uint XOFF}"
  by (auto simp: driver_def uart_ok_def)

lemma drv_send_pending:
  assumes "send_pending_flow ops u = Some u'" "drv x s D W u"
  shows "drv x s D W u'"
proof (cases "0 \<le> pending_flow u")
  case False
  then show ?thesis using assms by (simp add: send_pending_flow_def)
next
  case True
  let ?u = "(outp ops B (word_of_int (pending_flow u)) u)\<lparr>pending_flow := - 1\<rparr>"
  have 1: "drv x s D W ?u" using drv_pending_flow [OF assms(2) True] drv_flow_octet [OF assms(2)] by blast
  obtain r u1 u2 where "ready_loop ops False (on_hw (d_enable ops) ?u) = Some (r, u1)" "preempt ops u1 = Some u2"
    "u' = on_hw (d_disable ops) u2"
    using assms(1) True drv_base [OF assms(2)] by (auto simp: send_pending_flow_def bind_eq_Some_conv)
  then show ?thesis using drv_disable [OF drv_preempt [OF _ drv_ready_loop [OF _ refl drv_enable [OF 1]]]] by fastforce
qed

text \<open>A write that fails has sent some of its octets, and in order.\<close>

lemma drv_write:
  "zmodem_dos_uart_write ops octets u = Some (r, u') \<Longrightarrow> drv x s D W u \<Longrightarrow>
     \<exists>k. drv x s D (W @ payload x (take k octets)) u' \<and> (r = ZMODEM_OK \<longrightarrow> length octets \<le> k)"
proof (induction octets arbitrary: u W)
  case Nil
  then show ?case by auto
next
  case (Cons c cs)
  obtain q u1 where l: "ready_loop ops True u = Some (q, u1)"
    using Cons.prems(1) by (auto simp: bind_eq_Some_conv)
  have 1: "drv x s D W u1" using drv_ready_loop [OF l refl Cons.prems(2)] by simp
  show ?case
  proof (cases "q = ZMODEM_OK")
    case False
    then show ?thesis using Cons.prems(1) l 1 by (intro exI [of _ 0]) auto
  next
    case True
    then obtain u2 u3 where p: "preempt ops u1 = Some u2" "send_pending_flow ops (on_hw (d_disable ops) u2) = Some u3"
      "zmodem_dos_uart_write ops cs (on_hw (d_enable ops) (outp ops (uart_base u3 + UART_THR) (ucast c) u3)) = Some (r, u')"
      using Cons.prems(1) l by (auto simp: bind_eq_Some_conv)
    have 3: "drv x s D W u3" using drv_send_pending [OF p(2) drv_disable [OF drv_preempt [OF p(1) 1]]] .
    have "ucast (ucast c :: u16) = c" by (simp add: unsigned_ucast_eq take_bit_word_eq_self)
    then have "drv x s D (W @ payload x [c]) (on_hw (d_enable ops) (outp ops (uart_base u3 + UART_THR) (ucast c) u3))"
      using drv_data [OF 3, of "ucast c"] drv_base [OF 3] by simp
    from Cons.IH [OF p(3) this] obtain k where
      k: "drv x s D ((W @ payload x [c]) @ payload x (take k cs)) u'" "r = ZMODEM_OK \<longrightarrow> length cs \<le> k" by blast
    have "payload x [c] @ payload x (take k cs) = payload x (take (Suc k) (c # cs))"
      by (metis append_Cons append_Nil payload_append take_Suc_Cons)
    then show ?thesis using k by (intro exI [of _ "Suc k"]) simp
  qed
qed

section \<open>Flushing, polling, purging, starting\<close>

lemma drv_flush:
  assumes "zmodem_dos_uart_flush ops' u = Some y" "ops' = ops"
  shows "drv x s D W u \<Longrightarrow> drv x s D W (snd y)"
  using assms
proof (induction rule: zmodem_dos_uart_flush.raw_induct [rotated, consumes 1, case_names step])
  case (step flush ops' u y)
  obtain u1 where p1: "preempt ops u = Some u1" using step(2,4) by (auto simp: bind_eq_Some_conv)
  note 1 = drv_preempt [OF p1 step(3)]
  show ?case
  proof (cases "0 \<le> pending_flow u1")
    case True
    then show ?thesis using step(1) [OF _ drv_idle [OF 1] refl] step(2,4) p1 by simp
  next
    case n: False
    obtain u2 where p2: "preempt ops u1 = Some u2" using step(2,4) p1 n by (auto simp: bind_eq_Some_conv)
    note 2 = drv_preempt [OF p2 1]
    obtain lsr u3 where l: "inp ops (B + 5) u2 = (lsr, u3)" by fastforce
    have 3: "drv x s D W u3" using drv_inp [OF 2 _ l] offset_ne by simp
    show ?thesis
    proof (cases "lsr AND UART_LSR_TEMT = 0")
      case True
      then show ?thesis using step(1) [OF _ drv_idle [OF 3] refl] step(2,4) p1 n p2 l drv_base [OF 2] by simp
    next
      case False
      then obtain u4 where "preempt ops u3 = Some u4" "snd y = u4"
        using step(2,4) p1 n p2 l drv_base [OF 2] by (auto simp: bind_eq_Some_conv)
      then show ?thesis using drv_preempt 3 by blast
    qed
  qed
qed

lemma drv_poll: "zmodem_dos_uart_poll ops u = Some (r, u') \<Longrightarrow> drv x s D W u \<Longrightarrow> drv x s D W u'"
  by (auto simp: zmodem_dos_uart_poll_def bind_eq_Some_conv split: if_splits dest: drv_preempt)

lemma drv_fresh:
  "uart_ok B x u \<Longrightarrow> head u = tail u \<Longrightarrow> drv x s (payload x (taken (hw u))) (payload x (thr (hw u))) u"
  by (simp add: driver_def fifo_def contents_empty)

text \<open>Everything received before a purge counts as delivered.\<close>

lemma drv_purge:
  assumes "zmodem_dos_uart_purge ops u = (r, u')" "drv x s D W u"
  shows "drv x False (payload x (taken (hw u))) W u'"
proof -
  let ?u = "(on_hw (d_disable ops) u)\<lparr>head := 0, tail := 0, error := False\<rparr>"
  have b: "uart_base ?u = B" using drv_base [OF assms(2)] by (simp add: on_hw_def)
  have "drv x False (payload x (taken (hw u))) W ?u"
    using assms(2) other(1) by (auto simp: driver_def uart_ok_def fifo_def contents_empty on_hw_def)
  from drv_enable [OF drv_update_flow [OF drv_outp [OF this, where a = "B + 2" and v = "0xc7"]]] show ?thesis
    using assms(1) b offset_ne by (auto simp: zmodem_dos_uart_purge_def Let_def)
qed

end

section \<open>Starting\<close>

text \<open>Setting up touches the machine and what is saved of it, nothing else.\<close>

definition same_queue :: "'m uart \<Rightarrow> 'm uart \<Rightarrow> bool" where
  "same_queue u u' \<longleftrightarrow> ring u' = ring u \<and> head u' = head u \<and> tail u' = tail u \<and> error u' = error u \<and>
     pending_flow u' = pending_flow u \<and> uart_base u' = uart_base u \<and> xon_flow u' = xon_flow u"

lemma same_queue_refl: "same_queue u u"
  by (simp add: same_queue_def)

lemma same_queue_updates:
  "same_queue w u \<Longrightarrow> same_queue w (u\<lparr>saved_lcr := v\<rparr>)" "same_queue w u \<Longrightarrow> same_queue w (u\<lparr>saved_ier := v\<rparr>)"
  "same_queue w u \<Longrightarrow> same_queue w (u\<lparr>saved_mcr := v\<rparr>)" "same_queue w u \<Longrightarrow> same_queue w (u\<lparr>saved_dll := v\<rparr>)"
  "same_queue w u \<Longrightarrow> same_queue w (u\<lparr>saved_dlm := v\<rparr>)" "same_queue w u \<Longrightarrow> same_queue w (u\<lparr>saved_fifo := b\<rparr>)"
  "same_queue w u \<Longrightarrow> same_queue w (u\<lparr>saved_master_mask := v\<rparr>)"
  "same_queue w u \<Longrightarrow> same_queue w (u\<lparr>saved_slave_mask := v\<rparr>)"
  "same_queue w u \<Longrightarrow> same_queue w (u\<lparr>ier := v\<rparr>)" "same_queue w u \<Longrightarrow> same_queue w (u\<lparr>installed := b\<rparr>)"
  "same_queue w u \<Longrightarrow> same_queue w (u\<lparr>old_handler := h, hw := m\<rparr>)" "same_queue w u \<Longrightarrow> same_queue w (u\<lparr>hw := m\<rparr>)"
  "same_queue w u \<Longrightarrow> same_queue w (on_hw f u)" "same_queue w u \<Longrightarrow> same_queue w (outp ops a v u)"
  "same_queue w u \<Longrightarrow> same_queue w (set_ier ops v u)"
  "same_queue w u \<Longrightarrow> same_queue w u' \<Longrightarrow> same_queue w (if c then u else u')"
  by (simp_all add: same_queue_def on_hw_def outp_def set_ier_def)

lemma same_queue_let:
  "same_queue w u \<Longrightarrow> (\<And>u. same_queue w u \<Longrightarrow> same_queue w (f u)) \<Longrightarrow> same_queue w (Let u f)"
  "(\<And>v. same_queue w (g v)) \<Longrightarrow> same_queue w (Let (v :: u16) g)"
  "same_queue w u \<Longrightarrow> (\<And>v u. same_queue w u \<Longrightarrow> same_queue w (h v u)) \<Longrightarrow>
     same_queue w (Let (inp ops a u) (\<lambda>(v, u). h v u))"
  "(\<And>n m. same_queue w (k n m)) \<Longrightarrow> same_queue w (Let (d_getvect ops a m) (\<lambda>(n, m). k n m))"
  by (auto simp: Let_def inp_def same_queue_def split: prod.split)

lemma uart_setup_queue: "same_queue u (uart_setup ops pio d u)"
  unfolding uart_setup_def by (intro same_queue_let same_queue_updates same_queue_refl; assumption)

lemma probe_fifo_queue: "probe_fifo ops a u = (found, was, u') \<Longrightarrow> same_queue u u'"
  by (auto simp: probe_fifo_def inp_def outp_def same_queue_def Let_def split: prod.splits)

lemma at_class_queue: "at_class_machine ops u = (b, u') \<Longrightarrow> same_queue u u'"
  by (auto simp: at_class_machine_def same_queue_def split: prod.splits)

lemma init_ok:
  assumes "zmodem_dos_uart_init ops pio u = (0, u')" "length (ring u) = UART_RING_SIZE"
  shows "uart_ok (base pio) (flow pio AND ZMODEM_DOS_FLOW_XON \<noteq> 0) u' \<and> head u' = tail u' \<and> \<not> error u'"
proof -
  obtain found was u1 where p: "probe_fifo ops (base pio) u = (found, was, u1)" by (metis prod_cases3)
  have r: "ring u1 = ring u" using probe_fifo_queue [OF p] by (simp add: same_queue_def)
  obtain v u2 where a: "(if irq pio = 2 then at_class_machine ops (u1\<lparr>saved_fifo := was\<rparr>)
      else (False, u1\<lparr>saved_fifo := was\<rparr>)) = (v, u2)" by fastforce
  have r2: "ring u2 = ring u" using a r by (auto simp: same_queue_def split: if_splits dest: at_class_queue)
  define w where "w = on_hw (d_disable ops) (u2\<lparr>uart_base := base pio, uart_irq := (if v then 9 else irq pio),
    vector := irq_vector (if v then 9 else irq pio), high_irq := 8 \<le> (if v then 9 else irq pio),
    xon_flow := flow pio AND ZMODEM_DOS_FLOW_XON \<noteq> 0, hardware_flow := flow pio AND ZMODEM_DOS_FLOW_HARDWARE \<noteq> 0,
    head := 0, tail := 0, error := False, tx_paused := False, pending_flow := - 1\<rparr>)"
  obtain d where u': "u' = on_hw (d_enable ops) (uart_setup ops pio d w)"
    using assms(1) p a unfolding zmodem_dos_uart_init_def w_def
    by (auto simp: Let_def split: if_splits)
  have "same_queue w u'" unfolding u' by (intro same_queue_updates uart_setup_queue)
  moreover have "uart_ok (base pio) (flow pio AND ZMODEM_DOS_FLOW_XON \<noteq> 0) w" "head w = tail w" "\<not> error w"
    using assms(2) r2 by (simp_all add: uart_ok_def w_def on_hw_def)
  ultimately show ?thesis by (simp add: same_queue_def uart_ok_def)
qed

section \<open>Sessions\<close>

text \<open>
  \<open>uart_session ops taken thr x pio u P D S W\<close>: after a start with the options \<open>pio\<close> and then any
  operations and interrupts, the driver is in \<open>u\<close>. \<open>D\<close> was delivered to the callers since \<open>P\<close> was
  received, that is since the start or the last purge; \<open>W\<close> was written by them since \<open>S\<close> was sent, that
  is since the start or the last write that failed.
\<close>

inductive uart_session ::
  "'m dos_ops \<Rightarrow> ('m \<Rightarrow> u8 list) \<Rightarrow> ('m \<Rightarrow> u8 list) \<Rightarrow> bool \<Rightarrow> dos_io \<Rightarrow> 'm uart \<Rightarrow>
     u8 list \<Rightarrow> u8 list \<Rightarrow> u8 list \<Rightarrow> u8 list \<Rightarrow> bool"
  for ops taken thr x pio where
  start: "length (ring u0) = UART_RING_SIZE \<Longrightarrow> zmodem_dos_uart_init ops pio u0 = (0, u) \<Longrightarrow>
    uart_session ops taken thr x pio u (payload x (taken (hw u))) [] (payload x (thr (hw u))) []"
| interrupt: "uart_session ops taken thr x pio u P D S W \<Longrightarrow> uart_interrupt ops u = Some u' \<Longrightarrow>
    uart_session ops taken thr x pio u' P D S W"
| read: "uart_session ops taken thr x pio u P D S W \<Longrightarrow>
    zmodem_dos_uart_read ops capacity timeout_ms u = Some (r, octets, u') \<Longrightarrow>
    uart_session ops taken thr x pio u' P (D @ octets) S W"
| written: "uart_session ops taken thr x pio u P D S W \<Longrightarrow>
    zmodem_dos_uart_write ops octets u = Some (ZMODEM_OK, u') \<Longrightarrow>
    uart_session ops taken thr x pio u' P D S (W @ octets)"
| write_failed: "uart_session ops taken thr x pio u P D S W \<Longrightarrow>
    zmodem_dos_uart_write ops octets u = Some (r, u') \<Longrightarrow> r \<noteq> ZMODEM_OK \<Longrightarrow>
    uart_session ops taken thr x pio u' P D (payload x (thr (hw u'))) []"
| flush: "uart_session ops taken thr x pio u P D S W \<Longrightarrow> zmodem_dos_uart_flush ops u = Some (r, u') \<Longrightarrow>
    uart_session ops taken thr x pio u' P D S W"
| poll: "uart_session ops taken thr x pio u P D S W \<Longrightarrow> zmodem_dos_uart_poll ops u = Some (r, u') \<Longrightarrow>
    uart_session ops taken thr x pio u' P D S W"
| purge: "uart_session ops taken thr x pio u P D S W \<Longrightarrow> zmodem_dos_uart_purge ops u = (r, u') \<Longrightarrow>
    uart_session ops taken thr x pio u' (payload x (taken (hw u))) [] S W"

context serial_chip
begin

lemma session_drv:
  assumes "uart_session ops taken thr x pio u P D S W" "x = (flow pio AND ZMODEM_DOS_FLOW_XON \<noteq> 0)" "base pio = B"
  shows "drv x False (P @ D) (S @ payload x W) u"
  using assms(1)
proof (induction rule: uart_session.induct)
  case (start u0 u)
  then show ?case using drv_fresh [of x u False] init_ok [OF start(2,1)] assms(2,3) by simp
next
  case (interrupt u P D S W u')
  then show ?case using drv_interrupt by blast
next
  case (read u P D S W capacity timeout_ms r octets u')
  then show ?case using drv_read [OF read(2,3)] by simp
next
  case (written u P D S W octets u')
  then obtain k where "drv x False (P @ D) ((S @ payload x W) @ payload x (take k octets)) u'" "length octets \<le> k"
    using drv_write [OF written(2,3)] by auto
  then show ?case by simp
next
  case (write_failed u P D S W octets r u')
  then obtain W' where "drv x False (P @ D) W' u'" using drv_write by blast
  then show ?case by (simp add: driver_def)
next
  case (flush u P D S W r u')
  then show ?case using drv_flush [OF flush(2) refl] by fastforce
next
  case (poll u P D S W r u')
  then show ?case using drv_poll by blast
next
  case (purge u P D S W r u')
  then show ?case using drv_purge by fastforce
qed

end

end
