(* ===== verification/Uart_Chip.thy ===== *)
theory Uart_Chip
  imports Uart_Session
begin

text \<open>
  A chip that keeps the contract, and what the UART driver promises over every such chip.
\<close>

section \<open>A chip at 0x3f8\<close>

record port_chip =
  arriving :: "u8 list"
  fetched :: "u8 list"
  transmitted :: "u8 list"
  lcr_register :: u16
  chip_ticks :: u32

definition chip_inp :: "u16 \<Rightarrow> port_chip \<Rightarrow> u16 \<times> port_chip" where
  "chip_inp a m =
     (if a = 0x3f8 then
        (if lcr_register m AND UART_LCR_DLAB \<noteq> 0 \<or> arriving m = [] then (0, m\<lparr>fetched := fetched m @ [0]\<rparr>)
         else (ucast (hd (arriving m)), m\<lparr>fetched := fetched m @ [hd (arriving m)], arriving := tl (arriving m)\<rparr>))
      else if a = 0x3fa then (if arriving m = [] then 0xc1 else 0xc4, m)
      else if a = 0x3fb then (lcr_register m, m)
      else if a = 0x3fd then (if arriving m = [] then 0x60 else 0x61, m)
      else if a = 0x3fe then (UART_MSR_CTS, m)
      else (0, m))"

definition chip_outp :: "u16 \<Rightarrow> u16 \<Rightarrow> port_chip \<Rightarrow> port_chip" where
  "chip_outp a v m =
     (if a = 0x3f8 then m\<lparr>transmitted := transmitted m @ [ucast v]\<rparr>
      else if a = 0x3fb then m\<lparr>lcr_register := v\<rparr> else m)"

definition chip_ops :: "port_chip dos_ops" where
  "chip_ops =
     \<lparr>d_inp = chip_inp, d_outp = chip_outp, d_disable = id, d_enable = id, d_getvect = (\<lambda>v m. (None, m)),
      d_setvect = (\<lambda>v h m. m), d_handler = 1, d_chain = (\<lambda>h m. m), d_int86 = (\<lambda>n r m. (r, m)),
      d_block = (\<lambda>f p bs m. (0, bs, m)), d_bios = (\<lambda>f p v m. (0, m)), d_com_init = 0, d_com_send = 1,
      d_com_receive = 2, d_com_status = 3, d_com_chr8 = 3, d_com_stop1 = 0, d_com_noparity = 0,
      d_com_rate = (\<lambda>r. 0), d_clock = (\<lambda>m. (chip_ticks m, m\<lparr>chip_ticks := chip_ticks m + 1\<rparr>)),
      d_clocks_per_sec = 1000, d_irqs = (\<lambda>m. (if arriving m = [] then 0 else 1, m)), d_atexit = (\<lambda>m. (0, m))\<rparr>"

interpretation chip: serial_chip chip_ops "0x3f8" fetched transmitted
  by unfold_locales
     (auto simp: chip_ops_def chip_inp_def chip_outp_def unsigned_ucast_eq take_bit_word_eq_self split: if_splits)

definition chip_options :: dos_io where
  "chip_options = \<lparr>requested_backend = ZMODEM_DOS_UART, active_backend = ZMODEM_DOS_UART, port = 0, base = 0x3f8, irq = 4,
     rate = 9600, flow = 1, base_selected = True, irq_selected = True, rate_selected = True, flow_selected = True,
     flow_none_selected = False, initialized = False, requires_nonstreaming = False\<rparr>"

definition idle_uart :: "'m \<Rightarrow> 'm uart" where
  "idle_uart m = \<lparr>ring = replicate 2048 0, head = 0, tail = 0, error = False, tx_paused = False, pending_flow = 0,
     uart_base = 0, uart_irq = 0, vector = 0, ier = 0, saved_ier = 0, saved_lcr = 0, saved_mcr = 0, saved_dll = 0,
     saved_dlm = 0, saved_master_mask = 0, saved_slave_mask = 0, saved_fifo = False, high_irq = False,
     xon_flow = False, hardware_flow = False, installed = False, old_handler = None, hw = m\<rparr>"

definition chip_start :: "u8 list \<Rightarrow> port_chip" where
  "chip_start bs = \<lparr>arriving = bs, fetched = [], transmitted = [], lcr_register = 0, chip_ticks = 0\<rparr>"

lemmas chip_simps = chip_ops_def chip_inp_def chip_outp_def inp_def outp_def on_hw_def Let_def

definition chip_uart :: "u8 list \<Rightarrow> u16 \<Rightarrow> u16 \<Rightarrow> port_chip \<Rightarrow> port_chip uart" where
  "chip_uart octets h t m = \<lparr>ring = octets, head = h, tail = t, error = False, tx_paused = False, pending_flow = - 1,
     uart_base = 0x3f8, uart_irq = 4, vector = 12, ier = 5, saved_ier = 0, saved_lcr = 0, saved_mcr = 0, saved_dll = 0,
     saved_dlm = 0, saved_master_mask = 0, saved_slave_mask = 0, saved_fifo = True, high_irq = False,
     xon_flow = True, hardware_flow = False, installed = True, old_handler = None, hw = m\<rparr>"

lemma bind_weak_cong: "a = b \<Longrightarrow> Option.bind a f = Option.bind b f"
  by simp

lemma chip_init:
  "zmodem_dos_uart_init chip_ops chip_options (idle_uart (chip_start bs)) =
     (0, chip_uart (replicate 2048 0) 0 0
           \<lparr>arriving = bs, fetched = [0], transmitted = [12], lcr_register = 3, chip_ticks = 0\<rparr>)"
  by (simp add: zmodem_dos_uart_init_def chip_options_def idle_uart_def chip_start_def probe_fifo_def valid_divisor_def
      irq_vector_def uart_setup_def set_ier_def chip_simps chip_uart_def cong: let_weak_cong prod.case_cong_weak)

lemmas chip_cong = let_weak_cong prod.case_cong_weak bind_weak_cong

lemmas handler_simps = preempt_def uart_interrupt_def interrupt_loop.simps serve_source_def receive_loop.simps
  receive_byte_def update_receive_flow_def schedule_flow_def ring_count_def send_eoi_def

lemma chip_read:
  "length zs = 2048 \<Longrightarrow> zmodem_dos_uart_read chip_ops (Suc (Suc (Suc 0))) 100 (chip_uart zs 0 0
     \<lparr>arriving = [0x41, 0x13, 0x11, 0x42], fetched = [0], transmitted = [12], lcr_register = 3, chip_ticks = 0\<rparr>) =
   Some (ZMODEM_OK, [0x41, 0x42], chip_uart (zs[0 := 0x41, 1 := 0x42]) 2 2
     \<lparr>arriving = [], fetched = [0, 0x41, 0x13, 0x11, 0x42], transmitted = [12, 0x11, 0x11], lcr_register = 3,
      chip_ticks = 1\<rparr>)"
  by (simp add: zmodem_dos_uart_read_def uart_read_loop.simps handler_simps chip_simps chip_uart_def cong: chip_cong)

lemma chip_write:
  "zmodem_dos_uart_write chip_ops [0x43, 0x44] (chip_uart zs 2 2
     \<lparr>arriving = [], fetched = fs, transmitted = ts, lcr_register = 3, chip_ticks = 1\<rparr>) =
   Some (ZMODEM_OK, chip_uart zs 2 2
     \<lparr>arriving = [], fetched = fs, transmitted = ts @ [0x43, 0x44], lcr_register = 3, chip_ticks = 1\<rparr>)"
  by (simp add: ready_loop.simps transmit_ready_def send_pending_flow_def handler_simps chip_simps chip_uart_def
      cong: chip_cong)

definition chip_end :: "port_chip uart" where
  "chip_end = chip_uart ((replicate 2048 0)[0 := 0x41, 1 := 0x42]) 2 2
     \<lparr>arriving = [], fetched = [0, 0x41, 0x13, 0x11, 0x42], transmitted = [12, 0x11, 0x11, 0x43, 0x44], lcr_register = 3,
      chip_ticks = 1\<rparr>"

lemma chip_session:
  "uart_session chip_ops fetched transmitted True chip_options chip_end [0] [0x41, 0x42] [12] [0x43, 0x44]"
proof -
  have z: "length (replicate 2048 0 :: u8 list) = 2048" by simp
  have "length (ring (idle_uart (chip_start [0x41, 0x13, 0x11, 0x42]))) = UART_RING_SIZE" by (simp add: idle_uart_def)
  from uart_session.start [OF this chip_init, of fetched transmitted True]
  have "uart_session chip_ops fetched transmitted True chip_options (chip_uart (replicate 2048 0) 0 0
     \<lparr>arriving = [0x41, 0x13, 0x11, 0x42], fetched = [0], transmitted = [12], lcr_register = 3, chip_ticks = 0\<rparr>)
     [0] [] [12] []"
    by (simp add: chip_uart_def payload_def)
  from uart_session.written [OF uart_session.read [OF this chip_read [OF z]] chip_write]
  show ?thesis by (simp add: chip_end_def)
qed

section \<open>The driver is a pair of queues\<close>

text \<open>C9: Whatever sequence of interrupts and operations follows a start, the ring stays well formed and
  reads deliver in order: what was delivered since the last purge is a prefix of what arrived
  since then, flow control aside, and as long as no error is set the rest is exactly what is in
  the ring. So an octet is lost only with an error, which no later read hides.\<close>

theorem uart_delivers_in_order:
  assumes "serial_chip ops (base pio) taken thr"
    and "uart_session ops taken thr (flow pio AND ZMODEM_DOS_FLOW_XON \<noteq> 0) pio u P D S W"
  shows "uart_ok (base pio) (flow pio AND ZMODEM_DOS_FLOW_XON \<noteq> 0) u \<and>
    prefix (P @ D) (payload (xon_flow u) (taken (hw u))) \<and>
    (\<not> error u \<longrightarrow> payload (xon_flow u) (taken (hw u)) = P @ D @ contents u)"
  using serial_chip.session_drv [OF assms(1,2) refl refl] by (auto simp: driver_def fifo_def uart_ok_def)

theorem uart_delivers_in_order_witness:
  "uart_ok 0x3f8 True chip_end \<and> prefix ([0] @ [0x41, 0x42]) (payload True [0, 0x41, 0x13, 0x11, 0x42])"
  using uart_delivers_in_order [of chip_ops chip_options fetched transmitted chip_end "[0]" "[0x41, 0x42]" "[12]" "[0x43, 0x44]"]
    chip.serial_chip_axioms chip_session
  by (simp add: chip_options_def chip_end_def chip_uart_def)

text \<open>C10: However flow control interleaves with it, the transmit register sees the octets of the writes
  that succeeded, in order, none lost or repeated, and otherwise only XON and XOFF.\<close>

theorem uart_sends_in_order:
  assumes "serial_chip ops (base pio) taken thr"
    and "uart_session ops taken thr (flow pio AND ZMODEM_DOS_FLOW_XON \<noteq> 0) pio u P D S W"
  shows "payload (xon_flow u) (thr (hw u)) = S @ payload (xon_flow u) W"
  using serial_chip.session_drv [OF assms(1,2) refl refl] by (auto simp: driver_def uart_ok_def)

theorem uart_sends_in_order_witness:
  "payload True [12, 0x11, 0x11, 0x43, 0x44] = [12] @ payload True [0x43, 0x44]"
  using uart_sends_in_order [of chip_ops chip_options fetched transmitted chip_end "[0]" "[0x41, 0x42]" "[12]" "[0x43, 0x44]"]
    chip.serial_chip_axioms chip_session
  by (simp add: chip_options_def chip_end_def chip_uart_def)

section \<open>Flow control\<close>

text \<open>Sending a flow octet at once leaves no trace of it in the driver.\<close>

lemma schedule_flow_ready:
  assumes "xon_flow u" "pending_flow u = - 1" "d_inp ops (uart_base u + UART_LSR) (hw u) = (lsr, m)"
    "lsr AND UART_LSR_THRE \<noteq> 0" "octet \<noteq> - 1"
  shows "schedule_flow ops octet u = u\<lparr>hw := d_outp ops (uart_base u) (word_of_int octet) m\<rparr>"
  using assms by (simp add: schedule_flow_def inp_def outp_def)

text \<open>C36: While the ring is nearly empty and the transmitter ready, every look at the ring, by a read or by
  the handler, sends another XON, though none of them was preceded by an XOFF: \<open>n\<close> looks send \<open>n\<close>.\<close>

theorem low_ring_repeats_xon:
  assumes "serial_chip ops B taken thr" and "uart_ok B True u" and "pending_flow u = - 1"
    and "ring_count u \<le> UART_RING_LOW" and "\<not> hardware_flow u"
    and "\<forall>m. fst (d_inp ops (B + UART_LSR) m) AND UART_LSR_THRE \<noteq> 0"
  shows "thr (hw ((update_receive_flow ops ^^ n) u)) = thr (hw u) @ replicate n XON"
proof -
  note chip = serial_chip.read_other [OF assms(1)] serial_chip.write_data [OF assms(1)] serial_chip.offset_ne(4) [OF assms(1)]
  have "thr (hw ((update_receive_flow ops ^^ n) u)) = thr (hw u) @ replicate n XON \<and>
      (\<exists>m. (update_receive_flow ops ^^ n) u = u\<lparr>hw := m\<rparr>)"
  proof (induction n)
    case 0
    show ?case by (auto intro: exI [of _ "hw u"])
  next
    case (Suc n)
    then obtain m where m: "(update_receive_flow ops ^^ n) u = u\<lparr>hw := m\<rparr>" "thr m = thr (hw u) @ replicate n XON" by auto
    obtain lsr m1 where r: "d_inp ops (B + 5) m = (lsr, m1)" by fastforce
    have "lsr AND UART_LSR_THRE \<noteq> 0" using assms(6) r by (metis fst_conv)
    then have "update_receive_flow ops (u\<lparr>hw := m\<rparr>) = u\<lparr>hw := d_outp ops B 0x11 m1\<rparr>"
      using schedule_flow_ready [of "u\<lparr>hw := m\<rparr>" ops lsr m1 "uint XON"] assms(2-5) r
      by (auto simp: update_receive_flow_def uart_ok_def ring_count_def word_le_nat_alt)
    moreover have "thr (d_outp ops B 0x11 m1) = thr m @ [XON]"
      using chip(1) [OF chip(3) r] by (simp add: chip(2))
    ultimately show ?case using m by (auto simp: replicate_append_same)
  qed
  then show ?thesis by blast
qed

theorem low_ring_repeats_xon_witness:
  "transmitted (hw ((update_receive_flow chip_ops ^^ 3) chip_end)) =
     [12, 0x11, 0x11, 0x43, 0x44] @ replicate 3 XON"
  using low_ring_repeats_xon [OF chip.serial_chip_axioms, of chip_end 3]
  by (simp add: chip_end_def chip_uart_def uart_ok_def ring_count_def chip_ops_def chip_inp_def)

section \<open>Rates and deadlines\<close>

text \<open>C37: A rate is accepted exactly when it divides 115200 with a quotient that fits the divisor latch, and
  that quotient is the divisor.\<close>

theorem rate_has_divisor: "valid_divisor r = Some d \<longleftrightarrow> unat d * unat r = 115200"
proof
  assume "valid_divisor r = Some d"
  then have r: "r \<noteq> 0" "115200 mod r = 0" "115200 div r \<le> 0xffff" "d = ucast (115200 div r)"
    by (auto simp: valid_divisor_def Let_def not_less split: if_splits)
  have "unat (115200 div r) < 2 ^ 16" using r(3) by (simp add: word_le_nat_alt)
  then have "unat d = unat (115200 div r)" using r(4) by (simp add: unsigned_ucast_eq take_bit_nat_eq_self)
  then have "unat d = 115200 div unat r" by (simp add: unat_div_distrib)
  moreover have "115200 mod unat r = 0" using arg_cong [OF r(2), of unat] by (simp only: unat_mod_distrib) simp
  ultimately show "unat d * unat r = 115200" using div_mult_mod_eq [of 115200 "unat r"] by (simp only: add_0_right)
next
  assume a: "unat d * unat r = 115200"
  then have r: "unat r \<noteq> 0" "unat d \<noteq> 0" by (metis mult_0_right mult_0 zero_neq_numeral)+
  then have le: "unat r \<le> 115200" using a by (metis dvd_imp_le dvd_triv_right zero_less_numeral)
  have q: "115200 div unat r = unat d" "115200 mod unat r = 0" using a r by (metis nonzero_mult_div_cancel_right, metis mod_mult_self2_is_0)
  have "unat (115200 div r) = unat d" by (simp add: unat_div_distrib q)
  moreover have "unat d < 2 ^ 16" using unsigned_less [of d] by simp
  ultimately have "115200 div r \<noteq> 0" "115200 div r \<le> 0xffff" "unat (ucast (115200 div r) :: u16) = unat d"
    using r(2) by (auto simp: word_le_nat_alt unsigned_ucast_eq take_bit_nat_eq_self)
  moreover from this have "ucast (115200 div r) = d" by (simp only: unsigned_word_eqI)
  moreover have "r \<noteq> 0" "\<not> 115200 < r" using r(1) le by (auto simp: word_less_nat_alt)
  moreover have "unat (115200 mod r) = unat (0 :: u32)" using q(2) by (simp add: unat_mod_distrib)
  then have "115200 mod r = 0" by (simp only: unsigned_word_eqI)
  ultimately show "valid_divisor r = Some d" by (simp add: valid_divisor_def Let_def not_less)
qed

text \<open>C38: A deadline of at most 32767 milliseconds, at up to 1000 ticks a second, is over exactly when the ticks
  since the start, counted modulo the width of the clock, amount to it: no product overflows, and a
  clock that wraps in between does no harm.\<close>

theorem deadline_is_exact:
  assumes "0 < timeout_ms" "timeout_ms < 2 ^ 15" "d_clocks_per_sec ops \<le> 1000" "d_clock ops m = (now, m')"
  shows "zmodem_dos_timeout_expired ops start timeout_ms m =
    (timeout_ms * uint (d_clocks_per_sec ops) \<le> 1000 * uint (now - start), m')"
proof -
  let ?c = "d_clocks_per_sec ops" and ?e = "now - start"
  have c: "uint ?c \<le> 1000" using assms(3) by (simp add: word_le_def)
  have t: "uint (word_of_int timeout_ms :: u32) = timeout_ms"
    using assms(1,2) by (simp add: uint_word_of_int_eq take_bit_int_eq_self)
  have "timeout_ms * uint ?c \<le> 32767 * 1000" using assms(1,2) c by (intro mult_mono) auto
  moreover have "0 \<le> timeout_ms * uint ?c" using assms(1) by simp
  ultimately have "uint (word_of_int timeout_ms * ?c + 999) = timeout_ms * uint ?c + 999"
    using assms(1,2) by (simp add: uint_word_ariths t)
  then have "uint ((word_of_int timeout_ms * ?c + 999) div 1000) = (timeout_ms * uint ?c + 999) div 1000"
    by (simp add: uint_div_distrib)
  then have "(word_of_int timeout_ms * ?c + 999) div 1000 \<le> ?e \<longleftrightarrow> timeout_ms * uint ?c \<le> 1000 * uint ?e"
    by (simp add: word_le_def) linarith
  then show ?thesis using assms(1,4) by (simp add: zmodem_dos_timeout_expired_def Let_def)
qed

theorem deadline_is_exact_witness:
  "zmodem_dos_timeout_expired chip_ops 0xffffffff 5 (chip_start []) = (False, (chip_start [])\<lparr>chip_ticks := 1\<rparr>)"
  using deadline_is_exact [of 5 chip_ops "chip_start []" 0 "(chip_start [])\<lparr>chip_ticks := 1\<rparr>" "0xffffffff"]
  by (simp add: chip_ops_def chip_start_def)

end
