(* ===== verification/Dos_Fossil.thy ===== *)
theory Dos_Fossil
  imports Dos
begin

text \<open>
  The two transports that go through software interrupts: FOSSIL (\<^verbatim>\<open>src/dos/fossil.c\<close>) and the BIOS
  (\<^verbatim>\<open>src/dos/bios.c\<close>). A read returns its result, the octets stored in the caller's buffer and their number.
  Waits are partial.
\<close>

section \<open>FOSSIL\<close>

abbreviation (input) FOSSIL_SIGNATURE :: u16 where "FOSSIL_SIGNATURE \<equiv> 0x1954"
abbreviation (input) FOSSIL_DATA_READY :: u16 where "FOSSIL_DATA_READY \<equiv> 0x0100"
abbreviation (input) FOSSIL_OVERRUN :: u16 where "FOSSIL_OVERRUN \<equiv> 0x0200"

definition fossil_simple :: "'m dos_ops \<Rightarrow> u16 \<Rightarrow> u16 \<Rightarrow> u16 \<Rightarrow> 'm \<Rightarrow> u16 \<times> 'm" where
  "fossil_simple ops function v line m =
     (let (output, m) = d_int86 ops 0x14 \<lparr>r_ax = push_bit 8 function OR (v AND 0xff), r_bx = 0, r_cx = 0,
            r_dx = line, r_si = 0, r_di = 0, r_cflag = 0\<rparr> m
      in (r_ax output, m))"

definition fossil_block :: "'m dos_ops \<Rightarrow> u16 \<Rightarrow> u16 \<Rightarrow> u8 list \<Rightarrow> 'm \<Rightarrow> u16 \<times> u8 list \<times> 'm" where
  "fossil_block ops function line region m = d_block ops (push_bit 8 function) line region m"

definition fossil_rate_code :: "u32 \<Rightarrow> u16 option" where
  "fossil_rate_code r =
     (if r = 19200 then Some 0x03 else if r = 38400 then Some 0x23 else if r = 300 then Some 0x43
      else if r = 600 then Some 0x63 else if r = 1200 then Some 0x83 else if r = 2400 then Some 0xa3
      else if r = 4800 then Some 0xc3 else if r = 9600 then Some 0xe3 else None)"

text \<open>The result, \<open>fossil_max_function\<close> and the machine. BL is the low half of BX.\<close>

definition zmodem_dos_fossil_init :: "'m dos_ops \<Rightarrow> dos_io \<Rightarrow> u16 \<Rightarrow> 'm \<Rightarrow> int \<times> u16 \<times> 'm" where
  "zmodem_dos_fossil_init ops pio max_function m =
     (let (output, m) = d_int86 ops 0x14 \<lparr>r_ax = 0x0400, r_bx = 0, r_cx = 0, r_dx = port pio, r_si = 0, r_di = 0,
            r_cflag = 0\<rparr> m
      in if r_ax output \<noteq> FOSSIL_SIGNATURE then (1, max_function, m)
         else let max_function = r_bx output AND 0xff;
                  code = fossil_rate_code (rate pio)
              in if rate_selected pio \<and> code = None
                 then (- 1, max_function, snd (fossil_simple ops 0x05 0 (port pio) m))
                 else let m = (if rate_selected pio then snd (fossil_simple ops 0x00 (the code) (port pio) m) else m);
                          mask = 0xf0;
                          mask = (if flow pio AND ZMODEM_DOS_FLOW_XON \<noteq> 0 then mask OR 0x09 else mask);
                          mask = (if flow pio AND ZMODEM_DOS_FLOW_HARDWARE \<noteq> 0 then mask OR 0x02 else mask);
                          m = (if flow_selected pio then snd (fossil_simple ops 0x0f mask (port pio) m) else m)
                      in (0, max_function, m))"

definition zmodem_dos_fossil_close :: "'m dos_ops \<Rightarrow> dos_io \<Rightarrow> 'm \<Rightarrow> int \<times> 'm" where
  "zmodem_dos_fossil_close ops pio m = (0, snd (fossil_simple ops 0x05 0 (port pio) m))"

definition zmodem_dos_fossil_poll :: "'m dos_ops \<Rightarrow> dos_io \<Rightarrow> 'm \<Rightarrow> int \<times> 'm" where
  "zmodem_dos_fossil_poll ops pio m =
     (let (status, m) = fossil_simple ops 0x03 0 (port pio) m
      in (if status AND FOSSIL_OVERRUN \<noteq> 0 then ZMODEM_IO_ERROR
          else if status AND FOSSIL_DATA_READY \<noteq> 0 then 1 else 0, m))"

partial_function (option) fossil_read_loop ::
  "'m dos_ops \<Rightarrow> dos_io \<Rightarrow> u16 \<Rightarrow> nat \<Rightarrow> u32 \<Rightarrow> int \<Rightarrow> 'm \<Rightarrow> (int \<times> u8 list \<times> nat \<times> 'm) option" where
  "fossil_read_loop ops pio max_function capacity start timeout_ms m =
     (let (result, octets, n, m) =
        (if 0x18 \<le> max_function then
           (let (received, region, m) = fossil_block ops 0x18 (port pio) (replicate capacity 0) m
            in if received \<noteq> 0 then (ZMODEM_OK, take (unat received) region, unat received, m) else (1, [], 0, m))
         else let (ready, m) = zmodem_dos_fossil_poll ops pio m
              in if ready < 0 then (ready, [], 0, m)
                 else if ready \<noteq> 0 then
                   (let (c, m) = fossil_simple ops 0x02 0 (port pio) m
                    in (ZMODEM_OK, [ucast c], 1, m))
                 else (1, [], 0, m))
      in if result \<le> 0 then Some (result, octets, n, m)
         else let (expired, m) = zmodem_dos_timeout_expired ops start timeout_ms m
              in if expired then Some (ZMODEM_TIMEOUT, [], 0, m)
                 else fossil_read_loop ops pio max_function capacity start timeout_ms (zmodem_dos_idle ops m))"

definition zmodem_dos_fossil_read ::
  "'m dos_ops \<Rightarrow> dos_io \<Rightarrow> u16 \<Rightarrow> nat \<Rightarrow> int \<Rightarrow> 'm \<Rightarrow> (int \<times> u8 list \<times> nat \<times> 'm) option" where
  "zmodem_dos_fossil_read ops pio max_function capacity timeout_ms m =
     (let (start, m) = d_clock ops m
      in if capacity = 0 then Some (ZMODEM_IO_ERROR, [], 0, m)
         else fossil_read_loop ops pio max_function capacity start timeout_ms m)"

text \<open>\<open>octets\<close> are those still to be sent. A driver never takes more than it is given.\<close>

partial_function (option) zmodem_dos_fossil_write ::
  "'m dos_ops \<Rightarrow> dos_io \<Rightarrow> u16 \<Rightarrow> u8 list \<Rightarrow> 'm \<Rightarrow> (int \<times> 'm) option" where
  "zmodem_dos_fossil_write ops pio max_function octets m =
     (if octets = [] then Some (ZMODEM_OK, m)
      else if 0x19 \<le> max_function then
        (let (written, region, m) = fossil_block ops 0x19 (port pio) octets m
         in if written = 0 then zmodem_dos_fossil_write ops pio max_function octets (zmodem_dos_idle ops m)
            else zmodem_dos_fossil_write ops pio max_function (drop (unat written) octets) m)
      else zmodem_dos_fossil_write ops pio max_function (tl octets)
             (snd (fossil_simple ops 0x01 (ucast (hd octets)) (port pio) m)))"

definition zmodem_dos_fossil_flush :: "'m dos_ops \<Rightarrow> dos_io \<Rightarrow> 'm \<Rightarrow> int \<times> 'm" where
  "zmodem_dos_fossil_flush ops pio m = (ZMODEM_OK, snd (fossil_simple ops 0x08 0 (port pio) m))"

definition zmodem_dos_fossil_purge :: "'m dos_ops \<Rightarrow> dos_io \<Rightarrow> 'm \<Rightarrow> int \<times> 'm" where
  "zmodem_dos_fossil_purge ops pio m = (ZMODEM_OK, snd (fossil_simple ops 0x0a 0 (port pio) m))"

section \<open>The BIOS\<close>

abbreviation (input) BIOS_DATA_READY :: u16 where "BIOS_DATA_READY \<equiv> 0x0100"
abbreviation (input) BIOS_TX_EMPTY :: u16 where "BIOS_TX_EMPTY \<equiv> 0x4000"
abbreviation (input) BIOS_TIMEOUT :: u16 where "BIOS_TIMEOUT \<equiv> 0x8000"

definition bios_rate_code :: "'m dos_ops \<Rightarrow> u32 \<Rightarrow> u16 option" where
  "bios_rate_code ops r =
     (if r \<in> {110, 150, 300, 600, 1200, 2400, 4800, 9600} then Some (d_com_rate ops (unat r)) else None)"

definition zmodem_dos_bios_init :: "'m dos_ops \<Rightarrow> dos_io \<Rightarrow> 'm \<Rightarrow> int \<times> 'm" where
  "zmodem_dos_bios_init ops pio m =
     (if flow_selected pio \<and> flow pio \<noteq> 0 then (- 1, m)
      else if rate_selected pio then
        (case bios_rate_code ops (rate pio) of None \<Rightarrow> (- 1, m)
         | Some code \<Rightarrow>
             (let (status, m) = d_bios ops (d_com_init ops) (port pio)
                    (code OR d_com_chr8 ops OR d_com_stop1 ops OR d_com_noparity ops) m
              in (if status AND BIOS_TIMEOUT \<noteq> 0 then - 1 else 0, m)))
      else (0, m))"

definition zmodem_dos_bios_close :: "'m \<Rightarrow> int \<times> 'm" where
  "zmodem_dos_bios_close m = (0, m)"

definition zmodem_dos_bios_poll :: "'m dos_ops \<Rightarrow> dos_io \<Rightarrow> 'm \<Rightarrow> int \<times> 'm" where
  "zmodem_dos_bios_poll ops pio m =
     (let (status, m) = d_bios ops (d_com_status ops) (port pio) 0 m
      in (if status AND BIOS_TIMEOUT \<noteq> 0 then ZMODEM_IO_ERROR
          else if status AND BIOS_DATA_READY \<noteq> 0 then 1 else 0, m))"

partial_function (option) bios_read_loop ::
  "'m dos_ops \<Rightarrow> dos_io \<Rightarrow> nat \<Rightarrow> u32 \<Rightarrow> int \<Rightarrow> 'm \<Rightarrow> (int \<times> u8 list \<times> nat \<times> 'm) option" where
  "bios_read_loop ops pio capacity start timeout_ms m =
     (let (ready, m) = zmodem_dos_bios_poll ops pio m
      in if ready < 0 then Some (ready, [], 0, m)
         else if ready \<noteq> 0 then
           (let (result, m) = d_bios ops (d_com_receive ops) (port pio) 0 m
            in if result AND BIOS_TIMEOUT \<noteq> 0 then Some (ZMODEM_IO_ERROR, [], 0, m)
               else Some (ZMODEM_OK, [ucast result], 1, m))
         else let (expired, m) = zmodem_dos_timeout_expired ops start timeout_ms m
              in if expired then Some (ZMODEM_TIMEOUT, [], 0, m)
                 else bios_read_loop ops pio capacity start timeout_ms (zmodem_dos_idle ops m))"

definition zmodem_dos_bios_read ::
  "'m dos_ops \<Rightarrow> dos_io \<Rightarrow> nat \<Rightarrow> int \<Rightarrow> 'm \<Rightarrow> (int \<times> u8 list \<times> nat \<times> 'm) option" where
  "zmodem_dos_bios_read ops pio capacity timeout_ms m =
     (let (start, m) = d_clock ops m
      in if capacity = 0 then Some (ZMODEM_IO_ERROR, [], 0, m)
         else bios_read_loop ops pio capacity start timeout_ms m)"

fun zmodem_dos_bios_write :: "'m dos_ops \<Rightarrow> dos_io \<Rightarrow> u8 list \<Rightarrow> 'm \<Rightarrow> int \<times> 'm" where
  "zmodem_dos_bios_write ops pio [] m = (ZMODEM_OK, m)"
| "zmodem_dos_bios_write ops pio (c # cs) m =
     (let (status, m) = d_bios ops (d_com_send ops) (port pio) (ucast c) m
      in if status AND BIOS_TIMEOUT \<noteq> 0 then (ZMODEM_IO_ERROR, m) else zmodem_dos_bios_write ops pio cs m)"

partial_function (option) zmodem_dos_bios_flush :: "'m dos_ops \<Rightarrow> dos_io \<Rightarrow> 'm \<Rightarrow> (int \<times> 'm) option" where
  "zmodem_dos_bios_flush ops pio m =
     (let (status, m) = d_bios ops (d_com_status ops) (port pio) 0 m
      in if status AND BIOS_TX_EMPTY = 0 then zmodem_dos_bios_flush ops pio (zmodem_dos_idle ops m)
         else Some (ZMODEM_OK, m))"

partial_function (option) zmodem_dos_bios_purge :: "'m dos_ops \<Rightarrow> dos_io \<Rightarrow> 'm \<Rightarrow> (int \<times> 'm) option" where
  "zmodem_dos_bios_purge ops pio m =
     (let (status, m) = d_bios ops (d_com_status ops) (port pio) 0 m
      in if status AND BIOS_DATA_READY \<noteq> 0
         then zmodem_dos_bios_purge ops pio (snd (d_bios ops (d_com_receive ops) (port pio) 0 m))
         else Some (ZMODEM_OK, m))"

end
