(* ===== verification/Strtoul.thy ===== *)
theory Strtoul
  imports Clib
begin

text \<open>The conversion the DOS and Windows adapters read numbers with, where an \<^verbatim>\<open>unsigned long\<close> has 32 bits.\<close>

text \<open>\<^verbatim>\<open>strtoul\<close> in base 10 or 16, on 32 bits: the value, whether \<^verbatim>\<open>errno\<close> is \<^verbatim>\<open>ERANGE\<close>, the rest of the text.\<close>

definition digit_of :: "nat \<Rightarrow> u8 \<Rightarrow> nat option" where
  "digit_of radix c =
     (let v = (if 0x30 \<le> c \<and> c \<le> 0x39 then unat c - 0x30
               else if 0x41 \<le> c \<and> c \<le> 0x5a then unat c - 55
               else if 0x61 \<le> c \<and> c \<le> 0x7a then unat c - 87 else radix)
      in if v < radix then Some v else None)"

definition strtoul :: "u8 list \<Rightarrow> nat \<Rightarrow> nat \<times> bool \<times> u8 list" where
  "strtoul text radix =
     (let s = dropWhile is_space text;
          negative = (s \<noteq> [] \<and> hd s = 0x2d);
          s = (if s \<noteq> [] \<and> (hd s = 0x2d \<or> hd s = 0x2b) then tl s else s);
          s = (if radix = 16 \<and> 3 \<le> length s \<and> s ! 0 = 0x30 \<and> (s ! 1 = 0x78 \<or> s ! 1 = 0x58) \<and>
                  digit_of 16 (s ! 2) \<noteq> None then drop 2 s else s);
          ds = takeWhile (\<lambda>c. digit_of radix c \<noteq> None) s; rest = dropWhile (\<lambda>c. digit_of radix c \<noteq> None) s;
          v = foldl (\<lambda>v c. v * radix + the (digit_of radix c)) 0 ds
      in if ds = [] then (0, False, text)
         else if UINT32_MAX < v then (UINT32_MAX, True, rest)
         else (if negative \<and> v \<noteq> 0 then 2 ^ 32 - v else v, False, rest))"

end
