(* ===== verification/Dos_Plat.thy ===== *)
theory Dos_Plat
  imports Dos_Uart Dos_Fossil Posix Strtoul
begin

text \<open>
  The DOS front end (\<^verbatim>\<open>src/dos/zmodem_plat.c\<close>): options, the choice of a transport, the dispatch of the
  callbacks to it. The state holds the adapter, the static variables of the transports, and the
  machine inside \<open>duart\<close>. Messages are left out.
\<close>

text \<open>\<open>cleanup_set\<close>: \<^verbatim>\<open>cleanup_io\<close> points to the adapter.\<close>

record 'm dos =
  dio :: dos_io
  fossil_max_function :: u16
  duart :: "'m uart"
  cleanup_set :: bool

definition with_hw :: "('m \<Rightarrow> 'a \<times> 'm) \<Rightarrow> 'm dos \<Rightarrow> 'a \<times> 'm dos" where
  "with_hw f d = (let (r, m) = f (hw (duart d)) in (r, d\<lparr>duart := (duart d)\<lparr>hw := m\<rparr>\<rparr>))"

definition try_hw :: "('m \<Rightarrow> (int \<times> 'm) option) \<Rightarrow> 'm dos \<Rightarrow> (int \<times> 'm dos) option" where
  "try_hw f d = do { (r, m) \<leftarrow> f (hw (duart d)); Some (r, d\<lparr>duart := (duart d)\<lparr>hw := m\<rparr>\<rparr>) }"

definition with_uart :: "('m uart \<Rightarrow> int \<times> 'm uart) \<Rightarrow> 'm dos \<Rightarrow> int \<times> 'm dos" where
  "with_uart f d = (let (r, u) = f (duart d) in (r, d\<lparr>duart := u\<rparr>))"

definition try_uart :: "('m uart \<Rightarrow> (int \<times> 'm uart) option) \<Rightarrow> 'm dos \<Rightarrow> (int \<times> 'm dos) option" where
  "try_uart f d = do { (r, u) \<leftarrow> f (duart d); Some (r, d\<lparr>duart := u\<rparr>) }"

section \<open>Opening and closing\<close>

definition zmodem_plat_io_init_dos :: dos_io where
  "zmodem_plat_io_init_dos =
     \<lparr>requested_backend = ZMODEM_DOS_AUTO, active_backend = ZMODEM_DOS_AUTO, port = 0, base = 0, irq = 0, rate = 0,
      flow = 0, base_selected = False, irq_selected = False, rate_selected = False, flow_selected = False,
      flow_none_selected = False, initialized = False, requires_nonstreaming = False\<rparr>"

definition backend_close :: "'m dos_ops \<Rightarrow> 'm dos \<Rightarrow> int \<times> 'm dos" where
  "backend_close ops d =
     (case active_backend (dio d) of
        ZMODEM_DOS_FOSSIL \<Rightarrow> with_hw (zmodem_dos_fossil_close ops (dio d)) d
      | ZMODEM_DOS_UART \<Rightarrow> with_uart (zmodem_dos_uart_close ops) d
      | ZMODEM_DOS_BIOS \<Rightarrow> with_hw zmodem_dos_bios_close d
      | ZMODEM_DOS_AUTO \<Rightarrow> (0, d))"

definition zmodem_plat_io_close_dos :: "'m dos_ops \<Rightarrow> 'm dos \<Rightarrow> int \<times> 'm dos" where
  "zmodem_plat_io_close_dos ops d =
     (if \<not> initialized (dio d) then (0, d)
      else let (result, d) = backend_close ops d
           in (result, d\<lparr>dio := (dio d)\<lparr>initialized := False, active_backend := ZMODEM_DOS_AUTO\<rparr>,
                        cleanup_set := False\<rparr>))"

definition dos_atexit_cleanup :: "'m dos_ops \<Rightarrow> 'm dos \<Rightarrow> 'm dos" where
  "dos_atexit_cleanup ops d = (if cleanup_set d then snd (zmodem_plat_io_close_dos ops d) else d)"

section \<open>The callbacks\<close>

definition dos_read :: "'m dos_ops \<Rightarrow> 'm dos \<Rightarrow> nat \<Rightarrow> int \<Rightarrow> (int \<times> u8 list \<times> nat \<times> 'm dos) option" where
  "dos_read ops d capacity timeout_ms =
     (case active_backend (dio d) of
        ZMODEM_DOS_FOSSIL \<Rightarrow> do {
          (r, octets, n, m) \<leftarrow> zmodem_dos_fossil_read ops (dio d) (fossil_max_function d) capacity timeout_ms (hw (duart d));
          Some (r, octets, n, d\<lparr>duart := (duart d)\<lparr>hw := m\<rparr>\<rparr>) }
      | ZMODEM_DOS_UART \<Rightarrow> do {
          (r, octets, u) \<leftarrow> zmodem_dos_uart_read ops capacity timeout_ms (duart d);
          Some (r, octets, length octets, d\<lparr>duart := u\<rparr>) }
      | ZMODEM_DOS_BIOS \<Rightarrow> do {
          (r, octets, n, m) \<leftarrow> zmodem_dos_bios_read ops (dio d) capacity timeout_ms (hw (duart d));
          Some (r, octets, n, d\<lparr>duart := (duart d)\<lparr>hw := m\<rparr>\<rparr>) }
      | ZMODEM_DOS_AUTO \<Rightarrow> Some (ZMODEM_IO_ERROR, [], 0, d))"

definition dos_write :: "'m dos_ops \<Rightarrow> 'm dos \<Rightarrow> u8 list \<Rightarrow> (int \<times> 'm dos) option" where
  "dos_write ops d octets =
     (case active_backend (dio d) of
        ZMODEM_DOS_FOSSIL \<Rightarrow> try_hw (zmodem_dos_fossil_write ops (dio d) (fossil_max_function d) octets) d
      | ZMODEM_DOS_UART \<Rightarrow> try_uart (zmodem_dos_uart_write ops octets) d
      | ZMODEM_DOS_BIOS \<Rightarrow> Some (with_hw (zmodem_dos_bios_write ops (dio d) octets) d)
      | ZMODEM_DOS_AUTO \<Rightarrow> Some (ZMODEM_IO_ERROR, d))"

definition dos_flush :: "'m dos_ops \<Rightarrow> 'm dos \<Rightarrow> (int \<times> 'm dos) option" where
  "dos_flush ops d =
     (case active_backend (dio d) of
        ZMODEM_DOS_FOSSIL \<Rightarrow> Some (with_hw (zmodem_dos_fossil_flush ops (dio d)) d)
      | ZMODEM_DOS_UART \<Rightarrow> try_uart (zmodem_dos_uart_flush ops) d
      | ZMODEM_DOS_BIOS \<Rightarrow> try_hw (zmodem_dos_bios_flush ops (dio d)) d
      | ZMODEM_DOS_AUTO \<Rightarrow> Some (ZMODEM_IO_ERROR, d))"

definition dos_poll :: "'m dos_ops \<Rightarrow> 'm dos \<Rightarrow> (int \<times> 'm dos) option" where
  "dos_poll ops d =
     (case active_backend (dio d) of
        ZMODEM_DOS_FOSSIL \<Rightarrow> Some (with_hw (zmodem_dos_fossil_poll ops (dio d)) d)
      | ZMODEM_DOS_UART \<Rightarrow> try_uart (zmodem_dos_uart_poll ops) d
      | ZMODEM_DOS_BIOS \<Rightarrow> Some (with_hw (zmodem_dos_bios_poll ops (dio d)) d)
      | ZMODEM_DOS_AUTO \<Rightarrow> Some (ZMODEM_IO_ERROR, d))"

definition dos_purge :: "'m dos_ops \<Rightarrow> 'm dos \<Rightarrow> (int \<times> 'm dos) option" where
  "dos_purge ops d =
     (case active_backend (dio d) of
        ZMODEM_DOS_FOSSIL \<Rightarrow> Some (with_hw (zmodem_dos_fossil_purge ops (dio d)) d)
      | ZMODEM_DOS_UART \<Rightarrow> do { u \<leftarrow> preempt ops (duart d);
                                Some (with_uart (zmodem_dos_uart_purge ops) (d\<lparr>duart := u\<rparr>)) }
      | ZMODEM_DOS_BIOS \<Rightarrow> try_hw (zmodem_dos_bios_purge ops (dio d)) d
      | ZMODEM_DOS_AUTO \<Rightarrow> Some (ZMODEM_IO_ERROR, d))"

text \<open>A callback that never returns has no value: \<open>the None\<close>.\<close>

definition zmodem_plat_io_bind_dos :: "'m dos_ops \<Rightarrow> 'm dos \<Rightarrow> 'm dos zmodem_io" where
  "zmodem_plat_io_bind_dos ops d =
     \<lparr>io_context = d, io_read = (\<lambda>d capacity t. the (dos_read ops d capacity t)),
      io_write = (\<lambda>d octets. the (dos_write ops d octets)), io_flush = (\<lambda>d. the (dos_flush ops d)),
      io_poll = (\<lambda>d. the (dos_poll ops d)), io_purge = (\<lambda>d. the (dos_purge ops d))\<rparr>"

section \<open>Options\<close>

definition select_backend :: "zmodem_dos_backend \<Rightarrow> dos_io \<Rightarrow> bool \<times> dos_io" where
  "select_backend backend pio =
     (if requested_backend pio \<noteq> ZMODEM_DOS_AUTO \<and> requested_backend pio \<noteq> backend then (False, pio)
      else (True, pio\<lparr>requested_backend := backend\<rparr>))"

definition parse_number :: "string \<Rightarrow> nat \<Rightarrow> nat \<Rightarrow> u32 option" where
  "parse_number text radix maximum =
     (if text = [] then None
      else let (parsed, erange, after) = strtoul (octets_of text) radix
           in if erange \<or> after \<noteq> [] \<or> maximum < parsed then None else Some (word_of_nat parsed))"

text \<open>The result, the adapter and the new index. The index is inside the argument.\<close>

definition parse_attached ::
  "char \<Rightarrow> string \<Rightarrow> nat \<Rightarrow> dos_io \<Rightarrow> zmodem_plat_option_result \<times> dos_io \<times> nat" where
  "parse_attached option argument option_index pio =
     (let value_text = drop (option_index + 1) argument; fin = length argument - 1;
          invalid = (ZMODEM_PLAT_OPTION_INVALID, pio, option_index)
      in if option = CHR ''C'' then
           (case parse_number value_text 10 4 of None \<Rightarrow> invalid
            | Some v \<Rightarrow> if v = 0 then invalid
                        else (ZMODEM_PLAT_OPTION_ACCEPTED, pio\<lparr>port := ucast v - 1\<rparr>, fin))
         else if option = CHR ''A'' then
           (case parse_number value_text 16 (0xffff - 7) of None \<Rightarrow> invalid
            | Some v \<Rightarrow> if v = 0 then invalid
                else (case select_backend ZMODEM_DOS_UART pio of (ok, pio) \<Rightarrow>
                  if \<not> ok then invalid
                  else (ZMODEM_PLAT_OPTION_ACCEPTED, pio\<lparr>base := ucast v, base_selected := True\<rparr>, fin)))
         else if option = CHR ''G'' then
           (case parse_number value_text 10 15 of None \<Rightarrow> invalid
            | Some v \<Rightarrow> if v < 2 then invalid
                else (case select_backend ZMODEM_DOS_UART pio of (ok, pio) \<Rightarrow>
                  if \<not> ok then invalid
                  else (ZMODEM_PLAT_OPTION_ACCEPTED, pio\<lparr>irq := ucast v, irq_selected := True\<rparr>, fin)))
         else if option = CHR ''R'' then
           (case parse_number value_text 10 115200 of None \<Rightarrow> invalid
            | Some v \<Rightarrow> if v = 0 then invalid
                else (ZMODEM_PLAT_OPTION_ACCEPTED, pio\<lparr>rate := v, rate_selected := True\<rparr>, fin))
         else (ZMODEM_PLAT_OPTION_NOT_HANDLED, pio, option_index))"

definition zmodem_plat_parse_option_dos ::
  "dos_io \<Rightarrow> string \<Rightarrow> nat \<Rightarrow> zmodem_plat_option_result \<times> dos_io \<times> nat" where
  "zmodem_plat_parse_option_dos pio argument option_index =
     (let option = toupper (argument ! option_index);
          pick = (\<lambda>backend. (case select_backend backend pio of (ok, pio) \<Rightarrow>
            (if ok then ZMODEM_PLAT_OPTION_ACCEPTED else ZMODEM_PLAT_OPTION_INVALID, pio, option_index)));
          add_flow = (\<lambda>f. (if flow_none_selected pio then (ZMODEM_PLAT_OPTION_INVALID, pio, option_index)
            else (ZMODEM_PLAT_OPTION_ACCEPTED, pio\<lparr>flow_selected := True, flow := flow pio OR f\<rparr>, option_index)))
      in if option \<in> {CHR ''A'', CHR ''C'', CHR ''G'', CHR ''R''} then parse_attached option argument option_index pio
         else if option = CHR ''F'' then pick ZMODEM_DOS_FOSSIL
         else if option = CHR ''U'' then pick ZMODEM_DOS_UART
         else if option = CHR ''I'' then pick ZMODEM_DOS_BIOS
         else if option = CHR ''H'' then add_flow ZMODEM_DOS_FLOW_HARDWARE
         else if option = CHR ''X'' then add_flow ZMODEM_DOS_FLOW_XON
         else if option = CHR ''K'' then
           (if flow_selected pio \<and> flow pio \<noteq> 0 then (ZMODEM_PLAT_OPTION_INVALID, pio, option_index)
            else (ZMODEM_PLAT_OPTION_ACCEPTED, pio\<lparr>flow_selected := True, flow_none_selected := True, flow := 0\<rparr>,
                  option_index))
         else (ZMODEM_PLAT_OPTION_NOT_HANDLED, pio, option_index))"

section \<open>Choosing a transport\<close>

definition apply_port_defaults :: "dos_io \<Rightarrow> dos_io" where
  "apply_port_defaults pio =
     (let pio = (if \<not> base_selected pio then pio\<lparr>base := [0x3f8, 0x2f8, 0x3e8, 0x2e8] ! unat (port pio)\<rparr> else pio)
      in if \<not> irq_selected pio then pio\<lparr>irq := [4, 3, 4, 3] ! unat (port pio)\<rparr> else pio)"

definition start_backend :: "'m dos_ops \<Rightarrow> zmodem_dos_backend \<Rightarrow> 'm dos \<Rightarrow> int \<times> 'm dos" where
  "start_backend ops backend d =
     (case backend of
        ZMODEM_DOS_FOSSIL \<Rightarrow>
          (let (r, n, m) = zmodem_dos_fossil_init ops (dio d) (fossil_max_function d) (hw (duart d))
           in (r, d\<lparr>fossil_max_function := n, duart := (duart d)\<lparr>hw := m\<rparr>\<rparr>))
      | ZMODEM_DOS_UART \<Rightarrow> with_uart (zmodem_dos_uart_init ops (dio d)) d
      | ZMODEM_DOS_BIOS \<Rightarrow> with_hw (zmodem_dos_bios_init ops (dio d)) d
      | ZMODEM_DOS_AUTO \<Rightarrow> (- 1, d))"

text \<open>The transport to use, \<open>None\<close> when there is none.\<close>

definition choose_backend :: "'m dos_ops \<Rightarrow> 'm dos \<Rightarrow> zmodem_dos_backend option \<times> 'm dos" where
  "choose_backend ops d =
     (if requested_backend (dio d) \<noteq> ZMODEM_DOS_AUTO then
        (let (r, d) = start_backend ops (requested_backend (dio d)) d
         in (if r \<noteq> 0 then None else Some (requested_backend (dio d)), d))
      else let (r, d) = start_backend ops ZMODEM_DOS_FOSSIL d
           in if r = 0 then (Some ZMODEM_DOS_FOSSIL, d)
              else if r < 0 then (None, d)
              else let (r, d) = start_backend ops ZMODEM_DOS_UART d
                   in if r = 0 then (Some ZMODEM_DOS_UART, d)
                      else if r < 0 then (None, d)
                      else let (r, d) = start_backend ops ZMODEM_DOS_BIOS d
                           in (if r = 0 then Some ZMODEM_DOS_BIOS else None, d))"

definition zmodem_plat_post_parse_dos :: "'m dos_ops \<Rightarrow> 'm dos \<Rightarrow> int \<times> 'm dos" where
  "zmodem_plat_post_parse_dos ops d =
     (let (backend, d) = choose_backend ops (d\<lparr>dio := apply_port_defaults (dio d)\<rparr>)
      in case backend of None \<Rightarrow> (2, d)
         | Some b \<Rightarrow>
             (let pio = (dio d)\<lparr>active_backend := b\<rparr>;
                  pio = pio\<lparr>requires_nonstreaming := active_backend pio = ZMODEM_DOS_BIOS \<or>
                              (active_backend pio = ZMODEM_DOS_UART \<and> flow pio = 0), initialized := True\<rparr>;
                  (r, d) = with_hw (d_atexit ops) (d\<lparr>dio := pio, cleanup_set := True\<rparr>)
              in if r \<noteq> 0 then (2, snd (zmodem_plat_io_close_dos ops d)) else (0, d)))"

definition PLAT_RECEIVE_BUFFER_SIZE_dos :: "dos_io \<Rightarrow> nat" where
  "PLAT_RECEIVE_BUFFER_SIZE_dos pio =
     (if active_backend pio = ZMODEM_DOS_BIOS then 128
      else if active_backend pio = ZMODEM_DOS_UART \<and> flow pio = 0 then ZBLOCKLEN else 0)"

end
