(* ===== verification/Dos_Link.thy ===== *)
theory Dos_Link
  imports Dos_Plat File_Transfer
begin

text \<open>
  The DOS callbacks over a FOSSIL driver keep the contract of the protocol. \<open>fossil_driver\<close> states what
  FSC-0015 says of the block functions: they move as many octets as they report, in order, and do
  not wait.
\<close>

declare split_paired_Ex [simp del] split_paired_All [simp del]

section \<open>The driver\<close>

text \<open>
  \<open>ticks\<close> counts the ticks of the clock without end, \<open>busy\<close> bounds how often a write can still find no room.
  An operation takes less than \<open>2 ^ 20\<close> ticks, and waiting takes time.
\<close>

definition later :: "('m \<Rightarrow> nat) \<Rightarrow> 'm \<Rightarrow> 'm \<Rightarrow> bool" where
  "later ticks m m' \<longleftrightarrow> ticks m \<le> ticks m' \<and> ticks m' \<le> ticks m + 2 ^ 20"

locale fossil_driver =
  fixes ops :: "'m dos_ops" and line :: u16 and good :: "'m \<Rightarrow> bool"
    and incoming outgoing :: "'m \<Rightarrow> u8 list" and ticks busy :: "'m \<Rightarrow> nat"
  assumes read_block: "good m \<Longrightarrow> d_block ops 0x1800 line region m = (n, region', m') \<Longrightarrow>
      good m' \<and> unat n \<le> length region \<and> length region' = length region \<and>
      incoming m = take (unat n) region' @ incoming m' \<and> outgoing m' = outgoing m \<and> later ticks m m' \<and>
      (incoming m \<noteq> [] \<and> region \<noteq> [] \<longrightarrow> n \<noteq> 0)"
    and write_block: "good m \<Longrightarrow> d_block ops 0x1900 line region m = (n, region', m') \<Longrightarrow>
      good m' \<and> unat n \<le> length region \<and> outgoing m' = outgoing m @ take (unat n) region \<and>
      incoming m' = incoming m \<and> (n = 0 \<and> region \<noteq> [] \<longrightarrow> busy m' < busy m)"
    and flush_output: "good m \<Longrightarrow> r_ax r = 0x0800 \<Longrightarrow> r_dx r = line \<Longrightarrow> d_int86 ops 0x14 r m = (r', m') \<Longrightarrow>
      good m' \<and> incoming m' = incoming m \<and> outgoing m' = outgoing m"
    and status: "good m \<Longrightarrow> r_ax r = 0x0300 \<Longrightarrow> r_dx r = line \<Longrightarrow> d_int86 ops 0x14 r m = (r', m') \<Longrightarrow>
      good m' \<and> incoming m' = incoming m \<and> outgoing m' = outgoing m \<and> (incoming m = [] \<longrightarrow> r_ax r' AND 0x0300 = 0)"
    and idle: "good m \<Longrightarrow> d_int86 ops 0x28 r m = (r', m') \<Longrightarrow>
      good m' \<and> incoming m' = incoming m \<and> outgoing m' = outgoing m \<and> later ticks m m' \<and> ticks m < ticks m' \<and>
      busy m' \<le> busy m"
    and clock: "good m \<Longrightarrow> d_clock ops m = (t, m') \<Longrightarrow>
      good m' \<and> incoming m' = incoming m \<and> outgoing m' = outgoing m \<and> later ticks m m' \<and> t = word_of_nat (ticks m)"
begin

lemma idle_keeps:
  "good m \<Longrightarrow> good (zmodem_dos_idle ops m) \<and> incoming (zmodem_dos_idle ops m) = incoming m \<and>
     outgoing (zmodem_dos_idle ops m) = outgoing m \<and> later ticks m (zmodem_dos_idle ops m) \<and>
     ticks m < ticks (zmodem_dos_idle ops m) \<and> busy (zmodem_dos_idle ops m) \<le> busy m"
  unfolding zmodem_dos_idle_def by (rule idle [OF _ prod.collapse [symmetric]])

section \<open>Writing\<close>

lemma write_returns:
  assumes "0x19 \<le> f" "port pio = line"
  shows "good m \<Longrightarrow> \<exists>m'. zmodem_dos_fossil_write ops pio f octets m = Some (ZMODEM_OK, m') \<and> good m' \<and>
    incoming m' = incoming m \<and> outgoing m' = outgoing m @ octets"
proof (induction "(length octets, busy m)" arbitrary: octets m rule: wf_induct_rule [OF wf_lex_prod [OF wf_less_than wf_less_than]])
  case (1 octets m)
  show ?case
  proof (cases "octets = []")
    case True
    then show ?thesis using 1(2) by (subst zmodem_dos_fossil_write.simps) auto
  next
    case ne: False
    obtain n region m1 where b: "d_block ops 0x1900 line octets m = (n, region, m1)" by (metis prod_cases3)
    note w = write_block [OF 1(2) b]
    show ?thesis
    proof (cases "n = 0")
      case True
      let ?m = "zmodem_dos_idle ops m1"
      have i: "good ?m" "incoming ?m = incoming m" "outgoing ?m = outgoing m" "busy ?m < busy m"
        using idle_keeps [of m1] w True ne by auto
      then obtain m' where "zmodem_dos_fossil_write ops pio f octets ?m = Some (ZMODEM_OK, m')" "good m'"
        "incoming m' = incoming m" "outgoing m' = outgoing m @ octets"
        using 1(1) [of octets ?m] by auto
      then show ?thesis using ne b True assms
        by (subst zmodem_dos_fossil_write.simps) (simp add: fossil_block_def)
    next
      case False
      then have "0 < unat n" by (simp add: unat_gt_0)
      then have "length (drop (unat n) octets) < length octets" using ne by simp
      then obtain m' where "zmodem_dos_fossil_write ops pio f (drop (unat n) octets) m1 = Some (ZMODEM_OK, m')" "good m'"
        "incoming m' = incoming m" "outgoing m' = outgoing m @ octets"
        using 1(1) [of "drop (unat n) octets" m1] w by auto
      then show ?thesis using ne b False assms
        by (subst zmodem_dos_fossil_write.simps) (simp add: fossil_block_def)
    qed
  qed
qed

section \<open>Reading\<close>

lemma read_loop_some:
  assumes "0x18 \<le> f" "port pio = line" "good m" "incoming m \<noteq> []" "0 < capacity"
  shows "\<exists>octets m'. fossil_read_loop ops pio f capacity t0 ms m = Some (ZMODEM_OK, octets, length octets, m') \<and>
    good m' \<and> octets \<noteq> [] \<and> length octets \<le> capacity \<and> incoming m = octets @ incoming m' \<and> outgoing m' = outgoing m"
proof -
  obtain n region m1 where b: "d_block ops 0x1800 line (replicate capacity 0) m = (n, region, m1)" by (metis prod_cases3)
  note r = read_block [OF assms(3) b]
  then have n: "n \<noteq> 0" using assms(4,5) by auto
  then have u: "0 < unat n" by (simp add: unat_gt_0)
  have l: "length (take (unat n) region) = unat n" using r by simp
  have "fossil_read_loop ops pio f capacity t0 ms m = Some (ZMODEM_OK, take (unat n) region, unat n, m1)"
    using assms(1,2) b n by (subst fossil_read_loop.simps) (simp add: fossil_block_def)
  then show ?thesis using r u l by (intro exI [of _ "take (unat n) region"] exI [of _ m1]) auto
qed

text \<open>A deadline never needs more than \<open>2 ^ 32 div 1000\<close> ticks, so it is met before the clock comes round.\<close>

lemma expired_in_time:
  assumes "zmodem_dos_timeout_expired ops (word_of_nat s0) ms m = (b, m')" "good m" "s0 \<le> ticks m" "ticks m < s0 + 2 ^ 31"
  shows "good m' \<and> incoming m' = incoming m \<and> outgoing m' = outgoing m \<and> later ticks m m' \<and>
    (s0 + 4294968 \<le> ticks m \<longrightarrow> b)"
proof (cases "ms \<le> 0")
  case True
  then show ?thesis using assms by (auto simp: zmodem_dos_timeout_expired_def later_def)
next
  case False
  obtain now m1 where c: "d_clock ops m = (now, m1)" by fastforce
  note k = clock [OF assms(2) c]
  let ?need = "(word_of_int ms * d_clocks_per_sec ops + 999) div 1000"
  have b: "b = (?need \<le> now - word_of_nat s0)" "m' = m1"
    using assms(1) c False by (auto simp: zmodem_dos_timeout_expired_def Let_def)
  have e: "now - word_of_nat s0 = (word_of_nat (ticks m - s0) :: u32)" using k assms(3) by (simp add: of_nat_diff)
  have "unat w < 2 ^ 32" for w :: u32 using unsigned_less [of w] by simp
  then have "unat (word_of_int ms * d_clocks_per_sec ops + 999) \<le> 2 ^ 32 - 1" by (metis Suc_pred' less_Suc_eq_le zero_less_numeral zero_less_power)
  then have "unat ?need \<le> (2 ^ 32 - 1) div 1000" unfolding unat_div_distrib by (simp add: div_le_mono)
  moreover have "unat (now - word_of_nat s0) = ticks m - s0" unfolding e using assms(4) by (simp add: unat_of_nat)
  ultimately have "s0 + 4294968 \<le> ticks m \<Longrightarrow> b" unfolding b(1) word_le_nat_alt by simp
  then show ?thesis using k b(2) by blast
qed

lemma read_loop_none:
  assumes "0x18 \<le> f" "port pio = line" "0 < capacity"
  shows "good m \<Longrightarrow> incoming m = [] \<Longrightarrow> s0 \<le> ticks m \<Longrightarrow> ticks m \<le> s0 + 8589934 \<Longrightarrow>
    \<exists>m'. fossil_read_loop ops pio f capacity (word_of_nat s0) ms m = Some (ZMODEM_TIMEOUT, [], 0, m') \<and>
      good m' \<and> incoming m' = [] \<and> outgoing m' = outgoing m"
proof (induction "s0 + 8589934 - ticks m" arbitrary: m rule: less_induct)
  case less
  obtain n region m1 where b: "d_block ops 0x1800 line (replicate capacity 0) m = (n, region, m1)" by (metis prod_cases3)
  note r = read_block [OF less.prems(1) b]
  have "take (unat n) region = []" "incoming m1 = []" using r less.prems(2) by simp_all
  then have n: "n = 0" using r assms(3) by (auto simp: unat_eq_0 [symmetric])
  obtain x m2 where e: "zmodem_dos_timeout_expired ops (word_of_nat s0) ms m1 = (x, m2)" by fastforce
  have t1: "ticks m \<le> ticks m1" "ticks m1 \<le> ticks m + 1048576" using r by (auto simp: later_def)
  have k: "good m2 \<and> incoming m2 = [] \<and> outgoing m2 = outgoing m \<and> later ticks m1 m2 \<and> (s0 + 4294968 \<le> ticks m1 \<longrightarrow> x)"
    using expired_in_time [OF e] r t1 less.prems by simp
  show ?case
  proof (cases x)
    case True
    then have "fossil_read_loop ops pio f capacity (word_of_nat s0) ms m = Some (ZMODEM_TIMEOUT, [], 0, m2)"
      using assms b n e by (subst fossil_read_loop.simps) (simp add: fossil_block_def)
    then show ?thesis using k by blast
  next
    case False
    let ?m = "zmodem_dos_idle ops m2"
    have i: "good ?m" "incoming ?m = []" "outgoing ?m = outgoing m" "ticks m2 < ticks ?m" "ticks ?m \<le> ticks m2 + 1048576"
      using idle_keeps [of m2] k by (auto simp: later_def)
    have "ticks m1 \<le> ticks m2" "ticks m2 \<le> ticks m1 + 1048576" "ticks m1 < s0 + 4294968"
      using k False by (auto simp: later_def)
    then have t: "s0 \<le> ticks ?m" "ticks ?m \<le> s0 + 8589934" "ticks m < ticks ?m" using i t1 less.prems(3) by linarith+
    then have "s0 + 8589934 - ticks ?m < s0 + 8589934 - ticks m" by linarith
    from less.hyps [OF this i(1,2) t(1,2)] obtain m' where
      "fossil_read_loop ops pio f capacity (word_of_nat s0) ms ?m = Some (ZMODEM_TIMEOUT, [], 0, m')"
      "good m'" "incoming m' = []" "outgoing m' = outgoing m" using i(3) by auto
    then show ?thesis using assms b n e False by (subst fossil_read_loop.simps) (simp add: fossil_block_def)
  qed
qed

end

section \<open>The callbacks\<close>

definition fossil_live :: "('m \<Rightarrow> bool) \<Rightarrow> u16 \<Rightarrow> 'm dos \<Rightarrow> bool" where
  "fossil_live sound com d \<longleftrightarrow> active_backend (dio d) = ZMODEM_DOS_FOSSIL \<and> 0x19 \<le> fossil_max_function d \<and>
     port (dio d) = com \<and> sound (hw (duart d))"

definition on_machine :: "('m \<Rightarrow> 'a) \<Rightarrow> 'm dos \<Rightarrow> 'a" where
  "on_machine f d = f (hw (duart d))"

definition set_machine :: "'m \<Rightarrow> 'm dos \<Rightarrow> 'm dos" where
  "set_machine m d = d\<lparr>duart := (duart d)\<lparr>hw := m\<rparr>\<rparr>"

lemma machine_simps [simp]:
  "on_machine f (set_machine m d) = f m" "fossil_live sound com (set_machine m d) \<longleftrightarrow> fossil_live (\<lambda>_. sound m) com d"
  by (simp_all add: on_machine_def set_machine_def fossil_live_def)

context fossil_driver
begin

abbreviation "live \<equiv> fossil_live good line"

lemma live_good: "live d \<Longrightarrow> good (hw (duart d))" "live d \<Longrightarrow> good m \<Longrightarrow> live (set_machine m d)"
  by (auto simp: fossil_live_def set_machine_def)

lemma dos_write_returns:
  assumes "live d"
  shows "\<exists>d'. dos_write ops d octets = Some (ZMODEM_OK, d') \<and> live d' \<and>
    on_machine incoming d' = on_machine incoming d \<and> on_machine outgoing d' = on_machine outgoing d @ octets"
proof -
  have f: "0x19 \<le> fossil_max_function d" "port (dio d) = line" "active_backend (dio d) = ZMODEM_DOS_FOSSIL"
    using assms by (auto simp: fossil_live_def)
  obtain m where m: "zmodem_dos_fossil_write ops (dio d) (fossil_max_function d) octets (hw (duart d)) = Some (ZMODEM_OK, m)"
    "good m" "incoming m = incoming (hw (duart d))" "outgoing m = outgoing (hw (duart d)) @ octets"
    using write_returns [OF f(1,2) live_good(1) [OF assms]] by blast
  then show ?thesis using live_good(2) [OF assms m(2)] f(3)
    by (intro exI [of _ "set_machine m d"]) (simp add: dos_write_def try_hw_def set_machine_def on_machine_def)
qed

lemma dos_flush_returns:
  assumes "live d"
  shows "\<exists>d'. dos_flush ops d = Some (ZMODEM_OK, d') \<and> live d' \<and>
    on_machine incoming d' = on_machine incoming d \<and> on_machine outgoing d' = on_machine outgoing d"
proof -
  let ?r = "\<lparr>r_ax = 0x0800, r_bx = 0, r_cx = 0, r_dx = port (dio d), r_si = 0, r_di = 0, r_cflag = 0\<rparr>"
  obtain r m where r: "d_int86 ops 0x14 ?r (hw (duart d)) = (r, m)" by fastforce
  have k: "good m \<and> incoming m = incoming (hw (duart d)) \<and> outgoing m = outgoing (hw (duart d))"
    using flush_output [OF live_good(1) [OF assms] _ _ r] assms by (simp add: fossil_live_def)
  have "dos_flush ops d = Some (ZMODEM_OK, set_machine m d)"
    using r assms by (simp add: dos_flush_def with_hw_def zmodem_dos_fossil_flush_def fossil_simple_def fossil_live_def
        set_machine_def)
  then show ?thesis using k live_good(2) [OF assms, of m] by (simp add: on_machine_def set_machine_def)
qed

lemma dos_read_returns:
  assumes "live d" "0 < capacity"
  shows "if on_machine incoming d = []
    then \<exists>d'. dos_read ops d capacity t = Some (ZMODEM_TIMEOUT, [], 0, d') \<and> live d' \<and> on_machine incoming d' = [] \<and>
           on_machine outgoing d' = on_machine outgoing d
    else \<exists>octets d'. dos_read ops d capacity t = Some (ZMODEM_OK, octets, length octets, d') \<and> live d' \<and>
           octets \<noteq> [] \<and> length octets \<le> capacity \<and> on_machine incoming d = octets @ on_machine incoming d' \<and>
           on_machine outgoing d' = on_machine outgoing d"
proof -
  let ?m = "hw (duart d)"
  have f: "0x18 \<le> fossil_max_function d" "port (dio d) = line" "active_backend (dio d) = ZMODEM_DOS_FOSSIL"
    using assms(1) by (auto simp: fossil_live_def word_le_nat_alt)
  obtain t0 m1 where c: "d_clock ops ?m = (t0, m1)" by fastforce
  note k = clock [OF live_good(1) [OF assms(1)] c]
  have R: "dos_read ops d capacity t = do { (r, octets, n, m) \<leftarrow> fossil_read_loop ops (dio d) (fossil_max_function d)
      capacity t0 t m1; Some (r, octets, n, set_machine m d) }"
    using c f(3) assms(2) by (simp add: dos_read_def zmodem_dos_fossil_read_def set_machine_def)
  show ?thesis
  proof (cases "incoming ?m = []")
    case True
    have "ticks ?m \<le> ticks m1" "ticks m1 \<le> ticks ?m + 8589934" using k by (auto simp: later_def)
    from read_loop_none [OF f(1,2) assms(2) _ _ this] obtain m where
      "fossil_read_loop ops (dio d) (fossil_max_function d) capacity t0 t m1 = Some (ZMODEM_TIMEOUT, [], 0, m)"
      "good m" "incoming m = []" "outgoing m = outgoing ?m"
      using k True by auto
    then show ?thesis using True R live_good(2) [OF assms(1)] by (simp add: on_machine_def set_machine_def)
  next
    case False
    from read_loop_some [OF f(1,2) _ _ assms(2), of m1 t0 t] obtain octets m where
      "fossil_read_loop ops (dio d) (fossil_max_function d) capacity t0 t m1 = Some (ZMODEM_OK, octets, length octets, m)"
      "good m" "octets \<noteq> []" "length octets \<le> capacity" "incoming ?m = octets @ incoming m" "outgoing m = outgoing ?m"
      using k False by auto
    then show ?thesis using False R live_good(2) [OF assms(1)] by (simp add: on_machine_def set_machine_def)
  qed
qed

lemma dos_poll_silent:
  assumes "live d" "on_machine incoming d = []"
  shows "\<exists>d'. dos_poll ops d = Some (0, d') \<and> live d' \<and> on_machine incoming d' = [] \<and>
    on_machine outgoing d' = on_machine outgoing d"
proof -
  let ?r = "\<lparr>r_ax = 0x0300, r_bx = 0, r_cx = 0, r_dx = port (dio d), r_si = 0, r_di = 0, r_cflag = 0\<rparr>"
  obtain r m where r: "d_int86 ops 0x14 ?r (hw (duart d)) = (r, m)" by fastforce
  have k: "good m \<and> incoming m = [] \<and> outgoing m = outgoing (hw (duart d)) \<and> r_ax r AND 0x0300 = 0"
    using status [OF live_good(1) [OF assms(1)] _ _ r] assms by (simp add: fossil_live_def on_machine_def)
  have a: "x AND 0x0200 = 0 \<and> x AND 0x0100 = 0" if "x AND 0x0300 = 0" for x :: u16
  proof -
    have "x AND 0x0200 = (x AND 0x0300) AND 0x0200" "x AND 0x0100 = (x AND 0x0300) AND 0x0100"
      by (simp_all add: and.assoc)
    then show ?thesis using that by simp
  qed
  have "dos_poll ops d = Some (0, set_machine m d)"
    using r assms(1) a k by (simp add: dos_poll_def with_hw_def zmodem_dos_fossil_poll_def fossil_simple_def
        fossil_live_def set_machine_def)
  then show ?thesis using k live_good(2) [OF assms(1), of m] by (simp add: on_machine_def set_machine_def)
qed

end

section \<open>The contract\<close>

definition dos_read_callback :: "'m dos_ops \<Rightarrow> 'm dos \<Rightarrow> nat \<Rightarrow> int \<Rightarrow> int \<times> u8 list \<times> nat \<times> 'm dos" where
  "dos_read_callback ops d capacity t = the (dos_read ops d capacity t)"

definition dos_write_callback :: "'m dos_ops \<Rightarrow> 'm dos \<Rightarrow> u8 list \<Rightarrow> int \<times> 'm dos" where
  "dos_write_callback ops d octets = the (dos_write ops d octets)"

definition dos_flush_callback :: "'m dos_ops \<Rightarrow> 'm dos \<Rightarrow> int \<times> 'm dos" where
  "dos_flush_callback ops d = the (dos_flush ops d)"

definition dos_poll_callback :: "'m dos_ops \<Rightarrow> 'm dos \<Rightarrow> int \<times> 'm dos" where
  "dos_poll_callback ops d = the (dos_poll ops d)"

lemma dos_bind_callbacks:
  "io_read (zmodem_plat_io_bind_dos ops d) = dos_read_callback ops"
  "io_write (zmodem_plat_io_bind_dos ops d) = dos_write_callback ops"
  "io_flush (zmodem_plat_io_bind_dos ops d) = dos_flush_callback ops"
  "io_poll (zmodem_plat_io_bind_dos ops d) = dos_poll_callback ops"
  by (simp_all add: zmodem_plat_io_bind_dos_def dos_read_callback_def dos_write_callback_def dos_flush_callback_def
      dos_poll_callback_def fun_eq_iff)

sublocale fossil_driver \<subseteq> dos_line: octet_line "dos_read_callback ops" live "on_machine incoming"
  "dos_write_callback ops" "dos_flush_callback ops" "on_machine outgoing"
proof
  fix c :: "'m dos" and capacity :: nat and t :: int and bs :: "u8 list"
  show "live c \<Longrightarrow> on_machine incoming c \<noteq> [] \<Longrightarrow> 0 < capacity \<Longrightarrow>
      \<exists>chunk c'. dos_read_callback ops c capacity t = (ZMODEM_OK, chunk, length chunk, c') \<and> chunk \<noteq> [] \<and>
        length chunk \<le> capacity \<and> on_machine incoming c = chunk @ on_machine incoming c' \<and> live c'"
    using dos_read_returns [of c capacity t] by (auto simp: dos_read_callback_def)
  show "live c \<Longrightarrow> on_machine incoming c = [] \<Longrightarrow> 0 < capacity \<Longrightarrow>
      \<exists>r chunk n c'. dos_read_callback ops c capacity t = (r, chunk, n, c') \<and> line_error r \<and>
        on_machine incoming c' = [] \<and> live c'"
    using dos_read_returns [of c capacity t] by (auto simp: dos_read_callback_def line_error_def)
  show "live c \<Longrightarrow> live (snd (dos_write_callback ops c bs)) \<and>
      on_machine incoming (snd (dos_write_callback ops c bs)) = on_machine incoming c"
    using dos_write_returns [of c bs] by (auto simp: dos_write_callback_def)
  show "live c \<Longrightarrow> live (snd (dos_flush_callback ops c)) \<and>
      on_machine incoming (snd (dos_flush_callback ops c)) = on_machine incoming c"
    using dos_flush_returns [of c] by (auto simp: dos_flush_callback_def)
  show "live c \<Longrightarrow> bs \<noteq> [] \<Longrightarrow> \<exists>c'. dos_write_callback ops c bs = (ZMODEM_OK, c') \<and> live c' \<and>
      on_machine outgoing c' = on_machine outgoing c @ bs"
    using dos_write_returns [of c bs] by (auto simp: dos_write_callback_def)
  show "live c \<Longrightarrow> \<exists>c'. dos_flush_callback ops c = (ZMODEM_OK, c') \<and> live c' \<and>
      on_machine outgoing c' = on_machine outgoing c"
    using dos_flush_returns [of c] by (auto simp: dos_flush_callback_def)
qed

context fossil_driver
begin

lemma is_line: "octet_line (dos_read_callback ops) live (on_machine incoming) (dos_write_callback ops)
    (dos_flush_callback ops) (on_machine outgoing)"
  by unfold_locales

abbreviation silent :: "'m dos \<Rightarrow> bool" where
  "silent d \<equiv> live d \<and> on_machine incoming d = []"

lemma quiet: "quiet_sink (dos_write_callback ops) (dos_flush_callback ops) silent (on_machine outgoing) (dos_poll_callback ops)"
proof
  fix c :: "'m dos" and bs :: "u8 list"
  show "silent c \<Longrightarrow> bs \<noteq> [] \<Longrightarrow> \<exists>c'. dos_write_callback ops c bs = (ZMODEM_OK, c') \<and> silent c' \<and>
      on_machine outgoing c' = on_machine outgoing c @ bs"
    using dos_write_returns [of c bs] by (auto simp: dos_write_callback_def)
  show "silent c \<Longrightarrow> \<exists>c'. dos_flush_callback ops c = (ZMODEM_OK, c') \<and> silent c' \<and>
      on_machine outgoing c' = on_machine outgoing c"
    using dos_flush_returns [of c] by (auto simp: dos_flush_callback_def)
  show "silent c \<Longrightarrow> \<exists>c'. dos_poll_callback ops c = (0, c') \<and> silent c' \<and> on_machine outgoing c' = on_machine outgoing c"
    using dos_poll_silent [of c] by (auto simp: dos_poll_callback_def)
qed

end

section \<open>A driver\<close>

text \<open>
  A FOSSIL driver with a queue for each direction; a write takes at most four octets, and none when
  it was busy; a read gives at most three.
\<close>

record fossil_box =
  box_in :: "u8 list"
  box_out :: "u8 list"
  box_busy :: nat
  box_ticks :: nat

definition box_ops :: "fossil_box dos_ops" where
  "box_ops =
     \<lparr>d_inp = (\<lambda>a m. (0, m)), d_outp = (\<lambda>a v m. m), d_disable = id, d_enable = id, d_getvect = (\<lambda>v m. (None, m)),
      d_setvect = (\<lambda>v h m. m), d_handler = 1, d_chain = (\<lambda>h m. m),
      d_int86 = (\<lambda>n r m. if n = 0x28 then (r, m\<lparr>box_ticks := box_ticks m + 1\<rparr>)
        else if r_ax r = 0x0400 then (r\<lparr>r_ax := 0x1954, r_bx := 0x001b\<rparr>, m)
        else if r_ax r = 0x0300 then (r\<lparr>r_ax := if box_in m = [] then 0x6088 else 0x6188\<rparr>, m) else (r, m)),
      d_block = (\<lambda>f p bs m.
        if f = 0x1800 then
          (let n = min 3 (min (length bs) (length (box_in m)))
           in (word_of_nat n, take n (box_in m) @ drop n bs, m\<lparr>box_in := drop n (box_in m)\<rparr>))
        else if box_busy m = 0 then
          (word_of_nat (min 4 (length bs)), bs, m\<lparr>box_out := box_out m @ take 4 bs, box_busy := 1\<rparr>)
        else (0, bs, m\<lparr>box_busy := box_busy m - 1\<rparr>)),
      d_bios = (\<lambda>f p v m. (0, m)), d_com_init = 0, d_com_send = 1,
      d_com_receive = 2, d_com_status = 3, d_com_chr8 = 3, d_com_stop1 = 0, d_com_noparity = 0,
      d_com_rate = (\<lambda>r. 0), d_clock = (\<lambda>m. (word_of_nat (box_ticks m), m)),
      d_clocks_per_sec = 1000, d_irqs = (\<lambda>m. (0, m)), d_atexit = (\<lambda>m. (0, m))\<rparr>"

lemma small_word: "n \<le> 4 \<Longrightarrow> unat (word_of_nat n :: u16) = n"
  by (simp add: unat_of_nat)

lemma small_zero: "n \<le> 4 \<Longrightarrow> (word_of_nat n :: u16) = 0 \<longleftrightarrow> n = 0"
  by (simp only: unat_eq_0 [symmetric] small_word)

interpretation box: fossil_driver box_ops 0 "\<lambda>_. True" box_in box_out box_ticks box_busy
  by unfold_locales
     (auto simp: box_ops_def later_def Let_def small_word small_zero min_def split: if_splits)

text \<open>C11: Over a FOSSIL driver that has the block functions and does what FSC-0015 says of them, the DOS callbacks
  keep the contract of the protocol in both directions: every write returns and hands over all its
  octets, every read returns, with the next octets of the line or, when there are none, with a
  time-out, though the clock may come round. So what is proved of the protocol over any such
  line holds of the DOS program.\<close>

theorem dos_refines_line:
  assumes "fossil_driver ops com good incoming outgoing ticks busy"
  shows "octet_line (io_read (zmodem_plat_io_bind_dos ops a)) (fossil_live good com) (on_machine incoming)
    (io_write (zmodem_plat_io_bind_dos ops a)) (io_flush (zmodem_plat_io_bind_dos ops a)) (on_machine outgoing)"
  unfolding dos_bind_callbacks by (rule fossil_driver.is_line [OF assms])

theorem dos_refines_line_witness:
  "\<forall>a. octet_line (io_read (zmodem_plat_io_bind_dos box_ops a)) (fossil_live (\<lambda>_. True) 0) (on_machine box_in)
    (io_write (zmodem_plat_io_bind_dos box_ops a)) (io_flush (zmodem_plat_io_bind_dos box_ops a)) (on_machine box_out)"
  by (intro allI dos_refines_line [OF box.fossil_driver_axioms])

end
