(* ===== verification/Win.thy ===== *)
theory Win
  imports Posix Strtoul
begin

text \<open>
  The Windows 95 transport adapter (\<^verbatim>\<open>src/win95/zmodem_plat.c\<close>): a COM handle or a socket that the
  launcher passes. The calls into Windows are a record of functions on a kernel state. Loops that
  wait are partial: \<open>None\<close> is a wait that never ends, or a copy outside the output buffer. Handles
  are numbers, and a 32-bit \<^verbatim>\<open>long\<close> is never exceeded. Messages are left out.
\<close>

section \<open>The calls\<close>

abbreviation (input) SOCKET_ERROR :: int where "SOCKET_ERROR \<equiv> - 1"
abbreviation (input) WSAEINTR :: int where "WSAEINTR \<equiv> 10004"
abbreviation (input) WSAEWOULDBLOCK :: int where "WSAEWOULDBLOCK \<equiv> 10035"
abbreviation (input) INVALID_HANDLE :: u32 where "INVALID_HANDLE \<equiv> 0xffffffff"
abbreviation (input) MAXDWORD :: u32 where "MAXDWORD \<equiv> 0xffffffff"
abbreviation (input) PURGE_RXCLEAR :: u32 where "PURGE_RXCLEAR \<equiv> 8"

record comm_timeouts =
  ReadIntervalTimeout :: u32
  ReadTotalTimeoutMultiplier :: u32
  ReadTotalTimeoutConstant :: u32
  WriteTotalTimeoutMultiplier :: u32
  WriteTotalTimeoutConstant :: u32

text \<open>
  \<open>w_select\<close> waits for one socket, to be readable or, with \<open>True\<close>, writable; a time is seconds and
  microseconds, \<open>None\<close> is no limit. A call that returns a \<^verbatim>\<open>BOOL\<close> gives \<open>None\<close> for FALSE: \<open>w_clear_comm_error\<close>
  gives \<^verbatim>\<open>cbInQue\<close>, \<open>w_read_file\<close> the octets read, \<open>w_write_file\<close> the number written. \<open>w_startup\<close> gives its
  result and \<^verbatim>\<open>wVersion\<close>.
\<close>

record 'k win_ops =
  w_ticks :: "'k \<Rightarrow> u32 \<times> 'k"
  w_sleep :: "u32 \<Rightarrow> 'k \<Rightarrow> 'k"
  w_last_error :: "'k \<Rightarrow> int"
  w_select :: "u32 \<Rightarrow> bool \<Rightarrow> (int \<times> int) option \<Rightarrow> 'k \<Rightarrow> int \<times> 'k"
  w_recv :: "u32 \<Rightarrow> nat \<Rightarrow> 'k \<Rightarrow> int \<times> u8 list \<times> 'k"
  w_send :: "u32 \<Rightarrow> u8 list \<Rightarrow> 'k \<Rightarrow> int \<times> 'k"
  w_clear_comm_error :: "u32 \<Rightarrow> 'k \<Rightarrow> u32 option \<times> 'k"
  w_read_file :: "u32 \<Rightarrow> u32 \<Rightarrow> 'k \<Rightarrow> u8 list option \<times> 'k"
  w_write_file :: "u32 \<Rightarrow> u8 list \<Rightarrow> 'k \<Rightarrow> u32 option \<times> 'k"
  w_purge_comm :: "u32 \<Rightarrow> u32 \<Rightarrow> 'k \<Rightarrow> bool \<times> 'k"
  w_get_timeouts :: "u32 \<Rightarrow> 'k \<Rightarrow> comm_timeouts option \<times> 'k"
  w_set_timeouts :: "u32 \<Rightarrow> comm_timeouts \<Rightarrow> 'k \<Rightarrow> bool \<times> 'k"
  w_startup :: "u16 \<Rightarrow> 'k \<Rightarrow> int \<times> u16 \<times> 'k"
  w_cleanup :: "'k \<Rightarrow> int \<times> 'k"

section \<open>The adapter\<close>

datatype zmodem_win95_transport = ZMODEM_WIN95_NONE | ZMODEM_WIN95_COM | ZMODEM_WIN95_SOCKET

record win_io =
  transport :: zmodem_win95_transport
  comm_handle :: u32
  socket_handle :: u32
  escape_iac :: bool
  winsock_started :: bool
  timeouts_saved :: bool
  saved_timeouts :: comm_timeouts
  win_buffer :: "u8 list"
  win_count :: nat

type_synonym 'k win = "win_io \<times> 'k"

section \<open>The clock\<close>

text \<open>The static variables.\<close>

record win_clock =
  clock_last :: u32
  clock_epoch :: "64 word"
  clock_started :: bool

definition zmodem_win95_clock_gettime :: "'k win_ops \<Rightarrow> win_clock \<Rightarrow> 'k \<Rightarrow> (int \<times> int) \<times> win_clock \<times> 'k" where
  "zmodem_win95_clock_gettime ops s k =
     (let (ticks, k) = w_ticks ops k;
          s = (if clock_started s \<and> ticks < clock_last s then s\<lparr>clock_epoch := clock_epoch s + push_bit 32 1\<rparr> else s);
          s = s\<lparr>clock_started := True, clock_last := ticks\<rparr>;
          extended = clock_epoch s + ucast ticks
      in ((uint (extended div 1000), uint (extended mod 1000) * 1000000), s, k))"

section \<open>Waiting\<close>

partial_function (option) socket_wait_loop ::
  "'k win_ops \<Rightarrow> u32 \<Rightarrow> bool \<Rightarrow> int \<Rightarrow> u32 \<Rightarrow> 'k \<Rightarrow> (int \<times> 'k) option" where
  "socket_wait_loop ops socket write_ready timeout_ms started k =
     (let (now, k) = (if 0 < timeout_ms then w_ticks ops k else (started, k));
          elapsed = now - started
      in if 0 < timeout_ms \<and> word_of_int timeout_ms \<le> elapsed then Some (0, k)
         else let rest = (if timeout_ms < 0 then None
                          else if 0 < timeout_ms then
                            Some (uint ((word_of_int timeout_ms - elapsed) div 1000),
                                  uint ((word_of_int timeout_ms - elapsed) mod 1000) * 1000)
                          else Some (0, 0));
                  (result, k) = w_select ops socket write_ready rest k
              in if 0 \<le> result then Some (result, k)
                 else if w_last_error ops k \<noteq> WSAEINTR then Some (- 1, k)
                 else socket_wait_loop ops socket write_ready timeout_ms started k)"

definition socket_wait :: "'k win_ops \<Rightarrow> u32 \<Rightarrow> bool \<Rightarrow> int \<Rightarrow> 'k \<Rightarrow> (int \<times> 'k) option" where
  "socket_wait ops socket write_ready timeout_ms k =
     (let (started, k) = w_ticks ops k in socket_wait_loop ops socket write_ready timeout_ms started k)"

text \<open>The result, the number of octets available, the state.\<close>

partial_function (option) comm_wait_loop ::
  "'k win_ops \<Rightarrow> u32 \<Rightarrow> int \<Rightarrow> u32 \<Rightarrow> 'k \<Rightarrow> (int \<times> u32 \<times> 'k) option" where
  "comm_wait_loop ops handle timeout_ms started k =
     (let (status, k) = w_clear_comm_error ops handle k
      in case status of None \<Rightarrow> Some (- 1, 0, k)
         | Some in_queue \<Rightarrow>
             if in_queue \<noteq> 0 then Some (1, in_queue, k)
             else if timeout_ms \<le> 0 then Some (0, 0, k)
             else let (now, k) = w_ticks ops k
                  in if word_of_int timeout_ms \<le> now - started then Some (0, 0, k)
                     else comm_wait_loop ops handle timeout_ms started (w_sleep ops 1 k))"

definition comm_wait :: "'k win_ops \<Rightarrow> u32 \<Rightarrow> int \<Rightarrow> 'k \<Rightarrow> (int \<times> u32 \<times> 'k) option" where
  "comm_wait ops handle timeout_ms k =
     (let (started, k) = w_ticks ops k in comm_wait_loop ops handle timeout_ms started k)"

section \<open>Reading\<close>

partial_function (option) recv_loop :: "'k win_ops \<Rightarrow> u32 \<Rightarrow> nat \<Rightarrow> 'k \<Rightarrow> (int \<times> u8 list \<times> 'k) option" where
  "recv_loop ops socket capacity k =
     (let (result, octets, k) = w_recv ops socket capacity k
      in if result = SOCKET_ERROR \<and> w_last_error ops k = WSAEINTR then recv_loop ops socket capacity k
         else Some (result, octets, k))"

definition win95_read :: "'k win_ops \<Rightarrow> 'k win \<Rightarrow> nat \<Rightarrow> int \<Rightarrow> (int \<times> u8 list \<times> nat \<times> 'k win) option" where
  "win95_read ops c capacity timeout_ms =
     (let (p, k) = c
      in if transport p = ZMODEM_WIN95_SOCKET then do {
           (ready, k) \<leftarrow> socket_wait ops (socket_handle p) False timeout_ms k;
           if ready = 0 then Some (ZMODEM_TIMEOUT, [], 0, (p, k))
           else if ready < 0 then Some (ZMODEM_IO_ERROR, [], 0, (p, k))
           else do {
             (result, octets, k) \<leftarrow> recv_loop ops (socket_handle p) capacity k;
             if result \<le> 0 then Some (ZMODEM_IO_ERROR, [], 0, (p, k))
             else Some (ZMODEM_OK, octets, nat result, (p, k)) } }
         else do {
           (ready, available, k) \<leftarrow> comm_wait ops (comm_handle p) timeout_ms k;
           if ready = 0 then Some (ZMODEM_TIMEOUT, [], 0, (p, k))
           else if ready < 0 then Some (ZMODEM_IO_ERROR, [], 0, (p, k))
           else let available = (if word_of_nat capacity < available then word_of_nat capacity else available);
                    (r, k) = w_read_file ops (comm_handle p) available k
                in case r of None \<Rightarrow> Some (ZMODEM_IO_ERROR, [], 0, (p, k))
                   | Some octets \<Rightarrow>
                       if octets = [] then Some (ZMODEM_IO_ERROR, [], 0, (p, k))
                       else Some (ZMODEM_OK, octets, length octets, (p, k)) })"

section \<open>Writing\<close>

text \<open>The result, the octets sent, the state. \<open>offset\<close> is \<^verbatim>\<open>offset\<close> and \<^verbatim>\<open>*sent\<close>.\<close>

partial_function (option) write_socket :: "'k win_ops \<Rightarrow> u32 \<Rightarrow> u8 list \<Rightarrow> nat \<Rightarrow> 'k \<Rightarrow> (int \<times> nat \<times> 'k) option" where
  "write_socket ops socket octets offset k =
     (if offset < length octets then
        (let (result, k) = w_send ops socket (drop offset octets) k
         in if 0 < result then write_socket ops socket octets (offset + nat result) k
            else if result \<noteq> SOCKET_ERROR then Some (ZMODEM_IO_ERROR, offset, k)
            else if w_last_error ops k = WSAEINTR then write_socket ops socket octets offset k
            else if w_last_error ops k \<noteq> WSAEWOULDBLOCK then Some (ZMODEM_IO_ERROR, offset, k)
            else do { (ready, k) \<leftarrow> socket_wait ops socket True (- 1) k;
                      if 0 < ready then write_socket ops socket octets offset k
                      else Some (ZMODEM_IO_ERROR, offset, k) })
      else Some (ZMODEM_OK, offset, k))"

partial_function (option) write_comm :: "'k win_ops \<Rightarrow> u32 \<Rightarrow> u8 list \<Rightarrow> nat \<Rightarrow> 'k \<Rightarrow> (int \<times> nat \<times> 'k) option" where
  "write_comm ops handle octets offset k =
     (if offset < length octets then
        (let (r, k) = w_write_file ops handle (drop offset octets) k
         in case r of None \<Rightarrow> Some (ZMODEM_IO_ERROR, offset, k)
            | Some written \<Rightarrow>
                if written = 0 then Some (ZMODEM_IO_ERROR, offset, k)
                else write_comm ops handle octets (offset + unat written) k)
      else Some (ZMODEM_OK, offset, k))"

definition win95_flush :: "'k win_ops \<Rightarrow> 'k win \<Rightarrow> (int \<times> 'k win) option" where
  "win95_flush ops c =
     (let (p, k) = c; octets = take (win_count p) (win_buffer p)
      in if win_count p = 0 then Some (ZMODEM_OK, c)
         else do {
           (result, sent, k) \<leftarrow> (if transport p = ZMODEM_WIN95_SOCKET then write_socket ops (socket_handle p) octets 0 k
                                else write_comm ops (comm_handle p) octets 0 k);
           if result = ZMODEM_OK then Some (result, (p\<lparr>win_count := 0\<rparr>, k))
           else if 0 < sent then
             (let left = win_count p - sent
              in Some (result, (p\<lparr>win_count := left, win_buffer := take left (drop sent (win_buffer p)) @
                                     drop left (win_buffer p)\<rparr>, k)))
           else Some (result, (p, k)) })"

partial_function (option) win95_write :: "'k win_ops \<Rightarrow> u8 list \<Rightarrow> 'k win \<Rightarrow> (int \<times> 'k win) option" where
  "win95_write ops octets c =
     (let (p, k) = c in
      if octets = [] then Some (ZMODEM_OK, c)
      else if length (win_buffer p) < win_count p then None
      else do {
        let available = length (win_buffer p) - win_count p;
        let copied = (if length octets < available then length octets else available);
        let p = p\<lparr>win_buffer := take (win_count p) (win_buffer p) @ take copied octets @
                    drop (win_count p + copied) (win_buffer p),
                  win_count := win_count p + copied\<rparr>;
        let octets = drop copied octets;
        if win_count p = length (win_buffer p) then
          do { (r, c) \<leftarrow> win95_flush ops (p, k);
               if r \<noteq> ZMODEM_OK then Some (ZMODEM_IO_ERROR, c) else win95_write ops octets c }
        else win95_write ops octets (p, k) })"

section \<open>Polling and purging\<close>

definition win95_poll :: "'k win_ops \<Rightarrow> 'k win \<Rightarrow> (int \<times> 'k win) option" where
  "win95_poll ops c =
     (let (p, k) = c
      in if transport p = ZMODEM_WIN95_SOCKET
         then do { (result, k) \<leftarrow> socket_wait ops (socket_handle p) False 0 k;
                   Some (if result < 0 then ZMODEM_IO_ERROR else result, (p, k)) }
         else do { (result, available, k) \<leftarrow> comm_wait ops (comm_handle p) 0 k;
                   Some (if result < 0 then ZMODEM_IO_ERROR else result, (p, k)) })"

partial_function (option) purge_socket :: "'k win_ops \<Rightarrow> u32 \<Rightarrow> 'k \<Rightarrow> (int \<times> 'k) option" where
  "purge_socket ops socket k =
     do { (ready, k) \<leftarrow> socket_wait ops socket False 0 k;
          if ready = 0 then Some (ZMODEM_OK, k)
          else if ready < 0 then Some (ZMODEM_IO_ERROR, k)
          else let (result, octets, k) = w_recv ops socket 256 k
               in if result = 0 then Some (ZMODEM_OK, k)
                  else if result = SOCKET_ERROR \<and> w_last_error ops k \<noteq> WSAEINTR \<and> w_last_error ops k \<noteq> WSAEWOULDBLOCK
                       then Some (ZMODEM_IO_ERROR, k)
                  else purge_socket ops socket k }"

definition win95_purge :: "'k win_ops \<Rightarrow> 'k win \<Rightarrow> (int \<times> 'k win) option" where
  "win95_purge ops c =
     (let (p, k) = c
      in if transport p = ZMODEM_WIN95_COM then
           (let (ok, k) = w_purge_comm ops (comm_handle p) PURGE_RXCLEAR k
            in Some (if ok then ZMODEM_OK else ZMODEM_IO_ERROR, (p, k)))
         else do { (r, k) \<leftarrow> purge_socket ops (socket_handle p) k; Some (r, (p, k)) })"

section \<open>Opening and closing\<close>

definition zmodem_plat_io_init_win :: win_io where
  "zmodem_plat_io_init_win =
     \<lparr>transport = ZMODEM_WIN95_NONE, comm_handle = INVALID_HANDLE, socket_handle = INVALID_HANDLE, escape_iac = False,
      winsock_started = False, timeouts_saved = False,
      saved_timeouts = \<lparr>ReadIntervalTimeout = 0, ReadTotalTimeoutMultiplier = 0, ReadTotalTimeoutConstant = 0,
                        WriteTotalTimeoutMultiplier = 0, WriteTotalTimeoutConstant = 0\<rparr>,
      win_buffer = replicate ZMODEM_TX_BURST_CAPACITY 0, win_count = 0\<rparr>"

definition zmodem_plat_io_make_raw_win :: "'k win_ops \<Rightarrow> 'k win \<Rightarrow> int \<times> 'k win" where
  "zmodem_plat_io_make_raw_win ops c =
     (let (p, k) = c
      in if transport p = ZMODEM_WIN95_SOCKET then
           (let (r, version, k) = w_startup ops 0x0101 k
            in if r \<noteq> 0 then (- 1, (p, k))
               else if version AND 0xff \<noteq> 1 \<or> drop_bit 8 version < 1
                    then (- 1, (p\<lparr>winsock_started := False\<rparr>, snd (w_cleanup ops k)))
               else (0, (p\<lparr>winsock_started := True\<rparr>, k)))
         else let (found, k) = w_get_timeouts ops (comm_handle p) k
              in case found of None \<Rightarrow> (- 1, (p, k))
                 | Some saved \<Rightarrow>
                     let p = p\<lparr>saved_timeouts := saved\<rparr>;
                         (ok, k) = w_set_timeouts ops (comm_handle p)
                           (saved\<lparr>ReadIntervalTimeout := MAXDWORD, ReadTotalTimeoutMultiplier := 0,
                                  ReadTotalTimeoutConstant := 0\<rparr>) k
                     in if \<not> ok then (- 1, (p, k)) else (0, (p\<lparr>timeouts_saved := True\<rparr>, k)))"

definition zmodem_plat_io_restore_win :: "'k win_ops \<Rightarrow> 'k win \<Rightarrow> int \<times> 'k win" where
  "zmodem_plat_io_restore_win ops c =
     (let (p, k) = c
      in if timeouts_saved p then
           (let (ok, k) = w_set_timeouts ops (comm_handle p) (saved_timeouts p) k
            in if \<not> ok then (- 1, (p, k)) else (0, (p\<lparr>timeouts_saved := False\<rparr>, k)))
         else (0, c))"

definition zmodem_plat_io_close_win :: "'k win_ops \<Rightarrow> 'k win \<Rightarrow> (int \<times> 'k win) option" where
  "zmodem_plat_io_close_win ops c =
     do { (f, c) \<leftarrow> (if transport (fst c) \<noteq> ZMODEM_WIN95_NONE then win95_flush ops c else Some (ZMODEM_OK, c));
          let result = (if f \<noteq> ZMODEM_OK then - 1 else 0);
          let (r, c) = zmodem_plat_io_restore_win ops c;
          let result = (if r \<noteq> 0 then - 1 else result);
          let (p, k) = c;
          if winsock_started p then
            (let (r, k) = w_cleanup ops k
             in Some (if r \<noteq> 0 then - 1 else result, (p\<lparr>winsock_started := False\<rparr>, k)))
          else Some (result, c) }"

text \<open>A callback that never returns has no value: \<open>the None\<close>.\<close>

definition zmodem_plat_io_bind_win :: "'k win_ops \<Rightarrow> 'k win \<Rightarrow> 'k win zmodem_io" where
  "zmodem_plat_io_bind_win ops c =
     \<lparr>io_context = c, io_read = (\<lambda>c capacity t. the (win95_read ops c capacity t)),
      io_write = (\<lambda>c octets. the (win95_write ops octets c)), io_flush = (\<lambda>c. the (win95_flush ops c)),
      io_poll = (\<lambda>c. the (win95_poll ops c)), io_purge = (\<lambda>c. the (win95_purge ops c))\<rparr>"

section \<open>Options\<close>

definition parse_handle :: "string \<Rightarrow> u32 option" where
  "parse_handle text =
     (if text = [] then None
      else let (parsed, erange, after) = strtoul (octets_of text) 10
           in if erange \<or> after \<noteq> [] \<or> parsed = UINT32_MAX then None else Some (word_of_nat parsed))"

definition zmodem_plat_parse_option_win ::
  "win_io \<Rightarrow> string \<Rightarrow> nat \<Rightarrow> zmodem_plat_option_result \<times> win_io \<times> nat" where
  "zmodem_plat_parse_option_win p argument option_index =
     (let option = toupper (argument ! option_index)
      in if option = CHR ''I'' then (ZMODEM_PLAT_OPTION_ACCEPTED, p\<lparr>escape_iac := True\<rparr>, option_index)
         else if option \<noteq> CHR ''C'' \<and> option \<noteq> CHR ''T'' then (ZMODEM_PLAT_OPTION_NOT_HANDLED, p, option_index)
         else if transport p \<noteq> ZMODEM_WIN95_NONE then (ZMODEM_PLAT_OPTION_INVALID, p, option_index)
         else (case parse_handle (drop (option_index + 1) argument) of
                 None \<Rightarrow> (ZMODEM_PLAT_OPTION_INVALID, p, option_index)
               | Some v \<Rightarrow>
                   (ZMODEM_PLAT_OPTION_ACCEPTED,
                    if option = CHR ''C'' then p\<lparr>transport := ZMODEM_WIN95_COM, comm_handle := v\<rparr>
                    else p\<lparr>transport := ZMODEM_WIN95_SOCKET, socket_handle := v\<rparr>,
                    length argument - 1)))"

definition zmodem_plat_post_parse_win :: "'k win_ops \<Rightarrow> 'k win \<Rightarrow> int \<times> 'k win" where
  "zmodem_plat_post_parse_win ops c =
     (if transport (fst c) = ZMODEM_WIN95_NONE then (2, c)
      else let (r, c) = zmodem_plat_io_make_raw_win ops c in (if r \<noteq> 0 then 2 else 0, c))"

end
