(* ===== verification/Win_Link.thy ===== *)
theory Win_Link
  imports Win
begin

text \<open>
  The output buffer of the Windows adapter, from what the calls promise: \<open>win_output\<close> is a handle whose
  writes may be short, fail, be interrupted or find no room. The buffer loses nothing on any of
  these paths.
\<close>

section \<open>What the calls promise\<close>

text \<open>\<open>stalls\<close> bounds the interruptions and full buffers still to come.\<close>

definition goes_on :: "'k win_ops \<Rightarrow> int \<Rightarrow> 'k \<Rightarrow> bool" where
  "goes_on ops r k \<longleftrightarrow> r = SOCKET_ERROR \<and> (w_last_error ops k = WSAEINTR \<or> w_last_error ops k = WSAEWOULDBLOCK)"

locale win_output =
  fixes ops :: "'k win_ops" and handle :: u32 and good :: "'k \<Rightarrow> bool" and outgoing :: "'k \<Rightarrow> u8 list"
    and stalls :: "'k \<Rightarrow> nat"
  assumes send_some: "good k \<Longrightarrow> w_send ops handle bs k = (r, k') \<Longrightarrow>
      good k' \<and> r \<le> int (length bs) \<and> outgoing k' = outgoing k @ take (nat r) bs \<and>
      (goes_on ops r k' \<longrightarrow> stalls k' < stalls k)"
    and write_some: "good k \<Longrightarrow> w_write_file ops handle bs k = (n, k') \<Longrightarrow>
      good k' \<and> (case n of None \<Rightarrow> outgoing k' = outgoing k
        | Some n \<Rightarrow> unat n \<le> length bs \<and> outgoing k' = outgoing k @ take (unat n) bs)"
    and select_waits: "good k \<Longrightarrow> w_select ops handle w t k = (r, k') \<Longrightarrow>
      good k' \<and> outgoing k' = outgoing k \<and> stalls k' \<le> stalls k \<and>
      (r < 0 \<and> w_last_error ops k' = WSAEINTR \<longrightarrow> stalls k' < stalls k)"
    and ticks_only: "good k \<Longrightarrow> w_ticks ops k = (now, k') \<Longrightarrow>
      good k' \<and> outgoing k' = outgoing k \<and> stalls k' \<le> stalls k"
begin

lemma wait_unlimited:
  "good k \<Longrightarrow> \<exists>r k'. socket_wait_loop ops handle w (- 1) t k = Some (r, k') \<and> good k' \<and> outgoing k' = outgoing k \<and>
     stalls k' \<le> stalls k"
proof (induction "stalls k" arbitrary: k rule: less_induct)
  case less
  obtain r k1 where s: "w_select ops handle w None k = (r, k1)" by fastforce
  note k1 = select_waits [OF less.prems s]
  show ?case
  proof (cases "r < 0 \<and> w_last_error ops k1 = WSAEINTR")
    case True
    then have "stalls k1 < stalls k" "good k1" using k1 by auto
    from less.hyps [OF this] obtain r' k' where "socket_wait_loop ops handle w (- 1) t k1 = Some (r', k')" "good k'"
      "outgoing k' = outgoing k1" "stalls k' \<le> stalls k1" by blast
    then show ?thesis using s k1 True by (subst socket_wait_loop.simps) auto
  next
    case False
    then show ?thesis using s k1 by (subst socket_wait_loop.simps) auto
  qed
qed

lemma wait_returns:
  assumes "good k"
  shows "\<exists>r k'. socket_wait ops handle w (- 1) k = Some (r, k') \<and> good k' \<and> outgoing k' = outgoing k \<and> stalls k' \<le> stalls k"
proof -
  obtain t k1 where t: "w_ticks ops k = (t, k1)" by fastforce
  note k1 = ticks_only [OF assms t]
  obtain r k' where "socket_wait_loop ops handle w (- 1) t k1 = Some (r, k')" "good k'" "outgoing k' = outgoing k1"
    "stalls k' \<le> stalls k1" using wait_unlimited [of k1] k1 by blast
  then show ?thesis using t k1 by (auto simp: socket_wait_def)
qed

text \<open>\<open>sent\<close> counts what went out: the result of both writers.\<close>

definition sends :: "u8 list \<Rightarrow> nat \<Rightarrow> 'k \<Rightarrow> (int \<times> nat \<times> 'k) option \<Rightarrow> bool" where
  "sends octets offset k y \<longleftrightarrow> (\<exists>r sent k'. y = Some (r, sent, k') \<and> good k' \<and> offset \<le> sent \<and> sent \<le> length octets \<and>
     outgoing k' = outgoing k @ take (sent - offset) (drop offset octets) \<and>
     (r = ZMODEM_OK \<and> sent = length octets \<or> r = ZMODEM_IO_ERROR))"

lemma sends_more:
  assumes "sends octets (offset + n) k1 y" "outgoing k1 = outgoing k @ take n (drop offset octets)"
  shows "sends octets offset k y"
proof -
  obtain r sent k' where y: "y = Some (r, sent, k')" "good k'" "offset + n \<le> sent" "sent \<le> length octets"
    "outgoing k' = outgoing k1 @ take (sent - (offset + n)) (drop (offset + n) octets)"
    "r = ZMODEM_OK \<and> sent = length octets \<or> r = ZMODEM_IO_ERROR"
    using assms(1) by (auto simp: sends_def)
  have "sent - offset = n + (sent - (offset + n))" using y(3) by simp
  then have "take (sent - offset) (drop offset octets) =
      take n (drop offset octets) @ take (sent - (offset + n)) (drop (offset + n) octets)"
    by (simp only: take_add drop_drop add.commute)
  then show ?thesis using y assms(2) by (auto simp: sends_def)
qed

lemma write_socket_sends:
  "good k \<Longrightarrow> offset \<le> length octets \<Longrightarrow> sends octets offset k (write_socket ops handle octets offset k)"
proof (induction "(length octets - offset, stalls k)" arbitrary: offset k
    rule: wf_induct_rule [OF wf_lex_prod [OF wf_less_than wf_less_than]])
  case (1 offset k)
  show ?case
  proof (cases "offset < length octets")
    case False
    then show ?thesis using 1(2,3) by (subst write_socket.simps) (auto simp: sends_def)
  next
    case more: True
    obtain r k1 where s: "w_send ops handle (drop offset octets) k = (r, k1)" by fastforce
    note k1 = send_some [OF 1(2) s]
    consider (some) "0 < r" | (again) "\<not> 0 < r" "goes_on ops r k1" | (stop) "\<not> 0 < r" "\<not> goes_on ops r k1" by blast
    then show ?thesis
    proof cases
      case some
      then have o: "offset + nat r \<le> length octets" "length octets - (offset + nat r) < length octets - offset"
        using k1 more by auto
      then have "sends octets (offset + nat r) k1 (write_socket ops handle octets (offset + nat r) k1)"
        using 1(1) k1 by auto
      then show ?thesis using sends_more k1 s some more by (subst write_socket.simps) auto
    next
      case again
      have same: "outgoing k1 = outgoing k" using k1 again by simp
      have next_send: "sends octets offset k (write_socket ops handle octets offset k2)"
        if "good k2" "outgoing k2 = outgoing k" "stalls k2 < stalls k" for k2
        using 1(1) [of offset k2] that 1(3) by (auto simp: sends_def)
      obtain q k2 where w: "socket_wait ops handle True (- 1) k1 = Some (q, k2)" "good k2" "outgoing k2 = outgoing k1"
        "stalls k2 \<le> stalls k1" using wait_returns [of k1] k1 by blast
      have stop: "sends octets offset k (Some (ZMODEM_IO_ERROR, offset, k2))"
        using w same 1(3) by (auto simp: sends_def)
      show ?thesis
      proof (cases "w_last_error ops k1 = WSAEINTR")
        case True
        then show ?thesis using next_send [of k1] k1 again same s more
          by (subst write_socket.simps) (auto simp: goes_on_def)
      next
        case False
        then have "write_socket ops handle octets offset k =
            (if 0 < q then write_socket ops handle octets offset k2 else Some (ZMODEM_IO_ERROR, offset, k2))"
          using again s more w(1) by (subst write_socket.simps) (auto simp: goes_on_def)
        then show ?thesis using next_send [of k2] stop w k1 again same by auto
      qed
    next
      case stop
      then have "write_socket ops handle octets offset k = Some (ZMODEM_IO_ERROR, offset, k1)"
        using s more by (subst write_socket.simps) (auto simp: goes_on_def)
      then show ?thesis using k1 stop 1(3) by (auto simp: sends_def)
    qed
  qed
qed

lemma write_comm_sends:
  "good k \<Longrightarrow> offset \<le> length octets \<Longrightarrow> sends octets offset k (write_comm ops handle octets offset k)"
proof (induction "length octets - offset" arbitrary: offset k rule: less_induct)
  case less
  show ?case
  proof (cases "offset < length octets")
    case False
    then show ?thesis using less.prems by (subst write_comm.simps) (auto simp: sends_def)
  next
    case more: True
    obtain n k1 where s: "w_write_file ops handle (drop offset octets) k = (n, k1)" by fastforce
    note k1 = write_some [OF less.prems(1) s]
    consider (none) "n = None \<or> n = Some 0" | (some) v where "n = Some v" "0 < unat v"
      by (cases n) (auto simp: unat_gt_0)
    then show ?thesis
    proof cases
      case none
      then have "write_comm ops handle octets offset k = Some (ZMODEM_IO_ERROR, offset, k1)"
        using s more by (subst write_comm.simps) auto
      then show ?thesis using k1 none less.prems(2) by (auto simp: sends_def)
    next
      case some
      then have "sends octets (offset + unat v) k1 (write_comm ops handle octets (offset + unat v) k1)"
        using less.hyps [of "offset + unat v" k1] k1 more by auto
      then show ?thesis using sends_more k1 s some more by (subst write_comm.simps) auto
    qed
  qed
qed

end

section \<open>The buffer\<close>

definition win_sound :: "('k \<Rightarrow> bool) \<Rightarrow> u32 \<Rightarrow> 'k win \<Rightarrow> bool" where
  "win_sound fit handle c \<longleftrightarrow> fit (snd c) \<and> win_buffer (fst c) \<noteq> [] \<and> win_count (fst c) \<le> length (win_buffer (fst c)) \<and>
     (if transport (fst c) = ZMODEM_WIN95_SOCKET then socket_handle (fst c) = handle else comm_handle (fst c) = handle)"

text \<open>The octets accepted: sent, or in the buffer.\<close>

definition win_taken :: "('k \<Rightarrow> u8 list) \<Rightarrow> 'k win \<Rightarrow> u8 list" where
  "win_taken out c = out (snd c) @ take (win_count (fst c)) (win_buffer (fst c))"

context win_output
begin

abbreviation "sound \<equiv> win_sound good handle"
abbreviation "taken \<equiv> win_taken outgoing"

lemma flush_returns:
  assumes "sound c"
  shows "\<exists>r c'. win95_flush ops c = Some (r, c') \<and> sound c' \<and> taken c' = taken c \<and>
    (r = ZMODEM_OK \<and> win_count (fst c') = 0 \<or> r = ZMODEM_IO_ERROR)"
proof -
  obtain p k where c: "c = (p, k)" by fastforce
  let ?octets = "take (win_count p) (win_buffer p)"
  let ?y = "if transport p = ZMODEM_WIN95_SOCKET then write_socket ops (socket_handle p) ?octets 0 k
    else write_comm ops (comm_handle p) ?octets 0 k"
  show ?thesis
  proof (cases "win_count p = 0")
    case True
    then show ?thesis using assms by (auto simp: c win95_flush_def)
  next
    case False
    have "sends ?octets 0 k ?y"
      using write_socket_sends [of k 0 ?octets] write_comm_sends [of k 0 ?octets] assms
      by (auto simp: c win_sound_def)
    then obtain r sent k' where y: "?y = Some (r, sent, k')" "good k'" "sent \<le> win_count p"
      "outgoing k' = outgoing k @ take sent ?octets" "r = ZMODEM_OK \<and> sent = win_count p \<or> r = ZMODEM_IO_ERROR"
      using assms by (auto simp: sends_def c win_sound_def)
    define left where "left = win_count p - sent"
    have keep: "take left (take left (drop sent (win_buffer p)) @ drop left (win_buffer p)) = drop sent ?octets"
    proof -
      have "win_count p \<le> length (win_buffer p)" using assms by (simp add: c win_sound_def)
      then have "length (take left (drop sent (win_buffer p))) = left" using y(3) by (simp add: left_def)
      then show ?thesis by (metis append_eq_conv_conj drop_take left_def)
    qed
    have split: "take sent ?octets @ drop sent ?octets = ?octets" by (rule append_take_drop_id)
    have len: "length (take left (drop sent (win_buffer p)) @ drop left (win_buffer p)) = length (win_buffer p)"
    proof -
      have "win_count p \<le> length (win_buffer p)" using assms by (simp add: c win_sound_def)
      then have "min left (length (win_buffer p) - sent) = left" "left \<le> length (win_buffer p)" using y(3) by (auto simp: left_def)
      then show ?thesis by simp
    qed
    have F: "win95_flush ops c = Some (if r = ZMODEM_OK then (r, (p\<lparr>win_count := 0\<rparr>, k'))
        else if 0 < sent then (r, (p\<lparr>win_count := left, win_buffer := take left (drop sent (win_buffer p)) @
               drop left (win_buffer p)\<rparr>, k'))
        else (r, (p, k')))"
      using False y(1) by (auto simp: c win95_flush_def Let_def left_def)
    consider (ok) "r = ZMODEM_OK" | (part) "r = ZMODEM_IO_ERROR" "0 < sent" | (none) "r = ZMODEM_IO_ERROR" "sent = 0"
      using y(5) by blast
    then show ?thesis
    proof cases
      case ok
      then show ?thesis using F y assms by (auto simp: c win_sound_def win_taken_def)
    next
      case part
      have "left \<le> length (win_buffer p)" using assms y(3) by (auto simp: left_def c win_sound_def)
      moreover have "win_buffer p \<noteq> []" using assms by (simp add: c win_sound_def)
      ultimately show ?thesis
        using F part y(2,4) assms keep len split
        by (auto simp: c win_sound_def win_taken_def simp del: length_append take_append)
    next
      case none
      then show ?thesis using F y assms by (auto simp: c win_sound_def win_taken_def)
    qed
  qed
qed

lemma write_returns:
  "sound c \<Longrightarrow> \<exists>r c' n. win95_write ops octets c = Some (r, c') \<and> sound c' \<and> taken c' = taken c @ take n octets \<and>
     (r = ZMODEM_OK \<and> n = length octets \<or> r = ZMODEM_IO_ERROR)"
proof (induction "2 * length octets + (if win_count (fst c) = length (win_buffer (fst c)) then 1 else 0)"
    arbitrary: octets c rule: less_induct)
  case less
  obtain p k where c: "c = (p, k)" by fastforce
  show ?case
  proof (cases "octets = []")
    case True
    then show ?thesis using less.prems by (subst win95_write.simps) (auto simp: c)
  next
    case False
    have fits: "win_count p \<le> length (win_buffer p)" "win_buffer p \<noteq> []" using less.prems by (auto simp: c win_sound_def)
    let ?room = "length (win_buffer p) - win_count p"
    define n where "n = (if length octets < ?room then length octets else ?room)"
    have n: "n \<le> ?room" "n \<le> length octets" by (auto simp: n_def)
    define p1 where "p1 = p\<lparr>win_buffer := take (win_count p) (win_buffer p) @ take n octets @
        drop (win_count p + n) (win_buffer p), win_count := win_count p + n\<rparr>"
    have len: "length (win_buffer p1) = length (win_buffer p)" using fits n by (simp add: p1_def)
    have p1: "sound (p1, k)" "taken (p1, k) = taken c @ take n octets"
      using less.prems fits n len by (auto simp: c win_sound_def win_taken_def p1_def)
    have step: "win95_write ops octets c =
        (if win_count p1 = length (win_buffer p1)
         then do { (r, c) \<leftarrow> win95_flush ops (p1, k);
                   if r \<noteq> ZMODEM_OK then Some (ZMODEM_IO_ERROR, c) else win95_write ops (drop n octets) c }
         else win95_write ops (drop n octets) (p1, k))"
    proof -
      have nl: "(length (win_buffer p) < win_count p) = False" using fits(1) by simp
      show ?thesis
        by (subst win95_write.simps)
           (simp only: c prod.case Let_def False nl if_False n_def [symmetric] p1_def [symmetric])
    qed
    have more: "\<exists>r c' m. win95_write ops (drop n octets) c1 = Some (r, c') \<and> sound c' \<and>
        taken c' = taken c @ take m octets \<and> (r = ZMODEM_OK \<and> m = length octets \<or> r = ZMODEM_IO_ERROR)"
      if c1: "sound c1" "taken c1 = taken c @ take n octets"
        and room: "win_count (fst c1) \<noteq> length (win_buffer (fst c1))" for c1
    proof -
      have "2 * length (drop n octets) + (if win_count (fst c1) = length (win_buffer (fst c1)) then 1 else 0)
          < 2 * length octets + (if win_count (fst c) = length (win_buffer (fst c)) then 1 else 0)"
        using room False fits by (auto simp: n_def c)
      from less.hyps [OF this c1(1)] obtain r c' m where
        1: "win95_write ops (drop n octets) c1 = Some (r, c')" "sound c'" "taken c' = taken c1 @ take m (drop n octets)"
          "r = ZMODEM_OK \<and> m = length (drop n octets) \<or> r = ZMODEM_IO_ERROR" by blast
      then have "taken c' = taken c @ take (n + m) octets" using c1(2) by (simp add: take_add)
      then show ?thesis using 1 n(2) by (intro exI [of _ r] exI [of _ c'] exI [of _ "n + m"]) auto
    qed
    show ?thesis
    proof (cases "win_count p1 = length (win_buffer p1)")
      case room: False
      then show ?thesis using more [of "(p1, k)"] p1 step by simp
    next
      case True
      obtain r c1 where f: "win95_flush ops (p1, k) = Some (r, c1)" "sound c1" "taken c1 = taken (p1, k)"
        "r = ZMODEM_OK \<and> win_count (fst c1) = 0 \<or> r = ZMODEM_IO_ERROR" using flush_returns [OF p1(1)] by blast
      have t: "taken c1 = taken c @ take n octets" using f(3) p1(2) by simp
      show ?thesis
      proof (cases "r = ZMODEM_OK")
        case r: True
        then have "win_count (fst c1) \<noteq> length (win_buffer (fst c1))" using f(2,4) by (auto simp: win_sound_def)
        then show ?thesis using more [OF f(2) t] step True f(1) r by simp
      next
        case False
        then show ?thesis using step True f t by (intro exI [of _ ZMODEM_IO_ERROR] exI [of _ c1] exI [of _ n]) simp
      qed
    qed
  qed
qed

end

section \<open>A handle\<close>

text \<open>A handle to interpret the contract on: a write takes at most three octets; a send first stalls.\<close>

record win_box =
  wb_out :: "u8 list"
  wb_stalls :: nat
  wb_error :: int

definition win_box_ops :: "win_box win_ops" where
  "win_box_ops =
     \<lparr>w_ticks = (\<lambda>k. (0, k)), w_sleep = (\<lambda>n k. k), w_last_error = wb_error, w_select = (\<lambda>h w t k. (1, k)),
      w_recv = (\<lambda>h n k. (0, [], k)),
      w_send = (\<lambda>h bs k. if 0 < wb_stalls k
        then (- 1, k\<lparr>wb_stalls := wb_stalls k - 1, wb_error := if wb_stalls k = 1 then WSAEINTR else WSAEWOULDBLOCK\<rparr>)
        else (int (min 3 (length bs)), k\<lparr>wb_out := wb_out k @ take 3 bs\<rparr>)),
      w_clear_comm_error = (\<lambda>h k. (Some 0, k)), w_read_file = (\<lambda>h n k. (None, k)),
      w_write_file = (\<lambda>h bs k. (Some (word_of_nat (min 3 (length bs))), k\<lparr>wb_out := wb_out k @ take 3 bs\<rparr>)),
      w_purge_comm = (\<lambda>h f k. (True, k)), w_get_timeouts = (\<lambda>h k. (None, k)), w_set_timeouts = (\<lambda>h t k. (True, k)),
      w_startup = (\<lambda>v k. (0, v, k)), w_cleanup = (\<lambda>k. (0, k))\<rparr>"

lemma three_word: "\<not> 3 \<le> n \<Longrightarrow> unat (word_of_nat n :: u32) = n"
  by (simp add: unat_of_nat)

interpretation win_box: win_output win_box_ops 7 "\<lambda>_. True" wb_out wb_stalls
  by unfold_locales (auto simp: win_box_ops_def goes_on_def three_word min_def split: if_splits)

section \<open>The property\<close>

text \<open>C12: The Windows output buffer neither loses, repeats nor reorders an octet: over a COM handle or a socket,
  whatever short writes, failures, interruptions and full buffers happen, \<open>win95_write\<close> returns, and
  what was sent plus what the buffer holds is what it was before plus a prefix of the new octets,
  all of them on \<open>ZMODEM_OK\<close>; a flush only moves octets out of the buffer, and empties it on \<open>ZMODEM_OK\<close>.\<close>

theorem win95_write_keeps_octets:
  assumes "win_output ops handle good outgoing stalls" and "win_sound good handle c"
  shows "(\<exists>r c' n. win95_write ops octets c = Some (r, c') \<and> win_sound good handle c' \<and>
      win_taken outgoing c' = win_taken outgoing c @ take n octets \<and>
      (r = ZMODEM_OK \<and> n = length octets \<or> r = ZMODEM_IO_ERROR)) \<and>
    (\<exists>r c'. win95_flush ops c = Some (r, c') \<and> win_sound good handle c' \<and>
      win_taken outgoing c' = win_taken outgoing c \<and>
      (r = ZMODEM_OK \<and> win_count (fst c') = 0 \<or> r = ZMODEM_IO_ERROR))"
  using win_output.write_returns [OF assms] win_output.flush_returns [OF assms] by blast

theorem win95_write_keeps_octets_witness:
  "\<exists>r c' n. win95_write win_box_ops [4, 5, 6]
      (zmodem_plat_io_init_win\<lparr>transport := ZMODEM_WIN95_SOCKET, socket_handle := 7, win_buffer := [1, 2], win_count := 1\<rparr>,
       \<lparr>wb_out = [9], wb_stalls = 2, wb_error = 0\<rparr>) = Some (r, c') \<and>
     win_taken wb_out c' = [9, 1] @ take n [4, 5, 6]"
  using win95_write_keeps_octets [OF win_box.win_output_axioms,
      where octets = "[4, 5, 6]" and c = "(zmodem_plat_io_init_win\<lparr>transport := ZMODEM_WIN95_SOCKET, socket_handle := 7,
         win_buffer := [1, 2], win_count := 1\<rparr>, \<lparr>wb_out = [9], wb_stalls = 2, wb_error = 0\<rparr>)"]
  by (auto simp: win_sound_def win_taken_def)

end
