(* ===== verification/Cpm.thy ===== *)
theory Cpm
  imports Clib Zmdm
begin

text \<open>
  The CP/M adapter (\<^verbatim>\<open>src/cpm/zmodem_plat.c\<close>) and its generic modem driver (\<^verbatim>\<open>src/cpm/rdrpun.c\<close>). The
  frontend sees one small descriptor; the descriptor of the C library, which is the address of a
  control block and may be negative as an \<^verbatim>\<open>int\<close>, stays in the adapter. The C library and the BDOS are a
  record of functions on a state. Messages are left out.
\<close>

section \<open>The calls\<close>

text \<open>
  \<^verbatim>\<open>errno\<close> is part of the state; \<open>e_acces\<close>, \<open>e_badf\<close> and \<open>e_stat\<close> are the values of the C library. \<open>n_peek\<close> and
  \<open>n_poke\<close> access memory.
\<close>

record 'k cpm_ops =
  n_open :: "string \<Rightarrow> u16 \<Rightarrow> u16 \<Rightarrow> 'k \<Rightarrow> int \<times> 'k"
  n_close :: "int \<Rightarrow> 'k \<Rightarrow> int \<times> 'k"
  n_read :: "int \<Rightarrow> nat \<Rightarrow> 'k \<Rightarrow> int \<times> u8 list \<times> 'k"
  n_lseek :: "int \<Rightarrow> int \<Rightarrow> int \<Rightarrow> 'k \<Rightarrow> int \<times> 'k"
  n_stat :: "string \<Rightarrow> 'k \<Rightarrow> int \<times> stat \<times> 'k"
  n_fdopen :: "int \<Rightarrow> string \<Rightarrow> 'k \<Rightarrow> nat option \<times> 'k"
  n_ftell :: "nat \<Rightarrow> 'k \<Rightarrow> int \<times> 'k"
  n_errno :: "'k \<Rightarrow> int"
  n_set_errno :: "int \<Rightarrow> 'k \<Rightarrow> 'k"
  n_peek :: "u16 \<Rightarrow> 'k \<Rightarrow> u8"
  n_poke :: "u16 \<Rightarrow> u8 \<Rightarrow> 'k \<Rightarrow> 'k"
  n_bdos :: "u8 \<Rightarrow> u8 \<Rightarrow> 'k \<Rightarrow> u16 \<times> 'k"
  e_acces :: int
  e_badf :: int
  e_stat :: int

abbreviation (input) ZMODEM_PLAT_OPEN_EXCLUSIVE :: u16 where "ZMODEM_PLAT_OPEN_EXCLUSIVE \<equiv> 0x4000"
abbreviation (input) ZMODEM_CPM_FILE_FD :: int where "ZMODEM_CPM_FILE_FD \<equiv> 3"
abbreviation (input) CPM_RRDR :: u8 where "CPM_RRDR \<equiv> 3"
abbreviation (input) CPM_WPUN :: u8 where "CPM_WPUN \<equiv> 4"

text \<open>The static variables, the adapter and the machine.\<close>

record 'k cpm =
  tracked_native_fd :: int
  tracked_path :: "string option"
  cpm_initialized :: bool
  sys :: 'k

definition refuse :: "'k cpm_ops \<Rightarrow> int \<Rightarrow> 'k cpm \<Rightarrow> int \<times> 'k cpm" where
  "refuse ops e c = (- 1, c\<lparr>sys := n_set_errno ops e (sys c)\<rparr>)"

definition not_tracked :: "int \<Rightarrow> 'k cpm \<Rightarrow> bool" where
  "not_tracked fd c \<longleftrightarrow> fd \<noteq> ZMODEM_CPM_FILE_FD \<or> tracked_native_fd c = - 1"

section \<open>Files\<close>

definition zmodem_cpm_clock_gettime :: int where
  "zmodem_cpm_clock_gettime = - 1"

definition zmodem_cpm_stat :: "'k cpm_ops \<Rightarrow> string \<Rightarrow> 'k cpm \<Rightarrow> int \<times> stat \<times> 'k cpm" where
  "zmodem_cpm_stat ops path c =
     (let (result, status, k) = n_stat ops path (sys c);
          k = (if result \<noteq> 0 \<and> n_errno ops k = 0 then n_set_errno ops (e_stat ops) k else k)
      in (result, status, c\<lparr>sys := k\<rparr>))"

definition zmodem_cpm_open :: "'k cpm_ops \<Rightarrow> string \<Rightarrow> u16 \<Rightarrow> u16 \<Rightarrow> 'k cpm \<Rightarrow> int \<times> 'k cpm" where
  "zmodem_cpm_open ops path flags mode c =
     (let native_flags = flags AND NOT ZMODEM_PLAT_OPEN_EXCLUSIVE;
          exclusive = (flags AND ZMODEM_PLAT_OPEN_EXCLUSIVE \<noteq> 0);
          (exists, c) = (if exclusive then (let (r, status, c) = zmodem_cpm_stat ops path c in (r = 0, c)) else (False, c))
      in if exists then refuse ops (e_acces ops) c
         else let (fd, k) = n_open ops path native_flags mode (n_set_errno ops 0 (sys c)); c = c\<lparr>sys := k\<rparr>
              in if fd \<noteq> - 1 then (ZMODEM_CPM_FILE_FD, c\<lparr>tracked_native_fd := fd, tracked_path := Some path\<rparr>)
                 else (- 1, c))"

definition zmodem_cpm_close :: "'k cpm_ops \<Rightarrow> int \<Rightarrow> 'k cpm \<Rightarrow> int \<times> 'k cpm" where
  "zmodem_cpm_close ops fd c =
     (if not_tracked fd c then refuse ops (e_badf ops) c
      else let (result, k) = n_close ops (tracked_native_fd c) (sys c)
           in (result, c\<lparr>sys := k, tracked_native_fd := - 1, tracked_path := None\<rparr>))"

definition zmodem_cpm_read :: "'k cpm_ops \<Rightarrow> int \<Rightarrow> nat \<Rightarrow> 'k cpm \<Rightarrow> int \<times> u8 list \<times> 'k cpm" where
  "zmodem_cpm_read ops fd octet_count c =
     (if not_tracked fd c then (let (r, c) = refuse ops (e_badf ops) c in (r, [], c))
      else let (result, octets, k) = n_read ops (tracked_native_fd c) octet_count (sys c) in (result, octets, c\<lparr>sys := k\<rparr>))"

definition zmodem_cpm_lseek :: "'k cpm_ops \<Rightarrow> int \<Rightarrow> int \<Rightarrow> int \<Rightarrow> 'k cpm \<Rightarrow> int \<times> 'k cpm" where
  "zmodem_cpm_lseek ops fd offset origin c =
     (if not_tracked fd c then refuse ops (e_badf ops) c
      else let (result, k) = n_lseek ops (tracked_native_fd c) offset origin (sys c) in (result, c\<lparr>sys := k\<rparr>))"

text \<open>\<open>None\<close>: the status is not set.\<close>

definition zmodem_cpm_fstat :: "'k cpm_ops \<Rightarrow> int \<Rightarrow> 'k cpm \<Rightarrow> int \<times> stat option \<times> 'k cpm" where
  "zmodem_cpm_fstat ops fd c =
     (case tracked_path c of
        Some path \<Rightarrow>
          if not_tracked fd c then (let (r, c) = refuse ops (e_badf ops) c in (r, None, c))
          else let (r, status, c) = zmodem_cpm_stat ops path c in (r, Some status, c)
      | None \<Rightarrow> (let (r, c) = refuse ops (e_badf ops) c in (r, None, c)))"

definition zmodem_cpm_fdopen :: "'k cpm_ops \<Rightarrow> int \<Rightarrow> string \<Rightarrow> 'k cpm \<Rightarrow> nat option \<times> 'k cpm" where
  "zmodem_cpm_fdopen ops fd mode c =
     (if not_tracked fd c then (None, snd (refuse ops (e_badf ops) c))
      else let (file, k) = n_fdopen ops (tracked_native_fd c) mode (sys c) in (file, c\<lparr>sys := k\<rparr>))"

definition zmodem_cpm_ftell :: "'k cpm_ops \<Rightarrow> nat \<Rightarrow> 'k cpm \<Rightarrow> int \<times> 'k cpm" where
  "zmodem_cpm_ftell ops file c = (let (r, k) = n_ftell ops file (sys c) in (r, c\<lparr>sys := k\<rparr>))"

definition zmodem_cpm_utime :: "string \<Rightarrow> int \<Rightarrow> int" where
  "zmodem_cpm_utime path stamp = 0"

section \<open>The generic driver\<close>

definition zmodem_cpm_driver_read :: "'k cpm_ops \<Rightarrow> 'k cpm \<Rightarrow> nat \<Rightarrow> int \<Rightarrow> int \<times> u8 list \<times> nat \<times> 'k cpm" where
  "zmodem_cpm_driver_read ops c capacity timeout_ms =
     (if capacity = 0 then (ZMODEM_IO_ERROR, [], 0, c)
      else let (v, k) = n_bdos ops CPM_RRDR 0 (sys c) in (ZMODEM_OK, [ucast v], 1, c\<lparr>sys := k\<rparr>))"

fun zmodem_cpm_driver_write :: "'k cpm_ops \<Rightarrow> 'k cpm \<Rightarrow> u8 list \<Rightarrow> int \<times> 'k cpm" where
  "zmodem_cpm_driver_write ops c [] = (ZMODEM_OK, c)"
| "zmodem_cpm_driver_write ops c (b # bs) =
     zmodem_cpm_driver_write ops (c\<lparr>sys := snd (n_bdos ops CPM_WPUN b (sys c))\<rparr>) bs"

definition zmodem_cpm_driver_flush :: "'k cpm \<Rightarrow> int \<times> 'k cpm" where
  "zmodem_cpm_driver_flush c = (ZMODEM_OK, c)"

definition zmodem_cpm_driver_poll :: "'k cpm \<Rightarrow> int \<times> 'k cpm" where
  "zmodem_cpm_driver_poll c = (0, c)"

definition zmodem_cpm_driver_purge :: "'k cpm \<Rightarrow> int \<times> 'k cpm" where
  "zmodem_cpm_driver_purge c = (ZMODEM_OK, c)"

definition zmodem_cpm_driver_init :: int where
  "zmodem_cpm_driver_init = 0"

definition zmodem_cpm_driver_close :: int where
  "zmodem_cpm_driver_close = 0"

section \<open>The adapter\<close>

definition terminate_command_tail :: "'k cpm_ops \<Rightarrow> 'k cpm \<Rightarrow> 'k cpm" where
  "terminate_command_tail ops c =
     (let octet_count = n_peek ops 0x80 (sys c)
      in if octet_count < 127 then c\<lparr>sys := n_poke ops (0x80 + ucast octet_count + 1) 0 (sys c)\<rparr> else c)"

definition zmodem_plat_io_init_cpm :: "'k cpm_ops \<Rightarrow> 'k cpm \<Rightarrow> 'k cpm" where
  "zmodem_plat_io_init_cpm ops c = (terminate_command_tail ops c)\<lparr>cpm_initialized := False\<rparr>"

definition zmodem_plat_io_close_cpm :: "'k cpm \<Rightarrow> int \<times> 'k cpm" where
  "zmodem_plat_io_close_cpm c =
     (if cpm_initialized c then (zmodem_cpm_driver_close, c\<lparr>cpm_initialized := False\<rparr>) else (0, c))"

definition zmodem_plat_io_bind_cpm :: "'k cpm_ops \<Rightarrow> 'k cpm \<Rightarrow> 'k cpm zmodem_io" where
  "zmodem_plat_io_bind_cpm ops c =
     \<lparr>io_context = c, io_read = zmodem_cpm_driver_read ops, io_write = zmodem_cpm_driver_write ops,
      io_flush = zmodem_cpm_driver_flush, io_poll = zmodem_cpm_driver_poll, io_purge = zmodem_cpm_driver_purge\<rparr>"

definition zmodem_plat_post_parse_cpm :: "'k cpm \<Rightarrow> int \<times> 'k cpm" where
  "zmodem_plat_post_parse_cpm c =
     (if zmodem_cpm_driver_init \<noteq> 0 then (2, c) else (0, c\<lparr>cpm_initialized := True\<rparr>))"

end
