(* ===== verification/Cpm_Link.thy ===== *)
theory Cpm_Link
  imports Cpm Sink
begin

text \<open>
  The CP/M driver as a sink of octets, from what CP/M 2.2 says of function 4: it gives the punch device one
  character and waits until it is taken. The reader blocks without a time-out, so it is no
  \<open>octet_source\<close>.
\<close>

locale cpm_punch =
  fixes ops :: "'k cpm_ops" and good :: "'k \<Rightarrow> bool" and punched :: "'k \<Rightarrow> u8 list"
  assumes punch: "good k \<Longrightarrow> good (snd (n_bdos ops CPM_WPUN b k)) \<and> punched (snd (n_bdos ops CPM_WPUN b k)) = punched k @ [b]"
begin

lemma driver_write_sends:
  "good (sys c) \<Longrightarrow> \<exists>c'. zmodem_cpm_driver_write ops c bs = (ZMODEM_OK, c') \<and> good (sys c') \<and>
     punched (sys c') = punched (sys c) @ bs \<and> tracked_native_fd c' = tracked_native_fd c"
proof (induction bs arbitrary: c)
  case Nil
  then show ?case by simp
next
  case (Cons b bs)
  from Cons.IH [of "c\<lparr>sys := snd (n_bdos ops CPM_WPUN b (sys c))\<rparr>"] show ?case using punch [OF Cons.prems, of b] by auto
qed

end

sublocale cpm_punch \<subseteq> octet_sink "zmodem_cpm_driver_write ops" zmodem_cpm_driver_flush "\<lambda>c. good (sys c)" "\<lambda>c. punched (sys c)"
proof
  fix c :: "'k cpm" and bs :: "u8 list"
  show "good (sys c) \<Longrightarrow> bs \<noteq> [] \<Longrightarrow> \<exists>c'. zmodem_cpm_driver_write ops c bs = (ZMODEM_OK, c') \<and> good (sys c') \<and>
      punched (sys c') = punched (sys c) @ bs"
    using driver_write_sends [of c bs] by blast
  show "good (sys c) \<Longrightarrow> \<exists>c'. zmodem_cpm_driver_flush c = (ZMODEM_OK, c') \<and> good (sys c') \<and> punched (sys c') = punched (sys c)"
    by (simp add: zmodem_cpm_driver_flush_def)
qed

section \<open>A BDOS\<close>

text \<open>Its state is what was punched; a file can be opened when none is open, and has the descriptor \<open>- 2\<close>.\<close>

definition tape_ops :: "u8 list cpm_ops" where
  "tape_ops = \<lparr>n_open = (\<lambda>path flags mode k. (- 2, k)), n_close = (\<lambda>fd k. (0, k)), n_read = (\<lambda>fd n k. (0, [], k)),
     n_lseek = (\<lambda>fd offset origin k. (offset, k)), n_stat = (\<lambda>path k. (- 1, \<lparr>st_size = 0, st_mtime = 0\<rparr>, k)),
     n_fdopen = (\<lambda>fd mode k. (Some 1, k)), n_ftell = (\<lambda>file k. (0, k)), n_errno = (\<lambda>k. 0), n_set_errno = (\<lambda>e k. k),
     n_peek = (\<lambda>a k. 0), n_poke = (\<lambda>a v k. k), n_bdos = (\<lambda>f v k. (0x1a, if f = CPM_WPUN then k @ [v] else k)),
     e_acces = 1, e_badf = 9, e_stat = 2\<rparr>"

interpretation tape: cpm_punch tape_ops "\<lambda>_. True" "\<lambda>k. k"
  by unfold_locales (simp add: tape_ops_def)

section \<open>Descriptors\<close>

text \<open>
  A descriptor of the C library works though it is negative, and the frontend's number reaches nothing once it
  is closed.
\<close>

lemma opened_is_tracked:
  assumes "zmodem_cpm_open ops path flags mode c = (fd, c')" "fd \<noteq> - 1"
  shows "fd = ZMODEM_CPM_FILE_FD \<and> \<not> not_tracked fd c' \<and> tracked_path c' = Some path"
  using assms
  by (auto simp: zmodem_cpm_open_def refuse_def not_tracked_def Let_def split: prod.splits if_splits)

lemma closed_reaches_nothing:
  assumes "zmodem_cpm_close ops fd c = (r, c')" "\<not> not_tracked fd c"
  shows "fst (zmodem_cpm_close ops fd' c') = - 1 \<and> fst (zmodem_cpm_read ops fd' n c') = - 1 \<and>
    fst (zmodem_cpm_lseek ops fd' offset origin c') = - 1 \<and> fst (zmodem_cpm_fdopen ops fd' mode c') = None"
  using assms
  by (auto simp: zmodem_cpm_close_def refuse_def not_tracked_def zmodem_cpm_read_def zmodem_cpm_lseek_def
      zmodem_cpm_fdopen_def Let_def
      split: prod.splits if_splits)

end
