(* ===== verification/Seven_Bit.thy ===== *)
theory Seven_Bit
  imports Exchange
begin

text \<open>
  A line that carries seven bits: what a sender with \<open>escape_8th_bit\<close> sends, headers and data, through
  Pack-7 or through run-length symbols in the Omen code, and its hexadecimal headers, has seven bits and
  no flow control in it but the XON that ends a hexadecimal header and a subpacket with ZCRCW.
\<close>

declare split_paired_Ex [simp del] split_paired_All [simp del]

section \<open>Octets a seven-bit line carries\<close>

definition line_safe :: "u8 \<Rightarrow> bool" where
  "line_safe b \<longleftrightarrow> \<not> bit b 7 \<and> b \<noteq> XON \<and> b \<noteq> XOFF"

lemma omen_code_safe: "list_all line_safe (omen_encode_byte z c)"
  by (cases rule: omen_code_cases [of z c])
     (auto simp: line_safe_def omen_plain_def omen_quoted_def bit_numeral_rec)

lemma omen_codes_safe: "list_all line_safe (concat (map (omen_encode_byte z) cs))"
  by (induction cs) (simp_all add: omen_code_safe)

lemma digit_safe: "base88_digit d \<Longrightarrow> line_safe d"
proof -
  assume "base88_digit d"
  then have d: "34 \<le> unat d" "unat d \<le> 121" by (simp_all add: base88_digit_def)
  have "\<not> bit (unat d) 7" using d(2) by (simp add: bit_iff_odd)
  then show ?thesis using d(1) by (auto simp: line_safe_def bit_unsigned_iff)
qed

lemma group_safe: "length xs \<le> 4 \<Longrightarrow> list_all line_safe (pack7_encode_group xs)"
  using group_digits(2) [of xs] digit_safe by (simp add: list_all_iff)

lemma pack7_code_safe: "list_all line_safe (pack7_code p)"
  by (induction p rule: pack7_code.induct) (subst pack7_code.simps, simp add: group_safe)

lemma frame_end_safe: "is_frame_end type \<Longrightarrow> line_safe type"
  by (auto simp: is_frame_end_def line_safe_def bit_numeral_rec)

text \<open>A subpacket is octets the line carries, and the XON that asks for an answer.\<close>

definition seven_bit_body :: "'s zmodem \<Rightarrow> u8 \<Rightarrow> u8 list \<Rightarrow> u8 list" where
  "seven_bit_body s type p =
     (if use_pack7 s then
        pack7_code p @ [0x21, type] @ pack7_encode_group (le_bytes (NOT (crc32_update_reduced (- 1) (p @ [type]))))
      else let symbols = omen_rle_symbols p
           in concat (map (omen_encode_byte s) symbols) @ [ZDLE, type] @
              concat (map (omen_encode_byte s) (le_bytes (NOT (crc32_update_reduced (- 1) (symbols @ [type]))))))"

lemma data_wire_seven_bit:
  "escape_8th_bit s \<Longrightarrow> data_wire s previous type p = seven_bit_body s type p @ (if type = ZCRCW then [XON] else [])"
  by (simp add: data_wire_def seven_bit_body_def pack7_data_wire_def omen_data_wire_def Let_def)

lemma seven_bit_body_safe: "is_frame_end type \<Longrightarrow> list_all line_safe (seven_bit_body s type p)"
  by (simp add: seven_bit_body_def Let_def pack7_code_safe group_safe omen_codes_safe frame_end_safe)
     (simp add: line_safe_def bit_numeral_rec)

lemma header_wire_safe:
  assumes "escape_8th_bit s" "5 \<le> length h" "length h \<le> 17"
  shows "list_all line_safe (header_wire s h)"
proof -
  have "unat (0x22 + word_of_nat (length h - 1) :: u8) = length h + 33"
    using assms(2,3) by (simp add: unat_word_ariths unsigned_of_nat take_bit_nat_eq_self)
  then have "base88_digit (0x22 + word_of_nat (length h - 1))" using assms(2,3) by (simp add: base88_digit_def)
  from digit_safe [OF this] show ?thesis
    using assms(1) omen_codes_safe [of s "h @ salted_crc32 h"]
    by (simp add: header_wire_def omen_header_wire_def line_safe_def bit_numeral_rec)
qed

lemma hex_digit_safe: "n < 16 \<Longrightarrow> line_safe (hex_digit n)"
  using nibble_cases [of n] by (auto simp: hex_digit_def line_safe_def bit_numeral_rec)

lemma hex_code_safe: "list_all line_safe (hex_code b)"
  by (simp add: hex_code_def hex_digit_safe nibbles(1,2))

lemma hex_codes_safe: "list_all line_safe (concat (map hex_code bs))"
  by (induction bs) (simp_all add: hex_code_safe)

text \<open>A hexadecimal header is octets the line carries, and the XON after it.\<close>

definition header_xon :: "u8 list \<Rightarrow> u8 list" where
  "header_xon h = (if hd h \<noteq> ZACK \<and> hd h \<noteq> ZFIN then [XON] else [])"

lemma hex_header_safe:
  assumes "length h = HDRLEN"
  shows "\<exists>octets. hex_header_wire h = octets @ header_xon h \<and> list_all line_safe octets"
proof -
  let ?octets = "[ZPAD, ZPAD, ZDLE, ZHEX] @ concat (map hex_code h) @ concat (map hex_code (be_bytes16 (crc16_of h))) @ [CR, LF]"
  have "hex_header_wire h = ?octets @ header_xon h" using assms by (simp add: hex_header_wire_def header_xon_def)
  moreover have "list_all line_safe ?octets"
    by (simp add: hex_codes_safe) (simp add: line_safe_def bit_numeral_rec)
  ultimately show ?thesis by blast
qed

section \<open>Properties\<close>

text \<open>C7: The line need not carry the eighth bit. Of the octets a sender with \<open>escape_8th_bit\<close> sends for a
  header in the style of its data, for a hexadecimal header (ZRQINIT, ZEOF and its other answers), or for
  a subpacket, with Pack-7 or with run-length symbols, none has the eighth bit set and none is XON or
  XOFF, but for the one XON that ends a hexadecimal header other than ZACK and ZFIN, and a subpacket
  with ZCRCW.\<close>

theorem seven_bits_suffice:
  assumes "octet_sink wr fl open_for sent" and "may_send wr fl open_for sent s w" and "escape_8th_bit s"
    and "HDRLEN \<le> length h" and "length h \<le> ZMAXHLEN + 1" and "length hx = HDRLEN"
    and "length p \<le> ZMAXSPLEN" and "is_frame_end type"
  shows "(\<exists>s' octets. tx_header_length h (length h) s = (0, s') \<and>
      may_send wr fl open_for sent s' (w @ octets) \<and> list_all line_safe octets) \<and>
    (\<exists>s' octets. tx_hex_header hx s = (0, s') \<and>
      may_send wr fl open_for sent s' (w @ octets @ (if hd hx \<noteq> ZACK \<and> hd hx \<noteq> ZFIN then [XON] else [])) \<and>
      list_all line_safe octets) \<and>
    (\<exists>s' octets. tx_data type p s = Some (0, s') \<and>
      may_send wr fl open_for sent s' (w @ octets @ (if type = ZCRCW then [XON] else [])) \<and>
      list_all line_safe octets)"
proof (intro conjI)
  show "\<exists>s' octets. tx_header_length h (length h) s = (0, s') \<and> may_send wr fl open_for sent s' (w @ octets) \<and>
      list_all line_safe octets"
    using octet_sink.header_sent [OF assms(1,2,4,5)] header_wire_safe [OF assms(3), of h] assms(4,5) by auto
  show "\<exists>s' octets. tx_hex_header hx s = (0, s') \<and>
      may_send wr fl open_for sent s' (w @ octets @ (if hd hx \<noteq> ZACK \<and> hd hx \<noteq> ZFIN then [XON] else [])) \<and>
      list_all line_safe octets"
    using octet_sink.hex_header_sent [OF assms(1,2,6)] hex_header_safe [OF assms(6)] unfolding header_xon_def by metis
  show "\<exists>s' octets. tx_data type p s = Some (0, s') \<and>
      may_send wr fl open_for sent s' (w @ octets @ (if type = ZCRCW then [XON] else [])) \<and>
      list_all line_safe octets"
    using octet_sink.data_sent [OF assms(1,2,7), of type] data_wire_seven_bit [OF assms(3), of "last_sent s" type p]
      seven_bit_body_safe [OF assms(8), of s p] by metis
qed

theorem seven_bits_suffice_witness:
  "(\<exists>s' octets. tx_data ZCRCW [0x91, 0x11, 0xff, 0xff, 0xff] (seven_bit_end False 3) = Some (0, s') \<and>
     pipe.taken (io_context (io s')) = octets @ [XON] \<and> list_all line_safe octets) \<and>
   (\<exists>s' octets. tx_hex_header [ZEOF, 0x91, 0x11, 0xff, 0] (seven_bit_end False 3) = (0, s') \<and>
     pipe.taken (io_context (io s')) = octets @ [XON] \<and> list_all line_safe octets)"
proof -
  let ?p = "[0x91, 0x11, 0xff, 0xff, 0xff] :: u8 list" and ?h = "[9, 0x98, 0x11, 0xff, 0] :: u8 list"
  let ?x = "[ZEOF, 0x91, 0x11, 0xff, 0] :: u8 list"
  have h: "HDRLEN \<le> length ?h" "length ?h \<le> ZMAXHLEN + 1" "length ?x = HDRLEN" and p: "length ?p \<le> ZMAXSPLEN"
    and e: "is_frame_end ZCRCW" "escape_8th_bit (seven_bit_end False 3)"
    by (simp_all add: is_frame_end_def seven_bit_end_def)
  note both = conjunct2 [OF seven_bits_suffice [OF pipe_sink seven_bit_end_sends [of False 3] e(2) h p e(1)]]
  then show ?thesis by (auto simp: may_send_def)
qed

end
