(* ===== verification/Spec2Isabelle.thy ===== *)
theory Spec2Isabelle
  imports Receive Posix_Correct Sender_Ends Negotiate Zmrx_Tree Uart_Chip Dos_Link Win_Link Cpm_Link Seven_Bit
begin

text \<open>
  The ZMODEM programs \<^verbatim>\<open>zmtx\<close> (sender) and \<^verbatim>\<open>zmrx\<close> (receiver), modelled from their C source, with the
  properties that make them correct.

  \<^bold>\<open>The program.\<close> \<^verbatim>\<open>src/zmdm.c\<close> is the protocol: octets, headers and data subpackets in both
  directions, over five callbacks (read, write, flush, poll, purge) of the transport.
  \<^verbatim>\<open>src/crctab.c\<close> holds the checksums. \<^verbatim>\<open>src/zmtx.c\<close> and \<^verbatim>\<open>src/zmrx.c\<close> are the two sessions on top of it;
  \<^verbatim>\<open>src/posix/zmodem_plat.c\<close> is the transport on a POSIX system; \<^verbatim>\<open>src/dos\<close> has one for DOS, over a
  FOSSIL driver, the BIOS or the serial chip itself, \<^verbatim>\<open>src/win95\<close> one for Windows, \<^verbatim>\<open>src/cpm\<close> one for CP/M.

  \<^bold>\<open>The model.\<close> Each theory follows one part of the source and keeps its names.
  \<^item> \<open>Crctab\<close>: tables and update functions of \<^verbatim>\<open>crctab.c\<close> and \<^verbatim>\<open>crctab_slicing.h\<close>. \<open>Zmodem\<close>: the constants.
  \<^item> \<open>Zmdm\<close>, \<open>Zmdm_Tx\<close>, \<open>Zmdm_Tx_Data\<close>, \<open>Zmdm_Rx\<close>, \<open>Zmdm_Rx_Data\<close>, \<open>Zmdm_Rx_Header\<close>: \<^verbatim>\<open>zmdm.c\<close>. The
    \<^verbatim>\<open>struct zmodem\<close> is the record \<open>zmodem\<close>, over a type of transport contexts; the callbacks are
    functions in the record \<open>zmodem_io\<close>. Octets and checksums are words of their width.
  \<^item> \<open>Posix\<close>: \<^verbatim>\<open>posix/zmodem_plat.c\<close>, over a record of system calls on a state of their own.
  \<^item> \<open>Clib\<close>: the parts of the C library the sessions compute with. \<open>Zmtx\<close>, \<open>Zmtx_Send\<close>, \<open>Zmtx_Main\<close>:
    \<^verbatim>\<open>zmtx.c\<close>, its static variables as the record \<open>sender\<close>. \<open>Zmrx\<close>, \<open>Zmrx_File\<close>, \<open>Zmrx_Main\<close>: \<^verbatim>\<open>zmrx.c\<close>, as
    \<open>receiver\<close>; names that both programs have end in \<open>_r\<close> there.
  \<^item> \<open>Dos\<close>: time and the adapter's record; \<open>Dos_Uart\<close>: \<^verbatim>\<open>dos/uart.c\<close> with its interrupt handler, which runs
    between any two instructions that leave interrupts enabled and look at what it changes; \<open>Dos_Fossil\<close>:
    \<^verbatim>\<open>dos/fossil.c\<close> and \<^verbatim>\<open>dos/bios.c\<close>; \<open>Dos_Plat\<close>: \<^verbatim>\<open>dos/zmodem_plat.c\<close>. \<open>Win\<close>: \<^verbatim>\<open>win95/zmodem_plat.c\<close>. \<open>Cpm\<close>:
    \<^verbatim>\<open>cpm/zmodem_plat.c\<close> and \<^verbatim>\<open>cpm/rdrpun.c\<close>. Names that several adapters have end in \<open>_dos\<close>, \<open>_win\<close>, \<open>_cpm\<close>.
    \<open>Strtoul\<close>: the conversion two of them parse with.

  A function that changes the state returns the new one. A loop that may wait for ever is a
  \<open>partial_function\<close> into \<open>option\<close>: \<open>None\<close> is a run that never returns, or a store outside an
  array. Other loops are structural, over the octets or over the attempts left, so no bound of
  the model is a fuel of its own.

  \<^bold>\<open>The interfaces.\<close> What a part relies on is a locale: \<open>octet_sink\<close> and \<open>octet_source\<close> (a write
  appends its octets, a read delivers what is pending in pieces), \<open>octet_link\<close> and \<open>octet_line\<close> (both
  on one transport), \<open>quiet_sink\<close> (nothing comes back), \<open>posix_output\<close>, \<open>posix_line\<close>, \<open>posix_pipe\<close>
  and \<open>posix_quiet\<close> (system calls that may be interrupted, short or partial), \<open>file_store\<close>, \<open>file_writer\<close>,
  \<open>file_reader\<close> and \<open>file_tree\<close> (the files), \<open>streamer\<close> and \<open>taker\<close> (a session's line and file),
  \<open>polled_line\<close>, \<open>seekable_file\<close> and \<open>session_end\<close> (a line that is polled, a file that is repositioned, both),
  \<open>serial_chip\<close> (the data register of a UART), \<open>fossil_driver\<close> (FSC-0015), \<open>win_output\<close> (a handle),
  \<open>cpm_punch\<close> (the BDOS). The sublocales show that the POSIX adapter and the DOS adapter over FOSSIL keep
  the contracts of the protocol, and that the CP/M driver keeps that of a sink; \<open>Posix_Link\<close>, \<open>Disk\<close>,
  \<open>Uart_Chip\<close>, \<open>Dos_Link\<close>, \<open>Win_Link\<close> and \<open>Cpm_Link\<close> hold systems on which all of them are interpreted.

  \<^bold>\<open>The properties.\<close>
  \<^item> Checksums: \<open>Crc_Correct\<close> (tables against the bit-serial registers, bursts).
  \<^item> Transmission: \<open>Tx_Wire\<close>, \<open>Sink\<close>, \<open>Data_Wire\<close>, \<open>Header_Wire\<close> describe what each routine emits as a
    function of its arguments; \<open>Spans\<close> relates the word-wise scanning to the octet-wise one.
  \<^item> Reception: \<open>Line\<close>, \<open>Decode\<close>, \<open>Decode_Data\<close>, \<open>Decode_Header\<close> undo it, whatever pieces the octets
    come in; \<open>Seven_Bit_Code\<close> and \<open>Decode_Seven_Bit\<close> do so for the formats with eighth-bit quoting, base-88
    groups and run-length symbols; \<open>Rx_Total\<close>, \<open>Rx_Total_Data\<close>, \<open>Rx_Total_Header\<close> and \<open>Receive\<close> show that reception
    returns on every input, with a documented result.
  \<^item> \<open>Exchange\<close>: a header or a subpacket that is sent, in any format, is received; damage is noticed.
    \<open>Seven_Bit\<close>: eighth-bit quoting leaves seven bits and no flow control on the line but the XON that
    ends a hexadecimal header or a ZCRCW subpacket.
  \<^item> \<open>Negotiate\<close>: what one session says in ZRINIT, ZRPOS and ZFILE, the other understands.
  \<^item> \<open>Zmtx_Correct\<close>: the window, the receiver's buffer, the retry budget, the options of the sender.
  \<^item> \<open>Stream\<close>, \<open>Zmrx_Correct\<close>, \<open>File_Transfer\<close>: a file from end to end, the bounds of a round of the sender.
    \<open>Zmrx_Tree\<close>: the files that exist.
    \<open>Sender_Ends\<close>: the sender's recovery loop returns, whatever arrives.
  \<^item> \<open>Posix_Correct\<close>: deadlines, output that is neither lost nor repeated, descriptors, the whole contract of
    the protocol's transport.
  \<^item> \<open>Uart_Correct\<close>, \<open>Uart_Session\<close>, \<open>Uart_Chip\<close>: the UART driver is a queue in each direction, in every
    sequence of operations and interrupts; flow control, rates, deadlines.
  \<^item> \<open>Dos_Link\<close>, \<open>Win_Link\<close>, \<open>Cpm_Link\<close>: the other adapters against the contracts.

  \<^bold>\<open>Not modelled.\<close> Messages to the terminal, the usage texts, the clock and the progress line; the
  wrappers of \<^verbatim>\<open>strtol\<close> on CP/M. The sessions are modelled with the constants of the POSIX platform, so the
  smaller receive buffers of DOS are a definition of \<open>Dos_Plat\<close> only. That the UART driver returns is not
  shown: it waits as long as its peer or its chip makes it wait. The end-to-end property is for a sender
  that nothing limits: windows, buffers and recovery are covered by properties of their own
  (\<open>Zmtx_Correct\<close>, \<open>File_Transfer\<close>). The POSIX adapter is shown to keep its contract while the calls of one wait on
  a line with input take less than a millisecond; what arrives later than a deadline is a time-out. That damage is noticed is shown for plain subpackets, not for Pack-7 and run-length symbols.
\<close>

end
